(* ===== verification/Prelude.thy ===== *)
theory Prelude
  imports
    Main
    "HOL-Library.Word"
    "HOL-Library.Char_ord"
    "HOL-Library.List_Lexorder"
    "HOL-Library.Product_Lexorder"
begin

text \<open>
  Shared vocabulary of the development: the error values the Go code returns, the
  result type of a fallible function with its sequencing operator, the checking loop
  that every validator of the code uses, the character classes behind the code's
  anchored regular expressions, and the last-occurrence idiom (a map from key to last
  index, then a filter on that index) that the normalising functions share.
\<close>

section \<open>Machine integers and errors\<close>

type_synonym u64 = "64 word"

text \<open>
  The sentinel errors of \<^verbatim>\<open>core/worktree/service.go\<close> and
  \<^verbatim>\<open>core/store/errors.go\<close> that the modelled code returns, and
  \<^verbatim>\<open>Errorf\<close> for an \<^verbatim>\<open>errors.New\<close> or \<^verbatim>\<open>fmt.Errorf\<close>
  value, identified by its format text.
\<close>

datatype go_error =
    ErrWorktreeUnmaterialized
  | ErrRecoveryRequired
  | ErrUnauthorized
  | ErrOperationReplay
  | ErrShellAlreadyAttached
  | ErrNeedsReconcile
  | ErrConflictRequiresResolution
  | ErrAcknowledgeMismatch
  | ErrWorktreeDirty
  | ErrWorkflowUnavailable
  | ErrUnsafeSecretShape
  | ErrSecretBackendUnavailable
  | ErrSecretNotFound
  | ErrKeychainTransport
  | ErrSecretRollback
  | ErrSecretRefConflict
  | ErrProfileNotFound
  | ErrProfileExists
  | ErrInvalidProfileName
  | ErrGitCommand
  | ErrIngestRecoveryRequired
  | ErrIngestNotCommitted
  | ErrGitAbsent
  | ErrNotInitialized
  | ErrInvalidIngestAuthority
  | ErrInitializerRollbackUnsafe
  | ErrStoreTransactionLockUnavailable
  | ErrContextCanceled
  | ErrContextDeadlineExceeded
  | IngestRecovery bool
  | IngestNotCommitted "go_error option"
  | JoinedErrors go_error go_error
  | Errorf string

type_synonym 'a result = "go_error + 'a"

abbreviation OK :: "unit result" where "OK \<equiv> Inr ()"

section \<open>Collections of rules\<close>

named_theorems result_simps \<open>rewriting a sequenced computation that returned normally\<close>

section \<open>Sequencing fallible computations\<close>

definition bindR :: "'a result \<Rightarrow> ('a \<Rightarrow> 'b result) \<Rightarrow> 'b result" where
  "bindR m f = (case m of Inl e \<Rightarrow> Inl e | Inr x \<Rightarrow> f x)"

lemma bindR_Inl [simp]: "bindR (Inl e) f = Inl e"
  by (simp add: bindR_def)

lemma bindR_Inr [simp]: "bindR (Inr x) f = f x"
  by (simp add: bindR_def)

lemma bindR_eq_Inr [result_simps]:
  "bindR m f = Inr y \<longleftrightarrow> (\<exists>x. m = Inr x \<and> f x = Inr y)"
  by (cases m) auto

lemma bindR_eq_Inl:
  "bindR m f = Inl e \<longleftrightarrow> m = Inl e \<or> (\<exists>x. m = Inr x \<and> f x = Inl e)"
  by (cases m) auto

lemma bindR_assoc: "bindR (bindR m f) g = bindR m (\<lambda>x. bindR (f x) g)"
  by (cases m) auto

lemma bindR_cong [fundef_cong]:
  assumes "m = m'" and "\<And>x. m' = Inr x \<Longrightarrow> f x = f' x"
  shows "bindR m f = bindR m' f'"
  using assms by (cases m') auto

text \<open>Replacing the error of a failed call, as \<^verbatim>\<open>if err != nil { return E }\<close> does.\<close>

definition orErr :: "'a result \<Rightarrow> go_error \<Rightarrow> 'a result" where
  "orErr m e = (case m of Inl _ \<Rightarrow> Inl e | Inr x \<Rightarrow> Inr x)"

lemma orErr_Inl [simp]: "orErr (Inl x) e = Inl e"
  by (simp add: orErr_def)

lemma orErr_Inr [simp]: "orErr (Inr x) e = Inr x"
  by (simp add: orErr_def)

lemma orErr_eq_Inr [result_simps]: "orErr m e = Inr y \<longleftrightarrow> m = Inr y"
  by (cases m) auto

lemma if_Inl_eq_Inr [result_simps]:
  "(if b then Inl e else m) = Inr y \<longleftrightarrow> \<not> b \<and> m = Inr y"
  by auto

text \<open>The validating loop \<^verbatim>\<open>for _, x := range xs { if err := f(x); err != nil { return err } }\<close>.\<close>

fun forE :: "('a \<Rightarrow> unit result) \<Rightarrow> 'a list \<Rightarrow> unit result" where
  "forE f [] = OK"
| "forE f (x # xs) = bindR (f x) (\<lambda>_. forE f xs)"

lemma forE_eq_OK [result_simps]: "forE f xs = OK \<longleftrightarrow> (\<forall>x \<in> set xs. f x = OK)"
  by (induction xs) (auto simp: bindR_eq_Inr)

lemma forE_append: "forE f (xs @ ys) = bindR (forE f xs) (\<lambda>_. forE f ys)"
  by (induction xs) (auto simp: bindR_assoc)

section \<open>Character classes of the anchored regular expressions\<close>

text \<open>
  Go strings are byte strings, and so is the model's \<^typ>\<open>string\<close>. Every regular
  expression of the modelled code is anchored at both ends and of the form first class,
  then any number of characters of a second class.
\<close>

definition is_upper :: "char \<Rightarrow> bool" where
  "is_upper c \<longleftrightarrow> CHR ''A'' \<le> c \<and> c \<le> CHR ''Z''"

definition is_lower :: "char \<Rightarrow> bool" where
  "is_lower c \<longleftrightarrow> CHR ''a'' \<le> c \<and> c \<le> CHR ''z''"

definition is_digit :: "char \<Rightarrow> bool" where
  "is_digit c \<longleftrightarrow> CHR ''0'' \<le> c \<and> c \<le> CHR ''9''"

definition is_alpha :: "char \<Rightarrow> bool" where
  "is_alpha c \<longleftrightarrow> is_upper c \<or> is_lower c"

definition is_alnum :: "char \<Rightarrow> bool" where
  "is_alnum c \<longleftrightarrow> is_alpha c \<or> is_digit c"

definition match_first_rest :: "(char \<Rightarrow> bool) \<Rightarrow> (char \<Rightarrow> bool) \<Rightarrow> string \<Rightarrow> bool" where
  "match_first_rest p q s = (case s of [] \<Rightarrow> False | c # cs \<Rightarrow> p c \<and> list_all q cs)"

lemma match_first_rest_simps [simp]:
  "\<not> match_first_rest p q []"
  "match_first_rest p q (c # cs) \<longleftrightarrow> p c \<and> list_all q cs"
  by (simp_all add: match_first_rest_def)

lemma match_first_rest_nonempty: "match_first_rest p q s \<Longrightarrow> s \<noteq> []"
  by auto

lemmas char_class_defs = is_upper_def is_lower_def is_digit_def is_alpha_def is_alnum_def

section \<open>Keeping the last occurrence of every key\<close>

text \<open>
  The code's idiom: one loop fills \<^verbatim>\<open>last[key] = index\<close>, a second loop keeps
  the elements whose index is the recorded one.
\<close>

fun last_indexes :: "('a \<Rightarrow> 'k) \<Rightarrow> nat \<Rightarrow> 'a list \<Rightarrow> ('k \<rightharpoonup> nat) \<Rightarrow> ('k \<rightharpoonup> nat)" where
  "last_indexes key i [] m = m"
| "last_indexes key i (x # xs) m = last_indexes key (Suc i) xs (m(key x \<mapsto> i))"

fun filter_index :: "('a \<Rightarrow> 'k) \<Rightarrow> ('k \<rightharpoonup> nat) \<Rightarrow> nat \<Rightarrow> 'a list \<Rightarrow> 'a list" where
  "filter_index key m i [] = []"
| "filter_index key m i (x # xs) =
     (if m (key x) = Some i then x # filter_index key m (Suc i) xs
      else filter_index key m (Suc i) xs)"

definition final_occurrences :: "('a \<Rightarrow> 'k) \<Rightarrow> 'a list \<Rightarrow> 'a list" where
  "final_occurrences key xs = filter_index key (last_indexes key 0 xs Map.empty) 0 xs"

text \<open>The reference: an element stays when no later element has its key.\<close>

fun keep_last :: "('a \<Rightarrow> 'k) \<Rightarrow> 'a list \<Rightarrow> 'a list" where
  "keep_last key [] = []"
| "keep_last key (x # xs) =
     (if key x \<in> key ` set xs then keep_last key xs else x # keep_last key xs)"

lemma last_indexes_outside:
  "k \<notin> key ` set xs \<Longrightarrow> last_indexes key i xs m k = m k"
  by (induction xs arbitrary: i m) auto

lemma last_indexes_inside:
  "k \<in> key ` set xs \<Longrightarrow> \<exists>j. last_indexes key i xs m k = Some j \<and> i \<le> j"
proof (induction xs arbitrary: i m)
  case Nil
  then show ?case by simp
next
  case (Cons x xs)
  show ?case
  proof (cases "k \<in> key ` set xs")
    case True
    then obtain j where "last_indexes key (Suc i) xs (m(key x \<mapsto> i)) k = Some j" "Suc i \<le> j"
      using Cons.IH by blast
    then show ?thesis by auto
  next
    case False
    with Cons.prems have "k = key x" by auto
    with False show ?thesis by (simp add: last_indexes_outside)
  qed
qed

lemma last_indexes_cong:
  "k \<in> key ` set xs \<Longrightarrow> last_indexes key i xs m k = last_indexes key i xs m' k"
proof (induction xs arbitrary: i m m')
  case Nil
  then show ?case by simp
next
  case (Cons x xs)
  show ?case
  proof (cases "k \<in> key ` set xs")
    case True
    then show ?thesis using Cons.IH by simp
  next
    case False
    with Cons.prems have "k = key x" by auto
    with False show ?thesis by (simp add: last_indexes_outside)
  qed
qed

lemma filter_index_cong:
  "(\<And>k. k \<in> key ` set xs \<Longrightarrow> m k = m' k) \<Longrightarrow> filter_index key m i xs = filter_index key m' i xs"
  by (induction xs arbitrary: i) auto

lemma filter_index_last_indexes:
  "filter_index key (last_indexes key i xs m) i xs = keep_last key xs"
proof (induction xs arbitrary: i m)
  case Nil
  then show ?case by simp
next
  case (Cons x xs)
  have tail: "filter_index key (last_indexes key (Suc i) xs (m(key x \<mapsto> i))) (Suc i) xs = keep_last key xs"
    by (rule Cons.IH)
  show ?case
  proof (cases "key x \<in> key ` set xs")
    case True
    then have "last_indexes key (Suc i) xs (m(key x \<mapsto> i)) (key x) \<noteq> Some i"
      using last_indexes_inside [of "key x" key xs "Suc i" "m(key x \<mapsto> i)"] by force
    then have "filter_index key (last_indexes key i (x # xs) m) i (x # xs) = keep_last key xs"
      by (simp only: last_indexes.simps filter_index.simps if_False tail)
    with True show ?thesis by simp
  next
    case False
    then have "last_indexes key (Suc i) xs (m(key x \<mapsto> i)) (key x) = Some i"
      by (simp add: last_indexes_outside)
    then have "filter_index key (last_indexes key i (x # xs) m) i (x # xs) = x # keep_last key xs"
      by (simp add: tail)
    with False show ?thesis by simp
  qed
qed

lemma final_occurrences_eq_keep_last: "final_occurrences key xs = keep_last key xs"
  by (simp add: final_occurrences_def filter_index_last_indexes)

lemma set_keep_last_subset: "set (keep_last key xs) \<subseteq> set xs"
  by (induction xs) auto

lemma key_keep_last [simp]: "key ` set (keep_last key xs) = key ` set xs"
  by (induction xs) auto

lemma distinct_keep_last [simp]: "distinct (map key (keep_last key xs))"
  by (induction xs) auto

lemma keep_last_id: "distinct (map key xs) \<Longrightarrow> keep_last key xs = xs"
  by (induction xs) auto

lemma length_keep_last: "length (keep_last key xs) \<le> length xs"
  by (induction xs) auto

lemma keep_last_length_eq:
  "length (keep_last key xs) = length xs \<longleftrightarrow> distinct (map key xs)"
proof (induction xs)
  case Nil
  then show ?case by simp
next
  case (Cons x xs)
  have "length (keep_last key xs) \<noteq> Suc (length xs)"
    using length_keep_last [of key xs] by simp
  with Cons show ?case by auto
qed

lemma keep_last_idem [simp]: "keep_last key (keep_last key xs) = keep_last key xs"
  by (rule keep_last_id) simp

lemma map_of_keep_last:
  "map_of (map (\<lambda>x. (key x, val x)) (keep_last key xs)) = map_of (rev (map (\<lambda>x. (key x, val x)) xs))"
proof (induction xs)
  case Nil
  then show ?case by simp
next
  case (Cons x xs)
  have dom: "dom (map_of (rev (map (\<lambda>x. (key x, val x)) xs))) = key ` set xs"
    by (simp add: dom_map_of_conv_image_fst image_image)
  show ?case
  proof (cases "key x \<in> key ` set xs")
    case True
    then have "key x \<in> dom (map_of (rev (map (\<lambda>x. (key x, val x)) xs)))"
      unfolding dom .
    with True Cons show ?thesis
      by (auto simp: map_add_def fun_eq_iff split: option.splits)
  next
    case False
    then have "key x \<notin> dom (map_of (rev (map (\<lambda>x. (key x, val x)) xs)))"
      unfolding dom .
    then have "map_of (rev (map (\<lambda>x. (key x, val x)) xs)) (key x) = None"
      by blast
    with False Cons show ?thesis
      by (auto simp: map_add_def fun_eq_iff split: option.splits)
  qed
qed

section \<open>Association lists as Go maps\<close>

text \<open>
  A Go map that the code iterates over is an association list with distinct keys.
  \<^verbatim>\<open>m[k] = v\<close> keeps the position of an existing key and appends a new one.
\<close>

lemma map_of_rev_distinct: "distinct (map fst xs) \<Longrightarrow> map_of (rev xs) = map_of xs"
proof
  fix k
  assume d: "distinct (map fst xs)"
  then have d': "distinct (map fst (rev xs))" by (simp flip: rev_map)
  have "map_of (rev xs) k = Some v \<longleftrightarrow> map_of xs k = Some v" for v
    using d d' by (simp add: map_of_eq_Some_iff)
  then show "map_of (rev xs) k = map_of xs k"
    by (metis not_Some_eq)
qed

fun assoc_put :: "'k \<Rightarrow> 'v \<Rightarrow> ('k \<times> 'v) list \<Rightarrow> ('k \<times> 'v) list" where
  "assoc_put k v [] = [(k, v)]"
| "assoc_put k v ((k', v') # m) = (if k' = k then (k, v) # m else (k', v') # assoc_put k v m)"

lemma map_of_assoc_put [simp]: "map_of (assoc_put k v m) = (map_of m)(k \<mapsto> v)"
  by (induction m) (auto simp: fun_eq_iff)

lemma keys_assoc_put: "fst ` set (assoc_put k v m) = insert k (fst ` set m)"
  by (induction k v m rule: assoc_put.induct) auto

lemma set_assoc_put_subset: "set (assoc_put k v m) \<subseteq> insert (k, v) (set m)"
  by (induction k v m rule: assoc_put.induct) auto

lemma distinct_assoc_put: "distinct (map fst m) \<Longrightarrow> distinct (map fst (assoc_put k v m))"
proof (induction k v m rule: assoc_put.induct)
  case (1 k v)
  then show ?case by simp
next
  case (2 k v k' v' m)
  then show ?case by (cases "k' = k") (simp_all add: keys_assoc_put)
qed

lemma in_set_assoc_put:
  "distinct (map fst m) \<Longrightarrow>
     (k', v') \<in> set (assoc_put k v m) \<longleftrightarrow> (if k' = k then v' = v else (k', v') \<in> set m)"
proof -
  assume d: "distinct (map fst m)"
  have "(k', v') \<in> set (assoc_put k v m) \<longleftrightarrow> map_of (assoc_put k v m) k' = Some v'"
    using d by (simp add: distinct_assoc_put map_of_eq_Some_iff del: map_of_assoc_put)
  also have "\<dots> \<longleftrightarrow> (if k' = k then v' = v else (k', v') \<in> set m)"
    using d by auto
  finally show ?thesis .
qed

lemma length_assoc_put:
  "length (assoc_put k v m) = (if k \<in> fst ` set m then length m else Suc (length m))"
proof (induction k v m rule: assoc_put.induct)
  case (1 k v)
  then show ?case by simp
next
  case (2 k v k' v' m)
  then show ?case by (cases "k' = k") auto
qed

section \<open>Mapping a fallible function\<close>

fun mapR :: "('a \<Rightarrow> 'b result) \<Rightarrow> 'a list \<Rightarrow> 'b list result" where
  "mapR f [] = Inr []"
| "mapR f (x # xs) = bindR (f x) (\<lambda>y. bindR (mapR f xs) (\<lambda>ys. Inr (y # ys)))"

lemma mapR_total: "(\<And>x. x \<in> set xs \<Longrightarrow> f x = Inr (g x)) \<Longrightarrow> mapR f xs = Inr (map g xs)"
  by (induction xs) auto

lemma mapR_map: "mapR f (map g xs) = mapR (f \<circ> g) xs"
  by (induction xs) auto

end
