(* ===== verification/LiveModel.thy ===== *)
theory LiveModel
  imports Prelude
begin

text \<open>
  The live-state data model of \<^verbatim>\<open>core/model/worktree.go\<close>: identities, values,
  snapshots, changes, overlays, projections, shell credentials and the request and
  result structures of the worktree service, with the validators, the value equality,
  the copying functions and the normalisers of that file.

  A Go pointer is an \<^typ>\<open>'a option\<close>. A Go slice is a list, except the
  \<^verbatim>\<open>List\<close> field of a value, whose nil-ness the validators test: it is
  \<^typ>\<open>string list option\<close>, nil being \<^term>\<open>None\<close>. Copying never aliases in the
  model, so a copying function is the function on values it computes.
\<close>

section \<open>Kinds, identities and values\<close>

text \<open>
  \<^verbatim>\<open>LiveKind\<close> is an open Go string type: the last constructor stands for every
  string that is none of the six declared constants.
\<close>

datatype live_kind =
    LiveEnv | LiveAlias | LiveFunction | LivePath | LiveFPath | LiveOption
  | LiveOther string

fun kind_string :: "live_kind \<Rightarrow> string" where
  "kind_string LiveEnv = ''env''"
| "kind_string LiveAlias = ''alias''"
| "kind_string LiveFunction = ''function''"
| "kind_string LivePath = ''path''"
| "kind_string LiveFPath = ''fpath''"
| "kind_string LiveOption = ''option''"
| "kind_string (LiveOther s) = s"

datatype identity = Identity (id_kind: live_kind) (id_name: string)

record live_value =
  lv_present :: bool
  lv_scalar :: "string option"
  lv_list :: "string list option"
  lv_option :: "bool option"

record live_state =
  ls_identity :: identity
  ls_value :: live_value

record live_snapshot =
  sn_byte_size :: u64
  sn_states :: "live_state list"

datatype change_kind = LiveAdd | LiveUpdate | LiveRemove | LiveChangeOther string

record live_change =
  ch_kind :: change_kind
  ch_identity :: identity
  ch_value :: live_value

record overlay_entry =
  ov_identity :: identity
  ov_value :: live_value
  ov_tombstone :: bool

record live_projection =
  pr_schema :: string
  pr_states :: "live_state list"
  pr_tombstones :: "identity list"

datatype conflict_kind = ConflictOverlap | ConflictHistoryGap | ConflictOther string

type_synonym resolution_token = string

record conflict =
  cf_kind :: conflict_kind
  cf_identity :: identity
  cf_base_revision :: u64
  cf_shared_revision :: u64
  cf_token :: resolution_token

record exclusion =
  ex_identity :: identity
  ex_reason :: string

section \<open>Credentials, requests and results\<close>

text \<open>
  \<^verbatim>\<open>ShellCapability\<close> holds a pointer to 32 bytes, absent in the zero value.
  SHA-256 is a parameter \<open>sha\<close> of the model, from byte strings to byte strings.
\<close>

record shell_capability =
  cap_material :: "string option"

record shell_credential =
  cr_shell_id :: string
  cr_capability :: shell_capability

record attach_request =
  ar_operation_id :: string
  ar_credential :: shell_credential
  ar_initial :: live_snapshot

record attach_result =
  at_revision :: u64
  at_attached :: bool
  at_reconcile_required :: bool
  at_exclusions :: "exclusion list"

record publish_request =
  pq_operation_id :: string
  pq_credential :: shell_credential
  pq_acknowledged_revision :: u64
  pq_delta :: "live_change list"

record publish_result =
  pb_shared_revision :: u64
  pb_accepted :: "identity list"
  pb_conflicts :: "conflict list"

record prepare_pull_request =
  pp_operation_id :: string
  pp_credential :: shell_credential
  pp_applied_revision :: u64

record prepare_pull_result =
  pl_pending_revision :: u64
  pl_token :: resolution_token
  pl_changes :: "live_change list"

record acknowledge_request =
  ak_operation_id :: string
  ak_credential :: shell_credential
  ak_revision :: u64
  ak_token :: resolution_token
  ak_snapshot :: live_snapshot

record acknowledge_result =
  ac_applied_revision :: u64
  ac_acknowledged :: bool

record resolve_request =
  rq_operation_id :: string
  rq_credential :: shell_credential
  rq_conflict :: identity
  rq_token :: resolution_token
  rq_snapshot :: live_snapshot

record resolve_result =
  rs_pending_revision :: u64
  rs_token :: resolution_token
  rs_changes :: "live_change list"

section \<open>Bounds\<close>

definition WorktreeSchemaV1 :: string where "WorktreeSchemaV1 = ''v1''"
definition MaxSnapshotBytes :: u64 where "MaxSnapshotBytes = 2 * 1024 * 1024"
definition MaxSnapshotRecords :: nat where "MaxSnapshotRecords = 10000"
definition MaxResolutionTokenBytes :: nat where "MaxResolutionTokenBytes = 128"
definition ShellCapabilityBytes :: nat where "ShellCapabilityBytes = 32"
definition MaxUint64 :: u64 where "MaxUint64 = - 1"

section \<open>Anchored expressions\<close>

definition env_first :: "char \<Rightarrow> bool" where
  "env_first c \<longleftrightarrow> is_alpha c \<or> c = CHR ''_''"

definition env_rest :: "char \<Rightarrow> bool" where
  "env_rest c \<longleftrightarrow> is_alnum c \<or> c = CHR ''_''"

definition liveEnvNameRE :: "string \<Rightarrow> bool" where
  "liveEnvNameRE = match_first_rest env_first env_rest"

definition symbol_rest :: "char \<Rightarrow> bool" where
  "symbol_rest c \<longleftrightarrow> is_alnum c \<or> c \<in> set ''_.-''"

definition liveSymbolNameRE :: "string \<Rightarrow> bool" where
  "liveSymbolNameRE = match_first_rest env_rest symbol_rest"

definition token_rest :: "char \<Rightarrow> bool" where
  "token_rest c \<longleftrightarrow> is_alnum c \<or> c \<in> set ''._:-''"

definition liveTokenRE :: "string \<Rightarrow> bool" where
  "liveTokenRE = match_first_rest is_alnum token_rest"

definition validToken :: "resolution_token \<Rightarrow> unit result" where
  "validToken t =
     (if length t = 0 \<or> MaxResolutionTokenBytes < length t \<or> \<not> liveTokenRE t
      then Inl (Errorf ''resolution token is invalid'') else OK)"

section \<open>Shell capabilities\<close>

definition shellCapabilityDomain :: string where
  "shellCapabilityDomain = ''zsh-pro/worktree-shell-capability/v1''"

definition NewShellCapability :: "string \<Rightarrow> shell_capability result" where
  "NewShellCapability raw =
     (if length raw \<noteq> ShellCapabilityBytes
      then Inl (Errorf ''shell capability must be exactly %d bytes'')
      else Inr \<lparr>cap_material = Some raw\<rparr>)"

definition DeriveShellCapabilityVerifier ::
  "(string \<Rightarrow> string) \<Rightarrow> shell_capability \<Rightarrow> string result" where
  "DeriveShellCapabilityVerifier sha c =
     (case cap_material c of
        None \<Rightarrow> Inl (Errorf ''shell capability is missing'')
      | Some raw \<Rightarrow> Inr (sha (shellCapabilityDomain @ raw)))"

definition VerifyShellCapability ::
  "(string \<Rightarrow> string) \<Rightarrow> string \<Rightarrow> shell_capability \<Rightarrow> bool" where
  "VerifyShellCapability sha verifier c =
     (case DeriveShellCapabilityVerifier sha c of
        Inl _ \<Rightarrow> False
      | Inr derived \<Rightarrow> verifier = derived)"

definition validateCredential :: "shell_credential \<Rightarrow> unit result" where
  "validateCredential cr =
     (if length (cr_shell_id cr) = 0 \<or> MaxResolutionTokenBytes < length (cr_shell_id cr)
         \<or> \<not> liveTokenRE (cr_shell_id cr)
      then Inl (Errorf ''shell credential ID is invalid'')
      else if cap_material (cr_capability cr) = None
      then Inl (Errorf ''shell credential capability is missing'')
      else OK)"

lemma verify_derived:
  "DeriveShellCapabilityVerifier sha c = Inr v \<Longrightarrow> VerifyShellCapability sha v c"
  by (simp add: VerifyShellCapability_def)

section \<open>Building and copying values\<close>

definition ScalarLiveValue :: "string \<Rightarrow> live_value" where
  "ScalarLiveValue v = \<lparr>lv_present = True, lv_scalar = Some v, lv_list = None, lv_option = None\<rparr>"

text \<open>\<^verbatim>\<open>append([]string(nil), xs...)\<close> is nil for an empty list.\<close>

definition append_nil :: "string list \<Rightarrow> string list option" where
  "append_nil xs = (if xs = [] then None else Some xs)"

definition ListLiveValue :: "string list \<Rightarrow> live_value" where
  "ListLiveValue xs = \<lparr>lv_present = True, lv_scalar = None, lv_list = append_nil xs, lv_option = None\<rparr>"

definition OptionLiveValue :: "bool \<Rightarrow> live_value" where
  "OptionLiveValue b = \<lparr>lv_present = True, lv_scalar = None, lv_list = None, lv_option = Some b\<rparr>"

definition RemovedLiveValue :: live_value where
  "RemovedLiveValue = \<lparr>lv_present = False, lv_scalar = None, lv_list = None, lv_option = None\<rparr>"

definition CloneLiveValue :: "live_value \<Rightarrow> live_value" where
  "CloneLiveValue v =
     (case lv_list v of None \<Rightarrow> v | Some xs \<Rightarrow> v\<lparr>lv_list := append_nil xs\<rparr>)"

definition list_elements :: "live_value \<Rightarrow> string list" where
  "list_elements v = (case lv_list v of None \<Rightarrow> [] | Some xs \<Rightarrow> xs)"

lemma CloneLiveValue_sel [simp]:
  "lv_present (CloneLiveValue v) = lv_present v"
  "lv_scalar (CloneLiveValue v) = lv_scalar v"
  "lv_option (CloneLiveValue v) = lv_option v"
  "list_elements (CloneLiveValue v) = list_elements v"
  "lv_list (CloneLiveValue v) = append_nil (list_elements v)"
  by (auto simp: CloneLiveValue_def list_elements_def append_nil_def split: option.splits)

lemma CloneLiveValue_idem [simp]: "CloneLiveValue (CloneLiveValue v) = CloneLiveValue v"
  by (rule live_value.equality) simp_all

lemma CloneLiveValue_eq_iff:
  "CloneLiveValue v = CloneLiveValue w \<longleftrightarrow>
     lv_present v = lv_present w \<and> lv_scalar v = lv_scalar w
     \<and> list_elements v = list_elements w \<and> lv_option v = lv_option w"
proof
  assume eq: "CloneLiveValue v = CloneLiveValue w"
  have "list_elements (CloneLiveValue v) = list_elements (CloneLiveValue w)"
    "lv_scalar (CloneLiveValue v) = lv_scalar (CloneLiveValue w)"
    "lv_option (CloneLiveValue v) = lv_option (CloneLiveValue w)"
    "lv_present (CloneLiveValue v) = lv_present (CloneLiveValue w)"
    unfolding eq by (rule refl)+
  then show "lv_present v = lv_present w \<and> lv_scalar v = lv_scalar w
     \<and> list_elements v = list_elements w \<and> lv_option v = lv_option w"
    by simp
next
  assume "lv_present v = lv_present w \<and> lv_scalar v = lv_scalar w
     \<and> list_elements v = list_elements w \<and> lv_option v = lv_option w"
  then show "CloneLiveValue v = CloneLiveValue w"
    by (intro live_value.equality) simp_all
qed

definition CloneLiveState :: "live_state \<Rightarrow> live_state" where
  "CloneLiveState s = \<lparr>ls_identity = ls_identity s, ls_value = CloneLiveValue (ls_value s)\<rparr>"

definition CloneLiveStates :: "live_state list \<Rightarrow> live_state list" where
  "CloneLiveStates = map CloneLiveState"

definition CloneLiveChange :: "live_change \<Rightarrow> live_change" where
  "CloneLiveChange c =
     \<lparr>ch_kind = ch_kind c, ch_identity = ch_identity c, ch_value = CloneLiveValue (ch_value c)\<rparr>"

definition CloneLiveChanges :: "live_change list \<Rightarrow> live_change list" where
  "CloneLiveChanges = map CloneLiveChange"

definition CloneLiveProjection :: "live_projection \<Rightarrow> live_projection" where
  "CloneLiveProjection p = p\<lparr>pr_states := CloneLiveStates (pr_states p)\<rparr>"

lemma CloneLiveState_sel [simp]:
  "ls_identity (CloneLiveState s) = ls_identity s"
  "ls_value (CloneLiveState s) = CloneLiveValue (ls_value s)"
  by (simp_all add: CloneLiveState_def)

lemma CloneLiveState_idem [simp]: "CloneLiveState (CloneLiveState s) = CloneLiveState s"
  by (rule live_state.equality) simp_all

lemma CloneLiveStates_idem [simp]: "CloneLiveStates (CloneLiveStates ss) = CloneLiveStates ss"
  by (simp add: CloneLiveStates_def)

lemma CloneLiveChange_sel [simp]:
  "ch_kind (CloneLiveChange c) = ch_kind c"
  "ch_identity (CloneLiveChange c) = ch_identity c"
  "ch_value (CloneLiveChange c) = CloneLiveValue (ch_value c)"
  by (simp_all add: CloneLiveChange_def)

lemma CloneLiveChange_idem [simp]: "CloneLiveChange (CloneLiveChange c) = CloneLiveChange c"
  by (rule live_change.equality) simp_all

lemma CloneLiveChanges_idem [simp]: "CloneLiveChanges (CloneLiveChanges cs) = CloneLiveChanges cs"
  by (simp add: CloneLiveChanges_def)

section \<open>Validation\<close>

definition has_nul :: "string \<Rightarrow> bool" where
  "has_nul s \<longleftrightarrow> CHR 0x00 \<in> set s"

definition ValidateIdentity :: "identity \<Rightarrow> unit result" where
  "ValidateIdentity i =
     (if id_name i = [] \<or> has_nul (id_name i) then Inl (Errorf ''live identity name is invalid'')
      else case id_kind i of
        LiveEnv \<Rightarrow>
          (if liveEnvNameRE (id_name i) then OK else Inl (Errorf ''environment identity %q is invalid''))
      | LiveAlias \<Rightarrow>
          (if liveSymbolNameRE (id_name i) then OK else Inl (Errorf ''symbol identity %q is invalid''))
      | LiveFunction \<Rightarrow>
          (if liveSymbolNameRE (id_name i) then OK else Inl (Errorf ''symbol identity %q is invalid''))
      | LivePath \<Rightarrow>
          (if id_name i = ''PATH'' then OK else Inl (Errorf ''path identity %q is invalid''))
      | LiveFPath \<Rightarrow>
          (if id_name i = ''FPATH'' then OK else Inl (Errorf ''fpath identity %q is invalid''))
      | LiveOption \<Rightarrow>
          (if liveEnvNameRE (id_name i) then OK else Inl (Errorf ''option identity %q is invalid''))
      | LiveOther _ \<Rightarrow> Inl (Errorf ''live identity kind %q is unsupported''))"

definition ValidateLiveValue :: "live_kind \<Rightarrow> live_value \<Rightarrow> unit result" where
  "ValidateLiveValue k v =
     (if \<not> lv_present v then
        (if lv_scalar v \<noteq> None \<or> lv_list v \<noteq> None \<or> lv_option v \<noteq> None
         then Inl (Errorf ''removed live value carries a payload'') else OK)
      else if k \<in> {LiveEnv, LiveAlias, LiveFunction} then
        (if lv_scalar v = None \<or> lv_list v \<noteq> None \<or> lv_option v \<noteq> None
         then Inl (Errorf ''live kind %q requires a scalar payload'')
         else if has_nul (the (lv_scalar v)) then Inl (Errorf ''live scalar contains NUL'')
         else OK)
      else if k \<in> {LivePath, LiveFPath} then
        (if lv_scalar v \<noteq> None \<or> lv_option v \<noteq> None
         then Inl (Errorf ''live kind %q requires a list payload'')
         else forE (\<lambda>e. if has_nul e then Inl (Errorf ''live list element contains NUL'') else OK)
                   (list_elements v))
      else if k = LiveOption then
        (if lv_option v = None \<or> lv_scalar v \<noteq> None \<or> lv_list v \<noteq> None
         then Inl (Errorf ''live option requires a boolean payload'') else OK)
      else Inl (Errorf ''live value kind %q is unsupported''))"

definition ValidateLiveIdentityState :: "live_state \<Rightarrow> unit result" where
  "ValidateLiveIdentityState s =
     bindR (ValidateIdentity (ls_identity s))
       (\<lambda>_. ValidateLiveValue (id_kind (ls_identity s)) (ls_value s))"

text \<open>Lengths are converted to \<^verbatim>\<open>uint64\<close>, and the additions are checked for overflow.\<close>

definition len64 :: "'a list \<Rightarrow> u64" where
  "len64 xs = of_nat (length xs)"

definition checkedLiveAdd :: "u64 \<Rightarrow> u64 \<Rightarrow> u64 result" where
  "checkedLiveAdd left right =
     (if MaxUint64 - left < right then Inl (Errorf ''live snapshot size overflow'')
      else Inr (left + right))"

fun list_bytes :: "u64 \<Rightarrow> string list \<Rightarrow> u64" where
  "list_bytes acc [] = acc"
| "list_bytes acc (e # es) =
     (if MaxUint64 - acc < len64 e + 1 then MaxUint64
      else list_bytes (acc + (len64 e + 1)) es)"

definition liveValueBytes :: "live_value \<Rightarrow> u64" where
  "liveValueBytes v =
     (if \<not> lv_present v then 0
      else case lv_scalar v of
        Some s \<Rightarrow> len64 s
      | None \<Rightarrow> (if lv_option v \<noteq> None then 1 else list_bytes 0 (list_elements v)))"

fun validateSnapshotStates :: "u64 \<Rightarrow> live_state list \<Rightarrow> unit result" where
  "validateSnapshotStates acc [] = OK"
| "validateSnapshotStates acc (s # ss) =
     bindR (ValidateLiveIdentityState s) (\<lambda>_.
       bindR (orErr
           (bindR (checkedLiveAdd acc (len64 (kind_string (id_kind (ls_identity s))))) (\<lambda>a.
            bindR (checkedLiveAdd a (len64 (id_name (ls_identity s)))) (\<lambda>b.
            checkedLiveAdd b (liveValueBytes (ls_value s)))))
           (Errorf ''live snapshot semantic payload exceeds %d bytes'')) (\<lambda>total.
       if MaxSnapshotBytes < total
       then Inl (Errorf ''live snapshot semantic payload exceeds %d bytes'')
       else validateSnapshotStates total ss))"

definition ValidateLiveSnapshot :: "live_snapshot \<Rightarrow> unit result" where
  "ValidateLiveSnapshot sn =
     (if MaxSnapshotBytes < sn_byte_size sn
      then Inl (Errorf ''live snapshot is %d bytes; maximum is %d'')
      else if MaxSnapshotRecords < length (sn_states sn)
      then Inl (Errorf ''live snapshot has %d records; maximum is %d'')
      else validateSnapshotStates 0 (sn_states sn))"

definition EqualLiveValue :: "live_kind \<Rightarrow> live_value \<Rightarrow> live_value \<Rightarrow> bool" where
  "EqualLiveValue k l r =
     (if ValidateLiveValue k l \<noteq> OK \<or> ValidateLiveValue k r \<noteq> OK then False
      else if lv_present l \<noteq> lv_present r then False
      else if \<not> lv_present l then True
      else if k \<in> {LiveEnv, LiveAlias, LiveFunction} then the (lv_scalar l) = the (lv_scalar r)
      else if k \<in> {LivePath, LiveFPath} then list_elements l = list_elements r
      else if k = LiveOption then the (lv_option l) = the (lv_option r)
      else False)"

section \<open>Normalisation\<close>

definition NormalizeLiveStates :: "live_state list \<Rightarrow> live_state list result" where
  "NormalizeLiveStates states =
     bindR (forE ValidateLiveIdentityState states)
       (\<lambda>_. Inr (map CloneLiveState (final_occurrences ls_identity states)))"

definition validateOverlayEntry :: "overlay_entry \<Rightarrow> unit result" where
  "validateOverlayEntry e =
     bindR (ValidateIdentity (ov_identity e)) (\<lambda>_.
       if ov_tombstone e then
         (if ValidateLiveValue (id_kind (ov_identity e)) (ov_value e) \<noteq> OK \<or> lv_present (ov_value e)
          then Inl (Errorf ''live tombstone carries a value'') else OK)
       else
         bindR (ValidateLiveValue (id_kind (ov_identity e)) (ov_value e)) (\<lambda>_.
           if \<not> lv_present (ov_value e)
           then Inl (Errorf ''live overlay value is not present'') else OK))"

definition CloneOverlayEntry :: "overlay_entry \<Rightarrow> overlay_entry" where
  "CloneOverlayEntry e =
     \<lparr>ov_identity = ov_identity e, ov_value = CloneLiveValue (ov_value e),
      ov_tombstone = ov_tombstone e\<rparr>"

definition NormalizeOverlay :: "overlay_entry list \<Rightarrow> overlay_entry list result" where
  "NormalizeOverlay es =
     bindR (forE validateOverlayEntry es)
       (\<lambda>_. Inr (map CloneOverlayEntry (final_occurrences ov_identity es)))"

definition NextRevision :: "u64 \<Rightarrow> u64 result" where
  "NextRevision r =
     (if r = MaxUint64 then Inl (Errorf ''worktree revision overflow'') else Inr (r + 1))"

section \<open>Facts about validation\<close>

fun supported_kind :: "live_kind \<Rightarrow> bool" where
  "supported_kind (LiveOther s) = False"
| "supported_kind _ = True"

lemma ValidateIdentity_supported: "ValidateIdentity i = OK \<Longrightarrow> supported_kind (id_kind i)"
  by (cases "id_kind i") (auto simp: ValidateIdentity_def split: if_splits)

lemma ValidateLiveValue_clone:
  "ValidateLiveValue k v = OK \<Longrightarrow> ValidateLiveValue k (CloneLiveValue v) = OK"
  by (auto simp: ValidateLiveValue_def append_nil_def list_elements_def
      split: if_splits option.splits)

lemma ValidateLiveIdentityState_clone:
  "ValidateLiveIdentityState s = OK \<Longrightarrow> ValidateLiveIdentityState (CloneLiveState s) = OK"
  by (auto simp: ValidateLiveIdentityState_def bindR_eq_Inr ValidateLiveValue_clone)

lemma EqualLiveValue_iff_clone:
  assumes "ValidateLiveValue k v = OK" "ValidateLiveValue k w = OK"
    and "lv_present v" "lv_present w"
  shows "EqualLiveValue k v w \<longleftrightarrow> CloneLiveValue v = CloneLiveValue w"
  using assms
  by (cases k) (auto simp: EqualLiveValue_def ValidateLiveValue_def CloneLiveValue_eq_iff
      list_elements_def split: if_splits option.splits)

lemma removed_value_unique:
  "ValidateLiveValue k v = OK \<Longrightarrow> \<not> lv_present v \<Longrightarrow> v = RemovedLiveValue"
  by (intro live_value.equality)
     (auto simp: ValidateLiveValue_def RemovedLiveValue_def split: if_splits)

lemma NormalizeLiveStates_eq_Inr [result_simps]:
  "NormalizeLiveStates ss = Inr ns \<longleftrightarrow>
     (\<forall>s \<in> set ss. ValidateLiveIdentityState s = OK)
     \<and> ns = map CloneLiveState (keep_last ls_identity ss)"
  by (auto simp: NormalizeLiveStates_def bindR_eq_Inr forE_eq_OK final_occurrences_eq_keep_last)

lemma NormalizeLiveStates_distinct:
  "NormalizeLiveStates ss = Inr ns \<Longrightarrow> distinct (map ls_identity ns)"
  by (auto simp: NormalizeLiveStates_eq_Inr comp_def)

lemma NormalizeLiveStates_identities:
  "NormalizeLiveStates ss = Inr ns \<Longrightarrow> ls_identity ` set ns = ls_identity ` set ss"
  by (auto simp: NormalizeLiveStates_eq_Inr image_image)

lemma NormalizeLiveStates_valid:
  "NormalizeLiveStates ss = Inr ns \<Longrightarrow> s \<in> set ns \<Longrightarrow> ValidateLiveIdentityState s = OK"
  using set_keep_last_subset [of ls_identity ss]
  by (auto simp: NormalizeLiveStates_eq_Inr intro!: ValidateLiveIdentityState_clone)

lemma NormalizeLiveStates_of_distinct:
  assumes "\<forall>s \<in> set ss. ValidateLiveIdentityState s = OK" "distinct (map ls_identity ss)"
  shows "NormalizeLiveStates ss = Inr (CloneLiveStates ss)"
  using assms by (simp add: NormalizeLiveStates_eq_Inr keep_last_id CloneLiveStates_def)

lemma NormalizeLiveStates_idem:
  assumes "NormalizeLiveStates ss = Inr ns"
  shows "NormalizeLiveStates ns = Inr ns"
proof -
  have "NormalizeLiveStates ns = Inr (CloneLiveStates ns)"
    using assms NormalizeLiveStates_valid NormalizeLiveStates_distinct
    by (intro NormalizeLiveStates_of_distinct) auto
  moreover have "CloneLiveStates ns = ns"
    using assms by (auto simp: NormalizeLiveStates_eq_Inr CloneLiveStates_def)
  ultimately show ?thesis by simp
qed

lemma NormalizeOverlay_eq_Inr [result_simps]:
  "NormalizeOverlay es = Inr ns \<longleftrightarrow>
     (\<forall>e \<in> set es. validateOverlayEntry e = OK)
     \<and> ns = map CloneOverlayEntry (keep_last ov_identity es)"
  by (auto simp: NormalizeOverlay_def bindR_eq_Inr forE_eq_OK final_occurrences_eq_keep_last)

section \<open>The finite map a list of states denotes\<close>

text \<open>
  The specification level of the live model: a list of states denotes the map from
  identity to (copied) value given by the last occurrence of each identity, a last
  occurrence that is not present meaning that the identity is unset.
\<close>

definition live_pairs :: "live_state list \<Rightarrow> (identity \<times> live_value) list" where
  "live_pairs ss = map (\<lambda>s. (ls_identity s, CloneLiveValue (ls_value s))) ss"

definition live_map :: "live_state list \<Rightarrow> identity \<Rightarrow> live_value option" where
  "live_map ss i =
     (case map_of (rev (live_pairs ss)) i of
        None \<Rightarrow> None
      | Some v \<Rightarrow> if lv_present v then Some v else None)"

lemma live_map_Nil [simp]: "live_map [] = Map.empty"
  by (simp add: live_map_def live_pairs_def fun_eq_iff)

lemma live_map_clone [simp]: "live_map (CloneLiveStates ss) = live_map ss"
  by (simp add: live_map_def live_pairs_def CloneLiveStates_def comp_def fun_eq_iff)

lemma live_map_keep_last [simp]: "live_map (keep_last ls_identity ss) = live_map ss"
proof
  fix i
  have "map_of (rev (live_pairs (keep_last ls_identity ss))) = map_of (live_pairs (keep_last ls_identity ss))"
    by (rule map_of_rev_distinct) (simp add: live_pairs_def comp_def)
  then show "live_map (keep_last ls_identity ss) i = live_map ss i"
    using map_of_keep_last [of ls_identity "\<lambda>s. CloneLiveValue (ls_value s)" ss]
    by (simp add: live_map_def live_pairs_def)
qed

lemma live_map_normalize:
  "NormalizeLiveStates ss = Inr ns \<Longrightarrow> live_map ns = live_map ss"
  using live_map_clone [of "keep_last ls_identity ss"]
  by (simp add: NormalizeLiveStates_eq_Inr CloneLiveStates_def)

lemma live_map_distinct:
  assumes "distinct (map ls_identity ss)"
  shows "live_map ss i = Some v \<longleftrightarrow>
     (\<exists>s \<in> set ss. ls_identity s = i \<and> lv_present (ls_value s) \<and> v = CloneLiveValue (ls_value s))"
proof -
  have d: "distinct (map fst (live_pairs ss))"
    using assms by (simp add: live_pairs_def comp_def)
  then have rev: "map_of (rev (live_pairs ss)) = map_of (live_pairs ss)"
    by (rule map_of_rev_distinct)
  have eq: "map_of (live_pairs ss) i = Some w \<longleftrightarrow>
      (\<exists>s \<in> set ss. ls_identity s = i \<and> w = CloneLiveValue (ls_value s))" for w
    using d by (auto simp: map_of_eq_Some_iff) (auto simp: live_pairs_def)
  have "live_map ss i = Some v \<longleftrightarrow> map_of (live_pairs ss) i = Some v \<and> lv_present v"
    by (auto simp: live_map_def rev split: option.splits)
  also have "\<dots> \<longleftrightarrow> (\<exists>s \<in> set ss. ls_identity s = i \<and> lv_present (ls_value s)
      \<and> v = CloneLiveValue (ls_value s))"
    by (auto simp: eq)
  finally show ?thesis .
qed

lemma live_map_Some_present: "live_map ss i = Some v \<Longrightarrow> lv_present v"
  by (auto simp: live_map_def split: option.splits if_splits)

lemma live_map_Some_clone: "live_map ss i = Some v \<Longrightarrow> CloneLiveValue v = v"
proof -
  assume "live_map ss i = Some v"
  then have "map_of (rev (live_pairs ss)) i = Some v"
    by (auto simp: live_map_def split: option.splits if_splits)
  then have "(i, v) \<in> set (live_pairs ss)"
    using map_of_SomeD by fastforce
  then show ?thesis by (auto simp: live_pairs_def)
qed

lemma finite_dom_live_map [simp]: "finite (dom (live_map ss))"
proof (rule finite_subset)
  show "dom (live_map ss) \<subseteq> dom (map_of (rev (live_pairs ss)))"
    by (auto simp: live_map_def dom_def split: option.splits)
qed (rule finite_dom_map_of)

lemma dom_live_map_subset: "dom (live_map ss) \<subseteq> ls_identity ` set ss"
proof -
  have "dom (map_of (rev (live_pairs ss))) = ls_identity ` set ss"
    by (simp add: dom_map_of_conv_image_fst live_pairs_def image_image)
  then show ?thesis by (auto simp: live_map_def dom_def split: option.splits)
qed

lemma live_map_valid:
  assumes "\<forall>s \<in> set ss. ValidateLiveIdentityState s = OK" "live_map ss i = Some v"
  shows "ValidateIdentity i = OK \<and> ValidateLiveValue (id_kind i) v = OK"
proof -
  have "map_of (rev (live_pairs ss)) i = Some v"
    using assms(2) by (auto simp: live_map_def split: option.splits if_splits)
  then have "(i, v) \<in> set (live_pairs ss)"
    using map_of_SomeD by fastforce
  then obtain s where "s \<in> set ss" "i = ls_identity s" "v = CloneLiveValue (ls_value s)"
    by (auto simp: live_pairs_def)
  then show ?thesis
    using assms(1) by (auto simp: ValidateLiveIdentityState_def bindR_eq_Inr ValidateLiveValue_clone)
qed

section \<open>The bounded-snapshot check as a sum\<close>

definition state_bytes :: "live_state \<Rightarrow> nat" where
  "state_bytes s =
     unat (len64 (kind_string (id_kind (ls_identity s))))
     + unat (len64 (id_name (ls_identity s))) + unat (liveValueBytes (ls_value s))"

lemma checkedLiveAdd_eq_Inr [result_simps]:
  "checkedLiveAdd a b = Inr c \<longleftrightarrow> unat a + unat b < 2 ^ 64 \<and> c = a + b"
proof -
  have "unat (MaxUint64 - a) = 2 ^ 64 - 1 - unat a"
    by (simp add: MaxUint64_def unat_sub unsigned_minus_1_eq_mask mask_eq_exp_minus_1)
  moreover have "unat a < 2 ^ 64"
    using unsigned_less [of a, where ?'a = nat] by simp
  ultimately have "MaxUint64 - a < b \<longleftrightarrow> \<not> unat a + unat b < 2 ^ 64"
    by (auto simp: word_less_nat_alt)
  then show ?thesis by (auto simp: checkedLiveAdd_def)
qed

lemma unat_add_bounded: "unat a + unat b < 2 ^ 64 \<Longrightarrow> unat (a + b :: u64) = unat a + unat b"
  by (simp add: unat_word_ariths)

lemma validateSnapshotStates_eq_OK:
  "unat acc \<le> unat MaxSnapshotBytes \<Longrightarrow>
   validateSnapshotStates acc ss = OK \<longleftrightarrow>
     (\<forall>s \<in> set ss. ValidateLiveIdentityState s = OK)
     \<and> unat acc + sum_list (map state_bytes ss) \<le> unat MaxSnapshotBytes"
proof (induction ss arbitrary: acc)
  case Nil
  then show ?case by simp
next
  case (Cons s ss)
  let ?k = "len64 (kind_string (id_kind (ls_identity s)))"
  let ?n = "len64 (id_name (ls_identity s))"
  let ?v = "liveValueBytes (ls_value s)"
  have small: "unat MaxSnapshotBytes < 2 ^ 64" by (simp add: MaxSnapshotBytes_def)
  show ?case
  proof (cases "unat acc + state_bytes s \<le> unat MaxSnapshotBytes")
    case True
    then have fits: "unat acc + unat ?k + unat ?n + unat ?v < 2 ^ 64"
      using small by (simp add: state_bytes_def)
    then have sums: "unat (acc + ?k) = unat acc + unat ?k"
      "unat (acc + ?k + ?n) = unat acc + unat ?k + unat ?n"
      "unat (acc + ?k + ?n + ?v) = unat acc + unat ?k + unat ?n + unat ?v"
      by (simp_all add: unat_add_bounded)
    then have total: "unat (acc + ?k + ?n + ?v) = unat acc + state_bytes s"
      by (simp add: state_bytes_def)
    have "bindR (checkedLiveAdd acc ?k) (\<lambda>a. bindR (checkedLiveAdd a ?n)
        (\<lambda>b. checkedLiveAdd b ?v)) = Inr (acc + ?k + ?n + ?v)"
      using fits sums by (auto simp: bindR_eq_Inr checkedLiveAdd_eq_Inr)
    moreover have "\<not> MaxSnapshotBytes < acc + ?k + ?n + ?v"
      using True total by (simp add: word_less_nat_alt)
    ultimately show ?thesis
      using Cons.IH [of "acc + ?k + ?n + ?v"] True total
      by (auto simp: bindR_eq_Inr add.assoc)
  next
    case False
    have "validateSnapshotStates acc (s # ss) \<noteq> OK"
    proof
      assume "validateSnapshotStates acc (s # ss) = OK"
      then obtain t where
        t: "bindR (checkedLiveAdd acc ?k) (\<lambda>a. bindR (checkedLiveAdd a ?n)
            (\<lambda>b. checkedLiveAdd b ?v)) = Inr t" and le: "\<not> MaxSnapshotBytes < t"
        by (auto simp: bindR_eq_Inr orErr_eq_Inr if_Inl_eq_Inr)
      from t have "unat t = unat acc + state_bytes s"
        by (auto simp: bindR_eq_Inr checkedLiveAdd_eq_Inr unat_add_bounded state_bytes_def)
      with le False show False by (simp add: word_less_nat_alt)
    qed
    with False show ?thesis by simp
  qed
qed

lemma ValidateLiveSnapshot_eq_OK [result_simps]:
  "ValidateLiveSnapshot sn = OK \<longleftrightarrow>
     sn_byte_size sn \<le> MaxSnapshotBytes
     \<and> length (sn_states sn) \<le> MaxSnapshotRecords
     \<and> (\<forall>s \<in> set (sn_states sn). ValidateLiveIdentityState s = OK)
     \<and> sum_list (map state_bytes (sn_states sn)) \<le> unat MaxSnapshotBytes"
  by (auto simp: ValidateLiveSnapshot_def validateSnapshotStates_eq_OK not_less)

lemma state_bytes_clone [simp]: "state_bytes (CloneLiveState s) = state_bytes s"
  by (auto simp: state_bytes_def liveValueBytes_def split: option.splits)

lemma sum_state_bytes_keep_last:
  "sum_list (map state_bytes (keep_last key ss)) \<le> sum_list (map state_bytes ss)"
  by (induction ss) auto

end
