(* ===== verification/SlotTable.thy ===== *)
theory SlotTable
  imports Prelude
begin

text \<open>
  The slot table: a list of slots, each an element and an active flag, with an index map
  from key to slot position. \<^verbatim>\<open>applyNormalizedOverlay\<close> (core/worktree/diff.go),
  \<^verbatim>\<open>effectiveProjection\<close> (core/activate/builder.go) and
  \<^verbatim>\<open>applyStateChanges\<close> (core/worktree/state.go) are three copies of this
  algorithm: an existing key is overwritten in place, a new key is appended, a removal
  only clears the flag, and the active slots are read off in order.
\<close>

type_synonym ('k, 'a) slot_table = "('a \<times> bool) list \<times> ('k \<rightharpoonup> nat)"

definition slot_empty :: "('k, 'a) slot_table" where
  "slot_empty = ([], Map.empty)"

fun slot_put :: "'k \<Rightarrow> 'a \<Rightarrow> ('k, 'a) slot_table \<Rightarrow> ('k, 'a) slot_table" where
  "slot_put k x (slots, indexes) =
     (case indexes k of
        Some i \<Rightarrow> (slots[i := (x, True)], indexes)
      | None \<Rightarrow> (slots @ [(x, True)], indexes(k \<mapsto> length slots)))"

text \<open>\<^verbatim>\<open>indexes[k] = len(slots); slots = append(slots, x)\<close>, with no lookup first.\<close>

fun slot_append :: "'k \<Rightarrow> 'a \<times> bool \<Rightarrow> ('k, 'a) slot_table \<Rightarrow> ('k, 'a) slot_table" where
  "slot_append k x (slots, indexes) = (slots @ [x], indexes(k \<mapsto> length slots))"

fun slot_drop :: "'k \<Rightarrow> ('k, 'a) slot_table \<Rightarrow> ('k, 'a) slot_table" where
  "slot_drop k (slots, indexes) =
     (case indexes k of
        Some i \<Rightarrow> (slots[i := (fst (slots ! i), False)], indexes)
      | None \<Rightarrow> (slots, indexes))"

fun slot_active :: "('k, 'a) slot_table \<Rightarrow> 'a list" where
  "slot_active (slots, indexes) = map fst (filter snd slots)"

section \<open>Well-formed tables and the map they denote\<close>

fun slot_wf :: "('a \<Rightarrow> 'k) \<Rightarrow> ('k, 'a) slot_table \<Rightarrow> bool" where
  "slot_wf key (slots, indexes) \<longleftrightarrow>
     (\<forall>k i. indexes k = Some i \<longleftrightarrow> i < length slots \<and> key (fst (slots ! i)) = k)"

fun slot_contents :: "('k, 'a) slot_table \<Rightarrow> 'k \<Rightarrow> 'a option" where
  "slot_contents (slots, indexes) k =
     (case indexes k of
        None \<Rightarrow> None
      | Some i \<Rightarrow> if snd (slots ! i) then Some (fst (slots ! i)) else None)"

declare slot_wf.simps [simp del]

lemma slot_wf_index:
  "slot_wf key (slots, indexes) \<Longrightarrow> indexes k = Some i \<longleftrightarrow> i < length slots \<and> key (fst (slots ! i)) = k"
  by (simp add: slot_wf.simps)

lemma slot_wf_empty: "slot_wf key slot_empty"
  by (simp add: slot_empty_def slot_wf.simps)

lemma slot_contents_empty: "slot_contents slot_empty = Map.empty"
  by (simp add: slot_empty_def fun_eq_iff)

lemma slot_wf_append:
  assumes wf: "slot_wf key (slots, indexes)" and new: "indexes k = None" and x: "key (fst x) = k"
  shows "slot_wf key (slots @ [x], indexes(k \<mapsto> length slots))"
proof -
  have fresh: "key (fst (slots ! j)) \<noteq> k" if "j < length slots" for j
    using slot_wf_index [OF wf, of k j] new that by simp
  have "(indexes(k \<mapsto> length slots)) k' = Some i \<longleftrightarrow>
      i < length (slots @ [x]) \<and> key (fst ((slots @ [x]) ! i)) = k'" for k' i
    using slot_wf_index [OF wf, of k' i] fresh x
    by (cases "i < length slots") (auto simp: nth_append less_Suc_eq)
  then show ?thesis by (simp add: slot_wf.simps)
qed

lemma slot_wf_update:
  assumes wf: "slot_wf key (slots, indexes)" and "indexes k = Some i" and "key (fst x) = k"
  shows "slot_wf key (slots[i := x], indexes)"
proof -
  have i: "i < length slots" "key (fst (slots ! i)) = k"
    using slot_wf_index [OF wf, of k i] assms(2) by auto
  have "key (fst (slots[i := x] ! j)) = key (fst (slots ! j))" if "j < length slots" for j
    using i assms(3) that by (cases "j = i") auto
  then have "indexes k' = Some j \<longleftrightarrow>
      j < length (slots[i := x]) \<and> key (fst (slots[i := x] ! j)) = k'" for k' j
    using slot_wf_index [OF wf, of k' j] by auto
  then show ?thesis by (simp add: slot_wf.simps)
qed

lemma slot_wf_put:
  assumes "slot_wf key t" "key x = k"
  shows "slot_wf key (slot_put k x t)"
proof -
  obtain slots indexes where t: "t = (slots, indexes)" by (cases t)
  show ?thesis
  proof (cases "indexes k")
    case None
    with assms t show ?thesis
      using slot_wf_append [of key slots indexes k "(x, True)"] by simp
  next
    case (Some i)
    with assms t show ?thesis
      using slot_wf_update [of key slots indexes k i "(x, True)"] by simp
  qed
qed

lemma slot_wf_drop:
  assumes "slot_wf key t"
  shows "slot_wf key (slot_drop k t)"
proof -
  obtain slots indexes where t: "t = (slots, indexes)" by (cases t)
  show ?thesis
  proof (cases "indexes k")
    case None
    with assms t show ?thesis by simp
  next
    case (Some i)
    with assms t have "key (fst (slots ! i)) = k" by (simp add: slot_wf_index)
    with assms t Some show ?thesis
      using slot_wf_update [of key slots indexes k i "(fst (slots ! i), False)"] by simp
  qed
qed

lemma slot_contents_put:
  assumes "slot_wf key t"
  shows "slot_contents (slot_put k x t) = (slot_contents t)(k \<mapsto> x)"
proof -
  obtain slots indexes where t: "t = (slots, indexes)" by (cases t)
  have bound: "i < length slots" if "indexes k' = Some i" for k' i
    using assms t that by (simp add: slot_wf_index)
  have inj: "k' = k''" if "indexes k' = Some i" "indexes k'' = Some i" for k' k'' i
    using assms t that by (simp add: slot_wf_index)
  show ?thesis
  proof (cases "indexes k")
    case None
    then show ?thesis
      using t bound by (auto simp: fun_eq_iff nth_append split: option.splits)
  next
    case (Some i)
    have "slot_contents (slot_put k x t) k' = ((slot_contents t)(k \<mapsto> x)) k'" for k'
    proof (cases "k' = k")
      case True
      with Some t bound show ?thesis by simp
    next
      case False
      then have "indexes k' \<noteq> Some i" using inj Some by blast
      with False Some t show ?thesis by (auto split: option.splits)
    qed
    then show ?thesis by blast
  qed
qed

lemma slot_contents_drop:
  assumes "slot_wf key t"
  shows "slot_contents (slot_drop k t) = (slot_contents t)(k := None)"
proof -
  obtain slots indexes where t: "t = (slots, indexes)" by (cases t)
  have bound: "i < length slots" if "indexes k' = Some i" for k' i
    using assms t that by (simp add: slot_wf_index)
  have inj: "k' = k''" if "indexes k' = Some i" "indexes k'' = Some i" for k' k'' i
    using assms t that by (simp add: slot_wf_index)
  show ?thesis
  proof (cases "indexes k")
    case None
    then show ?thesis using t by (auto simp: fun_eq_iff)
  next
    case (Some i)
    have "slot_contents (slot_drop k t) k' = ((slot_contents t)(k := None)) k'" for k'
    proof (cases "k' = k")
      case True
      with Some t bound show ?thesis by simp
    next
      case False
      then have "indexes k' \<noteq> Some i" using inj Some by blast
      with False Some t show ?thesis by (auto split: option.splits)
    qed
    then show ?thesis by blast
  qed
qed

lemma slot_append_new:
  "slot_wf key t \<Longrightarrow> snd t k = None \<Longrightarrow> slot_append k (x, True) t = slot_put k x t"
  by (cases t) auto

lemma in_slot_active:
  assumes "slot_wf key t"
  shows "x \<in> set (slot_active t) \<longleftrightarrow> slot_contents t (key x) = Some x"
proof -
  obtain slots indexes where t: "t = (slots, indexes)" by (cases t)
  show ?thesis
  proof
    assume "x \<in> set (slot_active t)"
    then have "(x, True) \<in> set slots" by (auto simp: t)
    then obtain i where i: "i < length slots" "slots ! i = (x, True)"
      by (auto simp: in_set_conv_nth)
    then have "indexes (key x) = Some i"
      using assms by (simp add: t slot_wf_index)
    with i show "slot_contents t (key x) = Some x" by (simp add: t)
  next
    assume "slot_contents t (key x) = Some x"
    then obtain i where i: "indexes (key x) = Some i" "slots ! i = (x, True)"
      by (auto simp: t prod_eq_iff split: option.splits if_splits)
    with assms t have "i < length slots" by (simp add: slot_wf_index)
    with i have "(x, True) \<in> set slots" by (metis nth_mem)
    then show "x \<in> set (slot_active t)" by (force simp: t)
  qed
qed

lemma slot_contents_key:
  assumes "slot_wf key t" "slot_contents t k = Some x"
  shows "key x = k"
  using assms by (cases t) (auto simp: slot_wf_index split: option.splits if_splits)

lemma slot_wf_distinct:
  assumes "slot_wf key t"
  shows "distinct (map key (slot_active t))"
proof -
  obtain slots indexes where t: "t = (slots, indexes)" by (cases t)
  have "i = j" if "i < length slots" "j < length slots"
    "key (fst (slots ! i)) = key (fst (slots ! j))" for i j
  proof -
    have "indexes (key (fst (slots ! i))) = Some i" "indexes (key (fst (slots ! i))) = Some j"
      using assms that by (simp_all add: t slot_wf_index)
    then show ?thesis by simp
  qed
  then have "distinct (map (key \<circ> fst) slots)"
    by (auto simp: distinct_conv_nth)
  then have "distinct (map (key \<circ> fst) (filter snd slots))"
    by (rule distinct_map_filter)
  then show ?thesis by (simp add: t)
qed

text \<open>The keys of a table in slot order, and the active keys among them.\<close>

fun slot_keys :: "('a \<Rightarrow> 'k) \<Rightarrow> ('k, 'a) slot_table \<Rightarrow> 'k list" where
  "slot_keys key (slots, indexes) = map (key \<circ> fst) slots"

lemma in_slot_keys: "slot_wf key (slots, indexes) \<Longrightarrow>
    k \<in> set (slot_keys key (slots, indexes)) \<longleftrightarrow> indexes k \<noteq> None"
proof -
  assume wf: "slot_wf key (slots, indexes)"
  have "indexes k \<noteq> None \<longleftrightarrow> (\<exists>i < length slots. key (fst (slots ! i)) = k)"
    using slot_wf_index [OF wf] by (metis not_None_eq)
  also have "\<dots> \<longleftrightarrow> k \<in> set (map (key \<circ> fst) slots)"
    by (simp only: in_set_conv_nth length_map) (auto 0 3)
  finally show ?thesis by simp
qed

lemma slot_keys_put:
  assumes "slot_wf key t" "key x = k"
  shows "slot_keys key (slot_put k x t) =
    slot_keys key t @ (if k \<in> set (slot_keys key t) then [] else [k])"
proof -
  obtain slots indexes where t: "t = (slots, indexes)" by (cases t)
  show ?thesis
  proof (cases "indexes k")
    case None
    with assms t show ?thesis
      using in_slot_keys [of key slots indexes k] by simp
  next
    case (Some i)
    then have i: "i < length slots" "key (fst (slots ! i)) = k"
      using assms(1) t by (simp_all add: slot_wf_index)
    have "map (key \<circ> fst) (slots[i := (x, True)]) = map (key \<circ> fst) slots"
      using i assms(2) by (auto simp: list_eq_iff_nth_eq nth_list_update)
    with assms t Some show ?thesis
      using in_slot_keys [of key slots indexes k] by simp
  qed
qed

lemma slot_keys_drop: "slot_keys key (slot_drop k t) = slot_keys key t"
proof -
  obtain slots indexes where t: "t = (slots, indexes)" by (cases t)
  have "map (key \<circ> fst) (slots[i := (fst (slots ! i), False)]) = map (key \<circ> fst) slots" for i
    by (cases "i < length slots")
       (auto simp: list_eq_iff_nth_eq nth_list_update list_update_beyond)
  then show ?thesis by (simp add: t split: option.splits)
qed

lemma slot_active_keys:
  assumes "slot_wf key t"
  shows "map key (slot_active t) = filter (\<lambda>k. slot_contents t k \<noteq> None) (slot_keys key t)"
proof -
  obtain slots indexes where t: "t = (slots, indexes)" by (cases t)
  have "snd s \<longleftrightarrow> slot_contents t (key (fst s)) \<noteq> None" if "s \<in> set slots" for s
  proof -
    from that obtain i where i: "i < length slots" "s = slots ! i"
      by (auto simp: in_set_conv_nth)
    then have "indexes (key (fst s)) = Some i"
      using assms by (simp add: t slot_wf_index)
    with i show ?thesis by (simp add: t)
  qed
  then have "filter snd slots = filter (\<lambda>s. slot_contents t (key (fst s)) \<noteq> None) slots"
    by (intro filter_cong) auto
  then show ?thesis by (simp add: t filter_map comp_def)
qed

section \<open>Loading a table\<close>

text \<open>
  The first loop of each copy: an element is skipped or appended with a flag.
\<close>

definition slot_load ::
  "('a \<Rightarrow> 'k) \<Rightarrow> ('a \<Rightarrow> ('a \<times> bool) option) \<Rightarrow> 'a list \<Rightarrow> ('k, 'a) slot_table \<Rightarrow> ('k, 'a) slot_table" where
  "slot_load key entry xs t =
     fold (\<lambda>x t. case entry x of None \<Rightarrow> t | Some y \<Rightarrow> slot_append (key x) y t) xs t"

definition entry_visible :: "('a \<Rightarrow> ('a \<times> bool) option) \<Rightarrow> 'a \<Rightarrow> 'a option" where
  "entry_visible entry x =
     (case entry x of None \<Rightarrow> None | Some (y, b) \<Rightarrow> if b then Some y else None)"

lemma slot_append_wf:
  assumes "slot_wf key t" "k \<notin> set (slot_keys key t)" "key (fst y) = k"
  shows "slot_wf key (slot_append k y t)"
    and "slot_keys key (slot_append k y t) = slot_keys key t @ [k]"
    and "slot_contents (slot_append k y t) =
      (slot_contents t)(k := (if snd y then Some (fst y) else None))"
proof -
  obtain slots indexes where t: "t = (slots, indexes)" by (cases t)
  have new: "indexes k = None"
    using in_slot_keys [of key slots indexes k] assms(1,2) by (auto simp: t)
  show "slot_wf key (slot_append k y t)"
    using slot_wf_append [of key slots indexes k y] assms(1,3) new by (simp add: t)
  show "slot_keys key (slot_append k y t) = slot_keys key t @ [k]"
    using assms(3) by (simp add: t)
  have bound: "i < length slots" if "indexes k' = Some i" for k' i
    using assms(1) t that by (simp add: slot_wf_index)
  show "slot_contents (slot_append k y t) =
      (slot_contents t)(k := (if snd y then Some (fst y) else None))"
    using bound new by (auto simp: t fun_eq_iff nth_append split: option.splits)
qed

lemma slot_load_facts:
  assumes "slot_wf key t" "distinct (map key xs)" "key ` set xs \<inter> set (slot_keys key t) = {}"
    and entry: "\<And>x y. entry x = Some y \<Longrightarrow> key (fst y) = key x"
  shows "slot_wf key (slot_load key entry xs t)
    \<and> slot_keys key (slot_load key entry xs t) =
        slot_keys key t @ map key (filter (\<lambda>x. entry x \<noteq> None) xs)
    \<and> (\<forall>k. slot_contents (slot_load key entry xs t) k =
        (case map_of (map (\<lambda>x. (key x, x)) xs) k of
           None \<Rightarrow> slot_contents t k
         | Some x \<Rightarrow> if entry x = None then slot_contents t k else entry_visible entry x))"
  using assms(1,2,3)
proof (induction xs arbitrary: t)
  case Nil
  then show ?case by (simp add: slot_load_def)
next
  case (Cons x xs)
  have absent: "map_of (map (\<lambda>x. (key x, x)) xs) (key x) = None"
    using Cons.prems(2) by (auto simp: map_of_eq_None_iff image_image)
  show ?case
  proof (cases "entry x")
    case None
    then have "slot_load key entry (x # xs) t = slot_load key entry xs t"
      by (simp add: slot_load_def)
    with None absent Cons show ?thesis by (auto split: option.splits)
  next
    case (Some y)
    let ?t = "slot_append (key x) y t"
    have load: "slot_load key entry (x # xs) t = slot_load key entry xs ?t"
      using Some by (simp add: slot_load_def)
    have fresh: "key x \<notin> set (slot_keys key t)" using Cons.prems(3) by auto
    note app = slot_append_wf [OF Cons.prems(1) fresh entry [OF Some]]
    have "key ` set xs \<inter> set (slot_keys key ?t) = {}"
      using Cons.prems(2,3) by (auto simp: app(2))
    then have IH: "slot_wf key (slot_load key entry xs ?t)
      \<and> slot_keys key (slot_load key entry xs ?t) =
          slot_keys key ?t @ map key (filter (\<lambda>x. entry x \<noteq> None) xs)
      \<and> (\<forall>k. slot_contents (slot_load key entry xs ?t) k =
        (case map_of (map (\<lambda>x. (key x, x)) xs) k of
           None \<Rightarrow> slot_contents ?t k
         | Some x \<Rightarrow> if entry x = None then slot_contents ?t k else entry_visible entry x))"
      using Cons.prems(2) app(1) by (intro Cons.IH) auto
    show ?thesis
      using IH absent Some
      by (auto simp: load app(2,3) entry_visible_def split: option.splits prod.splits)
  qed
qed

lemma slot_load_empty:
  assumes "distinct (map key xs)" "\<And>x y. entry x = Some y \<Longrightarrow> key (fst y) = key x"
  shows "slot_wf key (slot_load key entry xs slot_empty)"
    and "slot_keys key (slot_load key entry xs slot_empty) =
      map key (filter (\<lambda>x. entry x \<noteq> None) xs)"
    and "slot_contents (slot_load key entry xs slot_empty) k =
      Option.bind (map_of (map (\<lambda>x. (key x, x)) xs) k) (entry_visible entry)"
proof -
  have keys: "slot_keys key slot_empty = []"
    by (simp add: slot_empty_def)
  then have disj: "key ` set xs \<inter> set (slot_keys key slot_empty) = {}" by simp
  note facts = slot_load_facts [OF slot_wf_empty assms(1) disj, of entry, OF assms(2)]
  show "slot_wf key (slot_load key entry xs slot_empty)"
    using facts by blast
  show "slot_keys key (slot_load key entry xs slot_empty) =
      map key (filter (\<lambda>x. entry x \<noteq> None) xs)"
    using facts keys by simp
  show "slot_contents (slot_load key entry xs slot_empty) k =
      Option.bind (map_of (map (\<lambda>x. (key x, x)) xs) k) (entry_visible entry)"
    using facts by (auto simp: slot_contents_empty entry_visible_def split: option.splits)
qed

section \<open>The contract of an update over keyed states\<close>

text \<open>
  What a client of a slot table needs: the result has one element per key, it holds the
  base entries of the keys no update names, and the updated entry of the keys one does.
  \<open>base\<close> and \<open>step\<close> are the two loops of the code.
\<close>

locale keyed_update =
  fixes key :: "'a \<Rightarrow> 'k"
    and step_key :: "'u \<Rightarrow> 'k"
    and step_result :: "'u \<Rightarrow> 'a option"
    and init :: "'a list \<Rightarrow> ('k, 'a) slot_table"
    and step :: "'u \<Rightarrow> ('k, 'a) slot_table \<Rightarrow> ('k, 'a) slot_table"
    and visible :: "'a \<Rightarrow> 'a option"
  assumes step_keys: "slot_wf key t \<Longrightarrow>
      slot_keys key (step u t) =
        slot_keys key t @ (if step_result u = None \<or> step_key u \<in> set (slot_keys key t)
                           then [] else [step_key u])"
    and init_wf: "distinct (map key xs) \<Longrightarrow> slot_wf key (init xs)"
    and init_contents: "distinct (map key xs) \<Longrightarrow>
      slot_contents (init xs) k = Option.bind (map_of (map (\<lambda>x. (key x, x)) xs) k) visible"
    and step_wf: "slot_wf key t \<Longrightarrow> slot_wf key (step u t)"
    and step_contents: "slot_wf key t \<Longrightarrow>
      slot_contents (step u t) = (slot_contents t)(step_key u := step_result u)"
begin

fun update_map :: "('k \<Rightarrow> 'a option) \<Rightarrow> 'u list \<Rightarrow> ('k \<Rightarrow> 'a option)" where
  "update_map m [] = m"
| "update_map m (u # us) = update_map (m(step_key u := step_result u)) us"

lemma fold_step_wf: "slot_wf key t \<Longrightarrow> slot_wf key (fold step us t)"
  by (induction us arbitrary: t) (simp_all add: step_wf)

lemma fold_step_contents:
  "slot_wf key t \<Longrightarrow> slot_contents (fold step us t) = update_map (slot_contents t) us"
  by (induction us arbitrary: t) (simp_all add: step_contents step_wf)

lemma result_distinct:
  "distinct (map key xs) \<Longrightarrow> distinct (map key (slot_active (fold step us (init xs))))"
  by (intro slot_wf_distinct fold_step_wf init_wf)

lemma result_member:
  assumes "distinct (map key xs)"
  shows "x \<in> set (slot_active (fold step us (init xs))) \<longleftrightarrow>
    update_map (slot_contents (init xs)) us (key x) = Some x"
  using in_slot_active [OF fold_step_wf [OF init_wf [OF assms]]]
    fold_step_contents [OF init_wf [OF assms]] by simp

lemma update_map_other: "k \<notin> step_key ` set us \<Longrightarrow> update_map m us k = m k"
  by (induction us arbitrary: m) auto

lemma update_map_cases:
  "update_map m us k = m k \<or> (\<exists>u \<in> set us. step_key u = k \<and> update_map m us k = step_result u)"
proof (induction us arbitrary: m)
  case Nil
  then show ?case by simp
next
  case (Cons u us)
  let ?m = "m(step_key u := step_result u)"
  from Cons.IH [of ?m] show ?case
  proof
    assume "update_map ?m us k = ?m k"
    then show ?thesis by (cases "step_key u = k") simp_all
  next
    assume "\<exists>w \<in> set us. step_key w = k \<and> update_map ?m us k = step_result w"
    then show ?thesis by (simp only: update_map.simps) (meson list.set_intros(2))
  qed
qed

lemma result_lookup:
  assumes "distinct (map key xs)"
  shows "(\<exists>x \<in> set (slot_active (fold step us (init xs))). key x = k \<and> P x) \<longleftrightarrow>
    (\<exists>x. update_map (slot_contents (init xs)) us k = Some x \<and> P x)"
proof -
  let ?t = "fold step us (init xs)"
  have wf: "slot_wf key ?t" by (rule fold_step_wf [OF init_wf [OF assms]])
  have "slot_contents ?t = update_map (slot_contents (init xs)) us"
    by (rule fold_step_contents [OF init_wf [OF assms]])
  then show ?thesis
    using in_slot_active [OF wf] slot_contents_key [OF wf] by metis
qed

lemma update_map_one:
  "distinct (map step_key us) \<Longrightarrow> u \<in> set us \<Longrightarrow> update_map m us (step_key u) = step_result u"
  by (induction us arbitrary: m) (auto simp: update_map_other)

lemma fold_step_keys:
  assumes "slot_wf key t" "distinct (map step_key us)"
  shows "slot_keys key (fold step us t) =
    slot_keys key t
    @ map step_key (filter (\<lambda>u. step_result u \<noteq> None \<and> step_key u \<notin> set (slot_keys key t)) us)"
  using assms
proof (induction us arbitrary: t)
  case Nil
  then show ?case by simp
next
  case (Cons u us)
  let ?t = "step u t"
  have other: "step_key w \<noteq> step_key u" if "w \<in> set us" for w
    using Cons.prems(2) that by (metis distinct.simps(2) image_eqI list.map(2) list.set_map)
  have keys: "slot_keys key ?t = slot_keys key t @
      (if step_result u = None \<or> step_key u \<in> set (slot_keys key t) then [] else [step_key u])"
    using Cons.prems(1) by (rule step_keys)
  have "filter (\<lambda>w. step_result w \<noteq> None \<and> step_key w \<notin> set (slot_keys key ?t)) us
      = filter (\<lambda>w. step_result w \<noteq> None \<and> step_key w \<notin> set (slot_keys key t)) us"
    using other by (intro filter_cong) (auto simp: keys)
  moreover have "slot_keys key (fold step us ?t) = slot_keys key ?t
      @ map step_key (filter (\<lambda>w. step_result w \<noteq> None \<and> step_key w \<notin> set (slot_keys key ?t)) us)"
    using Cons.prems by (intro Cons.IH step_wf) auto
  ultimately show ?case by (simp add: keys)
qed

text \<open>Existing keys keep their positions, new keys follow in the order of the updates.\<close>

lemma result_order:
  assumes "distinct (map key xs)" "distinct (map step_key us)"
  shows "map key (slot_active (fold step us (init xs))) =
    filter (\<lambda>k. update_map (slot_contents (init xs)) us k \<noteq> None)
      (slot_keys key (init xs)
       @ map step_key (filter (\<lambda>u. step_result u \<noteq> None
           \<and> step_key u \<notin> set (slot_keys key (init xs))) us))"
proof -
  have wf: "slot_wf key (init xs)" using assms(1) by (rule init_wf)
  have "map key (slot_active (fold step us (init xs))) =
      filter (\<lambda>k. slot_contents (fold step us (init xs)) k \<noteq> None)
        (slot_keys key (fold step us (init xs)))"
    by (rule slot_active_keys) (rule fold_step_wf [OF wf])
  then show ?thesis
    by (simp only: fold_step_contents [OF wf] fold_step_keys [OF wf assms(2)])
qed

end

end
