(* ===== verification/SnapshotDiff.thy ===== *)
theory SnapshotDiff
  imports LiveModel SlotTable
begin

text \<open>
  \<^verbatim>\<open>core/worktree/diff.go\<close>: the semantic difference of two snapshots, the
  application of an overlay of values and tombstones, the committed projection, and the
  categorised public diff. The lemmas relate each of them to the finite map a list of
  states denotes.
\<close>

section \<open>The order of identities\<close>

fun liveKindRank :: "live_kind \<Rightarrow> nat" where
  "liveKindRank LiveEnv = 0"
| "liveKindRank LiveAlias = 1"
| "liveKindRank LiveFunction = 2"
| "liveKindRank LivePath = 3"
| "liveKindRank LiveFPath = 4"
| "liveKindRank LiveOption = 5"
| "liveKindRank (LiveOther s) = 6"

definition identityLess :: "identity \<Rightarrow> identity \<Rightarrow> bool" where
  "identityLess l r =
     (if liveKindRank (id_kind l) \<noteq> liveKindRank (id_kind r)
      then liveKindRank (id_kind l) < liveKindRank (id_kind r)
      else id_name l < id_name r)"

text \<open>
  \<^verbatim>\<open>sort.Slice\<close> with \<^verbatim>\<open>identityLess\<close> leaves the order of two
  identities of unsupported kinds and equal names open. The linear order below refines
  \<^const>\<open>identityLess\<close> by the kind's text, and agrees with it on supported kinds.
\<close>

definition identity_rank :: "identity \<Rightarrow> nat \<times> string \<times> string" where
  "identity_rank i =
     (liveKindRank (id_kind i), id_name i, case id_kind i of LiveOther s \<Rightarrow> s | _ \<Rightarrow> [])"

lemma identity_rank_inject: "identity_rank i = identity_rank j \<longleftrightarrow> i = j"
proof
  assume eq: "identity_rank i = identity_rank j"
  have "id_kind i = id_kind j"
    using eq by (cases "id_kind i"; cases "id_kind j") (auto simp: identity_rank_def)
  moreover have "id_name i = id_name j"
    using eq by (simp add: identity_rank_def)
  ultimately show "i = j" by (simp add: identity.expand)
qed simp

instantiation identity :: linorder
begin

definition less_eq_identity :: "identity \<Rightarrow> identity \<Rightarrow> bool" where
  "less_eq_identity i j \<longleftrightarrow> identity_rank i \<le> identity_rank j"

definition less_identity :: "identity \<Rightarrow> identity \<Rightarrow> bool" where
  "less_identity i j \<longleftrightarrow> identity_rank i < identity_rank j"

instance
  by standard
     (auto simp: less_eq_identity_def less_identity_def identity_rank_inject less_le_not_le
       intro: order_trans)

end

lemma identityLess_iff_less:
  assumes "supported_kind (id_kind l)" "supported_kind (id_kind r)"
  shows "identityLess l r \<longleftrightarrow> l < r"
proof -
  have plain: "supported_kind k \<Longrightarrow> (case k of LiveOther s \<Rightarrow> s | _ \<Rightarrow> []) = []" for k
    by (cases k) auto
  show ?thesis
    using plain [OF assms(1)] plain [OF assms(2)]
    by (auto simp: identityLess_def less_identity_def identity_rank_def less_prod_def less_le)
qed

definition sortIdentities :: "identity list \<Rightarrow> identity list" where
  "sortIdentities ids = sort ids"

lemma sortIdentities_distinct:
  "distinct ids \<Longrightarrow> sortIdentities ids = sorted_list_of_set (set ids)"
  by (simp add: sortIdentities_def sorted_list_of_set_sort_remdups distinct_remdups_id)

section \<open>The difference of two snapshots\<close>

definition ValidateSnapshot :: "live_snapshot \<Rightarrow> unit result" where
  "ValidateSnapshot = ValidateLiveSnapshot"

text \<open>
  A Go map is an association list; its iteration order, unspecified in Go, is the order
  of insertion here. The identities are sorted before use, and
  \<open>DiffSnapshot_refDiff\<close> shows that the order of insertion has no effect.
\<close>

definition presentStateMap :: "live_state list \<Rightarrow> (identity \<times> live_value) list" where
  "presentStateMap states =
     fold (\<lambda>s m. if lv_present (ls_value s) then assoc_put (ls_identity s) (ls_value s) m else m)
       states []"

definition diffIdentities ::
  "(identity \<times> live_value) list \<Rightarrow> (identity \<times> live_value) list \<Rightarrow> identity list" where
  "diffIdentities before after =
     map fst before @ filter (\<lambda>i. i \<notin> fst ` set before) (map fst after)"

definition diffChange ::
  "(identity \<Rightarrow> live_value option) \<Rightarrow> (identity \<Rightarrow> live_value option) \<Rightarrow> identity \<Rightarrow> live_change option"
  where
  "diffChange before after i =
     (case (before i, after i) of
        (None, Some v) \<Rightarrow>
          Some \<lparr>ch_kind = LiveAdd, ch_identity = i, ch_value = CloneLiveValue v\<rparr>
      | (Some v, None) \<Rightarrow>
          Some \<lparr>ch_kind = LiveRemove, ch_identity = i, ch_value = RemovedLiveValue\<rparr>
      | (Some v, Some w) \<Rightarrow>
          (if EqualLiveValue (id_kind i) v w then None
           else Some \<lparr>ch_kind = LiveUpdate, ch_identity = i, ch_value = CloneLiveValue w\<rparr>)
      | (None, None) \<Rightarrow> None)"

definition DiffSnapshot :: "live_snapshot \<Rightarrow> live_snapshot \<Rightarrow> live_change list result" where
  "DiffSnapshot before after =
     bindR (ValidateSnapshot before) (\<lambda>_.
     bindR (ValidateSnapshot after) (\<lambda>_.
     bindR (NormalizeLiveStates (sn_states before)) (\<lambda>beforeStates.
     bindR (NormalizeLiveStates (sn_states after)) (\<lambda>afterStates.
       let beforeBy = presentStateMap beforeStates;
           afterBy = presentStateMap afterStates
       in Inr (List.map_filter (diffChange (map_of beforeBy) (map_of afterBy))
                (sortIdentities (diffIdentities beforeBy afterBy)))))))"

text \<open>A snapshot literal \<^verbatim>\<open>model.LiveSnapshot{States: s}\<close> has byte size 0.\<close>

definition snap :: "live_state list \<Rightarrow> live_snapshot" where
  "snap ss = \<lparr>sn_byte_size = 0, sn_states = ss\<rparr>"

lemma sn_states_snap [simp]: "sn_states (snap ss) = ss" "sn_byte_size (snap ss) = 0"
  by (simp_all add: snap_def)

section \<open>Overlays and projections\<close>

definition overlayBase :: "live_state list \<Rightarrow> (identity, live_state) slot_table" where
  "overlayBase base =
     fold (\<lambda>s t. if \<not> lv_present (ls_value s) then t
                 else slot_append (ls_identity s) (CloneLiveState s, True) t)
       base slot_empty"

definition overlayStep ::
  "overlay_entry \<Rightarrow> (identity, live_state) slot_table \<Rightarrow> (identity, live_state) slot_table" where
  "overlayStep e t =
     (if ov_tombstone e then slot_drop (ov_identity e) t
      else slot_put (ov_identity e)
        \<lparr>ls_identity = ov_identity e, ls_value = CloneLiveValue (ov_value e)\<rparr> t)"

definition applyNormalizedOverlay :: "live_state list \<Rightarrow> overlay_entry list \<Rightarrow> live_state list" where
  "applyNormalizedOverlay base overlay = slot_active (fold overlayStep overlay (overlayBase base))"

definition ApplyOverlay :: "live_state list \<Rightarrow> overlay_entry list \<Rightarrow> live_state list result" where
  "ApplyOverlay base overlay =
     bindR (NormalizeLiveStates base) (\<lambda>b.
     bindR (NormalizeOverlay overlay) (\<lambda>ov. Inr (applyNormalizedOverlay b ov)))"

definition BuildProjection :: "live_state list \<Rightarrow> overlay_entry list \<Rightarrow> live_projection result" where
  "BuildProjection base overlay =
     bindR (NormalizeLiveStates base) (\<lambda>b.
     bindR (NormalizeOverlay overlay) (\<lambda>ov.
       Inr \<lparr>pr_schema = WorktreeSchemaV1,
            pr_states = CloneLiveStates (applyNormalizedOverlay b ov),
            pr_tombstones = map ov_identity (filter ov_tombstone ov)\<rparr>))"

section \<open>Changes and the categorised diff\<close>

definition validateLiveChange :: "live_change \<Rightarrow> unit result" where
  "validateLiveChange c =
     bindR (ValidateIdentity (ch_identity c)) (\<lambda>_.
       case ch_kind c of
         LiveRemove \<Rightarrow>
           bindR (ValidateLiveValue (id_kind (ch_identity c)) (ch_value c)) (\<lambda>_.
             if lv_present (ch_value c)
             then Inl (Errorf ''remove live change carries a value'') else OK)
       | LiveChangeOther _ \<Rightarrow> Inl (Errorf ''live change kind %q is unsupported'')
       | _ \<Rightarrow>
           bindR (ValidateLiveValue (id_kind (ch_identity c)) (ch_value c)) (\<lambda>_.
             if \<not> lv_present (ch_value c)
             then Inl (Errorf ''add/update live change has no value'') else OK))"

record diff_entry =
  de_kind :: change_kind
  de_identity :: identity

record categorized_diff =
  cd_environment :: "diff_entry list"
  cd_aliases :: "diff_entry list"
  cd_functions :: "diff_entry list"
  cd_path :: "diff_entry list"
  cd_fpath :: "diff_entry list"
  cd_options :: "diff_entry list"

fun diffEntries :: "identity set \<Rightarrow> live_change list \<Rightarrow> diff_entry list result" where
  "diffEntries seen [] = Inr []"
| "diffEntries seen (c # cs) =
     bindR (validateLiveChange c) (\<lambda>_.
       if ch_identity c \<in> seen then Inl (Errorf ''duplicate live change for %s/%s'')
       else bindR (diffEntries (insert (ch_identity c) seen) cs) (\<lambda>es.
         Inr (\<lparr>de_kind = ch_kind c, de_identity = ch_identity c\<rparr> # es)))"

definition entries_of_kind :: "live_kind \<Rightarrow> diff_entry list \<Rightarrow> diff_entry list" where
  "entries_of_kind k es = filter (\<lambda>e. id_kind (de_identity e) = k) es"

definition CategorizeDiff :: "live_change list \<Rightarrow> categorized_diff result" where
  "CategorizeDiff changes =
     bindR (diffEntries {} changes) (\<lambda>es.
       let sorted = sort_key de_identity es
       in Inr \<lparr>cd_environment = entries_of_kind LiveEnv sorted,
               cd_aliases = entries_of_kind LiveAlias sorted,
               cd_functions = entries_of_kind LiveFunction sorted,
               cd_path = entries_of_kind LivePath sorted,
               cd_fpath = entries_of_kind LiveFPath sorted,
               cd_options = entries_of_kind LiveOption sorted\<rparr>)"

section \<open>The difference against finite maps\<close>

definition refChange ::
  "(identity \<Rightarrow> live_value option) \<Rightarrow> (identity \<Rightarrow> live_value option) \<Rightarrow> identity \<Rightarrow> live_change option"
  where
  "refChange ma mb i =
     (case (ma i, mb i) of
        (None, Some v) \<Rightarrow> Some \<lparr>ch_kind = LiveAdd, ch_identity = i, ch_value = v\<rparr>
      | (Some v, None) \<Rightarrow> Some \<lparr>ch_kind = LiveRemove, ch_identity = i, ch_value = RemovedLiveValue\<rparr>
      | (Some v, Some w) \<Rightarrow>
          (if v = w then None else Some \<lparr>ch_kind = LiveUpdate, ch_identity = i, ch_value = w\<rparr>)
      | (None, None) \<Rightarrow> None)"

definition refDiff ::
  "(identity \<Rightarrow> live_value option) \<Rightarrow> (identity \<Rightarrow> live_value option) \<Rightarrow> live_change list" where
  "refDiff ma mb = List.map_filter (refChange ma mb) (sorted_list_of_set (dom ma \<union> dom mb))"

text \<open>What a list of changes does to a finite map.\<close>

definition change_result :: "live_change \<Rightarrow> live_value option" where
  "change_result c = (if ch_kind c = LiveRemove then None else Some (CloneLiveValue (ch_value c)))"

fun applyMap ::
  "(identity \<Rightarrow> live_value option) \<Rightarrow> live_change list \<Rightarrow> (identity \<Rightarrow> live_value option)" where
  "applyMap m [] = m"
| "applyMap m (c # cs) = applyMap (m(ch_identity c := change_result c)) cs"

lemma refChange_identity: "refChange ma mb i = Some c \<Longrightarrow> ch_identity c = i"
  by (auto simp: refChange_def split: option.splits if_splits)

lemma refChange_eq_Some:
  "refChange ma mb i = Some c \<longleftrightarrow> ch_identity c = i \<and>
     (ma i = None \<and> mb i = Some (ch_value c) \<and> ch_kind c = LiveAdd
      \<or> ma i \<noteq> None \<and> mb i = None \<and> ch_kind c = LiveRemove \<and> ch_value c = RemovedLiveValue
      \<or> ma i \<noteq> None \<and> ma i \<noteq> mb i \<and> mb i = Some (ch_value c) \<and> ch_kind c = LiveUpdate)"
  by (cases c) (auto simp: refChange_def split: option.splits)

lemma refChange_None: "refChange ma mb i = None \<longleftrightarrow> ma i = mb i"
  by (auto simp: refChange_def split: option.splits)

lemma refChange_result:
  assumes "refChange ma mb i = Some c" "\<And>v. mb i = Some v \<Longrightarrow> CloneLiveValue v = v"
  shows "change_result c = mb i"
  using assms by (auto simp: refChange_def change_result_def split: option.splits if_splits)

lemma in_map_filter: "y \<in> set (List.map_filter f xs) \<longleftrightarrow> (\<exists>x \<in> set xs. f x = Some y)"
  by (induction xs) (auto simp: List.map_filter_simps split: option.splits)

lemma map_map_filter_key:
  assumes "\<And>x y. f x = Some y \<Longrightarrow> key y = x"
  shows "map key (List.map_filter f xs) = filter (\<lambda>x. f x \<noteq> None) xs"
  using assms by (induction xs) (auto simp: List.map_filter_simps split: option.splits)

lemma set_refDiff:
  assumes "finite (dom ma)" "finite (dom mb)"
  shows "c \<in> set (refDiff ma mb) \<longleftrightarrow> refChange ma mb (ch_identity c) = Some c"
proof
  assume "c \<in> set (refDiff ma mb)"
  then show "refChange ma mb (ch_identity c) = Some c"
    by (auto simp: refDiff_def in_map_filter dest: refChange_identity)
next
  assume c: "refChange ma mb (ch_identity c) = Some c"
  then have "ch_identity c \<in> dom ma \<union> dom mb"
    by (auto simp: refChange_def split: option.splits if_splits)
  with c assms show "c \<in> set (refDiff ma mb)"
    by (auto simp: refDiff_def in_map_filter)
qed

lemma refDiff_identities:
  "map ch_identity (refDiff ma mb) =
     filter (\<lambda>i. refChange ma mb i \<noteq> None) (sorted_list_of_set (dom ma \<union> dom mb))"
  unfolding refDiff_def by (rule map_map_filter_key) (rule refChange_identity)

lemma refDiff_distinct: "distinct (map ch_identity (refDiff ma mb))"
  by (simp add: refDiff_identities)

lemma refDiff_sorted: "sorted (map ch_identity (refDiff ma mb))"
  by (simp add: refDiff_identities sorted_wrt_filter)

lemma refDiff_Nil:
  assumes "finite (dom ma)" "finite (dom mb)"
  shows "refDiff ma mb = [] \<longleftrightarrow> ma = mb"
proof
  assume nil: "refDiff ma mb = []"
  show "ma = mb"
  proof
    fix i
    show "ma i = mb i"
    proof (rule ccontr)
      assume "ma i \<noteq> mb i"
      then obtain c where c: "refChange ma mb i = Some c"
        using refChange_None [of ma mb i] by auto
      then have "c \<in> set (refDiff ma mb)"
        using set_refDiff [OF assms] refChange_identity [OF c] by simp
      with nil show False by simp
    qed
  qed
next
  assume "ma = mb"
  then have "\<not> c \<in> set (refDiff ma mb)" for c
    using set_refDiff [OF assms, of c] refChange_None [of ma mb "ch_identity c"] by simp
  then show "refDiff ma mb = []"
    by (metis list.set_intros(1) neq_Nil_conv)
qed

lemma applyMap_other: "i \<notin> ch_identity ` set cs \<Longrightarrow> applyMap m cs i = m i"
  by (induction cs arbitrary: m) auto

lemma applyMap_one:
  "distinct (map ch_identity cs) \<Longrightarrow> c \<in> set cs \<Longrightarrow> applyMap m cs (ch_identity c) = change_result c"
  by (induction cs arbitrary: m) (auto simp: applyMap_other)

lemma applyMap_clone [simp]: "applyMap m (CloneLiveChanges cs) = applyMap m cs"
  by (induction cs arbitrary: m) (simp_all add: CloneLiveChanges_def change_result_def)

lemma applyMap_append: "applyMap m (cs @ ds) = applyMap (applyMap m cs) ds"
  by (induction cs arbitrary: m) auto

lemma applyMap_refDiff:
  assumes "finite (dom ma)" "finite (dom mb)" "\<And>i v. mb i = Some v \<Longrightarrow> CloneLiveValue v = v"
  shows "applyMap ma (refDiff ma mb) = mb"
proof
  fix i
  show "applyMap ma (refDiff ma mb) i = mb i"
  proof (cases "refChange ma mb i")
    case None
    then have "i \<notin> ch_identity ` set (refDiff ma mb)"
      by (auto simp: set_refDiff [OF assms(1,2)])
    then show ?thesis
      using None by (simp add: applyMap_other refChange_None)
  next
    case (Some c)
    then have "ch_identity c = i" by (rule refChange_identity)
    moreover from this Some have "c \<in> set (refDiff ma mb)"
      by (simp add: set_refDiff [OF assms(1,2)])
    moreover have "change_result c = mb i"
      by (rule refChange_result [OF Some]) (rule assms(3))
    ultimately show ?thesis
      using applyMap_one [OF refDiff_distinct, of c ma mb ma] by simp
  qed
qed

section \<open>The code's difference is the reference difference\<close>

lemma fold_presentStateMap:
  assumes "distinct (map ls_identity ss)"
  shows "map_of (fold (\<lambda>s m. if lv_present (ls_value s)
             then assoc_put (ls_identity s) (ls_value s) m else m) ss m) i =
    (case map_of (map (\<lambda>s. (ls_identity s, ls_value s)) (filter (\<lambda>s. lv_present (ls_value s)) ss)) i of
       None \<Rightarrow> map_of m i | Some v \<Rightarrow> Some v)"
  using assms
proof (induction ss arbitrary: m)
  case Nil
  then show ?case by simp
next
  case (Cons s ss)
  have absent: "map_of (map (\<lambda>s. (ls_identity s, ls_value s))
      (filter (\<lambda>s. lv_present (ls_value s)) ss)) (ls_identity s) = None"
    using Cons.prems by (auto simp: map_of_eq_None_iff image_image)
  show ?case
    using Cons.IH Cons.prems absent by (auto split: option.splits)
qed

lemma distinct_presentStateMap: "distinct (map fst (presentStateMap ss))"
proof -
  have "distinct (map fst m) \<Longrightarrow> distinct (map fst (fold (\<lambda>s m. if lv_present (ls_value s)
      then assoc_put (ls_identity s) (ls_value s) m else m) ss m))" for m
    by (induction ss arbitrary: m) (auto simp: distinct_assoc_put)
  then show ?thesis by (simp add: presentStateMap_def)
qed

lemma map_of_presentStateMap:
  assumes "NormalizeLiveStates ss = Inr ns"
  shows "map_of (presentStateMap ns) = live_map ss"
proof
  fix i
  have ns: "distinct (map ls_identity ns)" "\<And>s. s \<in> set ns \<Longrightarrow> CloneLiveValue (ls_value s) = ls_value s"
    using assms by (auto simp: NormalizeLiveStates_eq_Inr comp_def)
  let ?pairs = "map (\<lambda>s. (ls_identity s, ls_value s)) (filter (\<lambda>s. lv_present (ls_value s)) ns)"
  have d: "distinct (map fst ?pairs)"
    using ns(1) by (simp add: comp_def distinct_map_filter)
  have "map_of (presentStateMap ns) i = map_of ?pairs i"
    unfolding presentStateMap_def fold_presentStateMap [OF ns(1)] by (simp split: option.splits)
  moreover have "map_of ?pairs i = Some v \<longleftrightarrow> live_map ns i = Some v" for v
    using ns(2) by (auto simp: map_of_eq_Some_iff [OF d] live_map_distinct [OF ns(1)])
  ultimately have "map_of (presentStateMap ns) i = live_map ns i"
    by (metis not_None_eq)
  then show "map_of (presentStateMap ns) i = live_map ss i"
    using live_map_normalize [OF assms] by simp
qed

lemma sortIdentities_diffIdentities:
  assumes "distinct (map fst b)" "distinct (map fst a)"
  shows "sortIdentities (diffIdentities b a) =
    sorted_list_of_set (dom (map_of b) \<union> dom (map_of a))"
proof -
  have "distinct (diffIdentities b a)"
    using assms by (auto simp: diffIdentities_def distinct_filter)
  moreover have "set (diffIdentities b a) = dom (map_of b) \<union> dom (map_of a)"
    by (auto simp: diffIdentities_def dom_map_of_conv_image_fst)
  ultimately show ?thesis by (simp add: sortIdentities_distinct)
qed

lemma diffChange_refChange:
  assumes "\<forall>s \<in> set ss. ValidateLiveIdentityState s = OK" "\<forall>s \<in> set ts. ValidateLiveIdentityState s = OK"
  shows "diffChange (live_map ss) (live_map ts) i = refChange (live_map ss) (live_map ts) i"
proof -
  have "EqualLiveValue (id_kind i) v w \<longleftrightarrow> v = w"
    if "live_map ss i = Some v" "live_map ts i = Some w" for v w
    using live_map_valid [OF assms(1) that(1)] live_map_valid [OF assms(2) that(2)]
      live_map_Some_present [OF that(1)] live_map_Some_present [OF that(2)]
      live_map_Some_clone [OF that(1)] live_map_Some_clone [OF that(2)]
    by (simp add: EqualLiveValue_iff_clone)
  then show ?thesis
    by (auto simp: diffChange_def refChange_def live_map_Some_clone split: option.splits)
qed

lemma ValidateSnapshot_states:
  "ValidateSnapshot sn = OK \<Longrightarrow> \<forall>s \<in> set (sn_states sn). ValidateLiveIdentityState s = OK"
  by (simp add: ValidateSnapshot_def ValidateLiveSnapshot_eq_OK)

lemma DiffSnapshot_refDiff:
  assumes b: "ValidateSnapshot b = OK" and a: "ValidateSnapshot a = OK"
  shows "DiffSnapshot b a = Inr (refDiff (live_map (sn_states b)) (live_map (sn_states a)))"
proof -
  obtain bs where bs: "NormalizeLiveStates (sn_states b) = Inr bs"
    using ValidateSnapshot_states [OF b] by (simp add: NormalizeLiveStates_eq_Inr)
  obtain as where as: "NormalizeLiveStates (sn_states a) = Inr as"
    using ValidateSnapshot_states [OF a] by (simp add: NormalizeLiveStates_eq_Inr)
  have "diffChange (live_map (sn_states b)) (live_map (sn_states a))
      = refChange (live_map (sn_states b)) (live_map (sn_states a))"
    using diffChange_refChange [OF ValidateSnapshot_states [OF b] ValidateSnapshot_states [OF a]]
    by blast
  then show ?thesis
    by (simp add: DiffSnapshot_def b a bs as Let_def map_of_presentStateMap [OF bs]
        map_of_presentStateMap [OF as] sortIdentities_diffIdentities distinct_presentStateMap
        refDiff_def)
qed

lemma DiffSnapshot_eq_Inr [result_simps]:
  "DiffSnapshot b a = Inr cs \<longleftrightarrow>
     ValidateSnapshot b = OK \<and> ValidateSnapshot a = OK
     \<and> cs = refDiff (live_map (sn_states b)) (live_map (sn_states a))"
proof -
  have "ValidateSnapshot b = OK \<and> ValidateSnapshot a = OK" if "DiffSnapshot b a = Inr cs"
    using that by (auto simp: DiffSnapshot_def bindR_eq_Inr)
  then show ?thesis using DiffSnapshot_refDiff [of b a] by auto
qed

lemma refDiff_valid:
  assumes "\<forall>s \<in> set ss. ValidateLiveIdentityState s = OK" "\<forall>s \<in> set ts. ValidateLiveIdentityState s = OK"
    and "c \<in> set (refDiff (live_map ss) (live_map ts))"
  shows "validateLiveChange c = OK"
proof -
  have c: "refChange (live_map ss) (live_map ts) (ch_identity c) = Some c"
    using assms(3) by (simp add: set_refDiff)
  show ?thesis
  proof (cases "live_map ts (ch_identity c)")
    case None
    with c obtain v where v: "live_map ss (ch_identity c) = Some v"
      and "ch_kind c = LiveRemove" "ch_value c = RemovedLiveValue"
      by (auto simp: refChange_eq_Some)
    then show ?thesis
      using live_map_valid [OF assms(1) v]
      by (simp add: validateLiveChange_def RemovedLiveValue_def ValidateLiveValue_def)
  next
    case (Some w)
    with c have "ch_value c = w" "ch_kind c = LiveAdd \<or> ch_kind c = LiveUpdate"
      by (auto simp: refChange_eq_Some)
    then show ?thesis
      using live_map_valid [OF assms(2) Some] live_map_Some_present [OF Some]
      by (auto simp: validateLiveChange_def)
  qed
qed

section \<open>Overlays against finite maps\<close>

definition overlay_result :: "overlay_entry \<Rightarrow> live_state option" where
  "overlay_result e =
     (if ov_tombstone e then None
      else Some \<lparr>ls_identity = ov_identity e, ls_value = CloneLiveValue (ov_value e)\<rparr>)"

definition present_entry :: "live_state \<Rightarrow> (live_state \<times> bool) option" where
  "present_entry s = (if lv_present (ls_value s) then Some (CloneLiveState s, True) else None)"

lemma overlayBase_load: "overlayBase base = slot_load ls_identity present_entry base slot_empty"
  unfolding overlayBase_def slot_load_def present_entry_def
  by (rule arg_cong [where f = "\<lambda>f. fold f base slot_empty"]) (auto simp: fun_eq_iff)

lemma present_entry_key: "present_entry s = Some y \<Longrightarrow> ls_identity (fst y) = ls_identity s"
  by (auto simp: present_entry_def split: if_splits)

interpretation overlay: keyed_update ls_identity ov_identity overlay_result overlayBase overlayStep
    "entry_visible present_entry"
proof unfold_locales
  fix t :: "(identity, live_state) slot_table" and u
  assume wf: "slot_wf ls_identity t"
  show "slot_keys ls_identity (overlayStep u t) = slot_keys ls_identity t
      @ (if overlay_result u = None \<or> ov_identity u \<in> set (slot_keys ls_identity t)
         then [] else [ov_identity u])"
    using wf by (simp add: overlayStep_def overlay_result_def slot_keys_drop slot_keys_put)
  show "slot_wf ls_identity (overlayStep u t)"
    using wf by (simp add: overlayStep_def slot_wf_drop slot_wf_put)
  show "slot_contents (overlayStep u t) = (slot_contents t)(ov_identity u := overlay_result u)"
    using wf by (simp add: overlayStep_def overlay_result_def slot_contents_drop slot_contents_put)
next
  fix xs :: "live_state list" and k
  assume d: "distinct (map ls_identity xs)"
  note load = slot_load_empty [where entry = present_entry, OF d present_entry_key]
  show "slot_wf ls_identity (overlayBase xs)"
    by (simp add: overlayBase_load load)
  show "slot_contents (overlayBase xs) k =
      Option.bind (map_of (map (\<lambda>x. (ls_identity x, x)) xs) k) (entry_visible present_entry)"
    by (simp add: overlayBase_load load)
qed

text \<open>What an overlay does to a finite map.\<close>

fun overlayMap ::
  "(identity \<Rightarrow> live_value option) \<Rightarrow> overlay_entry list \<Rightarrow> (identity \<Rightarrow> live_value option)" where
  "overlayMap m [] = m"
| "overlayMap m (e # es) =
     overlayMap (m(ov_identity e :=
       (if ov_tombstone e then None else Some (CloneLiveValue (ov_value e))))) es"

lemma map_of_self:
  "map_of (map (\<lambda>x. (key x, x)) xs) k = Some x \<Longrightarrow> x \<in> set xs \<and> key x = k"
  by (induction xs) (auto split: if_splits)

lemma live_map_of_states:
  assumes "distinct (map ls_identity ss)"
  shows "live_map ss i =
    map_option ls_value (Option.bind (map_of (map (\<lambda>x. (ls_identity x, x)) ss) i) (entry_visible present_entry))"
proof (cases "map_of (map (\<lambda>x. (ls_identity x, x)) ss) i")
  case None
  then have "i \<notin> ls_identity ` set ss"
    by (simp add: map_of_eq_None_iff image_image)
  then have "live_map ss i = None"
    using dom_live_map_subset [of ss] by blast
  with None show ?thesis by simp
next
  case (Some x)
  then have x: "x \<in> set ss" "ls_identity x = i" using map_of_self by fastforce+
  have uniq: "s = x" if "s \<in> set ss" "ls_identity s = i" for s
    using assms x that by (simp add: distinct_map inj_on_def)
  show ?thesis
  proof (cases "lv_present (ls_value x)")
    case True
    then have "live_map ss i = Some (CloneLiveValue (ls_value x))"
      using x by (auto simp: live_map_distinct [OF assms])
    with Some True show ?thesis by (simp add: entry_visible_def present_entry_def)
  next
    case False
    have "live_map ss i = None"
    proof (rule ccontr)
      assume "live_map ss i \<noteq> None"
      then obtain v where "live_map ss i = Some v" by blast
      with uniq False show False by (auto simp: live_map_distinct [OF assms])
    qed
    with Some False show ?thesis by (simp add: entry_visible_def present_entry_def)
  qed
qed

lemma overlay_update_map:
  "map_option ls_value (overlay.update_map m es i) = overlayMap (\<lambda>i. map_option ls_value (m i)) es i"
proof (induction es arbitrary: m)
  case Nil
  then show ?case by simp
next
  case (Cons e es)
  have "(\<lambda>i. map_option ls_value ((m(ov_identity e := overlay_result e)) i)) =
      (\<lambda>i. map_option ls_value (m i))(ov_identity e :=
        (if ov_tombstone e then None else Some (CloneLiveValue (ov_value e))))"
    by (auto simp: overlay_result_def fun_eq_iff)
  with Cons show ?case by (simp only: overlay.update_map.simps overlayMap.simps)
qed

lemma applyNormalizedOverlay_distinct:
  "distinct (map ls_identity base) \<Longrightarrow> distinct (map ls_identity (applyNormalizedOverlay base es))"
  unfolding applyNormalizedOverlay_def by (rule overlay.result_distinct)

lemma validateOverlayEntry_present:
  "validateOverlayEntry e = OK \<Longrightarrow> \<not> ov_tombstone e \<Longrightarrow> lv_present (ov_value e)"
  by (auto simp: validateOverlayEntry_def bindR_eq_Inr split: if_splits)

lemma live_map_applyNormalizedOverlay:
  assumes d: "distinct (map ls_identity base)"
    and present: "\<And>e. e \<in> set es \<Longrightarrow> \<not> ov_tombstone e \<Longrightarrow> lv_present (ov_value e)"
  shows "live_map (applyNormalizedOverlay base es) = overlayMap (live_map base) es"
proof
  fix i
  let ?u = "overlay.update_map (slot_contents (overlayBase base)) es"
  have base: "slot_contents (overlayBase base) k =
      Option.bind (map_of (map (\<lambda>x. (ls_identity x, x)) base) k) (entry_visible present_entry)" for k
    using d by (rule overlay.init_contents)
  have good: "lv_present (ls_value x) \<and> CloneLiveValue (ls_value x) = ls_value x"
    if known: "?u k = Some x" for k x
  proof -
    consider "slot_contents (overlayBase base) k = Some x"
      | e where "e \<in> set es" "overlay_result e = Some x"
      using overlay.update_map_cases [of "slot_contents (overlayBase base)" es k] known by auto
    then show ?thesis
    proof cases
      case 1
      then show ?thesis
        by (auto simp: base bind_eq_Some_conv entry_visible_def present_entry_def split: if_splits)
    next
      case 2
      with present show ?thesis by (auto simp: overlay_result_def split: if_splits)
    qed
  qed
  have "live_map (applyNormalizedOverlay base es) i = Some v \<longleftrightarrow> map_option ls_value (?u i) = Some v" for v
    unfolding live_map_distinct [OF applyNormalizedOverlay_distinct [OF d]]
    unfolding applyNormalizedOverlay_def overlay.result_lookup [OF d]
    using good by auto
  then have "live_map (applyNormalizedOverlay base es) i = map_option ls_value (?u i)"
    by (metis not_None_eq)
  also have "\<dots> = overlayMap (\<lambda>i. map_option ls_value (slot_contents (overlayBase base) i)) es i"
    by (rule overlay_update_map)
  also have "(\<lambda>i. map_option ls_value (slot_contents (overlayBase base) i)) = live_map base"
    by (simp add: fun_eq_iff base live_map_of_states [OF d])
  finally show "live_map (applyNormalizedOverlay base es) i = overlayMap (live_map base) es i" .
qed

lemma overlayMap_other: "i \<notin> ov_identity ` set es \<Longrightarrow> overlayMap m es i = m i"
  by (induction es arbitrary: m) auto

lemma overlayMap_one:
  "distinct (map ov_identity es) \<Longrightarrow> e \<in> set es \<Longrightarrow>
     overlayMap m es (ov_identity e) = (if ov_tombstone e then None else Some (CloneLiveValue (ov_value e)))"
  by (induction es arbitrary: m) (auto simp: overlayMap_other)

text \<open>
  The order of an overlaid list: the present base identities that are not tombstoned in
  their base order, then the new identities in overlay order.
\<close>

lemma applyNormalizedOverlay_order:
  assumes d: "distinct (map ls_identity base)" "distinct (map ov_identity es)"
  shows "map ls_identity (applyNormalizedOverlay base es) =
    filter (\<lambda>i. i \<notin> ov_identity ` {e \<in> set es. ov_tombstone e})
      (map ls_identity (filter (\<lambda>s. lv_present (ls_value s)) base))
    @ map ov_identity (filter (\<lambda>e. \<not> ov_tombstone e
        \<and> ov_identity e \<notin> ls_identity ` {s \<in> set base. lv_present (ls_value s)}) es)"
proof -
  let ?u = "overlay.update_map (slot_contents (overlayBase base)) es"
  let ?keys = "map ls_identity (filter (\<lambda>s. lv_present (ls_value s)) base)"
  have "present_entry s \<noteq> None \<longleftrightarrow> lv_present (ls_value s)" for s
    by (cases "lv_present (ls_value s)") (simp_all add: present_entry_def)
  then have load: "slot_keys ls_identity (overlayBase base) = ?keys"
    using slot_load_empty(2) [where entry = present_entry, OF d(1) present_entry_key]
    by (simp add: overlayBase_load del: not_None_eq)
  have kept: "?u i \<noteq> None \<longleftrightarrow> i \<notin> ov_identity ` {e \<in> set es. ov_tombstone e}" if "i \<in> set ?keys" for i
  proof (cases "i \<in> ov_identity ` set es")
    case True
    then obtain e where e: "e \<in> set es" "i = ov_identity e" by blast
    have "?u i = overlay_result e"
      using overlay.update_map_one [OF d(2) e(1)] e(2) by simp
    moreover have "e' = e" if "e' \<in> set es" "ov_identity e' = i" for e'
      using d(2) e that by (simp add: distinct_map inj_on_def)
    then have "i \<in> ov_identity ` {e \<in> set es. ov_tombstone e} \<longleftrightarrow> ov_tombstone e"
      using e by blast
    ultimately show ?thesis by (simp add: overlay_result_def)
  next
    case False
    then have "?u i = slot_contents (overlayBase base) i" by (rule overlay.update_map_other)
    moreover have "slot_contents (overlayBase base) i \<noteq> None"
    proof -
      obtain slots indexes where t: "overlayBase base = (slots, indexes)" by (cases "overlayBase base")
      from that obtain s where s: "s \<in> set base" "lv_present (ls_value s)" "i = ls_identity s" by auto
      have "map_of (map (\<lambda>x. (ls_identity x, x)) base) i = Some s"
        using s d(1) by (intro map_of_is_SomeI) (auto simp: comp_def)
      then show ?thesis
        using s(2) overlay.init_contents [OF d(1), of i]
        by (simp add: entry_visible_def present_entry_def)
    qed
    ultimately show ?thesis using False by auto
  qed
  have new: "?u (ov_identity e) \<noteq> None" if "e \<in> set es" "\<not> ov_tombstone e" for e
    using overlay.update_map_one [OF d(2) that(1)] that(2) by (simp add: overlay_result_def)
  have "map ls_identity (applyNormalizedOverlay base es) =
      filter (\<lambda>k. ?u k \<noteq> None) (?keys @ map ov_identity (filter (\<lambda>e. overlay_result e \<noteq> None
        \<and> ov_identity e \<notin> set ?keys) es))"
    using overlay.result_order [OF d] by (simp add: applyNormalizedOverlay_def load)
  moreover have "filter (\<lambda>k. ?u k \<noteq> None) ?keys =
      filter (\<lambda>i. i \<notin> ov_identity ` {e \<in> set es. ov_tombstone e}) ?keys"
    using kept by (intro filter_cong) auto
  moreover have "filter (\<lambda>e. overlay_result e \<noteq> None \<and> ov_identity e \<notin> set ?keys) es =
      filter (\<lambda>e. \<not> ov_tombstone e
        \<and> ov_identity e \<notin> ls_identity ` {s \<in> set base. lv_present (ls_value s)}) es"
    by (intro filter_cong) (auto simp: overlay_result_def)
  moreover have "filter (\<lambda>k. ?u k \<noteq> None) (map ov_identity (filter (\<lambda>e. \<not> ov_tombstone e \<and> Q e) es))
      = map ov_identity (filter (\<lambda>e. \<not> ov_tombstone e \<and> Q e) es)" for Q
    using new by (auto simp: filter_id_conv)
  ultimately show ?thesis by simp
qed

end
