(* ===== verification/ProfileModel.thy ===== *)
theory ProfileModel
  imports LiveModel
begin

text \<open>
  The profile intermediate representation: \<^verbatim>\<open>core/model/category.go\<close>,
  \<^verbatim>\<open>block.go\<close>, \<^verbatim>\<open>secretref.go\<close>,
  \<^verbatim>\<open>profile.go\<close>, and the committed worktree document of
  \<^verbatim>\<open>worktree.go\<close>.
\<close>

section \<open>Categories, kinds, modes\<close>

text \<open>Open Go string types again carry a constructor for every other string.\<close>

datatype category =
    CatEnvironment | CatPath | CatSecrets | CatPlugins | CatOptions | CatKeybindings
  | CatFunctions | CatAliases | CatLocal | CatMisc | CatOther string

definition Categories :: "category list" where
  "Categories =
     [CatEnvironment, CatPath, CatSecrets, CatPlugins, CatOptions,
      CatKeybindings, CatFunctions, CatAliases, CatLocal, CatMisc]"

datatype block_kind =
    KindAssignment | KindAlias | KindFuncDecl | KindCommand | KindCompound | KindOther
  | KindUnknown string

datatype confidence = ConfLow | ConfMedium | ConfHigh

datatype value_mode =
    ValueModeLegacy | ValueModeLiteral | ValueModeDynamic | ValueModeUnsupported
  | ValueModeOther string

datatype managed_override = OverrideAuto | OverrideManaged | OverrideUnmanaged | OverrideOther string

datatype secret_ref_kind = SecretRefKeychain | SecretRefFile | SecretRefCmd | SecretRefOther string

fun secret_kind_string :: "secret_ref_kind \<Rightarrow> string" where
  "secret_kind_string SecretRefKeychain = ''keychain''"
| "secret_kind_string SecretRefFile = ''file''"
| "secret_kind_string SecretRefCmd = ''cmd''"
| "secret_kind_string (SecretRefOther s) = s"

record secret_ref =
  sr_kind :: secret_ref_kind
  sr_key :: string

section \<open>Semantic list values\<close>

record list_segment =
  sg_value :: string
  sg_source :: string
  sg_dynamic :: bool
  sg_self :: bool

record list_value =
  lv_segments :: "list_segment list"

text \<open>The loop of \<^verbatim>\<open>ListValue.Valid\<close>: the count of self markers, or rejection.\<close>

fun countSelf :: "nat \<Rightarrow> list_segment list \<Rightarrow> nat option" where
  "countSelf n [] = Some n"
| "countSelf n (s # ss) =
     (if sg_self s then
        (if sg_dynamic s \<or> sg_value s \<noteq> [] \<or> sg_source s \<noteq> [] then None
         else countSelf (Suc n) ss)
      else if sg_dynamic s then
        (if sg_value s \<noteq> [] \<or> sg_source s = [] then None else countSelf n ss)
      else if sg_source s \<noteq> [] then None
      else countSelf n ss)"

definition listValueValid :: "list_value \<Rightarrow> bool" where
  "listValueValid v = (countSelf 0 (lv_segments v) = Some 1)"

section \<open>Blocks\<close>

record block =
  bk_text :: string
  bk_start_line :: int
  bk_kind :: block_kind
  bk_cmd_name :: string
  bk_names :: "string list"
  bk_exported :: bool
  bk_opaque :: bool
  bk_category :: category
  bk_conf :: confidence
  bk_value :: string
  bk_dynamic :: bool
  bk_append :: bool
  bk_flagged :: bool
  bk_array :: bool
  bk_indexed :: bool
  bk_alias_assignment :: bool
  bk_declaration_flags :: "string list"
  bk_option_flags :: "string list"
  bk_value_mode :: value_mode
  bk_runtime_value :: "string option"
  bk_function_body :: "string option"
  bk_list_value :: "list_value option"

section \<open>Entries\<close>

record entry =
  en_text :: string
  en_start_line :: int
  en_category :: category
  en_kind :: block_kind
  en_cmd_name :: string
  en_names :: "string list"
  en_value :: string
  en_exported :: bool
  en_managed :: bool
  en_override :: managed_override
  en_dynamic :: bool
  en_fidelity_known :: bool
  en_append :: bool
  en_array :: bool
  en_flagged :: bool
  en_indexed :: bool
  en_alias_assignment :: bool
  en_declaration_flags :: "string list"
  en_option_flags :: "string list"
  en_secret :: "secret_ref option"
  en_value_mode :: value_mode
  en_runtime_value :: "string option"
  en_function_body :: "string option"
  en_list_value :: "list_value option"

type_synonym profile = "entry list"

definition EffectiveManaged :: "entry \<Rightarrow> bool" where
  "EffectiveManaged e =
     (case en_override e of
        OverrideManaged \<Rightarrow> True
      | OverrideUnmanaged \<Rightarrow> False
      | _ \<Rightarrow> en_managed e)"

definition declaration_commands :: "string list" where
  "declaration_commands = [''typeset'', ''declare'', ''local'', ''readonly'']"

definition DeclarationRepresentable :: "entry \<Rightarrow> bool" where
  "DeclarationRepresentable e =
     (if en_kind e \<noteq> KindAssignment then True
      else en_cmd_name e \<notin> set declaration_commands)"

definition optionSyntaxRepresentable :: "string list \<Rightarrow> bool" where
  "optionSyntaxRepresentable flags =
     (case flags of
        [] \<Rightarrow> True
      | [f] \<Rightarrow> f = ''--'' \<or> f = ''-o''
      | _ \<Rightarrow> False)"

definition Representable :: "entry \<Rightarrow> bool" where
  "Representable e =
     (if \<not> en_fidelity_known e then False
      else if \<not> DeclarationRepresentable e then False
      else if en_indexed e \<or> en_declaration_flags e \<noteq> [] then False
      else case en_kind e of
        KindAssignment \<Rightarrow> length (en_names e) = 1 \<and> \<not> en_append e \<and> \<not> en_array e
      | KindAlias \<Rightarrow> length (en_names e) = 1 \<and> en_alias_assignment e \<and> \<not> en_flagged e
      | KindCommand \<Rightarrow>
          (if en_cmd_name e \<noteq> ''setopt'' \<and> en_cmd_name e \<noteq> ''unsetopt'' then False
           else en_names e \<noteq> [] \<and> optionSyntaxRepresentable (en_option_flags e))
      | _ \<Rightarrow> True)"

text \<open>
  Copying a profile copies every slice and pointer; on values it is the identity.
\<close>

definition cloneProfileEntry :: "entry \<Rightarrow> entry" where
  "cloneProfileEntry e =
     e\<lparr>en_names := en_names e,
       en_declaration_flags := en_declaration_flags e,
       en_option_flags := en_option_flags e,
       en_secret := map_option (\<lambda>s. s) (en_secret e),
       en_runtime_value := map_option (\<lambda>v. v) (en_runtime_value e),
       en_function_body := map_option (\<lambda>v. v) (en_function_body e),
       en_list_value := map_option (\<lambda>v. \<lparr>lv_segments = lv_segments v\<rparr>) (en_list_value e)\<rparr>"

definition CloneProfile :: "profile \<Rightarrow> profile" where
  "CloneProfile p = map cloneProfileEntry p"

lemma cloneProfileEntry_id [simp]: "cloneProfileEntry e = e"
proof -
  have "map_option (\<lambda>v. \<lparr>lv_segments = lv_segments v\<rparr>) w = w" for w :: "list_value option"
    by (cases w) auto
  then show ?thesis by (simp add: cloneProfileEntry_def option.map_ident)
qed

lemma CloneProfile_id [simp]: "CloneProfile p = p"
  by (simp add: CloneProfile_def map_idI)

section \<open>The committed worktree document\<close>

record committed_worktree =
  cw_schema :: string
  cw_source :: profile
  cw_projection :: live_projection

definition NewCommittedWorktree :: "profile \<Rightarrow> live_projection \<Rightarrow> committed_worktree" where
  "NewCommittedWorktree source projection =
     (let projection' = projection\<lparr>pr_schema := WorktreeSchemaV1\<rparr>
      in \<lparr>cw_schema = WorktreeSchemaV1, cw_source = CloneProfile source,
          cw_projection = CloneLiveProjection projection'\<rparr>)"

lemma NewCommittedWorktree_sel [simp]:
  "cw_schema (NewCommittedWorktree s p) = WorktreeSchemaV1"
  "cw_source (NewCommittedWorktree s p) = s"
  "pr_schema (cw_projection (NewCommittedWorktree s p)) = WorktreeSchemaV1"
  "pr_states (cw_projection (NewCommittedWorktree s p)) = CloneLiveStates (pr_states p)"
  "pr_tombstones (cw_projection (NewCommittedWorktree s p)) = pr_tombstones p"
  by (simp_all add: NewCommittedWorktree_def CloneLiveProjection_def Let_def)

lemma NewCommittedWorktree_idem [simp]:
  "NewCommittedWorktree (cw_source (NewCommittedWorktree s p)) (cw_projection (NewCommittedWorktree s p))
     = NewCommittedWorktree s p"
  by (simp add: NewCommittedWorktree_def CloneLiveProjection_def Let_def)

section \<open>Facts\<close>

text \<open>Override wins over the automatic verdict.\<close>

lemma EffectiveManaged_cases:
  "EffectiveManaged e \<longleftrightarrow>
     en_override e = OverrideManaged \<or> (en_override e \<noteq> OverrideUnmanaged \<and> en_managed e)"
  by (cases "en_override e") (auto simp: EffectiveManaged_def)

lemma Representable_assignment:
  "Representable e \<Longrightarrow> en_kind e = KindAssignment \<Longrightarrow>
     \<exists>n. en_names e = [n] \<and> \<not> en_append e \<and> \<not> en_array e \<and> \<not> en_indexed e"
  by (auto simp: Representable_def length_Suc_conv split: if_splits)

lemma countSelf_Some:
  "countSelf n ss = Some m \<longleftrightarrow>
     m = n + length (filter sg_self ss)
     \<and> (\<forall>s \<in> set ss.
          if sg_self s then \<not> sg_dynamic s \<and> sg_value s = [] \<and> sg_source s = []
          else if sg_dynamic s then sg_value s = [] \<and> sg_source s \<noteq> []
          else sg_source s = [])"
proof (induction ss arbitrary: n)
  case Nil
  then show ?case by auto
next
  case (Cons s ss)
  show ?case using Cons [of n] Cons [of "Suc n"] by auto
qed

lemma listValueValid_iff:
  "listValueValid v \<longleftrightarrow>
     length (filter sg_self (lv_segments v)) = 1
     \<and> (\<forall>s \<in> set (lv_segments v).
          if sg_self s then \<not> sg_dynamic s \<and> sg_value s = [] \<and> sg_source s = []
          else if sg_dynamic s then sg_value s = [] \<and> sg_source s \<noteq> []
          else sg_source s = [])"
  by (auto simp: listValueValid_def countSelf_Some)

end
