(* ===== verification/StateModel.thy ===== *)
theory StateModel
  imports SnapshotDiff ProfileModel
begin

text \<open>
  The canonical shared state of \<^verbatim>\<open>core/worktree/state.go\<close>: its records, the
  complete validator \<^verbatim>\<open>ValidateState\<close>, the application of a list of
  changes, the compaction of the causal history, the snapshot fingerprint, the legal
  shell transitions and the garbage-collection guard.
\<close>

section \<open>Data\<close>

definition StateSchemaVersion :: int where "StateSchemaVersion = 1"
definition MaxStateEvents :: nat where "MaxStateEvents = 128"
definition MaxShellRecords :: nat where "MaxShellRecords = 128"
definition MaxOperationReceiptsPerShell :: nat where "MaxOperationReceiptsPerShell = 64"

datatype attach_state = AttachStateAtHead | AttachStateCleanReconcile | AttachStateOther string

datatype shell_transition =
    TransitionEmpty | TransitionAttach | TransitionCapture | TransitionUnpublished
  | TransitionPublish | TransitionPrepare | TransitionResolve | TransitionApply
  | TransitionFreshCapture | TransitionAcknowledge | TransitionOther string

datatype pending_kind = PendingNone | PendingPull | PendingResolution | PendingOther string

datatype receipt_kind =
    ReceiptAttach | ReceiptPublish | ReceiptPreparePull | ReceiptAcknowledge | ReceiptResolve
  | ReceiptOther string

datatype recovered_error =
    RecoveredNone | RecoveredLockUnavailable | RecoveredMalformedState | RecoveredPersistence
  | RecoveredApply | RecoveredOther string

text \<open>A Go array of 32 bytes is a byte string; its zero value is 32 zero bytes.\<close>

type_synonym fingerprint = string

definition zero32 :: string where "zero32 = replicate 32 (CHR 0x00)"

record state_event =
  se_revision :: u64
  se_operation_id :: string
  se_shell_id :: string
  se_changes :: "live_change list"

record pending_transition =
  pd_kind :: pending_kind
  pd_revision :: u64
  pd_fingerprint :: fingerprint
  pd_token :: resolution_token
  pd_conflict :: "identity option"
  pd_changes :: "live_change list"

definition noPending :: pending_transition where
  "noPending = \<lparr>pd_kind = PendingNone, pd_revision = 0, pd_fingerprint = zero32, pd_token = [],
     pd_conflict = None, pd_changes = []\<rparr>"

record shell_state =
  sh_verifier :: string
  sh_attach_state :: attach_state
  sh_attached_revision :: u64
  sh_applied_revision :: u64
  sh_applied_baseline :: "live_state list"
  sh_capture_baseline :: "live_state list"
  sh_unpublished :: "live_change list"
  sh_present_at_attach :: "identity list"
  sh_exclusions :: "exclusion list"
  sh_transition :: shell_transition
  sh_pending :: pending_transition
  sh_behind :: bool
  sh_auto_apply :: "bool option"
  sh_conflict :: "conflict option"
  sh_recovered :: recovered_error
  sh_last_active :: u64

record operation_receipt =
  or_shell_id :: string
  or_operation_id :: string
  or_kind :: receipt_kind
  or_fingerprint :: fingerprint
  or_attach :: "attach_result option"
  or_publish :: "publish_result option"
  or_prepare :: "prepare_pull_result option"
  or_acknowledge :: "acknowledge_result option"
  or_resolve :: "resolve_result option"

record wt_state =
  st_schema_version :: int
  st_materialized :: bool
  st_branch :: string
  st_base_oid :: string
  st_committed :: committed_worktree
  st_head_revision :: u64
  st_auto_apply_default :: bool
  st_admitted :: "identity list"
  st_shared :: "live_state list"
  st_compaction_floor :: u64
  st_compaction_baseline :: "live_state list"
  st_events :: "state_event list"
  st_shells :: "(string \<times> shell_state) list"
  st_receipts :: "operation_receipt list"
  st_admitted_missing :: bool

section \<open>Textual validity\<close>

definition validStateToken :: "string \<Rightarrow> bool" where
  "validStateToken v \<longleftrightarrow> 0 < length v \<and> length v \<le> MaxResolutionTokenBytes \<and> liveTokenRE v"

definition validStateReason :: "string \<Rightarrow> bool" where
  "validStateReason v \<longleftrightarrow> v \<noteq> [] \<and> length v \<le> MaxResolutionTokenBytes \<and> liveTokenRE v"

definition is_lower_hex :: "char \<Rightarrow> bool" where
  "is_lower_hex c \<longleftrightarrow> is_digit c \<or> (CHR ''a'' \<le> c \<and> c \<le> CHR ''f'')"

definition stateOIDRE :: "string \<Rightarrow> bool" where
  "stateOIDRE s \<longleftrightarrow> (length s = 40 \<or> length s = 64) \<and> list_all is_lower_hex s"

definition branch_rest :: "char \<Rightarrow> bool" where
  "branch_rest c \<longleftrightarrow> is_alnum c \<or> c \<in> set ''._/-''"

definition stateBranchRE :: "string \<Rightarrow> bool" where
  "stateBranchRE = match_first_rest is_alnum branch_rest"

fun containsSub :: "string \<Rightarrow> string \<Rightarrow> bool" where
  "containsSub p [] = (p = [])"
| "containsSub p (c # cs) = (take (length p) (c # cs) = p \<or> containsSub p cs)"

definition validStateBranch :: "string \<Rightarrow> bool" where
  "validStateBranch v \<longleftrightarrow>
     length v \<le> 255 \<and> \<not> containsSub ''..'' v
     \<and> \<not> (v \<noteq> [] \<and> last v = CHR ''/'') \<and> stateBranchRE v"

section \<open>Validators of the parts\<close>

fun validateIdentityListLoop :: "identity set \<Rightarrow> identity list \<Rightarrow> go_error \<Rightarrow> unit result" where
  "validateIdentityListLoop seen [] e = OK"
| "validateIdentityListLoop seen (i # is) e =
     (if ValidateIdentity i \<noteq> OK \<or> i \<in> seen then Inl e
      else validateIdentityListLoop (insert i seen) is e)"

definition validateIdentityList :: "identity list \<Rightarrow> unit result" where
  "validateIdentityList is = validateIdentityListLoop {} is (Errorf ''identity list is invalid'')"

fun validateChangesLoop :: "identity set \<Rightarrow> live_change list \<Rightarrow> unit result" where
  "validateChangesLoop seen [] = OK"
| "validateChangesLoop seen (c # cs) =
     (if ch_identity c \<in> seen then Inl (Errorf ''duplicate live change identity'')
      else bindR (validateLiveChange c)
        (\<lambda>_. validateChangesLoop (insert (ch_identity c) seen) cs))"

definition validateChanges :: "live_change list \<Rightarrow> unit result" where
  "validateChanges cs = validateChangesLoop {} cs"

definition validatePresentStates :: "live_state list \<Rightarrow> unit result" where
  "validatePresentStates states =
     (if MaxSnapshotRecords < length states
      then Inl (Errorf ''live state record limit exceeded'')
      else bindR (NormalizeLiveStates states) (\<lambda>normalized.
        if length normalized \<noteq> length states
        then Inl (Errorf ''live state contains duplicate identities'')
        else forE (\<lambda>s. if lv_present (ls_value s) then OK
                       else Inl (Errorf ''baseline contains an absent live value'')) states))"

fun validateTombstones :: "identity set \<Rightarrow> identity list \<Rightarrow> unit result" where
  "validateTombstones seen [] = OK"
| "validateTombstones seen (i # is) =
     bindR (ValidateIdentity i) (\<lambda>_.
       if i \<in> seen then Inl (Errorf ''committed projection has duplicate tombstone'')
       else validateTombstones (insert i seen) is)"

definition validateCommitted :: "committed_worktree \<Rightarrow> unit result" where
  "validateCommitted c =
     (if cw_schema c \<noteq> WorktreeSchemaV1 \<or> pr_schema (cw_projection c) \<noteq> WorktreeSchemaV1
      then Inl (Errorf ''committed worktree schema is invalid'')
      else bindR (validatePresentStates (pr_states (cw_projection c))) (\<lambda>_.
        validateTombstones {} (pr_tombstones (cw_projection c))))"

section \<open>Applying a list of changes\<close>

definition state_entry :: "live_state \<Rightarrow> (live_state \<times> bool) option" where
  "state_entry s = Some (s, lv_present (ls_value s))"

definition changeStep ::
  "live_change \<Rightarrow> (identity, live_state) slot_table \<Rightarrow> (identity, live_state) slot_table" where
  "changeStep c t =
     (if ch_kind c = LiveRemove then slot_drop (ch_identity c) t
      else slot_put (ch_identity c)
        \<lparr>ls_identity = ch_identity c, ls_value = CloneLiveValue (ch_value c)\<rparr> t)"

definition changeBase :: "live_state list \<Rightarrow> (identity, live_state) slot_table" where
  "changeBase current = slot_load ls_identity state_entry current slot_empty"

definition applyStateChanges :: "live_state list \<Rightarrow> live_change list \<Rightarrow> live_state list result" where
  "applyStateChanges states changes =
     bindR (validateChanges changes) (\<lambda>_.
     bindR (NormalizeLiveStates states) (\<lambda>current.
       Inr (slot_active (fold changeStep changes (changeBase current)))))"

definition equalLiveStates :: "live_state list \<Rightarrow> live_state list \<Rightarrow> bool" where
  "equalLiveStates left right =
     (case NormalizeLiveStates left of
        Inl _ \<Rightarrow> False
      | Inr nl \<Rightarrow>
          (if length nl \<noteq> length left then False
           else case NormalizeLiveStates right of
             Inl _ \<Rightarrow> False
           | Inr nr \<Rightarrow>
               (if length nr \<noteq> length right then False
                else case DiffSnapshot (snap nl) (snap nr) of
                  Inl _ \<Rightarrow> False
                | Inr changes \<Rightarrow> changes = [])))"

section \<open>The causal history\<close>

fun validateEventsFrom :: "u64 \<Rightarrow> state_event list \<Rightarrow> unit result" where
  "validateEventsFrom expected [] = OK"
| "validateEventsFrom expected (e # es) =
     (if se_revision e \<noteq> expected \<or> se_revision e = 0
      then Inl (Errorf ''revision events are nonmonotonic'')
      else if \<not> validStateToken (se_operation_id e)
      then Inl (Errorf ''revision event operation ID is invalid'')
      else if se_shell_id e \<noteq> [] \<and> \<not> validStateToken (se_shell_id e)
      then Inl (Errorf ''revision event shell ID is invalid'')
      else bindR (validateChanges (se_changes e)) (\<lambda>_. validateEventsFrom (expected + 1) es))"

definition validateEventSequence :: "u64 \<Rightarrow> u64 \<Rightarrow> state_event list \<Rightarrow> unit result" where
  "validateEventSequence floor head events =
     (if events = [] then
        (if floor \<noteq> head then Inl (Errorf ''empty history does not reach head revision'') else OK)
      else bindR (validateEventsFrom (floor + 1) events) (\<lambda>_.
        if se_revision (last events) \<noteq> head
        then Inl (Errorf ''revision history does not end at head'') else OK))"

fun replayEvents :: "live_state list \<Rightarrow> state_event list \<Rightarrow> live_state list result" where
  "replayEvents current [] = Inr current"
| "replayEvents current (e # es) =
     bindR (applyStateChanges current (se_changes e)) (\<lambda>next. replayEvents next es)"

definition validateSharedGeneration ::
  "live_state list \<Rightarrow> state_event list \<Rightarrow> live_state list \<Rightarrow> unit result" where
  "validateSharedGeneration baseline events shared =
     bindR (replayEvents (CloneLiveStates baseline) events) (\<lambda>current.
       if \<not> equalLiveStates current shared
       then Inl (Errorf ''shared state does not match compacted causal history'') else OK)"

fun compactLoop ::
  "live_state list \<Rightarrow> u64 \<Rightarrow> state_event list \<Rightarrow> (live_state list \<times> u64 \<times> state_event list) result"
  where
  "compactLoop baseline floor [] = Inr (baseline, floor, [])"
| "compactLoop baseline floor (e # es) =
     (if MaxStateEvents < length (e # es)
      then bindR (applyStateChanges baseline (se_changes e)) (\<lambda>b. compactLoop b (se_revision e) es)
      else Inr (baseline, floor, e # es))"

definition CompactStateHistory :: "wt_state \<Rightarrow> wt_state result" where
  "CompactStateHistory st =
     (if st_head_revision st < st_compaction_floor st
      then Inl (Errorf ''worktree state cannot be compacted'')
      else bindR (validateEventSequence (st_compaction_floor st) (st_head_revision st) (st_events st))
        (\<lambda>_. bindR (compactLoop (st_compaction_baseline st) (st_compaction_floor st) (st_events st))
          (\<lambda>(b, f, es). Inr (st\<lparr>st_compaction_baseline := b, st_compaction_floor := f, st_events := es\<rparr>))))"

section \<open>Shells, pending transitions, conflicts\<close>

definition validateConflict :: "conflict \<Rightarrow> u64 \<Rightarrow> unit result" where
  "validateConflict c head =
     (if cf_kind c \<noteq> ConflictOverlap \<and> cf_kind c \<noteq> ConflictHistoryGap
      then Inl (Errorf ''shell conflict kind is invalid'')
      else bindR (ValidateIdentity (cf_identity c)) (\<lambda>_.
        if cf_shared_revision c = 0 \<or> head < cf_shared_revision c
           \<or> cf_shared_revision c < cf_base_revision c \<or> validToken (cf_token c) \<noteq> OK
        then Inl (Errorf ''shell conflict causality is invalid'') else OK))"

definition validatePending :: "pending_transition \<Rightarrow> shell_state \<Rightarrow> u64 \<Rightarrow> unit result" where
  "validatePending p sh head =
     (if pd_kind p = PendingNone then
        (if pd_revision p \<noteq> 0 \<or> pd_fingerprint p \<noteq> zero32 \<or> pd_token p \<noteq> []
            \<or> pd_conflict p \<noteq> None \<or> pd_changes p \<noteq> []
         then Inl (Errorf ''empty pending transition carries state'') else OK)
      else if pd_kind p \<noteq> PendingPull \<and> pd_kind p \<noteq> PendingResolution
      then Inl (Errorf ''pending transition kind is invalid'')
      else if pd_revision p = 0 \<or> head < pd_revision p \<or> pd_revision p < sh_applied_revision sh
              \<or> pd_fingerprint p = zero32 \<or> validToken (pd_token p) \<noteq> OK
      then Inl (Errorf ''pending transition target is invalid'')
      else bindR (validateChanges (pd_changes p)) (\<lambda>_.
        if pd_kind p = PendingPull \<and> pd_conflict p \<noteq> None
        then Inl (Errorf ''pending pull carries a conflict identity'')
        else if pd_kind p = PendingResolution
                \<and> (pd_conflict p = None \<or> sh_conflict sh = None \<or> sh_unpublished sh = [])
        then Inl (Errorf ''pending resolution is not backed by a durable conflict'')
        else OK))"

fun validTransitionValue :: "shell_transition \<Rightarrow> bool" where
  "validTransitionValue TransitionEmpty = False"
| "validTransitionValue (TransitionOther s) = False"
| "validTransitionValue _ = True"

definition validateExclusion :: "exclusion \<Rightarrow> unit result" where
  "validateExclusion x =
     (if ValidateIdentity (ex_identity x) \<noteq> OK \<or> \<not> validStateReason (ex_reason x)
      then Inl (Errorf ''shell attachment exclusion is invalid'') else OK)"

definition validateShellState :: "string \<Rightarrow> shell_state \<Rightarrow> u64 \<Rightarrow> unit result" where
  "validateShellState shellID sh head =
     (if \<not> validStateToken shellID then Inl (Errorf ''shell state ID is invalid'')
      else if sh_verifier sh = zero32
      then Inl (Errorf ''shell state capability verifier is missing'')
      else if sh_attach_state sh \<noteq> AttachStateAtHead \<and> sh_attach_state sh \<noteq> AttachStateCleanReconcile
      then Inl (Errorf ''shell attachment state is invalid'')
      else if head < sh_attached_revision sh \<or> head < sh_applied_revision sh
              \<or> head < sh_last_active sh
      then Inl (Errorf ''shell revision exceeds shared head'')
      else if sh_attach_state sh = AttachStateAtHead \<and> sh_attached_revision sh = 0
      then Inl (Errorf ''attached shell has no attachment revision'')
      else if sh_attach_state sh = AttachStateCleanReconcile
              \<and> (sh_applied_revision sh \<noteq> 0 \<or> sh_applied_baseline sh \<noteq> [])
      then Inl (Errorf ''clean-reconcile shell carries an applied baseline'')
      else bindR (validatePresentStates (sh_applied_baseline sh)) (\<lambda>_.
        bindR (validatePresentStates (sh_capture_baseline sh)) (\<lambda>_.
        bindR (validateChanges (sh_unpublished sh)) (\<lambda>_.
        bindR (validateIdentityList (sh_present_at_attach sh)) (\<lambda>_.
        bindR (forE validateExclusion (sh_exclusions sh)) (\<lambda>_.
        if \<not> validTransitionValue (sh_transition sh)
        then Inl (Errorf ''shell transition state is invalid'')
        else bindR (validatePending (sh_pending sh) sh head) (\<lambda>_.
        bindR (case sh_conflict sh of None \<Rightarrow> OK | Some c \<Rightarrow> validateConflict c head) (\<lambda>_.
        if sh_unpublished sh \<noteq> [] \<and> sh_conflict sh = None
        then Inl (Errorf ''unpublished shell delta has no durable conflict'')
        else if sh_conflict sh \<noteq> None \<and> sh_unpublished sh = []
        then Inl (Errorf ''shell conflict lost its unpublished delta'')
        else if sh_transition sh = TransitionUnpublished
                \<and> (sh_conflict sh = None \<or> sh_unpublished sh = [])
        then Inl (Errorf ''unpublished transition is incomplete'')
        else if sh_transition sh = TransitionPrepare \<and> pd_kind (sh_pending sh) \<noteq> PendingPull
        then Inl (Errorf ''prepare transition lost its pending pull'')
        else if sh_transition sh = TransitionResolve \<and> pd_kind (sh_pending sh) \<noteq> PendingResolution
        then Inl (Errorf ''resolve transition lost its pending resolution'')
        else case sh_recovered sh of
          RecoveredOther _ \<Rightarrow> Inl (Errorf ''shell recovered error code is invalid'')
        | _ \<Rightarrow> OK))))))))"

section \<open>Receipts\<close>

definition count_some :: "'a option \<Rightarrow> nat" where
  "count_some x = (case x of None \<Rightarrow> 0 | Some _ \<Rightarrow> 1)"

definition validateReceiptUnion :: "operation_receipt \<Rightarrow> unit result" where
  "validateReceiptUnion r =
     (if count_some (or_attach r) + count_some (or_publish r) + count_some (or_prepare r)
         + count_some (or_acknowledge r) + count_some (or_resolve r) \<noteq> 1
      then Inl (Errorf ''operation receipt has a partial or contradictory result'')
      else case or_kind r of
        ReceiptAttach \<Rightarrow>
          (if or_attach r = None then Inl (Errorf ''attach receipt result is missing'') else OK)
      | ReceiptPublish \<Rightarrow>
          (if or_publish r = None then Inl (Errorf ''publish receipt result is missing'') else OK)
      | ReceiptPreparePull \<Rightarrow>
          (if or_prepare r = None then Inl (Errorf ''prepare receipt result is missing'') else OK)
      | ReceiptAcknowledge \<Rightarrow>
          (if or_acknowledge r = None then Inl (Errorf ''acknowledge receipt result is missing'') else OK)
      | ReceiptResolve \<Rightarrow>
          (if or_resolve r = None then Inl (Errorf ''resolve receipt result is missing'') else OK)
      | ReceiptOther _ \<Rightarrow> Inl (Errorf ''operation receipt kind is invalid''))"

definition receiptKey :: "operation_receipt \<Rightarrow> string" where
  "receiptKey r = or_shell_id r @ [CHR 0x00] @ or_operation_id r"

fun validateReceiptLoop ::
  "string set \<Rightarrow> (string \<Rightarrow> nat) \<Rightarrow> string set \<Rightarrow> operation_receipt list \<Rightarrow> unit result" where
  "validateReceiptLoop shells counts seen [] = OK"
| "validateReceiptLoop shells counts seen (r # rs) =
     (if or_shell_id r \<notin> shells \<or> \<not> validStateToken (or_operation_id r)
      then Inl (Errorf ''operation receipt authority is invalid'')
      else if receiptKey r \<in> seen then Inl (Errorf ''duplicate operation receipt'')
      else let counts' = counts(or_shell_id r := Suc (counts (or_shell_id r)))
        in if MaxOperationReceiptsPerShell < counts' (or_shell_id r)
           then Inl (Errorf ''shell operation receipt limit exceeded'')
           else bindR (validateReceiptUnion r)
             (\<lambda>_. validateReceiptLoop shells counts' (insert (receiptKey r) seen) rs))"

definition validateReceipts :: "wt_state \<Rightarrow> unit result" where
  "validateReceipts st =
     validateReceiptLoop (fst ` set (st_shells st)) (\<lambda>_. 0) {} (st_receipts st)"

section \<open>Admitted identities\<close>

definition admittedIdentityLess :: "identity \<Rightarrow> identity \<Rightarrow> bool" where
  "admittedIdentityLess l r =
     (if kind_string (id_kind l) \<noteq> kind_string (id_kind r)
      then kind_string (id_kind l) < kind_string (id_kind r)
      else id_name l < id_name r)"

fun validateAdmittedLoop :: "u64 \<Rightarrow> identity option \<Rightarrow> identity list \<Rightarrow> unit result" where
  "validateAdmittedLoop acc previous [] = OK"
| "validateAdmittedLoop acc previous (i # is) =
     (if ValidateIdentity i \<noteq> OK then Inl (Errorf ''admitted identity is invalid'')
      else let acc' = acc + (len64 (kind_string (id_kind i)) + len64 (id_name i) + 2)
        in if MaxSnapshotBytes < acc'
           then Inl (Errorf ''admitted identity payload limit exceeded'')
           else case previous of
             None \<Rightarrow> validateAdmittedLoop acc' (Some i) is
           | Some p \<Rightarrow>
               (if p = i then Inl (Errorf ''admitted identity list contains a duplicate'')
                else if \<not> admittedIdentityLess p i
                then Inl (Errorf ''admitted identity list is not canonical'')
                else validateAdmittedLoop acc' (Some i) is))"

definition validateAdmittedIdentities :: "identity list \<Rightarrow> unit result" where
  "validateAdmittedIdentities is =
     (if MaxSnapshotRecords < length is
      then Inl (Errorf ''admitted identity record limit exceeded'')
      else validateAdmittedLoop 0 None is)"

section \<open>The complete validator\<close>

definition ValidateState :: "wt_state \<Rightarrow> unit result" where
  "ValidateState st =
     (if st_schema_version st \<noteq> StateSchemaVersion
      then Inl (Errorf ''worktree state schema %d is unsupported'')
      else if \<not> st_materialized st then
        (if st_branch st \<noteq> [] \<or> st_base_oid st \<noteq> [] \<or> st_head_revision st \<noteq> 0
            \<or> st_admitted st \<noteq> [] \<or> st_shared st \<noteq> [] \<or> st_events st \<noteq> []
            \<or> st_shells st \<noteq> [] \<or> st_receipts st \<noteq> []
         then Inl (Errorf ''unmaterialized worktree state carries causal data'') else OK)
      else if \<not> validStateBranch (st_branch st) \<or> \<not> stateOIDRE (st_base_oid st)
      then Inl (Errorf ''materialized worktree branch or base OID is invalid'')
      else if st_head_revision st = 0 \<or> st_head_revision st = MaxUint64
              \<or> st_head_revision st < st_compaction_floor st
      then Inl (Errorf ''worktree revision bounds are invalid'')
      else bindR (validateCommitted (st_committed st)) (\<lambda>_.
        bindR (validateAdmittedIdentities (st_admitted st)) (\<lambda>_.
        bindR (validatePresentStates (st_shared st)) (\<lambda>_.
        bindR (validatePresentStates (st_compaction_baseline st)) (\<lambda>_.
        if MaxStateEvents < length (st_events st)
        then Inl (Errorf ''worktree state has %d events; maximum is %d'')
        else bindR (validateEventSequence (st_compaction_floor st) (st_head_revision st) (st_events st)) (\<lambda>_.
        bindR (validateSharedGeneration (st_compaction_baseline st) (st_events st) (st_shared st)) (\<lambda>_.
        if MaxShellRecords < length (st_shells st)
        then Inl (Errorf ''worktree state has %d shells; maximum is %d'')
        else bindR (forE (\<lambda>(sid, sh). validateShellState sid sh (st_head_revision st)) (st_shells st)) (\<lambda>_.
        validateReceipts st))))))))"

section \<open>Fingerprints\<close>

text \<open>
  SHA-256 and the JSON encoder of the standard library are parameters: a hash from byte
  strings to byte strings, and the bytes \<^verbatim>\<open>json.Marshal\<close> writes for each kind of
  document the code fingerprints.
\<close>

datatype json_doc =
    JSnapshot live_snapshot
  | JRevision u64
  | JChanges "live_change list"
  | JIdentity identity
  | JToken resolution_token
  | JStates "live_state list"

record hashing =
  hx_sha256 :: "string \<Rightarrow> string"
  hx_json :: "json_doc \<Rightarrow> string"

definition FingerprintSnapshot :: "hashing \<Rightarrow> live_snapshot \<Rightarrow> fingerprint result" where
  "FingerprintSnapshot H sn =
     bindR (ValidateLiveSnapshot sn) (\<lambda>_.
     bindR (NormalizeLiveStates (sn_states sn)) (\<lambda>states.
       Inr (hx_sha256 H (hx_json H (JStates (sort_key ls_identity states))))))"

section \<open>Transitions and garbage collection\<close>

fun IsLegalShellTransition :: "shell_transition \<Rightarrow> shell_transition \<Rightarrow> bool" where
  "IsLegalShellTransition TransitionEmpty t = (t = TransitionAttach)"
| "IsLegalShellTransition TransitionAttach t = (t \<in> {TransitionCapture, TransitionPrepare})"
| "IsLegalShellTransition TransitionCapture t =
     (t \<in> {TransitionPublish, TransitionUnpublished, TransitionPrepare})"
| "IsLegalShellTransition TransitionUnpublished t = (t \<in> {TransitionPublish, TransitionResolve})"
| "IsLegalShellTransition TransitionPublish t = (t \<in> {TransitionCapture, TransitionPrepare})"
| "IsLegalShellTransition TransitionPrepare t = (t = TransitionApply)"
| "IsLegalShellTransition TransitionResolve t = (t = TransitionApply)"
| "IsLegalShellTransition TransitionApply t = (t = TransitionFreshCapture)"
| "IsLegalShellTransition TransitionFreshCapture t = (t = TransitionAcknowledge)"
| "IsLegalShellTransition TransitionAcknowledge t = (t \<in> {TransitionCapture, TransitionPrepare})"
| "IsLegalShellTransition (TransitionOther s) t = False"

definition CanGarbageCollectShell :: "wt_state \<Rightarrow> string \<Rightarrow> bool" where
  "CanGarbageCollectShell st shellID =
     (case map_of (st_shells st) shellID of
        None \<Rightarrow> False
      | Some sh \<Rightarrow>
          \<not> (st_head_revision st \<le> sh_last_active sh \<or> sh_behind sh \<or> sh_conflict sh \<noteq> None
             \<or> pd_kind (sh_pending sh) \<noteq> PendingNone \<or> sh_unpublished sh \<noteq> []))"

end
