(* ===== verification/StateFacts.thy ===== *)
theory StateFacts
  imports StateModel "HOL-Library.Multiset"
begin

text \<open>
  The facts about the canonical state that the service proofs rest on: each validator
  as a predicate, the application of changes and the equality of two lists of states
  through the finite maps they denote, the numbering of the causal history, and its
  compaction.
\<close>

named_theorems state_ok \<open>what a validator of the canonical state accepts\<close>

section \<open>Lists of changes and identities\<close>

lemma validateChangesLoop_eq_OK:
  "validateChangesLoop seen cs = OK \<longleftrightarrow>
     distinct (map ch_identity cs) \<and> ch_identity ` set cs \<inter> seen = {}
     \<and> (\<forall>c \<in> set cs. validateLiveChange c = OK)"
  by (induction cs arbitrary: seen) (auto simp: bindR_eq_Inr)

lemma validateChanges_eq_OK [state_ok]:
  "validateChanges cs = OK \<longleftrightarrow>
     distinct (map ch_identity cs) \<and> (\<forall>c \<in> set cs. validateLiveChange c = OK)"
  by (simp add: validateChanges_def validateChangesLoop_eq_OK)

lemma validateIdentityListLoop_eq_OK:
  "validateIdentityListLoop seen is e = OK \<longleftrightarrow>
     distinct is \<and> set is \<inter> seen = {} \<and> (\<forall>i \<in> set is. ValidateIdentity i = OK)"
  by (induction "is" arbitrary: seen) auto

lemma validateIdentityList_eq_OK [state_ok]:
  "validateIdentityList is = OK \<longleftrightarrow> distinct is \<and> (\<forall>i \<in> set is. ValidateIdentity i = OK)"
  by (simp add: validateIdentityList_def validateIdentityListLoop_eq_OK)

lemma validateTombstones_eq_OK:
  "validateTombstones seen is = OK \<longleftrightarrow>
     distinct is \<and> set is \<inter> seen = {} \<and> (\<forall>i \<in> set is. ValidateIdentity i = OK)"
  by (induction "is" arbitrary: seen) (auto simp: bindR_eq_Inr if_Inl_eq_Inr)

section \<open>Lists of present states\<close>

definition good_states :: "live_state list \<Rightarrow> bool" where
  "good_states ss \<longleftrightarrow> distinct (map ls_identity ss)
     \<and> (\<forall>s \<in> set ss. ValidateLiveIdentityState s = OK \<and> lv_present (ls_value s))"

definition within_bounds :: "live_state list \<Rightarrow> bool" where
  "within_bounds ss \<longleftrightarrow> length ss \<le> MaxSnapshotRecords
     \<and> sum_list (map state_bytes ss) \<le> unat MaxSnapshotBytes"

lemma good_states_Nil [simp]: "good_states []"
  by (simp add: good_states_def)

lemma validatePresentStates_eq_OK [state_ok]:
  "validatePresentStates ss = OK \<longleftrightarrow> length ss \<le> MaxSnapshotRecords \<and> good_states ss"
proof -
  have "forE (\<lambda>s. if lv_present (ls_value s) then OK
      else Inl (Errorf ''baseline contains an absent live value'')) ss = OK
      \<longleftrightarrow> (\<forall>s \<in> set ss. lv_present (ls_value s))"
    by (simp add: forE_eq_OK)
  then show ?thesis
    by (auto simp: validatePresentStates_def good_states_def bindR_eq_Inr if_Inl_eq_Inr
        NormalizeLiveStates_eq_Inr keep_last_length_eq not_less)
qed

lemma ValidateSnapshot_snap [state_ok]:
  "ValidateSnapshot (snap ss) = OK \<longleftrightarrow>
     within_bounds ss \<and> (\<forall>s \<in> set ss. ValidateLiveIdentityState s = OK)"
  by (auto simp: ValidateSnapshot_def ValidateLiveSnapshot_eq_OK within_bounds_def)

lemma ValidateLiveSnapshot_snap [state_ok]:
  "ValidateLiveSnapshot (snap ss) = OK \<longleftrightarrow>
     within_bounds ss \<and> (\<forall>s \<in> set ss. ValidateLiveIdentityState s = OK)"
  using ValidateSnapshot_snap by (simp add: ValidateSnapshot_def)

lemma good_states_valid: "good_states ss \<Longrightarrow> \<forall>s \<in> set ss. ValidateLiveIdentityState s = OK"
  by (simp add: good_states_def)

lemma good_states_clone: "good_states ss \<Longrightarrow> good_states (CloneLiveStates ss)"
  by (auto simp: good_states_def CloneLiveStates_def comp_def ValidateLiveIdentityState_clone)

lemma within_bounds_clone [simp]: "within_bounds (CloneLiveStates ss) = within_bounds ss"
  by (simp add: within_bounds_def CloneLiveStates_def comp_def)

lemma good_states_normalize:
  "good_states ss \<Longrightarrow> NormalizeLiveStates ss = Inr (CloneLiveStates ss)"
  by (intro NormalizeLiveStates_of_distinct) (auto simp: good_states_def)

text \<open>Good states are determined, up to order and copying, by the map they denote.\<close>

lemma good_states_map:
  assumes "good_states ss"
  shows "live_map ss i = Some v \<longleftrightarrow> \<lparr>ls_identity = i, ls_value = v\<rparr> \<in> set (CloneLiveStates ss)"
proof -
  have "\<lparr>ls_identity = i, ls_value = v\<rparr> \<in> set (CloneLiveStates ss) \<longleftrightarrow>
      (\<exists>s \<in> set ss. ls_identity s = i \<and> v = CloneLiveValue (ls_value s))"
    by (auto simp: CloneLiveStates_def CloneLiveState_def)
  with assms show ?thesis by (auto simp: good_states_def live_map_distinct)
qed

lemma good_states_same_map:
  assumes "good_states ss" "good_states ts" "live_map ss = live_map ts"
  shows "mset (CloneLiveStates ss) = mset (CloneLiveStates ts)"
proof -
  have "s \<in> set (CloneLiveStates ss) \<longleftrightarrow> s \<in> set (CloneLiveStates ts)" for s
    using good_states_map [OF assms(1), of "ls_identity s" "ls_value s"]
      good_states_map [OF assms(2), of "ls_identity s" "ls_value s"] assms(3)
    by (cases s) simp
  moreover have "distinct (CloneLiveStates us)" if "good_states us" for us
    using good_states_clone [OF that] by (auto simp: good_states_def distinct_map)
  ultimately show ?thesis
    using assms(1,2) by (intro set_eq_iff_mset_eq_distinct [THEN iffD1]) auto
qed

lemma good_states_same_bounds:
  assumes "good_states ss" "good_states ts" "live_map ss = live_map ts"
  shows "within_bounds ss = within_bounds ts"
proof -
  note same = good_states_same_map [OF assms]
  have "length (CloneLiveStates ss) = length (CloneLiveStates ts)"
    using same by (rule mset_eq_length)
  moreover have "sum_list (map state_bytes (CloneLiveStates ss)) =
      sum_list (map state_bytes (CloneLiveStates ts))"
    using same by (metis mset_map sum_mset_sum_list)
  ultimately have "within_bounds (CloneLiveStates ss) = within_bounds (CloneLiveStates ts)"
    by (simp add: within_bounds_def)
  then show ?thesis by simp
qed

lemma good_states_same_length:
  assumes "good_states ss" "good_states ts" "live_map ss = live_map ts"
  shows "length ss = length ts"
  using mset_eq_length [OF good_states_same_map [OF assms]] by (simp add: CloneLiveStates_def)

lemma equalLiveStates_iff:
  assumes "good_states ss" "good_states ts"
  shows "equalLiveStates ss ts \<longleftrightarrow> within_bounds ss \<and> within_bounds ts \<and> live_map ss = live_map ts"
proof -
  have valid: "\<forall>s \<in> set (CloneLiveStates us). ValidateLiveIdentityState s = OK"
    if "good_states us" for us
    using good_states_clone [OF that] by (simp add: good_states_def)
  have len: "length (CloneLiveStates us) = length us" for us
    by (simp add: CloneLiveStates_def)
  have bounds: "ValidateSnapshot (snap (CloneLiveStates us)) = OK \<longleftrightarrow> within_bounds us"
    if "good_states us" for us
    using valid [OF that] by (simp add: ValidateSnapshot_snap)
  have "(case DiffSnapshot (snap (CloneLiveStates ss)) (snap (CloneLiveStates ts)) of
        Inl _ \<Rightarrow> False | Inr changes \<Rightarrow> changes = [])
      \<longleftrightarrow> DiffSnapshot (snap (CloneLiveStates ss)) (snap (CloneLiveStates ts)) = Inr []"
    by (auto split: sum.splits)
  also have "\<dots> \<longleftrightarrow> within_bounds ss \<and> within_bounds ts \<and> live_map ss = live_map ts"
    using bounds [OF assms(1)] bounds [OF assms(2)]
    by (auto simp: DiffSnapshot_eq_Inr refDiff_Nil eq_commute [of "[]"])
  finally show ?thesis
    by (simp add: equalLiveStates_def good_states_normalize assms len)
qed

lemma equalLiveStates_distinct:
  assumes "equalLiveStates ss ts"
  shows "distinct (map ls_identity ss) \<and> distinct (map ls_identity ts)
    \<and> (\<forall>s \<in> set ss \<union> set ts. ValidateLiveIdentityState s = OK)"
  using assms
  by (auto simp: equalLiveStates_def NormalizeLiveStates_eq_Inr keep_last_length_eq
      split: sum.splits if_splits)

section \<open>Applying changes\<close>

definition change_state :: "live_change \<Rightarrow> live_state option" where
  "change_state c =
     (if ch_kind c = LiveRemove then None
      else Some \<lparr>ls_identity = ch_identity c, ls_value = CloneLiveValue (ch_value c)\<rparr>)"

lemma state_entry_key: "state_entry s = Some y \<Longrightarrow> ls_identity (fst y) = ls_identity s"
  by (auto simp: state_entry_def)

interpretation changes: keyed_update ls_identity ch_identity change_state changeBase changeStep
    "entry_visible state_entry"
proof unfold_locales
  fix t :: "(identity, live_state) slot_table" and u
  assume wf: "slot_wf ls_identity t"
  show "slot_keys ls_identity (changeStep u t) = slot_keys ls_identity t
      @ (if change_state u = None \<or> ch_identity u \<in> set (slot_keys ls_identity t)
         then [] else [ch_identity u])"
    using wf by (simp add: changeStep_def change_state_def slot_keys_drop slot_keys_put)
  show "slot_wf ls_identity (changeStep u t)"
    using wf by (simp add: changeStep_def slot_wf_drop slot_wf_put)
  show "slot_contents (changeStep u t) = (slot_contents t)(ch_identity u := change_state u)"
    using wf by (simp add: changeStep_def change_state_def slot_contents_drop slot_contents_put)
next
  fix xs :: "live_state list" and k
  assume d: "distinct (map ls_identity xs)"
  note load = slot_load_empty [where entry = state_entry, OF d state_entry_key]
  show "slot_wf ls_identity (changeBase xs)"
    by (simp add: changeBase_def load)
  show "slot_contents (changeBase xs) k =
      Option.bind (map_of (map (\<lambda>x. (ls_identity x, x)) xs) k) (entry_visible state_entry)"
    by (simp add: changeBase_def load)
qed

lemma changes_update_map:
  "map_option ls_value (changes.update_map m cs i) = applyMap (\<lambda>i. map_option ls_value (m i)) cs i"
proof (induction cs arbitrary: m)
  case Nil
  then show ?case by simp
next
  case (Cons c cs)
  have "(\<lambda>i. map_option ls_value ((m(ch_identity c := change_state c)) i)) =
      (\<lambda>i. map_option ls_value (m i))(ch_identity c := change_result c)"
    by (auto simp: change_state_def change_result_def fun_eq_iff)
  with Cons show ?case by (simp only: changes.update_map.simps applyMap.simps)
qed

lemma validateLiveChange_cases:
  assumes "validateLiveChange c = OK"
  shows "ValidateIdentity (ch_identity c) = OK
    \<and> ValidateLiveValue (id_kind (ch_identity c)) (ch_value c) = OK
    \<and> (if ch_kind c = LiveRemove then \<not> lv_present (ch_value c)
       else (ch_kind c = LiveAdd \<or> ch_kind c = LiveUpdate) \<and> lv_present (ch_value c))"
  using assms
  by (cases "ch_kind c") (auto simp: validateLiveChange_def bindR_eq_Inr if_Inl_eq_Inr)

lemma applyStateChanges_spec:
  assumes "applyStateChanges ss cs = Inr ts"
  shows "good_states ts \<and> live_map ts = applyMap (live_map ss) cs"
proof -
  obtain ns where valid: "validateChanges cs = OK" and ns: "NormalizeLiveStates ss = Inr ns"
    and ts: "ts = slot_active (fold changeStep cs (changeBase ns))"
    using assms by (auto simp: applyStateChanges_def bindR_eq_Inr)
  have d: "distinct (map ls_identity ns)" using ns by (rule NormalizeLiveStates_distinct)
  have vns: "ValidateLiveIdentityState s = OK" if "s \<in> set ns" for s
    using ns that by (rule NormalizeLiveStates_valid)
  let ?u = "changes.update_map (slot_contents (changeBase ns)) cs"
  have base: "slot_contents (changeBase ns) k =
      Option.bind (map_of (map (\<lambda>x. (ls_identity x, x)) ns) k) (entry_visible state_entry)" for k
    using d by (rule changes.init_contents)
  have good: "ls_identity x = k \<and> ValidateLiveIdentityState x = OK \<and> lv_present (ls_value x)
      \<and> CloneLiveValue (ls_value x) = ls_value x" if known: "?u k = Some x" for k x
  proof -
    consider "slot_contents (changeBase ns) k = Some x"
      | c where "c \<in> set cs" "ch_identity c = k" "change_state c = Some x"
      using changes.update_map_cases [of "slot_contents (changeBase ns)" cs k] known by auto
    then show ?thesis
    proof cases
      case 1
      then obtain y where y: "map_of (map (\<lambda>x. (ls_identity x, x)) ns) k = Some y"
        and x: "entry_visible state_entry y = Some x"
        by (cases "map_of (map (\<lambda>x. (ls_identity x, x)) ns) k") (simp_all add: base)
      from x have "x = y" "lv_present (ls_value x)"
        by (simp_all add: entry_visible_def state_entry_def split: if_splits)
      moreover from y have "y \<in> set ns" "ls_identity y = k" using map_of_self by fastforce+
      ultimately have "x \<in> set ns" "ls_identity x = k" "lv_present (ls_value x)" by simp_all
      moreover from this(1) ns have "CloneLiveValue (ls_value x) = ls_value x"
        by (auto simp: NormalizeLiveStates_eq_Inr)
      ultimately show ?thesis using vns by simp
    next
      case 2
      then have "validateLiveChange c = OK" using valid by (simp add: validateChanges_eq_OK)
      from validateLiveChange_cases [OF this] 2(2,3) show ?thesis
        by (auto simp: change_state_def ValidateLiveIdentityState_def ValidateLiveValue_clone
            split: if_splits)
    qed
  qed
  have ts_distinct: "distinct (map ls_identity ts)"
    unfolding ts by (rule changes.result_distinct [OF d])
  have lookup: "(\<exists>x \<in> set ts. ls_identity x = k \<and> P x) \<longleftrightarrow> (\<exists>x. ?u k = Some x \<and> P x)" for k P
    unfolding ts by (rule changes.result_lookup [OF d])
  have "ValidateLiveIdentityState x = OK \<and> lv_present (ls_value x)" if "x \<in> set ts" for x
    using lookup [of "ls_identity x" "\<lambda>y. y = x"] that good by blast
  then have "good_states ts" using ts_distinct by (simp add: good_states_def)
  moreover have "live_map ts i = applyMap (live_map ss) cs i" for i
  proof -
    have "live_map ts i = Some v \<longleftrightarrow> map_option ls_value (?u i) = Some v" for v
      unfolding live_map_distinct [OF ts_distinct] lookup using good by auto
    then have "live_map ts i = map_option ls_value (?u i)" by (metis not_None_eq)
    also have "\<dots> = applyMap (\<lambda>i. map_option ls_value (slot_contents (changeBase ns) i)) cs i"
      by (rule changes_update_map)
    also have "(\<lambda>i. map_option ls_value (slot_contents (changeBase ns) i)) = live_map ns"
    proof
      fix i
      have "map_option ls_value (slot_contents (changeBase ns) i) =
          map_option ls_value (Option.bind (map_of (map (\<lambda>x. (ls_identity x, x)) ns) i)
            (entry_visible present_entry))"
      proof (cases "map_of (map (\<lambda>x. (ls_identity x, x)) ns) i")
        case None
        then show ?thesis by (simp add: base)
      next
        case (Some x)
        then have "x \<in> set ns" using map_of_self by fastforce
        with ns have "CloneLiveValue (ls_value x) = ls_value x"
          by (auto simp: NormalizeLiveStates_eq_Inr)
        with Some show ?thesis
          by (simp add: base entry_visible_def state_entry_def present_entry_def)
      qed
      then show "map_option ls_value (slot_contents (changeBase ns) i) = live_map ns i"
        by (simp add: live_map_of_states [OF d])
    qed
    also have "live_map ns = live_map ss" using ns by (rule live_map_normalize)
    finally show ?thesis .
  qed
  ultimately show ?thesis by blast
qed

lemma applyStateChanges_total:
  assumes "\<forall>s \<in> set ss. ValidateLiveIdentityState s = OK" "validateChanges cs = OK"
  shows "\<exists>ts. applyStateChanges ss cs = Inr ts"
  using assms by (auto simp: applyStateChanges_def bindR_eq_Inr NormalizeLiveStates_eq_Inr)

text \<open>Applying a difference to its first argument gives its second argument.\<close>

lemma apply_diff:
  assumes "DiffSnapshot (snap ss) (snap ts) = Inr cs"
  shows "\<exists>us. applyStateChanges ss cs = Inr us \<and> good_states us \<and> live_map us = live_map ts"
proof -
  have ok: "ValidateSnapshot (snap ss) = OK" "ValidateSnapshot (snap ts) = OK"
    and cs: "cs = refDiff (live_map ss) (live_map ts)"
    using assms by (auto simp: DiffSnapshot_eq_Inr)
  have valid: "\<forall>s \<in> set ss. ValidateLiveIdentityState s = OK" "\<forall>s \<in> set ts. ValidateLiveIdentityState s = OK"
    using ok by (auto simp: ValidateSnapshot_snap)
  have "validateChanges cs = OK"
    using refDiff_distinct refDiff_valid [OF valid] by (auto simp: validateChanges_eq_OK cs)
  then obtain us where us: "applyStateChanges ss cs = Inr us"
    using applyStateChanges_total [OF valid(1)] by blast
  from applyStateChanges_spec [OF us] have "good_states us" "live_map us = applyMap (live_map ss) cs"
    by auto
  moreover have "applyMap (live_map ss) cs = live_map ts"
    unfolding cs by (rule applyMap_refDiff) (auto dest: live_map_Some_clone)
  ultimately show ?thesis using us by auto
qed

section \<open>Replaying the history\<close>

abbreviation events_changes :: "state_event list \<Rightarrow> live_change list" where
  "events_changes es \<equiv> concat (map se_changes es)"

lemma replayEvents_spec:
  assumes "replayEvents ss es = Inr ts" "good_states ss"
  shows "good_states ts \<and> live_map ts = applyMap (live_map ss) (events_changes es)"
  using assms
proof (induction es arbitrary: ss)
  case Nil
  then show ?case by simp
next
  case (Cons e es)
  then obtain us where us: "applyStateChanges ss (se_changes e) = Inr us" "replayEvents us es = Inr ts"
    by (auto simp: bindR_eq_Inr)
  from applyStateChanges_spec [OF us(1)] have "good_states us"
    and map_us: "live_map us = applyMap (live_map ss) (se_changes e)" by auto
  from Cons.IH [OF us(2) this(1)] show ?case by (simp add: map_us applyMap_append)
qed

lemma replayEvents_total:
  assumes "good_states ss" "\<forall>e \<in> set es. validateChanges (se_changes e) = OK"
  shows "\<exists>ts. replayEvents ss es = Inr ts"
  using assms
proof (induction es arbitrary: ss)
  case Nil
  then show ?case by simp
next
  case (Cons e es)
  then obtain us where us: "applyStateChanges ss (se_changes e) = Inr us"
    using applyStateChanges_total [OF good_states_valid] by fastforce
  with applyStateChanges_spec [OF us] Cons show ?case by (auto simp: bindR_eq_Inr)
qed

lemma validateSharedGeneration_eq_OK:
  assumes "good_states b" "good_states sh" "\<forall>e \<in> set es. validateChanges (se_changes e) = OK"
  shows "validateSharedGeneration b es sh = OK \<longleftrightarrow>
    within_bounds sh \<and> applyMap (live_map b) (events_changes es) = live_map sh"
proof -
  have gb: "good_states (CloneLiveStates b)" using assms(1) by (rule good_states_clone)
  obtain ts where ts: "replayEvents (CloneLiveStates b) es = Inr ts"
    using replayEvents_total [OF gb assms(3)] by blast
  from replayEvents_spec [OF ts gb] have gts: "good_states ts"
    and map_ts: "live_map ts = applyMap (live_map b) (events_changes es)" by auto
  have "validateSharedGeneration b es sh = OK \<longleftrightarrow> equalLiveStates ts sh"
    by (simp add: validateSharedGeneration_def ts)
  also have "\<dots> \<longleftrightarrow> within_bounds ts \<and> within_bounds sh \<and> live_map ts = live_map sh"
    by (rule equalLiveStates_iff [OF gts assms(2)])
  also have "\<dots> \<longleftrightarrow> within_bounds sh \<and> live_map ts = live_map sh"
    using good_states_same_bounds [OF gts assms(2)] by auto
  finally show ?thesis by (simp add: map_ts)
qed

section \<open>The numbering of the history\<close>

definition event_ok :: "state_event \<Rightarrow> bool" where
  "event_ok e \<longleftrightarrow> se_revision e \<noteq> 0 \<and> validStateToken (se_operation_id e)
     \<and> (se_shell_id e = [] \<or> validStateToken (se_shell_id e)) \<and> validateChanges (se_changes e) = OK"

lemma validateEventsFrom_Cons:
  "validateEventsFrom n (e # es) = OK \<longleftrightarrow>
     se_revision e = n \<and> event_ok e \<and> validateEventsFrom (n + 1) es = OK"
  by (auto simp: event_ok_def bindR_eq_Inr)

declare validateEventsFrom.simps(2) [simp del]

lemma validateEventsFrom_append:
  "validateEventsFrom n (es @ fs) = OK \<longleftrightarrow>
     validateEventsFrom n es = OK \<and> validateEventsFrom (n + of_nat (length es)) fs = OK"
  by (induction es arbitrary: n) (auto simp: validateEventsFrom_Cons algebra_simps)

lemma validateEventsFrom_last:
  "validateEventsFrom n es = OK \<Longrightarrow> es \<noteq> [] \<Longrightarrow> se_revision (last es) + 1 = n + of_nat (length es)"
proof (induction es arbitrary: n)
  case Nil
  then show ?case by simp
next
  case (Cons e es)
  then have e: "se_revision e = n" and rest: "validateEventsFrom (n + 1) es = OK"
    by (auto simp: validateEventsFrom_Cons)
  show ?case
  proof (cases "es = []")
    case True
    with e show ?thesis by simp
  next
    case False
    with Cons.IH [OF rest] show ?thesis by simp
  qed
qed

lemma validateEventsFrom_event_ok: "validateEventsFrom n es = OK \<Longrightarrow> e \<in> set es \<Longrightarrow> event_ok e"
  by (induction es arbitrary: n) (auto simp: validateEventsFrom_Cons)

lemma validateEventSequence_eq_OK:
  "validateEventSequence floor head es = OK \<longleftrightarrow>
     validateEventsFrom (floor + 1) es = OK \<and> head = floor + of_nat (length es)"
proof (cases "es = []")
  case True
  then show ?thesis by (auto simp: validateEventSequence_def)
next
  case False
  then have "validateEventsFrom (floor + 1) es = OK \<Longrightarrow>
      se_revision (last es) = floor + of_nat (length es)"
    using validateEventsFrom_last [of "floor + 1" es] by (simp add: algebra_simps)
  with False show ?thesis
    by (auto simp: validateEventSequence_def bindR_eq_Inr)
qed

lemma validateEventSequence_events:
  "validateEventSequence floor head es = OK \<Longrightarrow> e \<in> set es \<Longrightarrow> event_ok e"
  by (auto simp: validateEventSequence_eq_OK intro: validateEventsFrom_event_ok)

lemma validateEventSequence_append:
  assumes "validateEventSequence floor head es = OK" "event_ok e" "se_revision e = head + 1"
  shows "validateEventSequence floor (head + 1) (es @ [e]) = OK"
  using assms
  by (auto simp: validateEventSequence_eq_OK validateEventsFrom_append validateEventsFrom_Cons
      algebra_simps)

lemma validateEventSequence_drop:
  assumes "validateEventSequence floor head (e # es) = OK"
  shows "validateEventSequence (se_revision e) head es = OK"
  using assms by (auto simp: validateEventSequence_eq_OK validateEventsFrom_Cons algebra_simps)

text \<open>Revisions are never zero, so they do not wrap: they are consecutive naturals.\<close>

lemma validateEventsFrom_unat:
  assumes "validateEventsFrom (floor + 1) es = OK"
  shows "unat floor + length es < 2 ^ 64
    \<and> (\<forall>i < length es. unat (se_revision (es ! i)) = unat floor + 1 + i)"
  using assms
proof (induction es arbitrary: floor)
  case Nil
  show ?case using unsigned_less [of floor, where ?'a = nat] by simp
next
  case (Cons e es)
  then have e: "se_revision e = floor + 1" "se_revision e \<noteq> 0"
    and rest: "validateEventsFrom (floor + 1 + 1) es = OK"
    by (auto simp: validateEventsFrom_Cons event_ok_def)
  have step: "unat (floor + 1) = unat floor + 1"
    using unatSuc [of floor] e by (simp add: add.commute)
  have "unat (se_revision ((e # es) ! i)) = unat floor + 1 + i" if "i < length (e # es)" for i
    using Cons.IH [OF rest] that e step by (cases i) auto
  then show ?case using Cons.IH [OF rest] step by simp
qed

section \<open>Compaction\<close>

text \<open>
  A state whose history is valid from its baseline: what compaction needs and keeps.
  \<open>history_records\<close> bounds every intermediate generation of the history.
\<close>

definition history_ok :: "live_state list \<Rightarrow> u64 \<Rightarrow> u64 \<Rightarrow> state_event list \<Rightarrow> bool" where
  "history_ok baseline floor head es \<longleftrightarrow>
     good_states baseline \<and> validateEventSequence floor head es = OK"

definition history_records :: "live_state list \<Rightarrow> state_event list \<Rightarrow> bool" where
  "history_records baseline es \<longleftrightarrow>
     (\<forall>k \<le> length es. card (dom (applyMap (live_map baseline) (events_changes (take k es))))
        \<le> MaxSnapshotRecords)"

lemma good_states_card: "good_states ss \<Longrightarrow> card (dom (live_map ss)) = length ss"
proof -
  assume g: "good_states ss"
  have "dom (live_map ss) = ls_identity ` set ss"
    using g by (auto simp: good_states_def live_map_distinct dom_def)
  then show ?thesis using g by (simp add: good_states_def distinct_card flip: set_map)
qed

lemma history_records_drop:
  assumes "history_records b (e # es)" "live_map b' = applyMap (live_map b) (se_changes e)"
  shows "history_records b' es"
proof -
  have "card (dom (applyMap (live_map b') (events_changes (take k es)))) \<le> MaxSnapshotRecords"
    if "k \<le> length es" for k
    using assms(1) that unfolding history_records_def
    by (auto simp: assms(2) applyMap_append dest!: spec [where x = "Suc k"])
  then show ?thesis by (simp add: history_records_def)
qed

lemma compactLoop_spec:
  assumes "history_ok b f head es"
  shows "\<exists>b' f' es'. compactLoop b f es = Inr (b', f', es') \<and> history_ok b' f' head es'
    \<and> applyMap (live_map b') (events_changes es') = applyMap (live_map b) (events_changes es)
    \<and> length es' \<le> MaxStateEvents \<and> (\<exists>k. es' = drop k es)
    \<and> (history_records b es \<longrightarrow> history_records b' es')"
  using assms
proof (induction es arbitrary: b f)
  case Nil
  then show ?case by (simp add: history_ok_def)
next
  case (Cons e es)
  show ?case
  proof (cases "MaxStateEvents < length (e # es)")
    case False
    with Cons.prems show ?thesis by (auto intro!: exI [where x = 0])
  next
    case True
    have gb: "good_states b" and vs: "validateEventSequence f head (e # es) = OK"
      using Cons.prems by (auto simp: history_ok_def)
    have "event_ok e" using validateEventSequence_events [OF vs] by simp
    then obtain c where c: "applyStateChanges b (se_changes e) = Inr c"
      using applyStateChanges_total [OF good_states_valid [OF gb]] by (auto simp: event_ok_def)
    from applyStateChanges_spec [OF c] have gc: "good_states c"
      and mc: "live_map c = applyMap (live_map b) (se_changes e)" by auto
    have "history_ok c (se_revision e) head es"
      using gc validateEventSequence_drop [OF vs] by (simp add: history_ok_def)
    from Cons.IH [OF this] obtain b' f' es' where IH:
      "compactLoop c (se_revision e) es = Inr (b', f', es')" "history_ok b' f' head es'"
      "applyMap (live_map b') (events_changes es') = applyMap (live_map c) (events_changes es)"
      "length es' \<le> MaxStateEvents" "\<exists>k. es' = drop k es"
      "history_records c es \<longrightarrow> history_records b' es'"
      by blast
    from IH(5) obtain k where k: "es' = drop (Suc k) (e # es)" by auto
    have "compactLoop b f (e # es) = Inr (b', f', es')" using IH(1) True c by simp
    moreover have "applyMap (live_map b') (events_changes es') =
        applyMap (live_map b) (events_changes (e # es))"
      using IH(3) mc by (simp add: applyMap_append)
    moreover have "history_records b (e # es) \<longrightarrow> history_records b' es'"
      using IH(6) history_records_drop [of b e es c] mc by blast
    ultimately show ?thesis using IH(2,4) k by blast
  qed
qed

lemma CompactStateHistory_spec:
  assumes h: "history_ok (st_compaction_baseline st) (st_compaction_floor st) (st_head_revision st) (st_events st)"
    and le: "\<not> st_head_revision st < st_compaction_floor st"
  shows "\<exists>b f es. CompactStateHistory st =
      Inr (st\<lparr>st_compaction_baseline := b, st_compaction_floor := f, st_events := es\<rparr>)
    \<and> history_ok b f (st_head_revision st) es
    \<and> applyMap (live_map b) (events_changes es) =
        applyMap (live_map (st_compaction_baseline st)) (events_changes (st_events st))
    \<and> length es \<le> MaxStateEvents \<and> (\<exists>k. es = drop k (st_events st))
    \<and> (history_records (st_compaction_baseline st) (st_events st) \<longrightarrow> history_records b es)"
proof -
  have "validateEventSequence (st_compaction_floor st) (st_head_revision st) (st_events st) = OK"
    using h by (simp add: history_ok_def)
  then have "CompactStateHistory st = bindR
      (compactLoop (st_compaction_baseline st) (st_compaction_floor st) (st_events st))
      (\<lambda>(b, f, es). Inr (st\<lparr>st_compaction_baseline := b, st_compaction_floor := f, st_events := es\<rparr>))"
    using le by (auto simp: CompactStateHistory_def not_less)
  moreover obtain b f es where
    c: "compactLoop (st_compaction_baseline st) (st_compaction_floor st) (st_events st) = Inr (b, f, es)"
    and "history_ok b f (st_head_revision st) es"
      "applyMap (live_map b) (events_changes es) =
        applyMap (live_map (st_compaction_baseline st)) (events_changes (st_events st))"
      "length es \<le> MaxStateEvents" "\<exists>k. es = drop k (st_events st)"
      "history_records (st_compaction_baseline st) (st_events st) \<longrightarrow> history_records b es"
    using compactLoop_spec [OF h] by blast
  ultimately show ?thesis by (intro exI [of _ b] exI [of _ f] exI [of _ es]) simp
qed

end
