(* ===== verification/ValidState.thy ===== *)
theory ValidState
  imports StateFacts
begin

text \<open>
  The complete validator of \<^verbatim>\<open>core/worktree/state.go\<close> as a conjunction of
  predicates: the committed document, the frame, lists and phase of each shell, its
  pending transition and conflict, the receipts, and the history whose replay the shared
  state is.
\<close>

section \<open>The validators as predicates\<close>

lemma validateCommitted_eq_OK [state_ok]:
  "validateCommitted c = OK \<longleftrightarrow> cw_schema c = WorktreeSchemaV1
     \<and> pr_schema (cw_projection c) = WorktreeSchemaV1
     \<and> validatePresentStates (pr_states (cw_projection c)) = OK
     \<and> validateTombstones {} (pr_tombstones (cw_projection c)) = OK"
  by (auto simp: validateCommitted_def bindR_eq_Inr)

lemma ex_unit: "(\<exists>x :: unit. P x) \<longleftrightarrow> P ()"
  by auto

lemma validateConflict_eq_OK [state_ok]:
  "validateConflict c head = OK \<longleftrightarrow>
     (cf_kind c = ConflictOverlap \<or> cf_kind c = ConflictHistoryGap)
     \<and> ValidateIdentity (cf_identity c) = OK \<and> cf_shared_revision c \<noteq> 0
     \<and> cf_shared_revision c \<le> head \<and> cf_base_revision c \<le> cf_shared_revision c
     \<and> validToken (cf_token c) = OK"
  by (auto simp: validateConflict_def bindR_eq_Inr not_less)

definition pending_target_ok :: "pending_transition \<Rightarrow> u64 \<Rightarrow> u64 \<Rightarrow> bool" where
  "pending_target_ok p applied head \<longleftrightarrow>
     pd_revision p \<noteq> 0 \<and> pd_revision p \<le> head \<and> applied \<le> pd_revision p
     \<and> pd_fingerprint p \<noteq> zero32 \<and> validToken (pd_token p) = OK
     \<and> validateChanges (pd_changes p) = OK"

lemma validatePending_eq_OK [state_ok]:
  "validatePending p sh head = OK \<longleftrightarrow>
     (case pd_kind p of
        PendingNone \<Rightarrow> pd_revision p = 0 \<and> pd_fingerprint p = zero32 \<and> pd_token p = []
          \<and> pd_conflict p = None \<and> pd_changes p = []
      | PendingPull \<Rightarrow> pending_target_ok p (sh_applied_revision sh) head \<and> pd_conflict p = None
      | PendingResolution \<Rightarrow> pending_target_ok p (sh_applied_revision sh) head
          \<and> pd_conflict p \<noteq> None \<and> sh_conflict sh \<noteq> None \<and> sh_unpublished sh \<noteq> []
      | PendingOther _ \<Rightarrow> False)"
  by (cases "pd_kind p")
    (auto simp: validatePending_def pending_target_ok_def bindR_eq_Inr not_less)

definition shell_frame_ok :: "string \<Rightarrow> shell_state \<Rightarrow> u64 \<Rightarrow> bool" where
  "shell_frame_ok sid sh head \<longleftrightarrow>
     validStateToken sid \<and> sh_verifier sh \<noteq> zero32
     \<and> (sh_attach_state sh = AttachStateAtHead \<or> sh_attach_state sh = AttachStateCleanReconcile)
     \<and> sh_attached_revision sh \<le> head \<and> sh_applied_revision sh \<le> head \<and> sh_last_active sh \<le> head
     \<and> (sh_attach_state sh = AttachStateAtHead \<longrightarrow> sh_attached_revision sh \<noteq> 0)
     \<and> (sh_attach_state sh = AttachStateCleanReconcile \<longrightarrow>
          sh_applied_revision sh = 0 \<and> sh_applied_baseline sh = [])"

definition shell_lists_ok :: "shell_state \<Rightarrow> bool" where
  "shell_lists_ok sh \<longleftrightarrow>
     validatePresentStates (sh_applied_baseline sh) = OK
     \<and> validatePresentStates (sh_capture_baseline sh) = OK
     \<and> validateChanges (sh_unpublished sh) = OK
     \<and> validateIdentityList (sh_present_at_attach sh) = OK
     \<and> (\<forall>x \<in> set (sh_exclusions sh). validateExclusion x = OK)"

definition shell_phase_ok :: "shell_state \<Rightarrow> bool" where
  "shell_phase_ok sh \<longleftrightarrow>
     validTransitionValue (sh_transition sh)
     \<and> (sh_unpublished sh = [] \<longleftrightarrow> sh_conflict sh = None)
     \<and> (sh_transition sh = TransitionUnpublished \<longrightarrow> sh_conflict sh \<noteq> None)
     \<and> (sh_transition sh = TransitionPrepare \<longrightarrow> pd_kind (sh_pending sh) = PendingPull)
     \<and> (sh_transition sh = TransitionResolve \<longrightarrow> pd_kind (sh_pending sh) = PendingResolution)
     \<and> (\<forall>s. sh_recovered sh \<noteq> RecoveredOther s)"

lemma validateShellState_eq_OK [state_ok]:
  "validateShellState sid sh head = OK \<longleftrightarrow>
     shell_frame_ok sid sh head \<and> shell_lists_ok sh \<and> shell_phase_ok sh
     \<and> validatePending (sh_pending sh) sh head = OK
     \<and> (\<forall>c. sh_conflict sh = Some c \<longrightarrow> validateConflict c head = OK)"
proof -
  have recovered: "(case sh_recovered sh of
      RecoveredOther _ \<Rightarrow> Inl (Errorf ''shell recovered error code is invalid'') | _ \<Rightarrow> OK) = OK
      \<longleftrightarrow> (\<forall>s. sh_recovered sh \<noteq> RecoveredOther s)"
    by (cases "sh_recovered sh") auto
  have conflict: "(case sh_conflict sh of None \<Rightarrow> OK | Some c \<Rightarrow> validateConflict c head) = OK
      \<longleftrightarrow> (\<forall>c. sh_conflict sh = Some c \<longrightarrow> validateConflict c head = OK)"
    by (cases "sh_conflict sh") auto
  show ?thesis
    unfolding validateShellState_def if_Inl_eq_Inr bindR_eq_Inr ex_unit recovered conflict
      forE_eq_OK shell_frame_ok_def shell_lists_ok_def shell_phase_ok_def
      de_Morgan_conj de_Morgan_disj not_less not_not
    by argo
qed

definition receipts_ok :: "wt_state \<Rightarrow> bool" where
  "receipts_ok st \<longleftrightarrow> validateReceipts st = OK"

definition materialized_ok :: "wt_state \<Rightarrow> bool" where
  "materialized_ok st \<longleftrightarrow>
     validStateBranch (st_branch st) \<and> stateOIDRE (st_base_oid st)
     \<and> st_head_revision st \<noteq> 0 \<and> st_head_revision st \<noteq> MaxUint64
     \<and> st_compaction_floor st \<le> st_head_revision st
     \<and> validateCommitted (st_committed st) = OK
     \<and> validateAdmittedIdentities (st_admitted st) = OK"

definition history_state_ok :: "wt_state \<Rightarrow> bool" where
  "history_state_ok st \<longleftrightarrow>
     validatePresentStates (st_shared st) = OK
     \<and> validatePresentStates (st_compaction_baseline st) = OK
     \<and> length (st_events st) \<le> MaxStateEvents
     \<and> validateEventSequence (st_compaction_floor st) (st_head_revision st) (st_events st) = OK
     \<and> validateSharedGeneration (st_compaction_baseline st) (st_events st) (st_shared st) = OK"

definition shells_ok :: "wt_state \<Rightarrow> bool" where
  "shells_ok st \<longleftrightarrow> length (st_shells st) \<le> MaxShellRecords
     \<and> (\<forall>(sid, sh) \<in> set (st_shells st). validateShellState sid sh (st_head_revision st) = OK)"

lemma ValidateState_materialized:
  assumes "st_materialized st"
  shows "ValidateState st = OK \<longleftrightarrow> st_schema_version st = StateSchemaVersion
     \<and> materialized_ok st \<and> history_state_ok st \<and> shells_ok st \<and> receipts_ok st"
  unfolding ValidateState_def materialized_ok_def history_state_ok_def shells_ok_def receipts_ok_def
  by (simp only: assms not_True_eq_False if_False if_Inl_eq_Inr bindR_eq_Inr ex_unit forE_eq_OK
      not_less de_Morgan_disj not_not conj_assoc split_def)

text \<open>The shared state a valid generation carries is the replay of its history.\<close>

lemma history_state_ok_iff:
  "history_state_ok st \<longleftrightarrow>
     good_states (st_shared st) \<and> within_bounds (st_shared st)
     \<and> length (st_compaction_baseline st) \<le> MaxSnapshotRecords
     \<and> history_ok (st_compaction_baseline st) (st_compaction_floor st) (st_head_revision st) (st_events st)
     \<and> length (st_events st) \<le> MaxStateEvents
     \<and> live_map (st_shared st) =
        applyMap (live_map (st_compaction_baseline st)) (events_changes (st_events st))"
  (is "_ \<longleftrightarrow> ?rhs")
proof -
  have changes: "\<forall>e \<in> set (st_events st). validateChanges (se_changes e) = OK"
    if "validateEventSequence (st_compaction_floor st) (st_head_revision st) (st_events st) = OK"
    using validateEventSequence_events [OF that] by (auto simp: event_ok_def)
  show ?thesis
    using changes validateSharedGeneration_eq_OK
    by (auto simp: history_state_ok_def history_ok_def validatePresentStates_eq_OK within_bounds_def)
qed

end
