(* ===== verification/StateCodec.thy ===== *)
theory StateCodec
  imports ValidState
begin

text \<open>
  The durable form of the canonical state (\<^verbatim>\<open>core/worktree/state.go\<close>):
  the data-transfer structures, the conversions in both directions with their
  hexadecimal digests, \<^verbatim>\<open>MarshalState\<close> and
  \<^verbatim>\<open>UnmarshalState\<close>. The JSON text of a structure is represented by the
  structure itself: the standard encoder and decoder are trusted to be inverse on them,
  and the size of the text is a parameter.
\<close>

section \<open>Hexadecimal digests\<close>

definition hex_digit :: "nat \<Rightarrow> char" where
  "hex_digit n = ''0123456789abcdef'' ! n"

definition hex_value :: "char \<Rightarrow> nat option" where
  "hex_value c =
     (if is_digit c then Some (of_char c - 48)
      else if CHR ''a'' \<le> c \<and> c \<le> CHR ''f'' then Some (of_char c - 87)
      else if CHR ''A'' \<le> c \<and> c \<le> CHR ''F'' then Some (of_char c - 55)
      else None)"

fun hexEncode :: "string \<Rightarrow> string" where
  "hexEncode [] = []"
| "hexEncode (c # cs) = hex_digit (of_char c div 16) # hex_digit (of_char c mod 16) # hexEncode cs"

fun hexDecode :: "string \<Rightarrow> string result" where
  "hexDecode [] = Inr []"
| "hexDecode [c] = Inl (Errorf ''encoding/hex: odd length hex string'')"
| "hexDecode (a # b # cs) =
     (case (hex_value a, hex_value b) of
        (Some x, Some y) \<Rightarrow> bindR (hexDecode cs) (\<lambda>rest. Inr (char_of (16 * x + y) # rest))
      | _ \<Rightarrow> Inl (Errorf ''encoding/hex: invalid byte''))"

definition decodeVerifier :: "string \<Rightarrow> string result" where
  "decodeVerifier encoded =
     (case hexDecode encoded of
        Inr raw \<Rightarrow> (if length raw = 32 then Inr raw
                    else Inl (Errorf ''shell capability verifier encoding is invalid''))
      | Inl _ \<Rightarrow> Inl (Errorf ''shell capability verifier encoding is invalid''))"

definition decodeFingerprint :: "string \<Rightarrow> bool \<Rightarrow> fingerprint result" where
  "decodeFingerprint encoded allowEmpty =
     (if allowEmpty \<and> encoded = [] then Inr zero32
      else case hexDecode encoded of
        Inr raw \<Rightarrow> (if length raw = 32 then Inr raw
                    else Inl (Errorf ''snapshot fingerprint encoding is invalid''))
      | Inl _ \<Rightarrow> Inl (Errorf ''snapshot fingerprint encoding is invalid''))"

section \<open>Data-transfer structures\<close>

record pending_dto =
  pt_kind :: pending_kind
  pt_revision :: u64
  pt_fingerprint :: string
  pt_token :: resolution_token
  pt_conflict :: "identity option"
  pt_changes :: "live_change list"

record shell_dto =
  sx_verifier :: string
  sx_attach_state :: attach_state
  sx_attached_revision :: u64
  sx_applied_revision :: u64
  sx_applied_baseline :: "live_state list"
  sx_capture_baseline :: "live_state list"
  sx_unpublished :: "live_change list"
  sx_present_at_attach :: "identity list"
  sx_exclusions :: "exclusion list"
  sx_transition :: shell_transition
  sx_pending :: pending_dto
  sx_behind :: bool
  sx_auto_apply :: "bool option"
  sx_conflict :: "conflict option"
  sx_recovered :: recovered_error
  sx_last_active :: u64

record receipt_dto =
  rd_shell_id :: string
  rd_operation_id :: string
  rd_kind :: receipt_kind
  rd_fingerprint :: string
  rd_attach :: "attach_result option"
  rd_publish :: "publish_result option"
  rd_prepare :: "prepare_pull_result option"
  rd_acknowledge :: "acknowledge_result option"
  rd_resolve :: "resolve_result option"

record state_dto =
  dt_schema_version :: int
  dt_materialized :: bool
  dt_branch :: string
  dt_base_oid :: string
  dt_committed :: committed_worktree
  dt_head_revision :: u64
  dt_auto_apply_default :: bool
  dt_admitted :: "identity list option"
  dt_shared :: "live_state list"
  dt_compaction_floor :: u64
  dt_compaction_baseline :: "live_state list"
  dt_events :: "state_event list"
  dt_shells :: "(string \<times> shell_dto) list"
  dt_receipts :: "receipt_dto list"

section \<open>Copies of the parts\<close>

definition cloneCommitted :: "committed_worktree \<Rightarrow> committed_worktree" where
  "cloneCommitted c = NewCommittedWorktree (cw_source c) (cw_projection c)"

definition cloneEvent :: "state_event \<Rightarrow> state_event" where
  "cloneEvent e =
     \<lparr>se_revision = se_revision e, se_operation_id = se_operation_id e,
      se_shell_id = se_shell_id e, se_changes = CloneLiveChanges (se_changes e)\<rparr>"

definition cloneEvents :: "state_event list \<Rightarrow> state_event list" where
  "cloneEvents = map cloneEvent"

definition clonePrepareResult :: "prepare_pull_result \<Rightarrow> prepare_pull_result" where
  "clonePrepareResult r = r\<lparr>pl_changes := CloneLiveChanges (pl_changes r)\<rparr>"

definition cloneResolveResult :: "resolve_result \<Rightarrow> resolve_result" where
  "cloneResolveResult r = r\<lparr>rs_changes := CloneLiveChanges (rs_changes r)\<rparr>"

section \<open>Conversions\<close>

definition toPendingDTO :: "pending_transition \<Rightarrow> pending_dto" where
  "toPendingDTO p =
     \<lparr>pt_kind = pd_kind p, pt_revision = pd_revision p,
      pt_fingerprint = (if pd_fingerprint p \<noteq> zero32 then hexEncode (pd_fingerprint p) else []),
      pt_token = pd_token p, pt_conflict = pd_conflict p,
      pt_changes = CloneLiveChanges (pd_changes p)\<rparr>"

definition fromPendingDTO :: "pending_dto \<Rightarrow> pending_transition result" where
  "fromPendingDTO d =
     bindR (decodeFingerprint (pt_fingerprint d) (pt_kind d = PendingNone)) (\<lambda>fp.
       Inr \<lparr>pd_kind = pt_kind d, pd_revision = pt_revision d, pd_fingerprint = fp,
            pd_token = pt_token d, pd_conflict = pt_conflict d,
            pd_changes = CloneLiveChanges (pt_changes d)\<rparr>)"

definition toShellDTO :: "shell_state \<Rightarrow> shell_dto" where
  "toShellDTO s =
     \<lparr>sx_verifier = hexEncode (sh_verifier s), sx_attach_state = sh_attach_state s,
      sx_attached_revision = sh_attached_revision s, sx_applied_revision = sh_applied_revision s,
      sx_applied_baseline = CloneLiveStates (sh_applied_baseline s),
      sx_capture_baseline = CloneLiveStates (sh_capture_baseline s),
      sx_unpublished = CloneLiveChanges (sh_unpublished s),
      sx_present_at_attach = sh_present_at_attach s, sx_exclusions = sh_exclusions s,
      sx_transition = sh_transition s, sx_pending = toPendingDTO (sh_pending s),
      sx_behind = sh_behind s, sx_auto_apply = sh_auto_apply s, sx_conflict = sh_conflict s,
      sx_recovered = sh_recovered s, sx_last_active = sh_last_active s\<rparr>"

definition fromShellDTO :: "shell_dto \<Rightarrow> shell_state result" where
  "fromShellDTO d =
     bindR (decodeVerifier (sx_verifier d)) (\<lambda>verifier.
     bindR (fromPendingDTO (sx_pending d)) (\<lambda>pending.
       Inr \<lparr>sh_verifier = verifier, sh_attach_state = sx_attach_state d,
         sh_attached_revision = sx_attached_revision d, sh_applied_revision = sx_applied_revision d,
         sh_applied_baseline = CloneLiveStates (sx_applied_baseline d),
         sh_capture_baseline = CloneLiveStates (sx_capture_baseline d),
         sh_unpublished = CloneLiveChanges (sx_unpublished d),
         sh_present_at_attach = sx_present_at_attach d, sh_exclusions = sx_exclusions d,
         sh_transition = sx_transition d, sh_pending = pending, sh_behind = sx_behind d,
         sh_auto_apply = sx_auto_apply d, sh_conflict = sx_conflict d,
         sh_recovered = sx_recovered d, sh_last_active = sx_last_active d\<rparr>))"

definition toReceiptDTO :: "operation_receipt \<Rightarrow> receipt_dto" where
  "toReceiptDTO r =
     \<lparr>rd_shell_id = or_shell_id r, rd_operation_id = or_operation_id r, rd_kind = or_kind r,
      rd_fingerprint = hexEncode (or_fingerprint r), rd_attach = or_attach r,
      rd_publish = or_publish r, rd_prepare = map_option clonePrepareResult (or_prepare r),
      rd_acknowledge = or_acknowledge r, rd_resolve = map_option cloneResolveResult (or_resolve r)\<rparr>"

definition fromReceiptDTO :: "receipt_dto \<Rightarrow> operation_receipt result" where
  "fromReceiptDTO d =
     bindR (decodeFingerprint (rd_fingerprint d) False) (\<lambda>fp.
       Inr \<lparr>or_shell_id = rd_shell_id d, or_operation_id = rd_operation_id d, or_kind = rd_kind d,
            or_fingerprint = fp, or_attach = rd_attach d, or_publish = rd_publish d,
            or_prepare = map_option clonePrepareResult (rd_prepare d),
            or_acknowledge = rd_acknowledge d,
            or_resolve = map_option cloneResolveResult (rd_resolve d)\<rparr>)"

definition toStateDTO :: "wt_state \<Rightarrow> state_dto" where
  "toStateDTO st =
     \<lparr>dt_schema_version = st_schema_version st, dt_materialized = st_materialized st,
      dt_branch = st_branch st, dt_base_oid = st_base_oid st,
      dt_committed = cloneCommitted (st_committed st), dt_head_revision = st_head_revision st,
      dt_auto_apply_default = st_auto_apply_default st,
      dt_admitted = (if st_admitted_missing st then None else Some (st_admitted st)),
      dt_shared = CloneLiveStates (st_shared st), dt_compaction_floor = st_compaction_floor st,
      dt_compaction_baseline = CloneLiveStates (st_compaction_baseline st),
      dt_events = cloneEvents (st_events st),
      dt_shells = map (\<lambda>(sid, s). (sid, toShellDTO s)) (st_shells st),
      dt_receipts = map toReceiptDTO (st_receipts st)\<rparr>"

definition fromStateDTO :: "state_dto \<Rightarrow> wt_state result" where
  "fromStateDTO d =
     bindR (mapR (\<lambda>(sid, s). bindR (fromShellDTO s) (\<lambda>s'. Inr (sid, s'))) (dt_shells d)) (\<lambda>shells.
     bindR (mapR fromReceiptDTO (dt_receipts d)) (\<lambda>receipts.
       Inr \<lparr>st_schema_version = dt_schema_version d, st_materialized = dt_materialized d,
         st_branch = dt_branch d, st_base_oid = dt_base_oid d,
         st_committed = cloneCommitted (dt_committed d), st_head_revision = dt_head_revision d,
         st_auto_apply_default = dt_auto_apply_default d,
         st_admitted = (case dt_admitted d of None \<Rightarrow> [] | Some is \<Rightarrow> is),
         st_shared = CloneLiveStates (dt_shared d), st_compaction_floor = dt_compaction_floor d,
         st_compaction_baseline = CloneLiveStates (dt_compaction_baseline d),
         st_events = cloneEvents (dt_events d), st_shells = shells, st_receipts = receipts,
         st_admitted_missing = (dt_admitted d = None)\<rparr>))"

text \<open>\<^verbatim>\<open>cloneState\<close> panics where the conversion fails: there it has no value.\<close>

definition cloneState :: "wt_state \<Rightarrow> wt_state option" where
  "cloneState st = (case fromStateDTO (toStateDTO st) of Inl _ \<Rightarrow> None | Inr st' \<Rightarrow> Some st')"

definition MarshalState :: "(state_dto \<Rightarrow> bool) \<Rightarrow> wt_state \<Rightarrow> state_dto result" where
  "MarshalState too_large st =
     bindR (ValidateState st) (\<lambda>_.
       if too_large (toStateDTO st) then Inl (Errorf ''worktree state exceeds %d bytes'')
       else Inr (toStateDTO st))"

definition UnmarshalState :: "(state_dto \<Rightarrow> bool) \<Rightarrow> state_dto \<Rightarrow> wt_state option result" where
  "UnmarshalState too_large dto =
     (if too_large dto then Inl (Errorf ''worktree state size is invalid'')
      else bindR (fromStateDTO dto) (\<lambda>st.
        bindR (ValidateState st) (\<lambda>_. Inr (cloneState st))))"

section \<open>Round trip\<close>

lemma hex_value_digit: "n < 16 \<Longrightarrow> hex_value (hex_digit n) = Some n"
proof -
  have "\<forall>n \<in> set [0..<16]. hex_value (hex_digit n) = Some n" by code_simp
  then show "n < 16 \<Longrightarrow> hex_value (hex_digit n) = Some n" by simp
qed

lemma hexDecode_hexEncode [simp]: "hexDecode (hexEncode bs) = Inr bs"
proof (induction bs)
  case Nil
  then show ?case by simp
next
  case (Cons c cs)
  have "of_char c < (256 :: nat)" by (rule nat_of_char_less_256)
  then have "of_char c div 16 < (16 :: nat)" by (intro less_mult_imp_div_less) simp
  then have "hex_value (hex_digit (of_char c div 16)) = Some (of_char c div 16)"
    "hex_value (hex_digit (of_char c mod 16)) = Some (of_char c mod 16)"
    by (simp_all add: hex_value_digit)
  with Cons show ?case by simp
qed

lemma length_hexEncode [simp]: "length (hexEncode bs) = 2 * length bs"
  by (induction bs) auto

lemma hexEncode_Nil [simp]: "hexEncode bs = [] \<longleftrightarrow> bs = []"
  by (cases bs) auto

text \<open>
  The byte arrays of the code have their length by type; here it is a condition. A
  pending transition that is not empty must carry a fingerprint.
\<close>

definition pending_bytes :: "pending_transition \<Rightarrow> bool" where
  "pending_bytes p \<longleftrightarrow> length (pd_fingerprint p) = 32
     \<and> (pd_kind p \<noteq> PendingNone \<longrightarrow> pd_fingerprint p \<noteq> zero32)"

definition shell_bytes :: "shell_state \<Rightarrow> bool" where
  "shell_bytes s \<longleftrightarrow> length (sh_verifier s) = 32 \<and> pending_bytes (sh_pending s)"

definition state_bytes_ok :: "wt_state \<Rightarrow> bool" where
  "state_bytes_ok st \<longleftrightarrow> (\<forall>(sid, s) \<in> set (st_shells st). shell_bytes s)
     \<and> (\<forall>r \<in> set (st_receipts st). length (or_fingerprint r) = 32)"

text \<open>What the round trip computes: every live value copied.\<close>

definition normPending :: "pending_transition \<Rightarrow> pending_transition" where
  "normPending p = p\<lparr>pd_changes := CloneLiveChanges (pd_changes p)\<rparr>"

definition normShell :: "shell_state \<Rightarrow> shell_state" where
  "normShell s = s\<lparr>sh_applied_baseline := CloneLiveStates (sh_applied_baseline s),
     sh_capture_baseline := CloneLiveStates (sh_capture_baseline s),
     sh_unpublished := CloneLiveChanges (sh_unpublished s), sh_pending := normPending (sh_pending s)\<rparr>"

definition normReceipt :: "operation_receipt \<Rightarrow> operation_receipt" where
  "normReceipt r = r\<lparr>or_prepare := map_option clonePrepareResult (or_prepare r),
     or_resolve := map_option cloneResolveResult (or_resolve r)\<rparr>"

definition normState :: "wt_state \<Rightarrow> wt_state" where
  "normState st = st\<lparr>st_committed := cloneCommitted (st_committed st),
     st_admitted := (if st_admitted_missing st then [] else st_admitted st),
     st_shared := CloneLiveStates (st_shared st),
     st_compaction_baseline := CloneLiveStates (st_compaction_baseline st),
     st_events := cloneEvents (st_events st),
     st_shells := map (\<lambda>(sid, s). (sid, normShell s)) (st_shells st),
     st_receipts := map normReceipt (st_receipts st)\<rparr>"

lemma length_zero32 [simp]: "length zero32 = 32"
  by (simp add: zero32_def)

lemma fromPendingDTO_to:
  "pending_bytes p \<Longrightarrow> fromPendingDTO (toPendingDTO p) = Inr (normPending p)"
  by (cases p) (auto simp: fromPendingDTO_def toPendingDTO_def pending_bytes_def normPending_def
      decodeFingerprint_def)

lemma fromShellDTO_to: "shell_bytes s \<Longrightarrow> fromShellDTO (toShellDTO s) = Inr (normShell s)"
  by (cases s) (auto simp: fromShellDTO_def toShellDTO_def shell_bytes_def normShell_def
      decodeVerifier_def fromPendingDTO_to)

lemma clonePrepareResult_idem [simp]: "clonePrepareResult (clonePrepareResult r) = clonePrepareResult r"
  by (simp add: clonePrepareResult_def)

lemma cloneResolveResult_idem [simp]: "cloneResolveResult (cloneResolveResult r) = cloneResolveResult r"
  by (simp add: cloneResolveResult_def)

lemma fromReceiptDTO_to:
  "length (or_fingerprint r) = 32 \<Longrightarrow> fromReceiptDTO (toReceiptDTO r) = Inr (normReceipt r)"
proof -
  have "map_option clonePrepareResult (map_option clonePrepareResult p) = map_option clonePrepareResult p" for p
    by (cases p) auto
  moreover have "map_option cloneResolveResult (map_option cloneResolveResult p) = map_option cloneResolveResult p" for p
    by (cases p) auto
  ultimately show "length (or_fingerprint r) = 32 \<Longrightarrow> fromReceiptDTO (toReceiptDTO r) = Inr (normReceipt r)"
    by (cases r) (auto simp: fromReceiptDTO_def toReceiptDTO_def normReceipt_def decodeFingerprint_def)
qed

lemma cloneEvent_idem [simp]: "cloneEvent (cloneEvent e) = cloneEvent e"
  by (simp add: cloneEvent_def)

lemma cloneEvents_idem [simp]: "cloneEvents (cloneEvents es) = cloneEvents es"
  by (simp add: cloneEvents_def)

lemma cloneCommitted_idem [simp]: "cloneCommitted (cloneCommitted c) = cloneCommitted c"
  by (simp add: cloneCommitted_def)

lemma fromStateDTO_to:
  assumes "state_bytes_ok st"
  shows "fromStateDTO (toStateDTO st) = Inr (normState st)"
proof -
  have shells: "mapR (\<lambda>(sid, s). bindR (fromShellDTO s) (\<lambda>s'. Inr (sid, s')))
      (map (\<lambda>(sid, s). (sid, toShellDTO s)) (st_shells st)) =
      Inr (map (\<lambda>(sid, s). (sid, normShell s)) (st_shells st))"
    unfolding mapR_map
    by (rule mapR_total) (use assms in \<open>auto simp: state_bytes_ok_def fromShellDTO_to\<close>)
  have receipts: "mapR fromReceiptDTO (map toReceiptDTO (st_receipts st)) =
      Inr (map normReceipt (st_receipts st))"
    unfolding mapR_map
    by (rule mapR_total) (use assms in \<open>auto simp: state_bytes_ok_def fromReceiptDTO_to\<close>)
  show ?thesis
    by (simp add: fromStateDTO_def toStateDTO_def normState_def shells receipts)
qed

lemma cloneState_eq: "state_bytes_ok st \<Longrightarrow> cloneState st = Some (normState st)"
  by (simp add: cloneState_def fromStateDTO_to)

section \<open>Copying keeps a state valid\<close>

lemma CloneLiveStates_Nil [simp]: "CloneLiveStates ss = [] \<longleftrightarrow> ss = []"
  by (simp add: CloneLiveStates_def)

lemma CloneLiveChanges_Nil [simp]: "CloneLiveChanges cs = [] \<longleftrightarrow> cs = []"
  by (simp add: CloneLiveChanges_def)

lemma validatePresentStates_clone:
  "validatePresentStates ss = OK \<Longrightarrow> validatePresentStates (CloneLiveStates ss) = OK"
  by (auto simp: validatePresentStates_eq_OK good_states_clone) (simp add: CloneLiveStates_def)

lemma validateLiveChange_clone:
  "validateLiveChange c = OK \<Longrightarrow> validateLiveChange (CloneLiveChange c) = OK"
  by (auto simp: validateLiveChange_def bindR_eq_Inr if_Inl_eq_Inr ValidateLiveValue_clone
      split: change_kind.splits)

lemma validateChanges_clone:
  "validateChanges cs = OK \<Longrightarrow> validateChanges (CloneLiveChanges cs) = OK"
  by (auto simp: validateChanges_eq_OK CloneLiveChanges_def comp_def validateLiveChange_clone)

lemma validateCommitted_clone:
  "validateCommitted c = OK \<Longrightarrow> validateCommitted (cloneCommitted c) = OK"
  by (simp add: validateCommitted_eq_OK cloneCommitted_def validatePresentStates_clone)

lemma validateEventsFrom_clone:
  "validateEventsFrom n es = OK \<Longrightarrow> validateEventsFrom n (cloneEvents es) = OK"
  by (induction es arbitrary: n)
    (auto simp: cloneEvents_def validateEventsFrom_Cons event_ok_def cloneEvent_def validateChanges_clone)

lemma validateEventSequence_clone:
  "validateEventSequence f h es = OK \<Longrightarrow> validateEventSequence f h (cloneEvents es) = OK"
  by (auto simp: validateEventSequence_eq_OK validateEventsFrom_clone) (simp add: cloneEvents_def)

lemma events_changes_clone: "applyMap m (events_changes (cloneEvents es)) = applyMap m (events_changes es)"
  by (induction es arbitrary: m) (auto simp: cloneEvents_def cloneEvent_def applyMap_append)

lemma normShell_ok:
  assumes "validateShellState sid sh head = OK"
  shows "validateShellState sid (normShell sh) head = OK"
proof -
  have "validatePending (normPending (sh_pending sh)) (normShell sh) head = OK"
    using assms validateChanges_clone
    by (cases "pd_kind (sh_pending sh)")
      (auto simp: state_ok normPending_def normShell_def pending_target_ok_def)
  with assms show ?thesis
    by (auto simp: validateShellState_eq_OK shell_frame_ok_def shell_lists_ok_def shell_phase_ok_def
        normShell_def normPending_def validatePresentStates_clone validateChanges_clone)
qed

lemma count_some_map: "count_some (map_option f x) = count_some x"
  by (cases x) (auto simp: count_some_def)

lemma normReceipt_sel:
  "or_shell_id (normReceipt r) = or_shell_id r" "or_operation_id (normReceipt r) = or_operation_id r"
  "or_kind (normReceipt r) = or_kind r" "or_attach (normReceipt r) = or_attach r"
  "or_publish (normReceipt r) = or_publish r"
  "or_prepare (normReceipt r) = map_option clonePrepareResult (or_prepare r)"
  "or_acknowledge (normReceipt r) = or_acknowledge r"
  "or_resolve (normReceipt r) = map_option cloneResolveResult (or_resolve r)"
  by (simp_all add: normReceipt_def)

lemma validateReceiptLoop_norm:
  "validateReceiptLoop shells counts seen (map normReceipt rs) = validateReceiptLoop shells counts seen rs"
proof -
  have union: "validateReceiptUnion (normReceipt r) = validateReceiptUnion r" for r
    unfolding validateReceiptUnion_def normReceipt_sel count_some_map option.map_disc_iff ..
  show ?thesis
    by (induction rs arbitrary: counts seen)
      (simp_all add: union Let_def normReceipt_sel receiptKey_def)
qed

lemma history_state_ok_norm: "history_state_ok st \<Longrightarrow> history_state_ok (normState st)"
  by (auto simp: history_state_ok_iff history_ok_def normState_def good_states_clone
      validateEventSequence_clone events_changes_clone)
    (simp_all add: CloneLiveStates_def cloneEvents_def)

lemma ValidateState_norm:
  assumes m: "st_materialized st" and ok: "ValidateState st = OK" and a: "\<not> st_admitted_missing st"
  shows "ValidateState (normState st) = OK"
proof -
  have "st_materialized (normState st)" using m by (simp add: normState_def)
  moreover have "materialized_ok (normState st)"
    using ok a by (auto simp: ValidateState_materialized m materialized_ok_def normState_def validateCommitted_clone)
  moreover have "shells_ok (normState st)"
    using ok by (auto simp: ValidateState_materialized m shells_ok_def normState_def normShell_ok)
  moreover have "receipts_ok (normState st)"
  proof -
    have "fst ` set (st_shells (normState st)) = fst ` set (st_shells st)"
      by (force simp: normState_def)
    then show ?thesis
      using ok by (simp add: ValidateState_materialized m receipts_ok_def validateReceipts_def
          validateReceiptLoop_norm) (simp add: normState_def validateReceiptLoop_norm)
  qed
  moreover have "st_schema_version (normState st) = StateSchemaVersion"
    using ok by (simp add: ValidateState_materialized m normState_def)
  ultimately show ?thesis
    using ok history_state_ok_norm by (simp add: ValidateState_materialized m)
qed

end
