(* ===== verification/GoText.thy ===== *)
theory GoText
  imports Prelude
begin

text \<open>
  What the code uses of Go's \<^verbatim>\<open>strings\<close>, \<^verbatim>\<open>bytes\<close> and
  \<^verbatim>\<open>strconv\<close> packages, on byte strings: prefixes, cutting, splitting and
  joining, white space, and decimal numbers.
\<close>

section \<open>Prefixes, cutting and splitting\<close>

definition has_prefix :: "string \<Rightarrow> string \<Rightarrow> bool" where
  "has_prefix p s \<longleftrightarrow> take (length p) s = p"

text \<open>\<^verbatim>\<open>Cut(s, sep)\<close> for a separator of one byte.\<close>

definition cutAt :: "char \<Rightarrow> string \<Rightarrow> (string \<times> string) option" where
  "cutAt sep s =
     (if sep \<in> set s then Some (takeWhile (\<lambda>c. c \<noteq> sep) s, tl (dropWhile (\<lambda>c. c \<noteq> sep) s)) else None)"

fun splitOn :: "char \<Rightarrow> string \<Rightarrow> string list" where
  "splitOn sep [] = [[]]"
| "splitOn sep (c # cs) =
     (if c = sep then [] # splitOn sep cs
      else case splitOn sep cs of [] \<Rightarrow> [[c]] | p # ps \<Rightarrow> (c # p) # ps)"

fun joinWith :: "char \<Rightarrow> string list \<Rightarrow> string" where
  "joinWith sep [] = []"
| "joinWith sep [s] = s"
| "joinWith sep (s # ss) = s @ sep # joinWith sep ss"

section \<open>White space\<close>

text \<open>The white space of Unicode in UTF-8, which \<^verbatim>\<open>strings.TrimSpace\<close> cuts off.\<close>

definition space_runes :: "string list" where
  "space_runes =
     [[CHR '' ''], [CHR 0x09], [CHR 0x0A], [CHR 0x0B], [CHR 0x0C], [CHR 0x0D],
      [CHR 0xC2, CHR 0x85], [CHR 0xC2, CHR 0xA0], [CHR 0xE1, CHR 0x9A, CHR 0x80]]
     @ map (\<lambda>n. [CHR 0xE2, CHR 0x80, char_of n]) ([0x80..<0x8B] @ [0xA8, 0xA9, 0xAF :: nat])
     @ [[CHR 0xE2, CHR 0x81, CHR 0x9F], [CHR 0xE3, CHR 0x80, CHR 0x80]]"

function trim_left :: "string list \<Rightarrow> string \<Rightarrow> string" where
  "trim_left spaces s =
     (case find (\<lambda>p. p \<noteq> [] \<and> has_prefix p s) spaces of
        None \<Rightarrow> s
      | Some p \<Rightarrow> trim_left spaces (drop (length p) s))"
  by auto
termination
  by (relation "measure (\<lambda>(spaces, s). length s)")
     (auto simp: find_Some_iff has_prefix_def, metis diff_less length_greater_0_conv take_eq_Nil)

declare trim_left.simps [simp del]

definition TrimSpace :: "string \<Rightarrow> string" where
  "TrimSpace s = rev (trim_left (map rev space_runes) (rev (trim_left space_runes s)))"

section \<open>Errors\<close>

text \<open>
  \<^verbatim>\<open>errors.Is\<close>: an error is itself, what its own \<^verbatim>\<open>Is\<close> method says, or
  one of the errors it joins.
\<close>

fun errorIs :: "go_error \<Rightarrow> go_error \<Rightarrow> bool" where
  "errorIs (IngestRecovery b) t \<longleftrightarrow> t = IngestRecovery b \<or> t = ErrIngestRecoveryRequired"
| "errorIs (IngestNotCommitted None) t \<longleftrightarrow> t = IngestNotCommitted None \<or> t = ErrIngestNotCommitted"
| "errorIs (IngestNotCommitted (Some c)) t \<longleftrightarrow>
     t = IngestNotCommitted (Some c) \<or> t = ErrIngestNotCommitted \<or> errorIs c t"
| "errorIs (JoinedErrors a b) t \<longleftrightarrow> t = JoinedErrors a b \<or> errorIs a t \<or> errorIs b t"
| "errorIs e t \<longleftrightarrow> t = e"

section \<open>Numbers\<close>

text \<open>\<^verbatim>\<open>strconv.Atoi\<close>: an optional sign, at least one digit, and a result of 64 bits.\<close>

definition digit_value :: "char \<Rightarrow> int" where
  "digit_value c = int (of_char c) - 48"

definition decimal_value :: "string \<Rightarrow> int" where
  "decimal_value s = fold (\<lambda>c n. 10 * n + digit_value c) s 0"

definition goAtoi :: "string \<Rightarrow> int option" where
  "goAtoi s =
     (let (negative, ds) = (case s of
            [] \<Rightarrow> (False, [])
          | c # cs \<Rightarrow> if c = CHR ''-'' then (True, cs) else if c = CHR ''+'' then (False, cs) else (False, s));
          n = (if negative then - decimal_value ds else decimal_value ds)
      in if ds \<noteq> [] \<and> list_all is_digit ds \<and> - (2 ^ 63) \<le> n \<and> n < 2 ^ 63 then Some n else None)"

section \<open>Facts\<close>

lemma has_prefix_append [simp]: "has_prefix p (p @ s)"
  by (simp add: has_prefix_def)

lemma has_prefix_conv: "has_prefix p s \<longleftrightarrow> (\<exists>t. s = p @ t)"
  by (metis append_eq_conv_conj append_take_drop_id has_prefix_def)

lemma has_prefix_single: "has_prefix [c] s \<longleftrightarrow> s \<noteq> [] \<and> hd s = c"
  by (cases s) (auto simp: has_prefix_def)

lemma splitOn_not_Nil [simp]: "splitOn c s \<noteq> []"
  by (induction s) (auto split: list.split)

lemma joinWith_Cons: "ss \<noteq> [] \<Longrightarrow> joinWith c (s # ss) = s @ c # joinWith c ss"
  by (cases ss) auto

lemma joinWith_splitOn: "joinWith c (splitOn c s) = s"
proof (induction s)
  case (Cons d s)
  then obtain p ps where "splitOn c s = p # ps" by (cases "splitOn c s") auto
  with Cons show ?case by (cases ps) auto
qed simp

lemma splitOn_plain: "c \<notin> set s \<Longrightarrow> splitOn c s = [s]"
  by (induction s) auto

lemma splitOn_append: "c \<notin> set s \<Longrightarrow> splitOn c (s @ c # t) = s # splitOn c t"
  by (induction s) auto

lemma splitOn_joinWith:
  assumes "ss \<noteq> []" "\<forall>s \<in> set ss. c \<notin> set s"
  shows "splitOn c (joinWith c ss) = ss"
  using assms by (induction ss rule: joinWith.induct) (auto simp: splitOn_plain splitOn_append)

lemma splitOn_parts: "s' \<in> set (splitOn c s) \<Longrightarrow> c \<notin> set s'"
proof (induction s arbitrary: s')
  case (Cons d s)
  obtain p ps where "splitOn c s = p # ps" by (cases "splitOn c s") auto
  with Cons show ?case by (auto split: if_splits)
qed simp

lemma splitOn_eq_iff:
  "ss \<noteq> [] \<Longrightarrow> \<forall>s \<in> set ss. c \<notin> set s \<Longrightarrow> splitOn c t = ss \<longleftrightarrow> t = joinWith c ss"
  using joinWith_splitOn [of c t] splitOn_joinWith [of ss c] by auto

lemma cutAt_append: "c \<notin> set s \<Longrightarrow> cutAt c (s @ c # t) = Some (s, t)"
  by (induction s) (auto simp: cutAt_def)

lemma cutAt_Some: "cutAt c s = Some (a, b) \<longleftrightarrow> s = a @ c # b \<and> c \<notin> set a"
proof
  assume "cutAt c s = Some (a, b)"
  then have "c \<in> set s" "a = takeWhile (\<lambda>d. d \<noteq> c) s" "b = tl (dropWhile (\<lambda>d. d \<noteq> c) s)"
    by (auto simp: cutAt_def split: if_splits)
  moreover from this(1) have "dropWhile (\<lambda>d. d \<noteq> c) s = c # tl (dropWhile (\<lambda>d. d \<noteq> c) s)"
    by (induction s) auto
  ultimately show "s = a @ c # b \<and> c \<notin> set a"
    by (metis (mono_tags, lifting) set_takeWhileD takeWhile_dropWhile_id)
qed (auto simp: cutAt_append)

lemma cutAt_None: "cutAt c s = None \<longleftrightarrow> c \<notin> set s"
  by (auto simp: cutAt_def)

text \<open>Cutting the line feed off a word that starts and ends with printable ASCII.\<close>

definition printable :: "char \<Rightarrow> bool" where
  "printable c \<longleftrightarrow> CHR ''!'' \<le> c \<and> c \<le> CHR ''~''"

lemma trim_left_stop:
  assumes "s = [] \<or> (\<forall>p \<in> set spaces. p \<noteq> [] \<longrightarrow> hd p \<noteq> hd s)"
  shows "trim_left spaces s = s"
proof -
  have "find (\<lambda>p. p \<noteq> [] \<and> has_prefix p s) spaces = None"
    using assms by (auto simp: find_None_iff has_prefix_def) (metis hd_take length_greater_0_conv take_Nil)+
  then show ?thesis by (simp add: trim_left.simps)
qed

lemma space_runes_heads: "\<forall>p \<in> set space_runes. \<not> printable (hd p) \<and> \<not> printable (last p) \<and> p \<noteq> []"
  by code_simp

lemma TrimSpace_line:
  assumes "s \<noteq> []" "printable (hd s)" "printable (last s)"
  shows "TrimSpace (s @ [CHR 0x0A]) = s" "TrimSpace s = s"
proof -
  have heads: "\<forall>p \<in> set space_runes. p \<noteq> [] \<longrightarrow> hd p \<noteq> hd s"
    "\<forall>p \<in> set (map rev space_runes). p \<noteq> [] \<longrightarrow> hd p \<noteq> hd (rev s)"
    using assms space_runes_heads by (auto simp: hd_rev)
  then have a: "trim_left space_runes (s @ [CHR 0x0A]) = s @ [CHR 0x0A]" "trim_left space_runes s = s"
    using assms by (auto intro!: trim_left_stop)
  have b: "trim_left (map rev space_runes) (rev s) = rev s"
    using heads by (auto intro!: trim_left_stop)
  have "find (\<lambda>p. p \<noteq> [] \<and> has_prefix p (CHR 0x0A # rev s)) (map rev space_runes) = Some [CHR 0x0A]"
    by (simp add: space_runes_def has_prefix_def)
  then have "trim_left (map rev space_runes) (CHR 0x0A # rev s) = trim_left (map rev space_runes) (rev s)"
    by (subst trim_left.simps) simp
  with a b show "TrimSpace (s @ [CHR 0x0A]) = s" "TrimSpace s = s" by (simp_all add: TrimSpace_def)
qed

end
