(* ===== verification/Registry.thy ===== *)
theory Registry
  imports ValidState GoText
begin

text \<open>
  The live registry of \<^verbatim>\<open>core/worktree/registry.go\<close>: which identities
  the shared worktree owns, which of them are pinned secrets, and the gate every
  live value passes. A Go pointer to a registry is the registry value together with an
  identifier \<open>rg_id\<close> that stands for the pointer; the classifier's
  \<^verbatim>\<open>LiveSecretPolicy\<close> interface has one method, so a policy is a predicate.
\<close>

section \<open>Data\<close>

datatype admission_reason =
    AdmissionNone
  | AdmissionUnsupported
  | AdmissionUnsafeName
  | AdmissionBookkeeping
  | AdmissionVolatile
  | AdmissionLiveSecret
  | AdmissionPinnedSecret
  | AdmissionPresentAtAttach
  | AdmissionPolicyMissing
  | AdmissionNotAttached

fun reason_string :: "admission_reason \<Rightarrow> string" where
  "reason_string AdmissionNone = []"
| "reason_string AdmissionUnsupported = ''unsupported''"
| "reason_string AdmissionUnsafeName = ''unsafe-name''"
| "reason_string AdmissionBookkeeping = ''bookkeeping''"
| "reason_string AdmissionVolatile = ''volatile''"
| "reason_string AdmissionLiveSecret = ''live-secret''"
| "reason_string AdmissionPinnedSecret = ''pinned-secret''"
| "reason_string AdmissionPresentAtAttach = ''present-at-attach''"
| "reason_string AdmissionPolicyMissing = ''policy-missing''"
| "reason_string AdmissionNotAttached = ''not-attached''"

record registry =
  rg_id :: nat
  rg_policy :: "(identity \<Rightarrow> bool) option"
  rg_owned :: "identity set"
  rg_pinned :: "identity set"

record admission_result =
  ad_identity :: identity
  ad_admitted :: bool
  ad_reason :: admission_reason

record attachment =
  am_baseline :: "live_state list"
  am_exclusions :: "exclusion list"
  am_present :: "identity set"
  am_registry :: nat

definition NewRegistry :: "nat \<Rightarrow> (identity \<Rightarrow> bool) option \<Rightarrow> registry" where
  "NewRegistry pointer policy =
     \<lparr>rg_id = pointer, rg_policy = policy, rg_owned = {}, rg_pinned = {}\<rparr>"

section \<open>Names the code never admits\<close>

definition upper_char :: "char \<Rightarrow> char" where
  "upper_char c = (if is_lower c then char_of (of_char c - 32 :: nat) else c)"

text \<open>
  Both tests run on names \<^const>\<open>ValidateIdentity\<close> accepted, which are ASCII; upper
  casing and \<^verbatim>\<open>strings.EqualFold\<close> are the ASCII ones.
\<close>

definition isBookkeepingIdentity :: "identity \<Rightarrow> bool" where
  "isBookkeepingIdentity i =
     (let upper = map upper_char (id_name i)
      in has_prefix ''ZP_'' upper \<or> has_prefix ''_ZP_'' upper \<or> has_prefix ''__ZP_'' upper
         \<or> has_prefix ''ZSHPRO_'' upper \<or> upper = ''ZSH-PRO'')"

definition volatile_names :: "string list" where
  "volatile_names =
     [''_'', ''ARGC'', ''COLUMNS'', ''EPOCHREALTIME'', ''EPOCHSECONDS'', ''HISTCMD'', ''LINENO'',
      ''LINES'', ''OLDPWD'', ''PPID'', ''PWD'', ''RANDOM'', ''SECONDS'', ''SHLVL'', ''TTY'',
      ''TTYIDLE'', ''pipestatus'', ''status'', ''ZSH_SUBSHELL'']"

definition isVolatileIdentity :: "identity \<Rightarrow> bool" where
  "isVolatileIdentity i \<longleftrightarrow> id_kind i = LiveEnv \<and> id_name i \<in> set volatile_names"

definition exclusionReason :: "registry \<Rightarrow> identity \<Rightarrow> admission_reason" where
  "exclusionReason r i =
     (if \<not> supported_kind (id_kind i) then AdmissionUnsupported
      else if ValidateIdentity i \<noteq> OK then AdmissionUnsafeName
      else if i \<in> rg_pinned r then AdmissionPinnedSecret
      else if isBookkeepingIdentity i then AdmissionBookkeeping
      else if isVolatileIdentity i then AdmissionVolatile
      else case rg_policy r of
        None \<Rightarrow> AdmissionPolicyMissing
      | Some policy \<Rightarrow> (if policy i then AdmissionLiveSecret else AdmissionNone))"

definition Owns :: "registry \<Rightarrow> identity \<Rightarrow> bool" where
  "Owns r i \<longleftrightarrow> i \<in> rg_owned r"

definition IsPinnedSecret :: "registry \<Rightarrow> identity \<Rightarrow> bool" where
  "IsPinnedSecret r i \<longleftrightarrow> i \<in> rg_pinned r"

definition AllowsLiveValue :: "registry \<Rightarrow> identity \<Rightarrow> bool" where
  "AllowsLiveValue r i \<longleftrightarrow> Owns r i \<and> exclusionReason r i = AdmissionNone"

section \<open>Seeding from the committed source\<close>

record seed_decision =
  sd_owned :: bool
  sd_pin :: bool

definition assignment_kind :: "string \<Rightarrow> live_kind" where
  "assignment_kind name =
     (if name = ''PATH'' then LivePath else if name = ''FPATH'' then LiveFPath else LiveEnv)"

definition registryEntryIdentities :: "entry \<Rightarrow> identity list" where
  "registryEntryIdentities e =
     (case en_kind e of
        KindAssignment \<Rightarrow> map (\<lambda>n. Identity (assignment_kind n) n) (en_names e)
      | KindAlias \<Rightarrow> map (Identity LiveAlias) (en_names e)
      | KindFuncDecl \<Rightarrow> map (Identity LiveFunction) (en_names e)
      | KindCommand \<Rightarrow>
          (if en_cmd_name e \<noteq> ''setopt'' \<and> en_cmd_name e \<noteq> ''unsetopt'' then []
           else map (Identity LiveOption) (en_names e))
      | _ \<Rightarrow> [])"

definition validateRegistrySecretRef :: "entry \<Rightarrow> unit result" where
  "validateRegistrySecretRef e =
     (case en_secret e of
        None \<Rightarrow> Inl (Errorf ''materialized SecretRef is invalid'')
      | Some ref \<Rightarrow>
          (if en_kind e \<noteq> KindAssignment \<or> en_category e \<noteq> CatSecrets
              \<or> length (en_names e) \<noteq> 1 \<or> hd (en_names e) = [] \<or> sr_key ref \<noteq> hd (en_names e)
              \<or> (sr_kind ref \<noteq> SecretRefKeychain \<and> sr_kind ref \<noteq> SecretRefFile)
              \<or> \<not> EffectiveManaged e \<or> \<not> Representable e \<or> en_dynamic e
              \<or> en_value_mode e \<noteq> ValueModeUnsupported \<or> en_runtime_value e \<noteq> None
              \<or> ValidateIdentity (Identity LiveEnv (sr_key ref)) \<noteq> OK
           then Inl (Errorf ''materialized SecretRef is invalid'') else OK))"

definition seedDecision :: "entry \<Rightarrow> identity \<Rightarrow> seed_decision" where
  "seedDecision e i =
     (if EffectiveManaged e \<and> Representable e \<and> ValidateIdentity i = OK
      then \<lparr>sd_owned = True, sd_pin = (en_secret e \<noteq> None)\<rparr>
      else \<lparr>sd_owned = False, sd_pin = False\<rparr>)"

fun seedLoop ::
  "(identity \<times> seed_decision) list \<Rightarrow> profile \<Rightarrow> (identity \<times> seed_decision) list result" where
  "seedLoop final [] = Inr final"
| "seedLoop final (e # es) =
     bindR (if en_secret e \<noteq> None then validateRegistrySecretRef e else OK) (\<lambda>_.
       seedLoop (fold (\<lambda>i. assoc_put i (seedDecision e i)) (registryEntryIdentities e) final) es)"

definition Seed :: "registry \<Rightarrow> profile \<Rightarrow> registry result" where
  "Seed r p =
     bindR (seedLoop [] p) (\<lambda>final.
       let owned = filter (\<lambda>(i, d). sd_owned d) final;
           pinned = filter (\<lambda>(i, d). sd_pin d) owned
       in Inr (r\<lparr>rg_owned := set (map fst owned), rg_pinned := set (map fst pinned)\<rparr>))"

section \<open>Restoring durable admissions\<close>

fun restoreLoop :: "registry \<Rightarrow> identity set \<Rightarrow> identity list \<Rightarrow> unit result" where
  "restoreLoop r seen [] = OK"
| "restoreLoop r seen (i # is) =
     (if i \<in> seen then Inl (Errorf ''durable admitted identity list contains a duplicate'')
      else if exclusionReason r i \<noteq> AdmissionNone
      then Inl (Errorf ''durable admitted identity is unsafe'')
      else restoreLoop r (insert i seen) is)"

definition RestoreAdmitted :: "registry \<Rightarrow> identity list \<Rightarrow> registry result" where
  "RestoreAdmitted r is =
     bindR (restoreLoop r {} is) (\<lambda>_. Inr (r\<lparr>rg_owned := rg_owned r \<union> set is\<rparr>))"

section \<open>Attachment and admission\<close>

definition attachStep :: "registry \<Rightarrow> attachment \<Rightarrow> live_state \<Rightarrow> attachment" where
  "attachStep r a s =
     (if \<not> lv_present (ls_value s) then
        (if AllowsLiveValue r (ls_identity s)
         then a\<lparr>am_baseline := am_baseline a @ [CloneLiveState s]\<rparr> else a)
      else
        let a' = a\<lparr>am_present := insert (ls_identity s) (am_present a)\<rparr>;
            reason = exclusionReason r (ls_identity s)
        in if reason \<noteq> AdmissionNone
           then a'\<lparr>am_exclusions := am_exclusions a'
                  @ [\<lparr>ex_identity = ls_identity s, ex_reason = reason_string reason\<rparr>]\<rparr>
           else if AllowsLiveValue r (ls_identity s)
           then a'\<lparr>am_baseline := am_baseline a' @ [CloneLiveState s]\<rparr>
           else a'\<lparr>am_exclusions := am_exclusions a'
                  @ [\<lparr>ex_identity = ls_identity s,
                      ex_reason = reason_string AdmissionPresentAtAttach\<rparr>]\<rparr>)"

definition registryAttach :: "registry \<Rightarrow> live_snapshot \<Rightarrow> attachment result" where
  "registryAttach r sn =
     bindR (ValidateLiveSnapshot sn) (\<lambda>_.
       Inr (foldl (attachStep r)
         \<lparr>am_baseline = [], am_exclusions = [], am_present = {}, am_registry = rg_id r\<rparr>
         (final_occurrences ls_identity (sn_states sn))))"

definition Admit :: "registry \<Rightarrow> attachment \<Rightarrow> identity \<Rightarrow> admission_result \<times> registry" where
  "Admit r a i =
     (if am_registry a \<noteq> rg_id r
      then (\<lparr>ad_identity = i, ad_admitted = False, ad_reason = AdmissionNotAttached\<rparr>, r)
      else if exclusionReason r i \<noteq> AdmissionNone
      then (\<lparr>ad_identity = i, ad_admitted = False, ad_reason = exclusionReason r i\<rparr>, r)
      else if i \<in> am_present a
      then (\<lparr>ad_identity = i, ad_admitted = False, ad_reason = AdmissionPresentAtAttach\<rparr>, r)
      else (\<lparr>ad_identity = i, ad_admitted = True, ad_reason = AdmissionNone\<rparr>,
            r\<lparr>rg_owned := insert i (rg_owned r)\<rparr>))"

section \<open>What seeding decides\<close>

text \<open>The reference: the decision is that of the last entry that names the identity.\<close>

fun last_entry :: "profile \<Rightarrow> identity \<Rightarrow> entry option" where
  "last_entry [] i = None"
| "last_entry (e # p) i =
     (case last_entry p i of Some f \<Rightarrow> Some f
      | None \<Rightarrow> if i \<in> set (registryEntryIdentities e) then Some e else None)"

definition source_owned :: "profile \<Rightarrow> identity \<Rightarrow> bool" where
  "source_owned p i \<longleftrightarrow> (\<exists>e. last_entry p i = Some e \<and> sd_owned (seedDecision e i))"

definition source_pinned :: "profile \<Rightarrow> identity \<Rightarrow> bool" where
  "source_pinned p i \<longleftrightarrow> (\<exists>e. last_entry p i = Some e \<and> sd_pin (seedDecision e i))"

definition source_secrets_ok :: "profile \<Rightarrow> bool" where
  "source_secrets_ok p \<longleftrightarrow> (\<forall>e \<in> set p. en_secret e \<noteq> None \<longrightarrow> validateRegistrySecretRef e = OK)"

lemma map_of_fold_assoc_put:
  "map_of (fold (\<lambda>i. assoc_put i (f i)) is m) k = (if k \<in> set is then Some (f k) else map_of m k)"
  by (induction "is" arbitrary: m) auto

lemma distinct_fold_assoc_put:
  "distinct (map fst m) \<Longrightarrow> distinct (map fst (fold (\<lambda>i. assoc_put i (f i)) is m))"
  by (induction "is" arbitrary: m) (auto simp: distinct_assoc_put)

lemma seedLoop_eq_Inr:
  "seedLoop m p = Inr f \<Longrightarrow> distinct (map fst m) \<Longrightarrow>
     source_secrets_ok p \<and> distinct (map fst f)
     \<and> map_of f i = (case last_entry p i of Some e \<Rightarrow> Some (seedDecision e i) | None \<Rightarrow> map_of m i)"
proof (induction p arbitrary: m)
  case Nil
  then show ?case by (simp add: source_secrets_ok_def)
next
  case (Cons e p)
  let ?m = "fold (\<lambda>i. assoc_put i (seedDecision e i)) (registryEntryIdentities e) m"
  have secret: "(if en_secret e \<noteq> None then validateRegistrySecretRef e else OK) = OK"
    and rest: "seedLoop ?m p = Inr f"
    using Cons.prems(1) by (auto simp: bindR_eq_Inr)
  have "distinct (map fst ?m)" using Cons.prems(2) by (rule distinct_fold_assoc_put)
  from Cons.IH [OF rest this] secret show ?case
    by (auto simp: source_secrets_ok_def map_of_fold_assoc_put
        split: option.splits if_splits)
qed

lemma seedLoop_total: "source_secrets_ok p \<Longrightarrow> \<exists>f. seedLoop m p = Inr f"
  by (induction p arbitrary: m) (auto simp: source_secrets_ok_def)

lemma filter_keys:
  "distinct (map fst f) \<Longrightarrow>
     set (map fst (filter (\<lambda>(i, d). P d) f)) = {i. \<exists>d. map_of f i = Some d \<and> P d}"
  by (force simp: map_of_eq_Some_iff)

lemma seedDecision_pin_owned: "sd_pin (seedDecision e i) \<Longrightarrow> sd_owned (seedDecision e i)"
  by (simp add: seedDecision_def split: if_splits)

lemma Seed_eq_Inr:
  "Seed r p = Inr r' \<longleftrightarrow> source_secrets_ok p
     \<and> r' = r\<lparr>rg_owned := Collect (source_owned p), rg_pinned := Collect (source_pinned p)\<rparr>"
proof -
  have result: "Seed r p = Inr (r\<lparr>rg_owned := Collect (source_owned p),
      rg_pinned := Collect (source_pinned p)\<rparr>)" and ok: "source_secrets_ok p"
    if f: "seedLoop [] p = Inr f" for f
  proof -
    have d: "distinct (map fst f)" and ok: "source_secrets_ok p"
      and m: "map_of f i = map_option (\<lambda>e. seedDecision e i) (last_entry p i)" for i
      using seedLoop_eq_Inr [OF f] by (auto split: option.splits)
    show "source_secrets_ok p" by (rule ok)
    have owned: "set (map fst (filter (\<lambda>(i, d). sd_owned d) f)) = Collect (source_owned p)"
      unfolding filter_keys [OF d] m by (auto simp: source_owned_def)
    have "(i, d') \<in> set f \<Longrightarrow> sd_pin d' \<Longrightarrow> sd_owned d'" for i d'
      using map_of_is_SomeI [OF d, of i d'] m [of i] seedDecision_pin_owned by auto
    then have "filter (\<lambda>(i, d). sd_pin d) (filter (\<lambda>(i, d). sd_owned d) f) = filter (\<lambda>(i, d). sd_pin d) f"
      by (auto intro: filter_cong)
    then have pinned: "set (map fst (filter (\<lambda>(i, d). sd_pin d) (filter (\<lambda>(i, d). sd_owned d) f)))
        = Collect (source_pinned p)"
      using filter_keys [OF d, of sd_pin] m by (auto simp: source_pinned_def)
    show "Seed r p = Inr (r\<lparr>rg_owned := Collect (source_owned p),
        rg_pinned := Collect (source_pinned p)\<rparr>)"
      unfolding Seed_def f bindR_Inr Let_def owned pinned by (rule refl)
  qed
  show ?thesis
  proof (cases "seedLoop [] p")
    case (Inl e)
    then have "\<not> source_secrets_ok p" using seedLoop_total [of p "[]"] by auto
    with Inl show ?thesis by (simp add: Seed_def)
  next
    case (Inr f)
    from result [OF this] ok [OF this] show ?thesis by auto
  qed
qed

lemma restoreLoop_eq_OK:
  "restoreLoop r seen is = OK \<longleftrightarrow>
     distinct is \<and> set is \<inter> seen = {} \<and> (\<forall>i \<in> set is. exclusionReason r i = AdmissionNone)"
  by (induction "is" arbitrary: seen) auto

lemma RestoreAdmitted_eq_Inr:
  "RestoreAdmitted r is = Inr r' \<longleftrightarrow>
     distinct is \<and> (\<forall>i \<in> set is. exclusionReason r i = AdmissionNone)
     \<and> r' = r\<lparr>rg_owned := rg_owned r \<union> set is\<rparr>"
  by (auto simp: RestoreAdmitted_def bindR_eq_Inr restoreLoop_eq_OK)

section \<open>The admission gate\<close>

lemma exclusionReason_owned [simp]: "exclusionReason (r\<lparr>rg_owned := x\<rparr>) = exclusionReason r"
  by (simp add: exclusionReason_def fun_eq_iff)

lemma exclusionReason_owned_pinned [simp]:
  "exclusionReason (r\<lparr>rg_owned := x, rg_pinned := y\<rparr>) = exclusionReason (r\<lparr>rg_pinned := y\<rparr>)"
  "exclusionReason (r\<lparr>rg_pinned := y, rg_owned := x\<rparr>) = exclusionReason (r\<lparr>rg_pinned := y\<rparr>)"
  by (simp_all add: exclusionReason_def fun_eq_iff)

lemma exclusionReason_None:
  "exclusionReason r i = AdmissionNone \<longleftrightarrow>
     ValidateIdentity i = OK \<and> i \<notin> rg_pinned r \<and> \<not> isBookkeepingIdentity i
     \<and> \<not> isVolatileIdentity i \<and> (\<exists>policy. rg_policy r = Some policy \<and> \<not> policy i)"
  using ValidateIdentity_supported [of i]
  by (auto simp: exclusionReason_def split: option.splits)

text \<open>
  What a caller of the gate relies on. \<open>admits r i\<close> is the answer for an identity that
  is not yet allowed, \<open>after\<close> the registry it leaves.
\<close>

locale admission_gate =
  fixes allows :: "'reg \<Rightarrow> 'id \<Rightarrow> bool"
    and admits :: "'reg \<Rightarrow> 'id \<Rightarrow> bool"
    and after :: "'reg \<Rightarrow> 'id \<Rightarrow> 'reg"
  assumes refused: "\<not> admits r i \<Longrightarrow> after r i = r"
    and admitted: "admits r i \<Longrightarrow> allows (after r i) j \<longleftrightarrow> j = i \<or> allows r j"
    and stable: "admits (after r i) j = admits r j"
begin

definition passes :: "'reg \<Rightarrow> 'id \<Rightarrow> bool" where
  "passes r i \<longleftrightarrow> allows r i \<or> admits r i"

definition enter :: "'id \<Rightarrow> 'reg \<Rightarrow> 'reg" where
  "enter i r = (if allows r i then r else after r i)"

lemma passes_enter: "passes (enter i r) j = passes r j"
  using refused [of r i] admitted [of r i j] stable [of r i j]
  by (cases "admits r i") (auto simp: passes_def enter_def)

lemma allows_enter: "allows (enter i r) j \<longleftrightarrow> allows r j \<or> (j = i \<and> passes r i)"
  using refused [of r i] admitted [of r i j]
  by (cases "admits r i") (auto simp: passes_def enter_def)

lemma passes_enter_all: "passes (fold enter is r) j = passes r j"
  by (induction "is" arbitrary: r) (auto simp: passes_enter)

lemma allows_enter_all:
  "allows (fold enter is r) j \<longleftrightarrow> allows r j \<or> (j \<in> set is \<and> passes r j)"
  by (induction "is" arbitrary: r) (auto simp: allows_enter passes_enter)

text \<open>An identity that passes can be let in again without any effect.\<close>

lemma enter_idem: "passes r i \<Longrightarrow> enter i (enter i r) = enter i r"
  using allows_enter [of i r i] by (simp add: enter_def)

end

definition admit_answer :: "attachment \<Rightarrow> registry \<Rightarrow> identity \<Rightarrow> bool" where
  "admit_answer a r i = ad_admitted (fst (Admit r a i))"

definition admit_after :: "attachment \<Rightarrow> registry \<Rightarrow> identity \<Rightarrow> registry" where
  "admit_after a r i = snd (Admit r a i)"

lemma Admit_pair:
  "Admit r a i = (fst (Admit r a i), admit_after a r i)"
  by (simp add: admit_after_def)

lemma admit_answer_iff:
  "admit_answer a r i \<longleftrightarrow>
     am_registry a = rg_id r \<and> exclusionReason r i = AdmissionNone \<and> i \<notin> am_present a"
  by (simp add: admit_answer_def Admit_def)

lemma admit_after_eq:
  "admit_after a r i =
     (if admit_answer a r i then r\<lparr>rg_owned := insert i (rg_owned r)\<rparr> else r)"
  by (simp add: admit_after_def admit_answer_def Admit_def)

interpretation gate: admission_gate AllowsLiveValue "admit_answer a" "admit_after a" for a
proof unfold_locales
  fix r i j
  show "\<not> admit_answer a r i \<Longrightarrow> admit_after a r i = r" by (simp add: admit_after_eq)
  show "admit_answer a r i \<Longrightarrow> AllowsLiveValue (admit_after a r i) j = (j = i \<or> AllowsLiveValue r j)"
    by (auto simp: admit_after_eq AllowsLiveValue_def Owns_def admit_answer_iff)
  show "admit_answer a (admit_after a r i) j = admit_answer a r j"
    by (simp add: admit_after_eq admit_answer_iff)
qed

text \<open>What crosses the ownership boundary of a shell that attached when \<open>am_present\<close> was present.\<close>

lemma passes_iff:
  "am_registry a = rg_id r \<Longrightarrow>
   gate.passes a r i \<longleftrightarrow> exclusionReason r i = AdmissionNone \<and> (Owns r i \<or> i \<notin> am_present a)"
  by (auto simp: gate.passes_def AllowsLiveValue_def admit_answer_iff)

section \<open>What an attachment retains\<close>

lemma attachStep_fold:
  "foldl (attachStep r) a ss =
     a\<lparr>am_baseline := am_baseline a @ map CloneLiveState
         (filter (\<lambda>s. AllowsLiveValue r (ls_identity s)) ss),
       am_present := am_present a \<union> ls_identity ` {s \<in> set ss. lv_present (ls_value s)},
       am_exclusions := am_exclusions a @ map (\<lambda>s. \<lparr>ex_identity = ls_identity s,
           ex_reason = reason_string (if exclusionReason r (ls_identity s) \<noteq> AdmissionNone
             then exclusionReason r (ls_identity s) else AdmissionPresentAtAttach)\<rparr>)
         (filter (\<lambda>s. lv_present (ls_value s) \<and> \<not> AllowsLiveValue r (ls_identity s)) ss)\<rparr>"
proof (induction ss arbitrary: a)
  case Nil
  then show ?case by simp
next
  case (Cons s ss)
  show ?case
    unfolding foldl_Cons Cons.IH
    by (intro attachment.equality) (auto simp: attachStep_def Let_def AllowsLiveValue_def)
qed

lemma registryAttach_eq_Inr:
  "registryAttach r sn = Inr a \<longleftrightarrow> ValidateLiveSnapshot sn = OK \<and>
     (let ss = keep_last ls_identity (sn_states sn) in
      a = \<lparr>am_baseline = map CloneLiveState (filter (\<lambda>s. AllowsLiveValue r (ls_identity s)) ss),
           am_exclusions = map (\<lambda>s. \<lparr>ex_identity = ls_identity s,
               ex_reason = reason_string (if exclusionReason r (ls_identity s) \<noteq> AdmissionNone
                 then exclusionReason r (ls_identity s) else AdmissionPresentAtAttach)\<rparr>)
             (filter (\<lambda>s. lv_present (ls_value s) \<and> \<not> AllowsLiveValue r (ls_identity s)) ss),
           am_present = ls_identity ` {s \<in> set ss. lv_present (ls_value s)},
           am_registry = rg_id r\<rparr>)"
  by (auto simp: registryAttach_def bindR_eq_Inr attachStep_fold final_occurrences_eq_keep_last Let_def)

end
