(* ===== verification/Transaction.thy ===== *)
theory Transaction
  imports StateCodec Registry
begin

text \<open>
  The transaction of \<^verbatim>\<open>core/worktree/atomic_unix.go\<close>: one locked cycle
  that reads the canonical document, runs a callback on the decoded state, validates and
  encodes what the callback left, and replaces the document when it changed. A callback
  is a computation over the service's in-memory parts and the state, which may fail; the
  in-memory parts survive a failure, the state does not. Every system call of the cycle
  is an outcome of the record \<open>io_run\<close>, a parameter.
\<close>

section \<open>Callbacks\<close>

record commit_result =
  cm_committed :: bool
  cm_oid :: string
  cm_conflict :: bool
  cm_recovery :: bool

definition noCommit :: commit_result where
  "noCommit = \<lparr>cm_committed = False, cm_oid = [], cm_conflict = False, cm_recovery = False\<rparr>"

text \<open>
  What outlives a failed callback: the registry, the repository, and the result variable
  the commit callback captures.
\<close>

record 'r service_env =
  sv_registry :: registry
  sv_repo :: 'r
  sv_commit :: "commit_result \<times> go_error option"

type_synonym ('r, 'a) tx = "'r service_env \<Rightarrow> wt_state \<Rightarrow> ('a \<times> wt_state) result \<times> 'r service_env"

definition returnT :: "'a \<Rightarrow> ('r, 'a) tx" where
  "returnT x = (\<lambda>e st. (Inr (x, st), e))"

definition failT :: "go_error \<Rightarrow> ('r, 'a) tx" where
  "failT err = (\<lambda>e st. (Inl err, e))"

definition bindT :: "('r, 'a) tx \<Rightarrow> ('a \<Rightarrow> ('r, 'b) tx) \<Rightarrow> ('r, 'b) tx" where
  "bindT m f = (\<lambda>e st. case m e st of
     (Inl err, e') \<Rightarrow> (Inl err, e')
   | (Inr (x, st'), e') \<Rightarrow> f x e' st')"

definition liftT :: "'a result \<Rightarrow> ('r, 'a) tx" where
  "liftT r = (case r of Inl err \<Rightarrow> failT err | Inr x \<Rightarrow> returnT x)"

definition getT :: "('r, wt_state) tx" where
  "getT = (\<lambda>e st. (Inr (st, st), e))"

definition modifyT :: "(wt_state \<Rightarrow> wt_state) \<Rightarrow> ('r, unit) tx" where
  "modifyT f = (\<lambda>e st. (Inr ((), f st), e))"

definition stateT :: "(wt_state \<Rightarrow> ('a \<times> wt_state) result) \<Rightarrow> ('r, 'a) tx" where
  "stateT f = (\<lambda>e st. (f st, e))"

definition registryT :: "('r, registry) tx" where
  "registryT = (\<lambda>e st. (Inr (sv_registry e, st), e))"

definition setRegistryT :: "registry \<Rightarrow> ('r, unit) tx" where
  "setRegistryT r = (\<lambda>e st. (Inr ((), st), e\<lparr>sv_registry := r\<rparr>))"

definition setCommitT :: "commit_result \<times> go_error option \<Rightarrow> ('r, unit) tx" where
  "setCommitT c = (\<lambda>e st. (Inr ((), st), e\<lparr>sv_commit := c\<rparr>))"

text \<open>A call on the repository: it returns a result and leaves the repository changed or not.\<close>

definition repoT :: "('r \<Rightarrow> 'a \<times> 'r) \<Rightarrow> ('r, 'a) tx" where
  "repoT f = (\<lambda>e st. let (x, r) = f (sv_repo e) in (Inr (x, st), e\<lparr>sv_repo := r\<rparr>))"

text \<open>Replacing the error of a callback that failed.\<close>

definition orErrT :: "('r, 'a) tx \<Rightarrow> go_error \<Rightarrow> ('r, 'a) tx" where
  "orErrT m err = (\<lambda>e st. case m e st of (Inl _, e') \<Rightarrow> (Inl err, e') | (Inr y, e') \<Rightarrow> (Inr y, e'))"

named_theorems tx_simps \<open>running a callback that returned normally\<close>

lemma returnT_run [tx_simps]: "returnT x e st = (Inr (y, st'), e') \<longleftrightarrow> y = x \<and> st' = st \<and> e' = e"
  by (auto simp: returnT_def)

lemma failT_run [tx_simps]: "failT err e st \<noteq> (Inr y, e')"
  by (simp add: failT_def)

lemma bindT_run [tx_simps]:
  "bindT m f e st = (Inr (y, st2), e2) \<longleftrightarrow>
     (\<exists>x st1 e1. m e st = (Inr (x, st1), e1) \<and> f x e1 st1 = (Inr (y, st2), e2))"
  by (auto simp: bindT_def split: prod.splits sum.splits)

lemma liftT_run [tx_simps]:
  "liftT r e st = (Inr (y, st'), e') \<longleftrightarrow> r = Inr y \<and> st' = st \<and> e' = e"
  by (cases r) (auto simp: liftT_def returnT_def failT_def)

lemma getT_run [tx_simps]: "getT e st = (Inr (y, st'), e') \<longleftrightarrow> y = st \<and> st' = st \<and> e' = e"
  by (auto simp: getT_def)

lemma modifyT_run [tx_simps]: "modifyT f e st = (Inr (y, st'), e') \<longleftrightarrow> st' = f st \<and> e' = e"
  by (auto simp: modifyT_def)

lemma stateT_run [tx_simps]: "stateT f e st = (Inr (y, st'), e') \<longleftrightarrow> f st = Inr (y, st') \<and> e' = e"
  by (auto simp: stateT_def)

lemma registryT_run [tx_simps]:
  "registryT e st = (Inr (y, st'), e') \<longleftrightarrow> y = sv_registry e \<and> st' = st \<and> e' = e"
  by (auto simp: registryT_def)

lemma setRegistryT_run [tx_simps]:
  "setRegistryT r e st = (Inr (y, st'), e') \<longleftrightarrow> st' = st \<and> e' = e\<lparr>sv_registry := r\<rparr>"
  by (auto simp: setRegistryT_def)

lemma setCommitT_run [tx_simps]:
  "setCommitT c e st = (Inr (y, st'), e') \<longleftrightarrow> st' = st \<and> e' = e\<lparr>sv_commit := c\<rparr>"
  by (auto simp: setCommitT_def)

lemma repoT_run [tx_simps]:
  "repoT f e st = (Inr (y, st'), e') \<longleftrightarrow>
     y = fst (f (sv_repo e)) \<and> st' = st \<and> e' = e\<lparr>sv_repo := snd (f (sv_repo e))\<rparr>"
  by (auto simp: repoT_def Let_def split: prod.splits)

lemma orErrT_run [tx_simps]: "orErrT m err e st = (Inr y, e') \<longleftrightarrow> m e st = (Inr y, e')"
  by (auto simp: orErrT_def split: prod.splits sum.splits)

lemma if_tx_run: "(if b then m else n) e st = (if b then m e st else n e st)"
  by simp

section \<open>The durable store\<close>

record disk =
  dk_file :: "state_dto option"
  dk_marker :: bool

record 'r service =
  sc_env :: "'r service_env"
  sc_disk :: disk

datatype replace_outcome =
    ReplaceDone
  | ReplaceBeforeRename go_error
  | ReplaceAfterRename go_error

text \<open>
  The outcomes of the system calls of one cycle, in order: everything up to the lock and
  the authentication of the root; the marker; the checks after the callback; the
  replacement of the file; the re-authentication after it; the removal of the marker
  (its error, and whether the marker is gone); the forensic line; the writing of the
  marker (its error, and whether the marker is there).
\<close>

record io_run =
  io_enter :: "go_error option"
  io_marker :: "go_error option"
  io_leave :: "go_error option"
  io_replace :: replace_outcome
  io_recheck :: "go_error option"
  io_clear :: "go_error option \<times> bool"
  io_forensic :: bool
  io_mark :: "go_error option \<times> bool"

definition io_fine :: io_run where
  "io_fine = \<lparr>io_enter = None, io_marker = None, io_leave = None, io_replace = ReplaceDone,
     io_recheck = None, io_clear = (None, True), io_forensic = True, io_mark = (None, True)\<rparr>"

definition emptyState :: wt_state where
  "emptyState = \<lparr>st_schema_version = StateSchemaVersion, st_materialized = False, st_branch = [],
     st_base_oid = [],
     st_committed = \<lparr>cw_schema = [], cw_source = [],
       cw_projection = \<lparr>pr_schema = [], pr_states = [], pr_tombstones = []\<rparr>\<rparr>,
     st_head_revision = 0, st_auto_apply_default = False, st_admitted = [], st_shared = [],
     st_compaction_floor = 0, st_compaction_baseline = [], st_events = [], st_shells = [],
     st_receipts = [], st_admitted_missing = False\<rparr>"

definition readCanonical :: "(state_dto \<Rightarrow> bool) \<Rightarrow> disk \<Rightarrow> (wt_state \<times> state_dto) result" where
  "readCanonical too_large d =
     (case dk_file d of
        None \<Rightarrow> bindR (MarshalState too_large emptyState) (\<lambda>dto. Inr (emptyState, dto))
      | Some dto \<Rightarrow>
          (case UnmarshalState too_large dto of
             Inr (Some st) \<Rightarrow> Inr (st, dto)
           | Inr None \<Rightarrow> Inl (Errorf ''panic'')
           | Inl e \<Rightarrow> Inl (Errorf ''%w: %v'')))"

definition projectRecoveredPersistence :: "wt_state \<Rightarrow> wt_state" where
  "projectRecoveredPersistence st =
     st\<lparr>st_shells := map (\<lambda>(sid, sh). (sid, sh\<lparr>sh_recovered := RecoveredPersistence\<rparr>)) (st_shells st)\<rparr>"

definition raise :: "go_error option \<Rightarrow> unit result" where
  "raise x = (case x of None \<Rightarrow> OK | Some e \<Rightarrow> Inl e)"

text \<open>The part of the cycle after the new document is encoded: what is left on the disk.\<close>

definition persistCanonical ::
  "io_run \<Rightarrow> state_dto \<Rightarrow> state_dto \<Rightarrow> bool \<Rightarrow> disk \<Rightarrow> unit result \<times> disk" where
  "persistCanonical io previous next projected d =
     (let changed = (previous \<noteq> next);
          (replaced, d1) =
            (if \<not> changed then (OK, d)
             else case io_replace io of
               ReplaceDone \<Rightarrow> (raise (io_recheck io), d\<lparr>dk_file := Some next\<rparr>)
             | ReplaceBeforeRename e \<Rightarrow> (Inl e, d)
             | ReplaceAfterRename e \<Rightarrow> (Inl e, d\<lparr>dk_file := Some next\<rparr>))
      in if \<not> changed \<and> \<not> projected then (raise (io_recheck io), d)
         else if replaced \<noteq> OK then (replaced, d1)
         else let d2 = (if projected \<and> snd (io_clear io) then d1\<lparr>dk_marker := False\<rparr> else d1)
           in if projected \<and> fst (io_clear io) \<noteq> None then (raise (fst (io_clear io)), d2)
              else if \<not> changed then (OK, d2)
              else if io_forensic io then (OK, d2)
              else (orErr (raise (fst (io_mark io))) (Errorf ''persist recovered persistence evidence: %w''),
                    if snd (io_mark io) then d2\<lparr>dk_marker := True\<rparr> else d2))"

definition WithTransaction ::
  "(state_dto \<Rightarrow> bool) \<Rightarrow> io_run \<Rightarrow> ('r, 'a) tx \<Rightarrow> 'r service
     \<Rightarrow> ('a option \<times> unit result) \<times> 'r service" where
  "WithTransaction too_large io mutate s =
     (case bindR (raise (io_enter io)) (\<lambda>_. bindR (readCanonical too_large (sc_disk s)) (\<lambda>loaded.
         bindR (raise (io_marker io)) (\<lambda>_. Inr loaded))) of
        Inl e \<Rightarrow> ((None, Inl e), s)
      | Inr (st, previous) \<Rightarrow>
          let pending = dk_marker (sc_disk s);
              st1 = (if pending then projectRecoveredPersistence st else st)
          in case mutate (sc_env s) st1 of
               (Inl e, env) \<Rightarrow> ((None, Inl e), s\<lparr>sc_env := env\<rparr>)
             | (Inr (x, st2), env) \<Rightarrow>
                 let st3 = (if pending then projectRecoveredPersistence st2 else st2);
                     projected = (pending \<and> st_shells st2 \<noteq> [])
                 in case bindR (raise (io_leave io)) (\<lambda>_. MarshalState too_large st3) of
                      Inl e \<Rightarrow> ((Some x, Inl e), s\<lparr>sc_env := env\<rparr>)
                    | Inr next \<Rightarrow>
                        let (outcome, d) = persistCanonical io previous next projected (sc_disk s)
                        in ((Some x, outcome), \<lparr>sc_env = env, sc_disk = d\<rparr>))"

end
