(* ===== verification/ShellService.thy ===== *)
theory ShellService
  imports Transaction
begin

text \<open>
  The shell-facing half of \<^verbatim>\<open>core/worktree/service.go\<close>: request
  fingerprints and resolution tokens, authorization and receipts, the admission of
  observed identities, and the five operations of a shell: attach, publish, prepare a
  pull, resolve a conflict, acknowledge. An operation is a callback run in one
  transaction.
\<close>

section \<open>Fingerprints and tokens\<close>

text \<open>\<^verbatim>\<open>binary.BigEndian.PutUint64\<close>.\<close>

definition be64 :: "u64 \<Rightarrow> string" where
  "be64 w = map (\<lambda>k. char_of (unat (drop_bit (8 * k) w) mod 256)) [7, 6, 5, 4, 3, 2, 1, 0]"

definition framed :: "string \<Rightarrow> string" where
  "framed payload = be64 (len64 payload) @ payload"

definition operationPreimage :: "string \<Rightarrow> string list \<Rightarrow> string" where
  "operationPreimage domain payloads =
     ''zsh-pro/worktree-operation/v1:'' @ domain @ [CHR 0x00] @ concat (map framed payloads)"

definition fingerprintParts :: "hashing \<Rightarrow> string \<Rightarrow> json_doc list \<Rightarrow> fingerprint" where
  "fingerprintParts H domain parts =
     hx_sha256 H (operationPreimage domain (map (hx_json H) parts))"

definition newResolutionToken ::
  "hashing \<Rightarrow> string \<Rightarrow> string \<Rightarrow> fingerprint \<Rightarrow> u64 \<Rightarrow> resolution_token" where
  "newResolutionToken H prefix operationID fp revision =
     prefix @ '':'' @ hexEncode (take 16 (hx_sha256 H
       (''zsh-pro/worktree-resolution/v1'' @ [CHR 0x00] @ operationID @ fp @ be64 revision)))"

section \<open>Authorization and receipts\<close>

definition validatePrivateRequest :: "string \<Rightarrow> shell_credential \<Rightarrow> unit result" where
  "validatePrivateRequest operationID cred =
     (if \<not> validStateToken operationID then Inl (Errorf ''worktree operation ID is invalid'')
      else orErr (validateCredential cred) ErrUnauthorized)"

definition authorizeShell :: "hashing \<Rightarrow> wt_state \<Rightarrow> shell_credential \<Rightarrow> shell_state result" where
  "authorizeShell H st cred =
     (if \<not> st_materialized st then Inl ErrUnauthorized
      else let known = map_of (st_shells st) (cr_shell_id cred);
               verifier = (case known of
                  None \<Rightarrow> hx_sha256 H ''zsh-pro/worktree-missing-shell-verifier/v1''
                | Some sh \<Rightarrow> sh_verifier sh);
               verified = VerifyShellCapability (hx_sha256 H) verifier (cr_capability cred)
           in case known of
                None \<Rightarrow> Inl ErrUnauthorized
              | Some sh \<Rightarrow> if \<not> verified then Inl ErrUnauthorized else Inr sh)"

definition receiptFor :: "wt_state \<Rightarrow> string \<Rightarrow> string \<Rightarrow> operation_receipt option" where
  "receiptFor st sid opid =
     find (\<lambda>r. or_shell_id r = sid \<and> or_operation_id r = opid) (rev (st_receipts st))"

fun removeFirst :: "('a \<Rightarrow> bool) \<Rightarrow> 'a list \<Rightarrow> 'a list" where
  "removeFirst P [] = []"
| "removeFirst P (x # xs) = (if P x then xs else x # removeFirst P xs)"

definition appendReceipt :: "operation_receipt \<Rightarrow> wt_state \<Rightarrow> wt_state" where
  "appendReceipt r st =
     (let mine = (\<lambda>x. or_shell_id x = or_shell_id r);
          kept = (if MaxOperationReceiptsPerShell \<le> length (filter mine (st_receipts st))
                  then removeFirst mine (st_receipts st) else st_receipts st)
      in st\<lparr>st_receipts := kept @ [r]\<rparr>)"

definition putShell :: "string \<Rightarrow> shell_state \<Rightarrow> wt_state \<Rightarrow> wt_state" where
  "putShell sid sh st = st\<lparr>st_shells := assoc_put sid sh (st_shells st)\<rparr>"

definition emptyReceipt :: "string \<Rightarrow> string \<Rightarrow> receipt_kind \<Rightarrow> fingerprint \<Rightarrow> operation_receipt" where
  "emptyReceipt sid opid kind fp =
     \<lparr>or_shell_id = sid, or_operation_id = opid, or_kind = kind, or_fingerprint = fp,
      or_attach = None, or_publish = None, or_prepare = None, or_acknowledge = None,
      or_resolve = None\<rparr>"

section \<open>The registry of a generation\<close>

definition admittedKey :: "identity \<Rightarrow> string \<times> string" where
  "admittedKey i = (kind_string (id_kind i), id_name i)"

definition migratedIdentities :: "registry \<Rightarrow> wt_state \<Rightarrow> identity list" where
  "migratedIdentities r st =
     sort_key admittedKey (map ls_identity
       (filter (\<lambda>s. \<not> (Owns r (ls_identity s) \<or> exclusionReason r (ls_identity s) \<noteq> AdmissionNone))
         (st_shared st)))"

definition seedRegistryFromState :: "('r, unit) tx" where
  "seedRegistryFromState =
     bindT registryT (\<lambda>r0. bindT getT (\<lambda>st.
     bindT (liftT (Seed r0 (cw_source (st_committed st)))) (\<lambda>r1.
     bindT (setRegistryT r1) (\<lambda>_.
     if \<not> st_admitted_missing st then
       bindT (liftT (validateAdmittedIdentities (st_admitted st))) (\<lambda>_.
       bindT (liftT (RestoreAdmitted r1 (st_admitted st))) setRegistryT)
     else
       let admitted = migratedIdentities r1 st in
       bindT (liftT (validateAdmittedIdentities admitted)) (\<lambda>_.
       bindT (liftT (RestoreAdmitted r1 admitted)) (\<lambda>r2.
       bindT (setRegistryT r2) (\<lambda>_.
       modifyT (\<lambda>s. s\<lparr>st_admitted := admitted, st_admitted_missing := False\<rparr>))))))))"

definition appendAdmittedIdentity :: "identity \<Rightarrow> wt_state \<Rightarrow> wt_state result" where
  "appendAdmittedIdentity i st =
     (if ValidateIdentity i \<noteq> OK then Inl (Errorf ''durable admitted identity is invalid'')
      else if i \<in> set (st_admitted st) then Inr (st\<lparr>st_admitted_missing := False\<rparr>)
      else let candidate = sort_key admittedKey (st_admitted st @ [i])
           in bindR (validateAdmittedIdentities candidate) (\<lambda>_.
                Inr (st\<lparr>st_admitted := candidate, st_admitted_missing := False\<rparr>)))"

definition attachmentFromShell :: "registry \<Rightarrow> shell_state \<Rightarrow> attachment" where
  "attachmentFromShell r sh =
     \<lparr>am_baseline = CloneLiveStates (sh_capture_baseline sh), am_exclusions = sh_exclusions sh,
      am_present = set (sh_present_at_attach sh), am_registry = rg_id r\<rparr>"

text \<open>
  One observed identity at the gate: allowed, or admitted now and recorded durably, or
  dropped.
\<close>

definition admitIdentity :: "attachment \<Rightarrow> identity \<Rightarrow> ('r, bool) tx" where
  "admitIdentity a i =
     bindT registryT (\<lambda>r.
       if AllowsLiveValue r i then returnT True
       else let (answer, r') = Admit r a i in
         bindT (setRegistryT r') (\<lambda>_.
           if \<not> ad_admitted answer then returnT False
           else bindT (stateT (\<lambda>st. bindR (appendAdmittedIdentity i st) (\<lambda>st'. Inr ((), st'))))
             (\<lambda>_. returnT True)))"

fun admittedChangesLoop :: "attachment \<Rightarrow> live_change list \<Rightarrow> ('r, live_change list) tx" where
  "admittedChangesLoop a [] = returnT []"
| "admittedChangesLoop a (c # cs) =
     bindT (admitIdentity a (ch_identity c)) (\<lambda>admitted.
     bindT (admittedChangesLoop a cs) (\<lambda>rest.
       returnT (if admitted then CloneLiveChange c # rest else rest)))"

definition admittedChanges :: "shell_state \<Rightarrow> live_change list \<Rightarrow> ('r, live_change list) tx" where
  "admittedChanges sh cs =
     bindT registryT (\<lambda>r. admittedChangesLoop (attachmentFromShell r sh) cs)"

fun admittedSnapshotLoop :: "attachment \<Rightarrow> live_state list \<Rightarrow> ('r, live_state list) tx" where
  "admittedSnapshotLoop a [] = returnT []"
| "admittedSnapshotLoop a (s # ss) =
     (if \<not> lv_present (ls_value s) then admittedSnapshotLoop a ss
      else bindT (admitIdentity a (ls_identity s)) (\<lambda>admitted.
        bindT (admittedSnapshotLoop a ss) (\<lambda>rest.
          returnT (if admitted then CloneLiveState s # rest else rest))))"

definition admittedSnapshot :: "shell_state \<Rightarrow> live_snapshot \<Rightarrow> ('r, live_state list) tx" where
  "admittedSnapshot sh sn =
     bindT (liftT (NormalizeLiveStates (sn_states sn))) (\<lambda>normalized.
     bindT registryT (\<lambda>r. admittedSnapshotLoop (attachmentFromShell r sh) normalized))"

section \<open>Attach\<close>

definition presentOnly :: "live_state list \<Rightarrow> live_state list" where
  "presentOnly ss = map CloneLiveState (filter (\<lambda>s. lv_present (ls_value s)) ss)"

definition presentIdentities :: "live_snapshot \<Rightarrow> identity list" where
  "presentIdentities sn =
     (case NormalizeLiveStates (sn_states sn) of
        Inl _ \<Rightarrow> []
      | Inr ns \<Rightarrow> map ls_identity (filter (\<lambda>s. lv_present (ls_value s)) ns))"

definition attachedShell ::
  "string \<Rightarrow> attachment \<Rightarrow> live_snapshot \<Rightarrow> wt_state \<Rightarrow> shell_state" where
  "attachedShell verifier a initial st =
     (let baseline = presentOnly (CloneLiveStates (am_baseline a));
          at_head = equalLiveStates baseline (st_shared st)
      in \<lparr>sh_verifier = verifier,
          sh_attach_state = (if at_head then AttachStateAtHead else AttachStateCleanReconcile),
          sh_attached_revision = st_head_revision st,
          sh_applied_revision = (if at_head then st_head_revision st else 0),
          sh_applied_baseline = (if at_head then CloneLiveStates (st_shared st) else []),
          sh_capture_baseline = baseline,
          sh_unpublished = [],
          sh_present_at_attach = presentIdentities initial,
          sh_exclusions = am_exclusions a,
          sh_transition = TransitionAttach,
          sh_pending = noPending,
          sh_behind = (\<not> at_head),
          sh_auto_apply = None,
          sh_conflict = None,
          sh_recovered = RecoveredNone,
          sh_last_active = st_head_revision st\<rparr>)"

definition attachRecord ::
  "attach_request \<Rightarrow> fingerprint \<Rightarrow> string \<Rightarrow> attachment \<Rightarrow> live_snapshot \<Rightarrow> wt_state
     \<Rightarrow> attach_result \<times> wt_state" where
  "attachRecord req fp verifier a initial st =
     (let sid = cr_shell_id (ar_credential req);
          shell = attachedShell verifier a initial st;
          res = \<lparr>at_revision = st_head_revision st, at_attached = True,
            at_reconcile_required = (sh_attach_state shell = AttachStateCleanReconcile),
            at_exclusions = am_exclusions a\<rparr>
      in (res, appendReceipt ((emptyReceipt sid (ar_operation_id req) ReceiptAttach fp)
                 \<lparr>or_attach := Some res\<rparr>) (putShell sid shell st)))"

definition attachTx ::
  "hashing \<Rightarrow> attach_request \<Rightarrow> live_snapshot \<Rightarrow> fingerprint \<Rightarrow> ('r, attach_result) tx" where
  "attachTx H req initial fp =
     bindT getT (\<lambda>st.
       if \<not> st_materialized st then failT ErrWorktreeUnmaterialized
       else case DeriveShellCapabilityVerifier (hx_sha256 H) (cr_capability (ar_credential req)) of
         Inl _ \<Rightarrow> failT ErrUnauthorized
       | Inr verifier \<Rightarrow>
         (case map_of (st_shells st) (cr_shell_id (ar_credential req)) of
            Some existing \<Rightarrow>
              (if \<not> VerifyShellCapability (hx_sha256 H) (sh_verifier existing)
                    (cr_capability (ar_credential req))
               then failT ErrUnauthorized
               else case receiptFor st (cr_shell_id (ar_credential req)) (ar_operation_id req) of
                 None \<Rightarrow> failT ErrShellAlreadyAttached
               | Some receipt \<Rightarrow>
                   (if or_kind receipt \<noteq> ReceiptAttach \<or> or_fingerprint receipt \<noteq> fp
                       \<or> or_attach receipt = None
                    then failT ErrOperationReplay
                    else returnT (the (or_attach receipt))))
          | None \<Rightarrow>
              (if MaxShellRecords \<le> length (st_shells st)
               then failT (Errorf ''worktree shell limit reached'')
               else
                 bindT (orErrT seedRegistryFromState ErrRecoveryRequired) (\<lambda>_.
                 bindT registryT (\<lambda>r.
                 bindT (liftT (registryAttach r initial)) (\<lambda>a.
                 stateT (\<lambda>st. Inr (attachRecord req fp verifier a initial st))))))))"

definition runOp :: "('a option \<times> unit result) \<times> 'r service \<Rightarrow> 'a result \<times> 'r service" where
  "runOp x = (case x of
     ((Some v, Inr _), s) \<Rightarrow> (Inr v, s)
   | ((None, Inr _), s) \<Rightarrow> (Inl (Errorf ''no result''), s)
   | ((_, Inl e), s) \<Rightarrow> (Inl e, s))"

definition Attach ::
  "hashing \<Rightarrow> (state_dto \<Rightarrow> bool) \<Rightarrow> io_run \<Rightarrow> attach_request \<Rightarrow> 'r service
     \<Rightarrow> attach_result result \<times> 'r service" where
  "Attach H too_large io req s =
     (case bindR (validatePrivateRequest (ar_operation_id req) (ar_credential req))
         (\<lambda>_. ValidateLiveSnapshot (ar_initial req)) of
        Inl e \<Rightarrow> (Inl e, s)
      | Inr _ \<Rightarrow>
          let initial = \<lparr>sn_byte_size = sn_byte_size (ar_initial req),
                sn_states = CloneLiveStates (sn_states (ar_initial req))\<rparr>;
              fp = fingerprintParts H ''attach'' [JSnapshot initial]
          in runOp (WithTransaction too_large io (attachTx H req initial fp) s))"

section \<open>Publish\<close>

definition changedIdentitiesAfter :: "wt_state \<Rightarrow> u64 \<Rightarrow> identity set" where
  "changedIdentitiesAfter st revision =
     set (map ch_identity (concat (map se_changes
       (filter (\<lambda>e. \<not> se_revision e \<le> revision) (st_events st)))))"

fun changeMatchesStates :: "live_change \<Rightarrow> live_state list \<Rightarrow> bool" where
  "changeMatchesStates c [] = (ch_kind c = LiveRemove)"
| "changeMatchesStates c (s # ss) =
     (if ls_identity s \<noteq> ch_identity c then changeMatchesStates c ss
      else if ch_kind c = LiveRemove then False
      else EqualLiveValue (id_kind (ch_identity c)) (ch_value c) (ls_value s))"

definition changesContainIdentity :: "live_change list \<Rightarrow> identity \<Rightarrow> bool" where
  "changesContainIdentity cs i \<longleftrightarrow> list_ex (\<lambda>c. ch_identity c = i) cs"

text \<open>The loop over the semantic changes of a shell: accepted ones and losing ones.\<close>

definition pendingChanges :: "wt_state \<Rightarrow> live_change list \<Rightarrow> live_change list" where
  "pendingChanges st semantic = filter (\<lambda>c. \<not> changeMatchesStates c (st_shared st)) semantic"

definition losesTo :: "wt_state \<Rightarrow> u64 \<Rightarrow> live_change \<Rightarrow> bool" where
  "losesTo st acknowledged c \<longleftrightarrow>
     acknowledged < st_compaction_floor st \<or> ch_identity c \<in> changedIdentitiesAfter st acknowledged"

definition acceptedChanges :: "wt_state \<Rightarrow> u64 \<Rightarrow> live_change list \<Rightarrow> live_change list" where
  "acceptedChanges st acknowledged semantic =
     filter (\<lambda>c. \<not> losesTo st acknowledged c) (pendingChanges st semantic)"

definition losingChanges :: "wt_state \<Rightarrow> u64 \<Rightarrow> live_change list \<Rightarrow> live_change list" where
  "losingChanges st acknowledged semantic =
     filter (losesTo st acknowledged) (pendingChanges st semantic)"

definition commitAccepted ::
  "string \<Rightarrow> string \<Rightarrow> live_change list \<Rightarrow> wt_state \<Rightarrow> wt_state result" where
  "commitAccepted opid sid accepted st =
     (if accepted = [] then Inr st
      else bindR (NextRevision (st_head_revision st)) (\<lambda>next.
        bindR (applyStateChanges (st_shared st) accepted) (\<lambda>shared.
          CompactStateHistory (st\<lparr>st_shared := shared, st_head_revision := next,
            st_events := st_events st @ [\<lparr>se_revision = next, se_operation_id = opid,
              se_shell_id = sid, se_changes = CloneLiveChanges accepted\<rparr>]\<rparr>))))"

definition publishConflicts ::
  "hashing \<Rightarrow> publish_request \<Rightarrow> fingerprint \<Rightarrow> bool \<Rightarrow> u64 \<Rightarrow> live_change list \<Rightarrow> conflict list" where
  "publishConflicts H req fp gap head losing =
     map (\<lambda>c. \<lparr>cf_kind = (if gap then ConflictHistoryGap else ConflictOverlap),
         cf_identity = ch_identity c, cf_base_revision = pq_acknowledged_revision req,
         cf_shared_revision = head,
         cf_token = newResolutionToken H ''conflict'' (pq_operation_id req) fp head\<rparr>) losing"

definition publishedShell ::
  "shell_state \<Rightarrow> live_state list \<Rightarrow> live_change list \<Rightarrow> conflict list \<Rightarrow> u64 \<Rightarrow> shell_state" where
  "publishedShell sh observed losing conflicts head =
     (let sh' = (if losing \<noteq> []
            then sh\<lparr>sh_conflict := Some (hd conflicts), sh_unpublished := CloneLiveChanges losing,
                    sh_transition := TransitionUnpublished\<rparr>
            else sh\<lparr>sh_transition := TransitionPublish\<rparr>)
      in sh'\<lparr>sh_capture_baseline := observed,
             sh_behind := (sh_applied_revision sh' < head \<or> sh_conflict sh' \<noteq> None),
             sh_last_active := head\<rparr>)"

definition publishMerge ::
  "hashing \<Rightarrow> publish_request \<Rightarrow> fingerprint \<Rightarrow> shell_state \<Rightarrow> live_change list \<Rightarrow> wt_state
     \<Rightarrow> (publish_result \<times> wt_state) result" where
  "publishMerge H req fp sh admitted st =
     bindR (applyStateChanges (sh_capture_baseline sh) admitted) (\<lambda>observed.
     bindR (DiffSnapshot (snap (sh_capture_baseline sh)) (snap observed)) (\<lambda>semantic.
       let ack = pq_acknowledged_revision req;
           sid = cr_shell_id (pq_credential req);
           gap = (ack < st_compaction_floor st);
           accepted = acceptedChanges st ack semantic;
           losing = losingChanges st ack semantic
       in bindR (commitAccepted (pq_operation_id req) sid accepted st) (\<lambda>st1.
            let head = st_head_revision st1;
                conflicts = publishConflicts H req fp gap head losing;
                res = \<lparr>pb_shared_revision = head, pb_accepted = map ch_identity accepted,
                       pb_conflicts = conflicts\<rparr>
            in Inr (res, appendReceipt
                 ((emptyReceipt sid (pq_operation_id req) ReceiptPublish fp)\<lparr>or_publish := Some res\<rparr>)
                 (putShell sid (publishedShell sh observed losing conflicts head) st1)))))"

definition publishTx ::
  "hashing \<Rightarrow> publish_request \<Rightarrow> live_change list \<Rightarrow> fingerprint \<Rightarrow> ('r, publish_result) tx" where
  "publishTx H req delta fp =
     bindT getT (\<lambda>st.
     bindT (liftT (authorizeShell H st (pq_credential req))) (\<lambda>sh.
       case receiptFor st (cr_shell_id (pq_credential req)) (pq_operation_id req) of
         Some receipt \<Rightarrow>
           (if or_kind receipt \<noteq> ReceiptPublish \<or> or_fingerprint receipt \<noteq> fp
               \<or> or_publish receipt = None
            then failT ErrOperationReplay
            else returnT (the (or_publish receipt)))
       | None \<Rightarrow>
           (if pd_kind (sh_pending sh) \<noteq> PendingNone
               \<or> pq_acknowledged_revision req \<noteq> sh_applied_revision sh \<or> sh_applied_revision sh = 0
            then failT ErrNeedsReconcile
            else if sh_conflict sh \<noteq> None \<or> sh_unpublished sh \<noteq> []
            then failT ErrConflictRequiresResolution
            else
              bindT (orErrT seedRegistryFromState ErrRecoveryRequired) (\<lambda>_.
              bindT (liftT (validateChanges delta)) (\<lambda>_.
              bindT (admittedChanges sh delta) (\<lambda>admitted.
              stateT (publishMerge H req fp sh admitted)))))))"

definition Publish ::
  "hashing \<Rightarrow> (state_dto \<Rightarrow> bool) \<Rightarrow> io_run \<Rightarrow> publish_request \<Rightarrow> 'r service
     \<Rightarrow> publish_result result \<times> 'r service" where
  "Publish H too_large io req s =
     (case bindR (validatePrivateRequest (pq_operation_id req) (pq_credential req))
         (\<lambda>_. validateChanges (pq_delta req)) of
        Inl e \<Rightarrow> (Inl e, s)
      | Inr _ \<Rightarrow>
          let delta = CloneLiveChanges (pq_delta req);
              fp = fingerprintParts H ''publish'' [JRevision (pq_acknowledged_revision req), JChanges delta]
          in runOp (WithTransaction too_large io (publishTx H req delta fp) s))"

section \<open>Preparing a pull\<close>

definition pullShell :: "prepare_pull_request \<Rightarrow> shell_state \<Rightarrow> shell_state" where
  "pullShell req sh =
     (if pp_applied_revision req \<noteq> sh_applied_revision sh
      then sh\<lparr>sh_attach_state := AttachStateCleanReconcile, sh_applied_revision := 0,
              sh_applied_baseline := []\<rparr>
      else sh)"

definition preparePull ::
  "hashing \<Rightarrow> prepare_pull_request \<Rightarrow> fingerprint \<Rightarrow> shell_state \<Rightarrow> wt_state
     \<Rightarrow> (prepare_pull_result \<times> wt_state) result" where
  "preparePull H req fp sh st =
     (let sid = cr_shell_id (pp_credential req);
          head = st_head_revision st;
          base = sh_capture_baseline sh;
          sh1 = pullShell req sh;
          receipt = emptyReceipt sid (pp_operation_id req) ReceiptPreparePull fp
      in bindR (DiffSnapshot (snap base) (snap (st_shared st))) (\<lambda>changes.
        if changes = [] \<and> pp_applied_revision req = head \<and> sh_applied_revision sh1 = head then
          let res = \<lparr>pl_pending_revision = 0, pl_token = [], pl_changes = []\<rparr>
          in Inr (res, appendReceipt (receipt\<lparr>or_prepare := Some res\<rparr>)
                         (putShell sid (sh1\<lparr>sh_last_active := head\<rparr>) st))
        else
          bindR (FingerprintSnapshot H (snap (st_shared st))) (\<lambda>target.
            let token = newResolutionToken H ''pull'' (pp_operation_id req) fp head;
                res = \<lparr>pl_pending_revision = head, pl_token = token,
                       pl_changes = CloneLiveChanges changes\<rparr>;
                pending = \<lparr>pd_kind = PendingPull, pd_revision = head, pd_fingerprint = target,
                  pd_token = token, pd_conflict = None, pd_changes = CloneLiveChanges changes\<rparr>;
                sh2 = sh1\<lparr>sh_pending := pending, sh_transition := TransitionPrepare,
                  sh_behind := True, sh_last_active := head\<rparr>
            in Inr (res, appendReceipt (receipt\<lparr>or_prepare := Some (clonePrepareResult res)\<rparr>)
                           (putShell sid sh2 st)))))"

definition prepareTx ::
  "hashing \<Rightarrow> prepare_pull_request \<Rightarrow> fingerprint \<Rightarrow> ('r, prepare_pull_result) tx" where
  "prepareTx H req fp =
     bindT getT (\<lambda>st.
     bindT (liftT (authorizeShell H st (pp_credential req))) (\<lambda>sh.
       case receiptFor st (cr_shell_id (pp_credential req)) (pp_operation_id req) of
         Some receipt \<Rightarrow>
           (if or_kind receipt \<noteq> ReceiptPreparePull \<or> or_fingerprint receipt \<noteq> fp
               \<or> or_prepare receipt = None
            then failT ErrOperationReplay
            else returnT (clonePrepareResult (the (or_prepare receipt))))
       | None \<Rightarrow>
           (if sh_conflict sh \<noteq> None \<or> sh_unpublished sh \<noteq> []
            then failT ErrConflictRequiresResolution
            else if pd_kind (sh_pending sh) \<noteq> PendingNone
            then failT ErrNeedsReconcile
            else stateT (preparePull H req fp sh))))"

definition PreparePull ::
  "hashing \<Rightarrow> (state_dto \<Rightarrow> bool) \<Rightarrow> io_run \<Rightarrow> prepare_pull_request \<Rightarrow> 'r service
     \<Rightarrow> prepare_pull_result result \<times> 'r service" where
  "PreparePull H too_large io req s =
     (case validatePrivateRequest (pp_operation_id req) (pp_credential req) of
        Inl e \<Rightarrow> (Inl e, s)
      | Inr _ \<Rightarrow>
          let fp = fingerprintParts H ''prepare'' [JRevision (pp_applied_revision req)]
          in runOp (WithTransaction too_large io (prepareTx H req fp) s))"

section \<open>Resolving a conflict\<close>

definition resolveShared ::
  "hashing \<Rightarrow> resolve_request \<Rightarrow> fingerprint \<Rightarrow> shell_state \<Rightarrow> live_state list \<Rightarrow> wt_state
     \<Rightarrow> (resolve_result \<times> wt_state) result" where
  "resolveShared H req fp sh observed st =
     (let sid = cr_shell_id (rq_credential req);
          head = st_head_revision st
      in case sh_conflict sh of
           None \<Rightarrow> Inl ErrConflictRequiresResolution
         | Some c \<Rightarrow>
            (if cf_identity c \<noteq> rq_conflict req \<or> cf_token c \<noteq> rq_token req
                \<or> \<not> changesContainIdentity (sh_unpublished sh) (rq_conflict req)
                \<or> pd_kind (sh_pending sh) \<noteq> PendingNone
             then Inl ErrConflictRequiresResolution
             else
               bindR (orErr (FingerprintSnapshot H (snap observed)) ErrConflictRequiresResolution) (\<lambda>seen.
               bindR (orErr (FingerprintSnapshot H (snap (sh_capture_baseline sh)))
                   ErrConflictRequiresResolution) (\<lambda>captured.
               if seen \<noteq> captured then Inl ErrConflictRequiresResolution
               else
                 bindR (DiffSnapshot (snap observed) (snap (st_shared st))) (\<lambda>changes.
                 bindR (FingerprintSnapshot H (snap (st_shared st))) (\<lambda>target.
                   let res = \<lparr>rs_pending_revision = head, rs_token = rq_token req,
                         rs_changes = CloneLiveChanges changes\<rparr>;
                       pending = \<lparr>pd_kind = PendingResolution, pd_revision = head,
                         pd_fingerprint = target, pd_token = rq_token req,
                         pd_conflict = Some (rq_conflict req), pd_changes = CloneLiveChanges changes\<rparr>;
                       sh1 = sh\<lparr>sh_pending := pending, sh_transition := TransitionResolve,
                         sh_behind := True, sh_last_active := head\<rparr>
                   in Inr (res, appendReceipt
                        ((emptyReceipt sid (rq_operation_id req) ReceiptResolve fp)
                           \<lparr>or_resolve := Some (cloneResolveResult res)\<rparr>)
                        (putShell sid sh1 st))))))))"

definition resolveTx ::
  "hashing \<Rightarrow> resolve_request \<Rightarrow> live_snapshot \<Rightarrow> ('r, resolve_result) tx" where
  "resolveTx H req snapshot =
     bindT getT (\<lambda>st.
     bindT (liftT (authorizeShell H st (rq_credential req))) (\<lambda>sh.
     bindT (orErrT seedRegistryFromState ErrRecoveryRequired) (\<lambda>_.
     bindT (admittedSnapshot sh snapshot) (\<lambda>observed.
     bindT getT (\<lambda>st1.
       let fp = fingerprintParts H ''resolve''
             [JIdentity (rq_conflict req), JToken (rq_token req), JStates observed]
       in case receiptFor st1 (cr_shell_id (rq_credential req)) (rq_operation_id req) of
            Some receipt \<Rightarrow>
              (if or_kind receipt \<noteq> ReceiptResolve \<or> or_fingerprint receipt \<noteq> fp
                  \<or> or_resolve receipt = None
               then failT ErrOperationReplay
               else returnT (cloneResolveResult (the (or_resolve receipt))))
          | None \<Rightarrow> stateT (resolveShared H req fp sh observed))))))"

definition ResolveShared ::
  "hashing \<Rightarrow> (state_dto \<Rightarrow> bool) \<Rightarrow> io_run \<Rightarrow> resolve_request \<Rightarrow> 'r service
     \<Rightarrow> resolve_result result \<times> 'r service" where
  "ResolveShared H too_large io req s =
     (case validatePrivateRequest (rq_operation_id req) (rq_credential req) of
        Inl e \<Rightarrow> (Inl e, s)
      | Inr _ \<Rightarrow>
          if ValidateIdentity (rq_conflict req) \<noteq> OK \<or> validToken (rq_token req) \<noteq> OK
             \<or> ValidateLiveSnapshot (rq_snapshot req) \<noteq> OK
          then (Inl ErrConflictRequiresResolution, s)
          else
            let snapshot = \<lparr>sn_byte_size = sn_byte_size (rq_snapshot req),
                  sn_states = CloneLiveStates (sn_states (rq_snapshot req))\<rparr>
            in runOp (WithTransaction too_large io (resolveTx H req snapshot) s))"

section \<open>Acknowledging\<close>

definition acknowledgedShell :: "shell_state \<Rightarrow> live_state list \<Rightarrow> u64 \<Rightarrow> shell_state" where
  "acknowledgedShell sh observed head =
     (let pending = sh_pending sh;
          sh1 = sh\<lparr>sh_attach_state := AttachStateAtHead, sh_applied_revision := pd_revision pending,
            sh_applied_baseline := CloneLiveStates observed,
            sh_capture_baseline := CloneLiveStates observed\<rparr>;
          sh2 = (if pd_kind pending = PendingResolution
                 then sh1\<lparr>sh_conflict := None, sh_unpublished := []\<rparr> else sh1)
      in sh2\<lparr>sh_pending := noPending, sh_transition := TransitionAcknowledge,
             sh_behind := (sh_applied_revision sh2 < head \<or> sh_conflict sh2 \<noteq> None),
             sh_last_active := head\<rparr>)"

definition acknowledge ::
  "hashing \<Rightarrow> acknowledge_request \<Rightarrow> fingerprint \<Rightarrow> shell_state \<Rightarrow> live_state list \<Rightarrow> wt_state
     \<Rightarrow> (acknowledge_result \<times> wt_state) result" where
  "acknowledge H req fp sh observed st =
     (let sid = cr_shell_id (ak_credential req);
          pending = sh_pending sh
      in if pd_kind pending = PendingNone \<or> pd_revision pending \<noteq> ak_revision req
            \<or> pd_token pending \<noteq> ak_token req
         then Inl ErrAcknowledgeMismatch
         else if pd_kind pending = PendingResolution
              \<and> (case (pd_conflict pending, sh_conflict sh) of
                   (Some i, Some c) \<Rightarrow> i \<noteq> cf_identity c \<or> pd_token pending \<noteq> cf_token c
                 | _ \<Rightarrow> True)
         then Inl ErrAcknowledgeMismatch
         else
           bindR (orErr (FingerprintSnapshot H (snap observed)) ErrAcknowledgeMismatch) (\<lambda>seen.
             if seen \<noteq> pd_fingerprint pending then Inl ErrAcknowledgeMismatch
             else
               let res = \<lparr>ac_applied_revision = pd_revision pending, ac_acknowledged = True\<rparr>
               in Inr (res, appendReceipt
                    ((emptyReceipt sid (ak_operation_id req) ReceiptAcknowledge fp)
                       \<lparr>or_acknowledge := Some res\<rparr>)
                    (putShell sid (acknowledgedShell sh observed (st_head_revision st)) st))))"

definition acknowledgeTx ::
  "hashing \<Rightarrow> acknowledge_request \<Rightarrow> live_snapshot \<Rightarrow> ('r, acknowledge_result) tx" where
  "acknowledgeTx H req snapshot =
     bindT getT (\<lambda>st.
     bindT (liftT (authorizeShell H st (ak_credential req))) (\<lambda>sh.
     bindT (orErrT seedRegistryFromState ErrRecoveryRequired) (\<lambda>_.
     bindT (admittedSnapshot sh snapshot) (\<lambda>observed.
     bindT getT (\<lambda>st1.
       let fp = fingerprintParts H ''acknowledge''
             [JRevision (ak_revision req), JToken (ak_token req), JStates observed]
       in case receiptFor st1 (cr_shell_id (ak_credential req)) (ak_operation_id req) of
            Some receipt \<Rightarrow>
              (if or_kind receipt \<noteq> ReceiptAcknowledge \<or> or_fingerprint receipt \<noteq> fp
                  \<or> or_acknowledge receipt = None
               then failT ErrOperationReplay
               else returnT (the (or_acknowledge receipt)))
          | None \<Rightarrow> stateT (acknowledge H req fp sh observed))))))"

definition Acknowledge ::
  "hashing \<Rightarrow> (state_dto \<Rightarrow> bool) \<Rightarrow> io_run \<Rightarrow> acknowledge_request \<Rightarrow> 'r service
     \<Rightarrow> acknowledge_result result \<times> 'r service" where
  "Acknowledge H too_large io req s =
     (case validatePrivateRequest (ak_operation_id req) (ak_credential req) of
        Inl e \<Rightarrow> (Inl e, s)
      | Inr _ \<Rightarrow>
          if ak_revision req = 0 \<or> validToken (ak_token req) \<noteq> OK
             \<or> ValidateLiveSnapshot (ak_snapshot req) \<noteq> OK
          then (Inl ErrAcknowledgeMismatch, s)
          else
            let snapshot = \<lparr>sn_byte_size = sn_byte_size (ak_snapshot req),
                  sn_states = CloneLiveStates (sn_states (ak_snapshot req))\<rparr>
            in runOp (WithTransaction too_large io (acknowledgeTx H req snapshot) s))"

end
