(* ===== verification/ReceiptFacts.thy ===== *)
theory ReceiptFacts
  imports ShellService
begin

text \<open>
  The receipts of \<^verbatim>\<open>core/worktree/service.go\<close> and
  \<^verbatim>\<open>state.go\<close>: the validator as a predicate, and what
  \<^verbatim>\<open>appendReceipt\<close> keeps: unique keys, the bound per shell, and the
  receipts of every other shell.
\<close>

definition receipt_ok :: "string set \<Rightarrow> operation_receipt \<Rightarrow> bool" where
  "receipt_ok shells r \<longleftrightarrow>
     or_shell_id r \<in> shells \<and> validStateToken (or_operation_id r) \<and> validateReceiptUnion r = OK"

definition receipts_of :: "string \<Rightarrow> operation_receipt list \<Rightarrow> operation_receipt list" where
  "receipts_of sid rs = filter (\<lambda>r. or_shell_id r = sid) rs"

lemma receipts_of_simps [simp]:
  "receipts_of sid [] = []"
  "receipts_of sid (r # rs) = (if or_shell_id r = sid then r # receipts_of sid rs else receipts_of sid rs)"
  "receipts_of sid (rs @ rs') = receipts_of sid rs @ receipts_of sid rs'"
  by (simp_all add: receipts_of_def)

lemma validateReceiptLoop_eq_OK:
  "(\<forall>sid. counts sid \<le> MaxOperationReceiptsPerShell) \<Longrightarrow>
   validateReceiptLoop shells counts seen rs = OK \<longleftrightarrow>
     (\<forall>r \<in> set rs. receipt_ok shells r) \<and> distinct (map receiptKey rs)
     \<and> receiptKey ` set rs \<inter> seen = {}
     \<and> (\<forall>sid. counts sid + length (receipts_of sid rs) \<le> MaxOperationReceiptsPerShell)"
proof (induction rs arbitrary: counts seen)
  case Nil
  then show ?case by simp
next
  case (Cons r rs)
  let ?counts = "counts(or_shell_id r := Suc (counts (or_shell_id r)))"
  have sums: "(\<forall>sid. ?counts sid + length (receipts_of sid rs) \<le> MaxOperationReceiptsPerShell)
      \<longleftrightarrow> (\<forall>sid. counts sid + length (receipts_of sid (r # rs)) \<le> MaxOperationReceiptsPerShell)"
    by auto
  show ?case
  proof (cases "MaxOperationReceiptsPerShell < Suc (counts (or_shell_id r))")
    case True
    then have "\<not> counts (or_shell_id r) + length (receipts_of (or_shell_id r) (r # rs))
        \<le> MaxOperationReceiptsPerShell"
      by simp
    then have "\<not> (\<forall>sid. counts sid + length (receipts_of sid (r # rs)) \<le> MaxOperationReceiptsPerShell)"
      by blast
    moreover have "validateReceiptLoop shells counts seen (r # rs) \<noteq> OK"
      using True by (simp add: Let_def)
    ultimately show ?thesis by blast
  next
    case False
    then have "\<forall>sid. ?counts sid \<le> MaxOperationReceiptsPerShell" using Cons.prems by auto
    note IH = Cons.IH [OF this, of "insert (receiptKey r) seen"]
    have "validateReceiptLoop shells counts seen (r # rs) = OK \<longleftrightarrow>
        receipt_ok shells r \<and> receiptKey r \<notin> seen
        \<and> validateReceiptLoop shells ?counts (insert (receiptKey r) seen) rs = OK"
      using False by (auto simp: Let_def bindR_eq_Inr receipt_ok_def)
    then show ?thesis unfolding IH sums by (auto simp del: receipts_of_simps)
  qed
qed

definition receipts_wf :: "string set \<Rightarrow> operation_receipt list \<Rightarrow> bool" where
  "receipts_wf shells rs \<longleftrightarrow>
     (\<forall>r \<in> set rs. receipt_ok shells r) \<and> distinct (map receiptKey rs)
     \<and> (\<forall>sid. length (receipts_of sid rs) \<le> MaxOperationReceiptsPerShell)"

lemma receipts_ok_iff: "receipts_ok st \<longleftrightarrow> receipts_wf (fst ` set (st_shells st)) (st_receipts st)"
  by (simp add: receipts_ok_def validateReceipts_def validateReceiptLoop_eq_OK receipts_wf_def)

section \<open>Keys\<close>

lemma token_no_nul: "validStateToken s \<Longrightarrow> CHR 0x00 \<notin> set s"
proof -
  assume "validStateToken s"
  then obtain c cs where s: "s = c # cs" and "is_alnum c" "list_all token_rest cs"
    by (cases s) (auto simp: validStateToken_def liveTokenRE_def)
  moreover have "\<not> is_alnum CHR 0x00" "\<not> token_rest CHR 0x00" by code_simp+
  ultimately show "CHR 0x00 \<notin> set s" by (auto simp: list_all_iff)
qed

lemma nul_split:
  "CHR 0x00 \<notin> set a \<Longrightarrow> CHR 0x00 \<notin> set b \<Longrightarrow>
     a @ CHR 0x00 # x = b @ CHR 0x00 # y \<longleftrightarrow> a = b \<and> x = y"
proof (induction a arbitrary: b)
  case Nil
  then show ?case by (cases b) auto
next
  case (Cons c a)
  then show ?case by (cases b) auto
qed

lemma receiptKey_inject:
  assumes "CHR 0x00 \<notin> set (or_shell_id r)" "CHR 0x00 \<notin> set (or_shell_id s)"
  shows "receiptKey r = receiptKey s \<longleftrightarrow>
    or_shell_id r = or_shell_id s \<and> or_operation_id r = or_operation_id s"
  using assms by (simp add: receiptKey_def nul_split)

section \<open>Appending\<close>

lemma receiptFor_None:
  "receiptFor st sid opid = None \<longleftrightarrow>
     (\<forall>r \<in> set (st_receipts st). \<not> (or_shell_id r = sid \<and> or_operation_id r = opid))"
  by (auto simp: receiptFor_def find_None_iff)

lemma find_SomeD: "find P xs = Some x \<Longrightarrow> x \<in> set xs \<and> P x"
  by (induction xs) (auto split: if_splits)

lemma receiptFor_Some:
  "receiptFor st sid opid = Some r \<Longrightarrow>
     r \<in> set (st_receipts st) \<and> or_shell_id r = sid \<and> or_operation_id r = opid"
  unfolding receiptFor_def by (drule find_SomeD) simp

lemma removeFirst_sub: "set (removeFirst P xs) \<subseteq> set xs"
  by (induction xs) auto

lemma distinct_removeFirst: "distinct (map f xs) \<Longrightarrow> distinct (map f (removeFirst P xs))"
proof (induction xs)
  case Nil
  then show ?case by simp
next
  case (Cons x xs)
  then show ?case using removeFirst_sub [of P xs] by auto
qed

lemma receipts_of_removeFirst:
  "receipts_of sid (removeFirst (\<lambda>x. or_shell_id x = sid') rs) =
     (if sid = sid' then tl (receipts_of sid rs) else receipts_of sid rs)"
  by (induction rs) auto

lemma appendReceipt_of:
  "receipts_of sid (st_receipts (appendReceipt r st)) =
     (if or_shell_id r = sid then
        (if MaxOperationReceiptsPerShell \<le> length (receipts_of sid (st_receipts st))
         then tl (receipts_of sid (st_receipts st)) else receipts_of sid (st_receipts st)) @ [r]
      else receipts_of sid (st_receipts st))"
  by (auto simp: appendReceipt_def Let_def receipts_of_removeFirst receipts_of_def [symmetric])

lemma appendReceipt_set:
  "set (st_receipts (appendReceipt r st)) \<subseteq> insert r (set (st_receipts st))"
  using removeFirst_sub [of "\<lambda>x. or_shell_id x = or_shell_id r" "st_receipts st"]
  by (auto simp: appendReceipt_def Let_def)

lemma appendReceipt_other [simp]:
  "st_shells (appendReceipt r st) = st_shells st"
  "st_shared (appendReceipt r st) = st_shared st"
  "st_head_revision (appendReceipt r st) = st_head_revision st"
  "st_events (appendReceipt r st) = st_events st"
  "st_compaction_floor (appendReceipt r st) = st_compaction_floor st"
  "st_compaction_baseline (appendReceipt r st) = st_compaction_baseline st"
  "st_materialized (appendReceipt r st) = st_materialized st"
  "st_schema_version (appendReceipt r st) = st_schema_version st"
  "st_branch (appendReceipt r st) = st_branch st"
  "st_base_oid (appendReceipt r st) = st_base_oid st"
  "st_committed (appendReceipt r st) = st_committed st"
  "st_admitted (appendReceipt r st) = st_admitted st"
  "st_admitted_missing (appendReceipt r st) = st_admitted_missing st"
  "st_auto_apply_default (appendReceipt r st) = st_auto_apply_default st"
  by (simp_all add: appendReceipt_def Let_def)

lemma receiptFor_append:
  assumes "receiptFor st (or_shell_id r) (or_operation_id r) = None"
  shows "receiptFor (appendReceipt r st) (or_shell_id r) (or_operation_id r) = Some r"
  by (simp add: receiptFor_def appendReceipt_def Let_def)

lemma appendReceipt_wf:
  assumes wf: "receipts_wf shells (st_receipts st)" and tokens: "\<forall>sid \<in> shells. validStateToken sid"
    and new: "receipt_ok shells r" and fresh: "receiptFor st (or_shell_id r) (or_operation_id r) = None"
  shows "receipts_wf shells (st_receipts (appendReceipt r st))"
proof -
  have nul: "CHR 0x00 \<notin> set (or_shell_id x)" if "receipt_ok shells x" for x
    using that tokens token_no_nul by (auto simp: receipt_ok_def)
  have ne: "receiptKey x \<noteq> receiptKey r" if "x \<in> set (st_receipts st)" for x
    using wf that new fresh receiptKey_inject [OF nul nul, of x r]
    by (auto simp: receipts_wf_def receiptFor_None)
  then have fresh_key: "receiptKey r \<notin> receiptKey ` set xs" if "set xs \<subseteq> set (st_receipts st)" for xs
    using that ne by (metis image_iff subsetD)
  have d: "distinct (map receiptKey (st_receipts st))" using wf by (simp add: receipts_wf_def)
  have "distinct (map receiptKey (st_receipts (appendReceipt r st)))"
    using d distinct_removeFirst [OF d] fresh_key [OF subset_refl] fresh_key [OF removeFirst_sub]
    by (simp add: appendReceipt_def Let_def)
  moreover have "\<forall>x \<in> set (st_receipts (appendReceipt r st)). receipt_ok shells x"
    using wf new appendReceipt_set [of r st] by (auto simp: receipts_wf_def)
  moreover have "length (receipts_of sid (st_receipts (appendReceipt r st))) \<le> MaxOperationReceiptsPerShell" for sid
  proof -
    have "length (receipts_of sid (st_receipts st)) \<le> MaxOperationReceiptsPerShell"
      using wf by (simp add: receipts_wf_def)
    moreover have "0 < MaxOperationReceiptsPerShell" by (simp add: MaxOperationReceiptsPerShell_def)
    ultimately show ?thesis unfolding appendReceipt_of by auto
  qed
  ultimately show ?thesis by (simp add: receipts_wf_def)
qed

lemma receipts_wf_mono: "receipts_wf shells rs \<Longrightarrow> shells \<subseteq> shells' \<Longrightarrow> receipts_wf shells' rs"
  by (auto simp: receipts_wf_def receipt_ok_def)

end
