(* ===== verification/RegistryRun.thy ===== *)
theory RegistryRun
  imports ReceiptFacts
begin

text \<open>
  The registry inside a transaction: what seeding from a generation leaves in the registry
  and in the state, and the two admission loops of
  \<^verbatim>\<open>core/worktree/service.go\<close> as filters through the admission gate.
\<close>

section \<open>Canonical lists of admitted identities\<close>

lemma admittedIdentityLess_key: "admittedIdentityLess l r \<longleftrightarrow> admittedKey l < admittedKey r"
  by (auto simp: admittedIdentityLess_def admittedKey_def less_prod_def less_le)

lemma kind_string_inject:
  "supported_kind k \<Longrightarrow> supported_kind l \<Longrightarrow> kind_string k = kind_string l \<Longrightarrow> k = l"
  by (cases k; cases l; simp)

lemma admittedKey_inject:
  assumes "ValidateIdentity i = OK" "ValidateIdentity j = OK" "admittedKey i = admittedKey j"
  shows "i = j"
proof -
  have "supported_kind (id_kind i)" "supported_kind (id_kind j)"
    using assms ValidateIdentity_supported by auto
  moreover have "kind_string (id_kind i) = kind_string (id_kind j)" "id_name i = id_name j"
    using assms(3) by (auto simp: admittedKey_def)
  ultimately show ?thesis
    using kind_string_inject by (intro identity.expand) blast
qed

lemma validateAdmittedLoop_valid:
  "validateAdmittedLoop acc p is = OK \<Longrightarrow> i \<in> set is \<Longrightarrow> ValidateIdentity i = OK"
  by (induction acc p "is" rule: validateAdmittedLoop.induct)
    (auto simp: Let_def if_Inl_eq_Inr split: if_splits option.splits)

lemma validateAdmitted_valid:
  "validateAdmittedIdentities is = OK \<Longrightarrow> i \<in> set is \<Longrightarrow> ValidateIdentity i = OK"
  by (auto simp: validateAdmittedIdentities_def if_Inl_eq_Inr intro: validateAdmittedLoop_valid)

lemma validateAdmittedLoop_sorted:
  "validateAdmittedLoop acc p is = OK \<Longrightarrow>
     sorted_wrt (\<lambda>i j. admittedKey i < admittedKey j) is
     \<and> (\<forall>q. p = Some q \<longrightarrow> (\<forall>i \<in> set is. admittedKey q < admittedKey i))"
proof (induction acc p "is" rule: validateAdmittedLoop.induct)
  case (1 acc previous)
  then show ?case by simp
next
  case (2 acc previous i "is")
  let ?acc = "acc + (len64 (kind_string (id_kind i)) + len64 (id_name i) + 2)"
  have rest: "validateAdmittedLoop ?acc (Some i) is = OK"
    and prev: "\<forall>q. previous = Some q \<longrightarrow> admittedKey q < admittedKey i"
    using "2.prems" by (auto simp: Let_def if_Inl_eq_Inr admittedIdentityLess_key split: option.splits)
  have small: "ValidateIdentity i = OK" "\<not> MaxSnapshotBytes < ?acc"
    using "2.prems" by (auto simp: Let_def if_Inl_eq_Inr)
  have IH: "sorted_wrt (\<lambda>i j. admittedKey i < admittedKey j) is \<and> (\<forall>j \<in> set is. admittedKey i < admittedKey j)"
  proof (cases previous)
    case None
    with "2.IH"(1) small rest show ?thesis by (simp add: Let_def)
  next
    case (Some q)
    with prev have "q \<noteq> i" "admittedIdentityLess q i" by (auto simp: admittedIdentityLess_key)
    with "2.IH"(2) small rest Some show ?thesis by (simp add: Let_def)
  qed
  with prev show ?case by (auto intro: less_trans)
qed

lemma validateAdmitted_sorted:
  "validateAdmittedIdentities is = OK \<Longrightarrow> sorted_wrt (\<lambda>i j. admittedKey i < admittedKey j) is"
  by (auto simp: validateAdmittedIdentities_def if_Inl_eq_Inr dest: validateAdmittedLoop_sorted)

lemma sorted_key_distinct: "sorted_wrt (\<lambda>i j. f i < (f j :: 'k :: order)) xs \<Longrightarrow> distinct xs"
  by (induction xs) auto

lemma validateAdmitted_distinct: "validateAdmittedIdentities is = OK \<Longrightarrow> distinct is"
  by (rule sorted_key_distinct) (rule validateAdmitted_sorted)

section \<open>Seeding\<close>

text \<open>The registry a generation determines, whatever the registry was before.\<close>

definition seeded :: "registry \<Rightarrow> wt_state \<Rightarrow> registry \<Rightarrow> bool" where
  "seeded r0 st r \<longleftrightarrow>
     rg_id r = rg_id r0 \<and> rg_policy r = rg_policy r0
     \<and> rg_owned r = Collect (source_owned (cw_source (st_committed st))) \<union> set (st_admitted st)
     \<and> rg_pinned r = Collect (source_pinned (cw_source (st_committed st)))
     \<and> (\<forall>i \<in> set (st_admitted st). exclusionReason r i = AdmissionNone)"

text \<open>A registry call leaves the repository and the captured commit alone.\<close>

definition env_same :: "'r service_env \<Rightarrow> 'r service_env \<Rightarrow> bool" where
  "env_same e e' \<longleftrightarrow> sv_repo e' = sv_repo e \<and> sv_commit e' = sv_commit e"

lemma seed_run:
  assumes "seedRegistryFromState e st = (Inr (u, st'), e')"
  shows "seeded (sv_registry e) st' (sv_registry e') \<and> env_same e e'
    \<and> (\<exists>a. st' = st\<lparr>st_admitted := a, st_admitted_missing := False\<rparr>)
    \<and> validateAdmittedIdentities (st_admitted st') = OK
    \<and> (\<not> st_admitted_missing st \<longrightarrow> st' = st)"
proof (cases "st_admitted_missing st")
  case False
  with assms have "st' = st" by (auto simp: seedRegistryFromState_def tx_simps)
  moreover have "st = st\<lparr>st_admitted := st_admitted st, st_admitted_missing := False\<rparr>"
    using False by (intro wt_state.equality) simp_all
  moreover have "seeded (sv_registry e) st' (sv_registry e') \<and> env_same e e'
      \<and> validateAdmittedIdentities (st_admitted st') = OK"
    using False assms
    by (auto simp: seedRegistryFromState_def tx_simps Seed_eq_Inr RestoreAdmitted_eq_Inr seeded_def env_same_def)
  ultimately show ?thesis by blast
next
  case True
  with assms show ?thesis
    by (auto simp: seedRegistryFromState_def tx_simps Seed_eq_Inr RestoreAdmitted_eq_Inr seeded_def
        env_same_def Let_def)
qed

section \<open>The admission loops\<close>

definition same_but_admitted :: "wt_state \<Rightarrow> wt_state \<Rightarrow> bool" where
  "same_but_admitted st st' \<longleftrightarrow>
     (\<exists>a m. st' = st\<lparr>st_admitted := a, st_admitted_missing := m\<rparr>)
     \<and> (validateAdmittedIdentities (st_admitted st) = OK \<longrightarrow>
          validateAdmittedIdentities (st_admitted st') = OK)"

lemma same_but_admitted_refl: "same_but_admitted st st"
proof -
  have "st = st\<lparr>st_admitted := st_admitted st, st_admitted_missing := st_admitted_missing st\<rparr>" by simp
  then show ?thesis unfolding same_but_admitted_def by blast
qed

lemma same_but_admitted_trans:
  "same_but_admitted a b \<Longrightarrow> same_but_admitted b c \<Longrightarrow> same_but_admitted a c"
  unfolding same_but_admitted_def by fastforce

lemma seed_same_but_admitted:
  "seedRegistryFromState e st = (Inr (u, st'), e') \<Longrightarrow> same_but_admitted st st'"
  using seed_run [of e st u st' e'] unfolding same_but_admitted_def by blast

lemma same_but_admitted_sel:
  "same_but_admitted st st' \<Longrightarrow> st_shells st' = st_shells st"
  "same_but_admitted st st' \<Longrightarrow> st_shared st' = st_shared st"
  "same_but_admitted st st' \<Longrightarrow> st_head_revision st' = st_head_revision st"
  "same_but_admitted st st' \<Longrightarrow> st_events st' = st_events st"
  "same_but_admitted st st' \<Longrightarrow> st_compaction_floor st' = st_compaction_floor st"
  "same_but_admitted st st' \<Longrightarrow> st_compaction_baseline st' = st_compaction_baseline st"
  "same_but_admitted st st' \<Longrightarrow> st_receipts st' = st_receipts st"
  "same_but_admitted st st' \<Longrightarrow> st_committed st' = st_committed st"
  by (auto simp: same_but_admitted_def)

text \<open>Registry and state move together: what is owned beyond the source is recorded.\<close>

definition in_step :: "identity set \<Rightarrow> 'r service_env \<Rightarrow> wt_state \<Rightarrow> bool" where
  "in_step owned e st \<longleftrightarrow> rg_owned (sv_registry e) = owned \<union> set (st_admitted st)"

lemma appendAdmittedIdentity_run:
  assumes "appendAdmittedIdentity i st = Inr st'"
  shows "same_but_admitted st st' \<and> set (st_admitted st') = insert i (set (st_admitted st))"
proof (cases "i \<in> set (st_admitted st)")
  case True
  with assms have "st' = st\<lparr>st_admitted := st_admitted st, st_admitted_missing := False\<rparr>"
    by (simp add: appendAdmittedIdentity_def if_Inl_eq_Inr)
  then have "\<exists>a m. st' = st\<lparr>st_admitted := a, st_admitted_missing := m\<rparr>" by blast
  moreover have "st_admitted st' = st_admitted st"
    using True assms by (auto simp: appendAdmittedIdentity_def if_Inl_eq_Inr)
  ultimately show ?thesis using True unfolding same_but_admitted_def by auto
next
  case False
  with assms show ?thesis
    by (auto simp: appendAdmittedIdentity_def same_but_admitted_def Let_def bindR_eq_Inr if_Inl_eq_Inr)
qed

lemma admitIdentity_run:
  assumes "admitIdentity a i e st = (Inr (b, st'), e')"
  shows "b = gate.passes a (sv_registry e) i
    \<and> sv_registry e' = gate.enter a i (sv_registry e)
    \<and> env_same e e'
    \<and> same_but_admitted st st'
    \<and> (\<forall>owned. in_step owned e st \<longrightarrow> in_step owned e' st')"
proof (cases "AllowsLiveValue (sv_registry e) i")
  case True
  with assms show ?thesis
    by (auto simp: admitIdentity_def tx_simps gate.passes_def gate.enter_def same_but_admitted_refl env_same_def)
next
  case False
  let ?r = "sv_registry e"
  obtain answer r' where pair: "Admit ?r a i = (answer, r')" by (cases "Admit ?r a i")
  then have answer: "admit_answer a ?r i = ad_admitted answer" "admit_after a ?r i = r'"
    by (simp_all add: admit_answer_def admit_after_def)
  show ?thesis
  proof (cases "admit_answer a ?r i")
    case no: False
    with False assms have "b = False" "st' = st" "e' = e\<lparr>sv_registry := admit_after a ?r i\<rparr>"
      by (auto simp: admitIdentity_def tx_simps pair answer)
    moreover have "admit_after a ?r i = ?r" using no by (simp add: admit_after_eq)
    ultimately show ?thesis
      using False no by (auto simp: gate.passes_def gate.enter_def same_but_admitted_refl env_same_def)
  next
    case yes: True
    with False assms have "b = True" "e' = e\<lparr>sv_registry := admit_after a ?r i\<rparr>"
      and app: "appendAdmittedIdentity i st = Inr st'"
      by (auto simp: admitIdentity_def tx_simps pair answer bindR_eq_Inr)
    moreover have "same_but_admitted st st' \<and> set (st_admitted st') = insert i (set (st_admitted st))"
      using app by (rule appendAdmittedIdentity_run)
    moreover have "admit_after a ?r i = ?r\<lparr>rg_owned := insert i (rg_owned ?r)\<rparr>"
      using yes by (simp add: admit_after_eq)
    ultimately show ?thesis
      using False yes by (auto simp: gate.passes_def gate.enter_def in_step_def env_same_def)
  qed
qed

lemma admittedChangesLoop_run:
  assumes "admittedChangesLoop a cs e st = (Inr (out, st'), e')"
  shows "out = map CloneLiveChange (filter (\<lambda>c. gate.passes a (sv_registry e) (ch_identity c)) cs)
    \<and> sv_registry e' = fold (gate.enter a) (map ch_identity cs) (sv_registry e)
    \<and> env_same e e'
    \<and> same_but_admitted st st'
    \<and> (\<forall>owned. in_step owned e st \<longrightarrow> in_step owned e' st')"
  using assms
proof (induction cs arbitrary: e st out)
  case Nil
  then show ?case by (auto simp: tx_simps same_but_admitted_refl env_same_def)
next
  case (Cons c cs)
  then obtain b st1 e1 rest where
    one: "admitIdentity a (ch_identity c) e st = (Inr (b, st1), e1)"
    and more: "admittedChangesLoop a cs e1 st1 = (Inr (rest, st'), e')"
    and out: "out = (if b then CloneLiveChange c # rest else rest)"
    by (auto simp: tx_simps)
  note f = admitIdentity_run [OF one] and g = Cons.IH [OF more]
  have "gate.passes a (sv_registry e1) j = gate.passes a (sv_registry e) j" for j
    using f gate.passes_enter by metis
  with f g out show ?case
    by (auto simp: env_same_def intro: same_but_admitted_trans)
qed

lemma admittedSnapshotLoop_run:
  assumes "admittedSnapshotLoop a ss e st = (Inr (out, st'), e')"
  shows "out = map CloneLiveState (filter (\<lambda>s. lv_present (ls_value s)
        \<and> gate.passes a (sv_registry e) (ls_identity s)) ss)
    \<and> sv_registry e' = fold (gate.enter a)
        (map ls_identity (filter (\<lambda>s. lv_present (ls_value s)) ss)) (sv_registry e)
    \<and> env_same e e'
    \<and> same_but_admitted st st'
    \<and> (\<forall>owned. in_step owned e st \<longrightarrow> in_step owned e' st')"
  using assms
proof (induction ss arbitrary: e st out)
  case Nil
  then show ?case by (auto simp: tx_simps same_but_admitted_refl env_same_def)
next
  case (Cons s ss)
  show ?case
  proof (cases "lv_present (ls_value s)")
    case False
    with Cons show ?thesis by simp
  next
    case True
    with Cons.prems obtain b st1 e1 rest where
      one: "admitIdentity a (ls_identity s) e st = (Inr (b, st1), e1)"
      and more: "admittedSnapshotLoop a ss e1 st1 = (Inr (rest, st'), e')"
      and out: "out = (if b then CloneLiveState s # rest else rest)"
      by (auto simp: tx_simps)
    note f = admitIdentity_run [OF one] and g = Cons.IH [OF more]
    have "gate.passes a (sv_registry e1) j = gate.passes a (sv_registry e) j" for j
      using f gate.passes_enter by metis
    with f g out True show ?thesis
      by (auto simp: env_same_def intro: same_but_admitted_trans)
  qed
qed

end
