(* ===== verification/FinalOrder.thy ===== *)
theory FinalOrder
  imports Prelude
begin

text \<open>
  The ordered list with a position index that \<^verbatim>\<open>core/activate/builder.go\<close>
  keeps for environment scalars, functions, options and live identities: placing an
  element whose key is already there removes the old one, shifts the positions behind it
  down by one and appends, so that an element stands where its key last occurred.
\<close>

type_synonym ('k, 'a) ordered = "('k \<rightharpoonup> nat) \<times> 'a list"

definition ordered_empty :: "('k, 'a) ordered" where
  "ordered_empty = (Map.empty, [])"

definition shift_down :: "nat \<Rightarrow> ('k \<rightharpoonup> nat) \<Rightarrow> ('k \<rightharpoonup> nat)" where
  "shift_down previous idx = (\<lambda>n. map_option (\<lambda>i. if previous < i then i - 1 else i) (idx n))"

fun place :: "'k \<Rightarrow> 'a \<Rightarrow> ('k, 'a) ordered \<Rightarrow> ('k, 'a) ordered" where
  "place k x (idx, xs) =
     (case idx k of
        Some previous \<Rightarrow>
          let xs' = take previous xs @ drop (Suc previous) xs
          in ((shift_down previous idx)(k \<mapsto> length xs'), xs' @ [x])
      | None \<Rightarrow> (idx(k \<mapsto> length xs), xs @ [x]))"

fun ordered_lookup :: "'k \<Rightarrow> ('k, 'a) ordered \<Rightarrow> 'a option" where
  "ordered_lookup k (idx, xs) = map_option (\<lambda>i. xs ! i) (idx k)"

section \<open>Well-formed indexes\<close>

fun ordered_wf :: "('a \<Rightarrow> 'k) \<Rightarrow> ('k, 'a) ordered \<Rightarrow> bool" where
  "ordered_wf key (idx, xs) \<longleftrightarrow> (\<forall>k i. idx k = Some i \<longleftrightarrow> i < length xs \<and> key (xs ! i) = k)"

declare ordered_wf.simps [simp del]

lemma ordered_wf_index:
  "ordered_wf key (idx, xs) \<Longrightarrow> idx k = Some i \<longleftrightarrow> i < length xs \<and> key (xs ! i) = k"
  by (simp add: ordered_wf.simps)

lemma ordered_wf_empty: "ordered_wf key ordered_empty"
  by (simp add: ordered_empty_def ordered_wf.simps)

lemma ordered_wf_distinct:
  assumes "ordered_wf key (idx, xs)"
  shows "distinct (map key xs)"
proof (simp add: distinct_conv_nth, intro allI impI)
  fix i j
  assume ij: "i < length xs" "j < length xs" "i \<noteq> j"
  show "key (xs ! i) \<noteq> key (xs ! j)"
  proof
    assume "key (xs ! i) = key (xs ! j)"
    then have "idx (key (xs ! j)) = Some i" "idx (key (xs ! j)) = Some j"
      using ij ordered_wf_index [OF assms] by auto
    with ij(3) show False by simp
  qed
qed

lemma ordered_wf_None:
  assumes "ordered_wf key (idx, xs)"
  shows "idx k = None \<longleftrightarrow> k \<notin> key ` set xs"
proof -
  have "idx k \<noteq> None \<longleftrightarrow> (\<exists>i. idx k = Some i)" by auto
  also have "\<dots> \<longleftrightarrow> (\<exists>i < length xs. key (xs ! i) = k)"
    using ordered_wf_index [OF assms] by auto
  also have "\<dots> \<longleftrightarrow> k \<in> key ` set xs" unfolding set_conv_nth by auto
  finally show ?thesis by blast
qed

lemma filter_middle:
  assumes "distinct (map key (a @ b # c))"
  shows "filter (\<lambda>y. key y \<noteq> key b) (a @ b # c) = a @ c"
proof -
  have "key b \<notin> key ` set a \<union> key ` set c" using assms by auto
  then have "key y \<noteq> key b" if "y \<in> set a \<union> set c" for y
    using that by (metis Un_iff imageI)
  then show ?thesis by (simp add: filter_id_conv)
qed

lemma drop_at_filter:
  assumes "distinct (map key xs)" "i < length xs" "key (xs ! i) = k"
  shows "take i xs @ drop (Suc i) xs = filter (\<lambda>y. key y \<noteq> k) xs"
proof -
  have split: "xs = take i xs @ xs ! i # drop (Suc i) xs"
    using assms(2) by (rule id_take_nth_drop)
  have d: "distinct (map key (take i xs @ xs ! i # drop (Suc i) xs))"
    using assms(1) split by simp
  have "filter (\<lambda>y. key y \<noteq> k) xs =
      filter (\<lambda>y. key y \<noteq> k) (take i xs @ xs ! i # drop (Suc i) xs)"
    using split by simp
  also have "\<dots> = take i xs @ drop (Suc i) xs"
    using filter_middle [OF d] assms(3) by simp
  finally show ?thesis by simp
qed

text \<open>Placing is filtering the key out and appending.\<close>

lemma place_list:
  assumes "ordered_wf key t" "key x = k"
  shows "snd (place k x t) = filter (\<lambda>y. key y \<noteq> k) (snd t) @ [x]"
proof -
  obtain idx xs where t: "t = (idx, xs)" by (cases t)
  show ?thesis
  proof (cases "idx k")
    case None
    then have "k \<notin> key ` set xs" using assms(1) ordered_wf_None [of key idx xs k] t by simp
    then have "filter (\<lambda>y. key y \<noteq> k) xs = xs" by (auto simp: filter_id_conv)
    with None t show ?thesis by simp
  next
    case (Some i)
    then have "i < length xs" "key (xs ! i) = k"
      using assms(1) ordered_wf_index [of key idx xs k i] t by auto
    with Some t show ?thesis
      using drop_at_filter [OF ordered_wf_distinct [of key idx xs]] assms(1) by (simp add: Let_def)
  qed
qed

lemma place_wf:
  assumes "ordered_wf key t" "key x = k"
  shows "ordered_wf key (place k x t)"
proof -
  obtain idx xs where t: "t = (idx, xs)" by (cases t)
  have wf: "ordered_wf key (idx, xs)" using assms(1) t by simp
  note ix = ordered_wf_index [OF wf]
  show ?thesis
  proof (cases "idx k")
    case None
    then have fresh: "j < length xs \<Longrightarrow> key (xs ! j) \<noteq> k" for j using ix [of k j] by auto
    have "(idx(k \<mapsto> length xs)) k' = Some i \<longleftrightarrow> i < length (xs @ [x]) \<and> key ((xs @ [x]) ! i) = k'" for k' i
      using ix [of k' i] fresh assms(2) by (cases "i < length xs") (auto simp: nth_append less_Suc_eq)
    with None t show ?thesis by (simp add: ordered_wf.simps)
  next
    case (Some p)
    then have p: "p < length xs" "key (xs ! p) = k" using ix by auto
    let ?xs = "take p xs @ drop (Suc p) xs"
    have len: "length ?xs = length xs - 1" using p(1) by simp
    have nth: "?xs ! i = (if i < p then xs ! i else xs ! Suc i)" if "i < length ?xs" for i
      using that p(1) by (auto simp: nth_append min_def)
    have unique: "key (xs ! i) = k \<Longrightarrow> i < length xs \<Longrightarrow> i = p" for i
      using ix [of k i] Some by simp
    have "((shift_down p idx)(k \<mapsto> length ?xs)) k' = Some i \<longleftrightarrow>
        i < length (?xs @ [x]) \<and> key ((?xs @ [x]) ! i) = k'" for k' i
    proof (cases "k' = k")
      case True
      have "key (?xs ! i) \<noteq> k" if i: "i < length ?xs"
      proof (cases "i < p")
        case True
        with i nth [OF i] unique [of i] len p(1) show ?thesis by auto
      next
        case False
        have "Suc i < length xs" using i len by linarith
        with False nth [OF i] unique [of "Suc i"] show ?thesis by auto
      qed
      with True assms(2) show ?thesis
        by (cases "i < length ?xs") (auto simp: nth_append less_Suc_eq)
    next
      case False
      have "shift_down p idx k' = Some i \<longleftrightarrow> (\<exists>j. idx k' = Some j \<and> i = (if p < j then j - 1 else j))"
        unfolding shift_down_def by (cases "idx k'") auto
      also have "\<dots> \<longleftrightarrow> (\<exists>j < length xs. key (xs ! j) = k' \<and> i = (if p < j then j - 1 else j))"
        unfolding ix by blast
      also have "\<dots> \<longleftrightarrow> i < length ?xs \<and> key (?xs ! i) = k'"
      proof
        assume "\<exists>j < length xs. key (xs ! j) = k' \<and> i = (if p < j then j - 1 else j)"
        then obtain j where j: "j < length xs" "key (xs ! j) = k'" "i = (if p < j then j - 1 else j)"
          by blast
        then have "j \<noteq> p" using p(2) False by auto
        with j p(1) len nth [of i] show "i < length ?xs \<and> key (?xs ! i) = k'"
          by (auto split: if_splits)
      next
        assume a: "i < length ?xs \<and> key (?xs ! i) = k'"
        let ?j = "if i < p then i else Suc i"
        have "?j < length xs \<and> key (xs ! ?j) = k' \<and> i = (if p < ?j then ?j - 1 else ?j)"
          using a nth [of i] len p(1) by auto
        then show "\<exists>j < length xs. key (xs ! j) = k' \<and> i = (if p < j then j - 1 else j)" by blast
      qed
      finally show ?thesis using False assms(2) by (auto simp: nth_append less_Suc_eq)
    qed
    with Some t show ?thesis by (simp add: ordered_wf.simps Let_def)
  qed
qed

lemma ordered_lookup_find:
  assumes "ordered_wf key t"
  shows "ordered_lookup k t = find (\<lambda>y. key y = k) (snd t)"
proof -
  obtain idx xs where t: "t = (idx, xs)" by (cases t)
  have wf: "ordered_wf key (idx, xs)" using assms t by simp
  show ?thesis
  proof (cases "idx k")
    case None
    then have "k \<notin> key ` set xs" using ordered_wf_None [OF wf] by simp
    then have "find (\<lambda>y. key y = k) xs = None" by (auto simp: find_None_iff)
    with None t show ?thesis by simp
  next
    case (Some i)
    then have i: "i < length xs" "key (xs ! i) = k" using ordered_wf_index [OF wf] by auto
    moreover have "key (xs ! j) \<noteq> k" if "j < i" for j
      using ordered_wf_index [OF wf, of k j] Some i(1) that by auto
    ultimately have "find (\<lambda>y. key y = k) xs = Some (xs ! i)"
      unfolding find_Some_iff by blast
    with Some t show ?thesis by simp
  qed
qed

section \<open>Placing a whole list\<close>

definition place_all :: "('a \<Rightarrow> 'k) \<Rightarrow> 'a list \<Rightarrow> ('k, 'a) ordered \<Rightarrow> ('k, 'a) ordered" where
  "place_all key xs t = fold (\<lambda>x. place (key x) x) xs t"

lemma place_all_wf: "ordered_wf key t \<Longrightarrow> ordered_wf key (place_all key xs t)"
  unfolding place_all_def by (induction xs arbitrary: t) (simp_all add: place_wf)

lemma place_all_list:
  "ordered_wf key t \<Longrightarrow>
   snd (place_all key xs t) = filter (\<lambda>y. key y \<notin> key ` set xs) (snd t) @ keep_last key xs"
proof (induction xs arbitrary: t)
  case Nil
  then show ?case by (simp add: place_all_def)
next
  case (Cons x xs)
  have "place_all key (x # xs) t = place_all key xs (place (key x) x t)"
    by (simp add: place_all_def)
  with Cons.IH [OF place_wf [OF Cons.prems refl, of x]] place_list [OF Cons.prems refl, of x]
  show ?case by (auto simp: conj_commute)
qed

text \<open>Every key once, in the order of the last occurrences.\<close>

lemma place_all_empty: "snd (place_all key xs ordered_empty) = keep_last key xs"
  using place_all_list [OF ordered_wf_empty, of key xs] by (simp add: ordered_empty_def)

end
