(* ===== verification/Builder.thy ===== *)
theory Builder
  imports FinalOrder StateModel GoText
begin

text \<open>
  The manifest of \<^verbatim>\<open>core/model/manifest.go\<close> and its construction in
  \<^verbatim>\<open>core/activate/builder.go\<close>: reading the effectively managed and
  representable entries of a profile into scalars, lists, aliases, functions and options,
  deriving the live states they denote, and the committed document with its effective
  projection under an overlay.
\<close>

section \<open>Manifest\<close>

record scalar =
  mv_name :: string
  mv_applied :: string
  mv_original :: "string option"
  mv_exported :: "bool option"
  mv_dynamic :: "bool option"

record list_delta =
  ld_name :: string
  ld_additions :: "string list"
  ld_deletions :: "string list"
  ld_base_index :: "int option"
  ld_addition_dynamic :: "bool list"

record alias_set =
  al_added :: "(string \<times> string) list"
  al_shadowed :: "(string \<times> string) list"
  al_dynamic :: "(string \<times> bool) list"

record func_set =
  fn_added :: "string list"
  fn_shadowed :: "(string \<times> string) list"
  fn_bodies :: "(string \<times> string) list"

record option_set =
  os_name :: string
  os_enabled :: bool
  os_was_on :: bool

record manifest =
  mf_profile :: string
  mf_schema :: string
  mf_env :: "scalar list"
  mf_lists :: "list_delta list"
  mf_aliases :: alias_set
  mf_functions :: func_set
  mf_options :: "option_set list"

definition SchemaV1 :: string where "SchemaV1 = ''v1''"

section \<open>Anchored expressions and legacy lists\<close>

definition symbol_first :: "char \<Rightarrow> bool" where
  "symbol_first c \<longleftrightarrow> is_alnum c \<or> c = CHR ''_''"

definition optionNameRE :: "string \<Rightarrow> bool" where
  "optionNameRE = match_first_rest env_first env_rest"

definition symbolNameRE :: "string \<Rightarrow> bool" where
  "symbolNameRE = match_first_rest symbol_first symbol_rest"

definition path_segment_char :: "char \<Rightarrow> bool" where
  "path_segment_char c \<longleftrightarrow> is_alnum c \<or> c \<in> set ''_@%+=,.-''"

definition legacy_tail :: "string \<Rightarrow> bool" where
  "legacy_tail s = (case s of
     [] \<Rightarrow> True
   | c # cs \<Rightarrow> c = CHR ''/''
       \<and> list_all (\<lambda>seg. seg \<noteq> [] \<and> list_all path_segment_char seg) (splitOn (CHR ''/'') cs))"

definition legacyDynamicPathRE :: "string \<Rightarrow> bool" where
  "legacyDynamicPathRE s = (case s of
     d # rest \<Rightarrow> d = CHR 0x24 \<and>
       (case rest of
          b # inner \<Rightarrow>
            if b = CHR ''{'' then
              (let name = takeWhile env_rest inner; after = dropWhile env_rest inner
               in match_first_rest env_first env_rest name
                  \<and> (case after of e # tail \<Rightarrow> e = CHR ''}'' \<and> legacy_tail tail | [] \<Rightarrow> False))
            else match_first_rest env_first env_rest (takeWhile env_rest rest)
                 \<and> legacy_tail (dropWhile env_rest rest)
        | [] \<Rightarrow> False)
   | [] \<Rightarrow> False)"

definition unsafeStatic :: "string \<Rightarrow> bool" where
  "unsafeStatic s \<longleftrightarrow> containsSub [CHR 0x24, CHR 0x28] s
     \<or> list_ex (\<lambda>c. c \<in> set [CHR '';'', CHR 0x26, CHR ''|'', CHR 0x60, CHR 0x28, CHR 0x29,
          CHR ''<'', CHR '' '', CHR ''>'', CHR 0x0A]) s"

text \<open>The two results of the code are \<open>(dynamic, ok)\<close>.\<close>

definition legacyDynamicPath :: "string \<Rightarrow> bool \<times> bool" where
  "legacyDynamicPath v =
     (if legacyDynamicPathRE v then (True, True)
      else if CHR 0x24 \<in> set v \<or> unsafeStatic v then (False, False)
      else (False, True))"

definition list_names :: "string list" where
  "list_names = [''PATH'', ''path'', ''FPATH'', ''fpath'']"

definition legacyListReference :: "string \<Rightarrow> bool" where
  "legacyListReference v =
     (let name = (case v of c # cs \<Rightarrow> if c = CHR 0x24 then cs else v | [] \<Rightarrow> [])
      in case name of
           c # cs \<Rightarrow>
             if c = CHR ''{'' then
               (if CHR ''}'' \<notin> set name then True
                else takeWhile (\<lambda>x. x \<noteq> CHR ''}'') cs \<in> set list_names)
             else takeWhile (\<lambda>x. x \<noteq> CHR ''/'') name \<in> set list_names
         | [] \<Rightarrow> False)"

definition canonicalList :: "string \<Rightarrow> string" where
  "canonicalList name =
     (if name = ''PATH'' \<or> name = ''path'' then ''PATH''
      else if name = ''FPATH'' \<or> name = ''fpath'' then ''FPATH'' else [])"

definition base_references :: "string \<Rightarrow> string list" where
  "base_references canonical =
     (if canonical = ''PATH''
      then [CHR 0x24 # ''PATH'', CHR 0x24 # ''path'', CHR 0x24 # ''{PATH}'']
      else [CHR 0x24 # ''FPATH'', CHR 0x24 # ''fpath'', CHR 0x24 # ''{FPATH}''])"

text \<open>The loop over the parts: the index of the only base reference, or rejection.\<close>

fun baseIndex :: "string list \<Rightarrow> nat \<Rightarrow> nat option \<Rightarrow> string list \<Rightarrow> nat option option" where
  "baseIndex refs i found [] = Some found"
| "baseIndex refs i found (p # ps) =
     (if p \<in> set refs then (if found \<noteq> None then None else baseIndex refs (Suc i) (Some i) ps)
      else baseIndex refs (Suc i) found ps)"

fun additionDynamic :: "string list \<Rightarrow> bool list option" where
  "additionDynamic [] = Some []"
| "additionDynamic (a # as) =
     (let (isDynamic, ok) = legacyDynamicPath a
      in if \<not> (ok \<and> \<not> (isDynamic \<and> legacyListReference a)) then None
         else map_option ((#) isDynamic) (additionDynamic as))"

definition pathDelta :: "string \<Rightarrow> string \<Rightarrow> list_delta option" where
  "pathDelta name value =
     (if canonicalList name = [] then None
      else let canonical = canonicalList name;
               parts = splitOn (CHR '':'') value
           in case baseIndex (base_references canonical) 0 None parts of
                None \<Rightarrow> None
              | Some None \<Rightarrow> None
              | Some (Some idx) \<Rightarrow>
                  (if idx \<noteq> 0 \<and> idx \<noteq> length parts - 1 then None
                   else let adds = (if idx = 0 then tl parts else butlast parts)
                     in case additionDynamic adds of
                          None \<Rightarrow> None
                        | Some dynamic \<Rightarrow>
                            Some \<lparr>ld_name = canonical, ld_additions = adds, ld_deletions = [],
                              ld_base_index = Some (int (if idx = length parts - 1 then length adds else idx)),
                              ld_addition_dynamic = dynamic\<rparr>))"

section \<open>Composing lists\<close>

record list_token =
  lt_value :: string
  lt_dynamic :: bool
  lt_base :: bool

definition baseToken :: list_token where
  "baseToken = \<lparr>lt_value = [], lt_dynamic = False, lt_base = True\<rparr>"

definition priorTokens :: "string \<Rightarrow> (string \<times> list_token list) list \<Rightarrow> list_token list" where
  "priorTokens name prior = (case map_of prior name of None \<Rightarrow> [baseToken] | Some ts \<Rightarrow> ts)"

definition segmentTokens :: "list_token list \<Rightarrow> list_segment \<Rightarrow> list_token list" where
  "segmentTokens current s =
     (if sg_self s then current
      else if sg_dynamic s then [\<lparr>lt_value = sg_source s, lt_dynamic = True, lt_base = False\<rparr>]
      else [\<lparr>lt_value = sg_value s, lt_dynamic = False, lt_base = False\<rparr>])"

definition composeList ::
  "string \<Rightarrow> list_value option \<Rightarrow> (string \<times> list_token list) list
     \<Rightarrow> (string \<times> list_token list) option" where
  "composeList raw value prior =
     (case value of
        None \<Rightarrow> None
      | Some v \<Rightarrow>
          (if canonicalList raw = [] \<or> \<not> listValueValid v then None
           else let name = canonicalList raw
             in Some (name, concat (map (segmentTokens (priorTokens name prior)) (lv_segments v)))))"

definition legacyTokens :: "list_token list \<Rightarrow> list_delta \<Rightarrow> int \<Rightarrow> list_token list" where
  "legacyTokens current d base =
     concat (map (\<lambda>i. (if int i = base then current else [])
         @ (if i < length (ld_additions d)
            then [\<lparr>lt_value = ld_additions d ! i, lt_dynamic = ld_addition_dynamic d ! i,
                   lt_base = False\<rparr>] else []))
       [0..<Suc (length (ld_additions d))])"

definition composeLegacyList ::
  "string \<Rightarrow> string \<Rightarrow> (string \<times> list_token list) list \<Rightarrow> (string \<times> list_token list) option" where
  "composeLegacyList raw value prior =
     (case pathDelta raw value of
        None \<Rightarrow> None
      | Some d \<Rightarrow>
          (case ld_base_index d of
             None \<Rightarrow> None
           | Some base \<Rightarrow> Some (ld_name d, legacyTokens (priorTokens (ld_name d) prior) d base)))"

section \<open>Building the manifest\<close>

text \<open>The activation value of an entry and whether it is dynamic, or nothing.\<close>

definition activationValue :: "entry \<Rightarrow> (string \<times> bool) option" where
  "activationValue e =
     (case en_value_mode e of
        ValueModeLegacy \<Rightarrow> Some (en_value e, en_dynamic e)
      | ValueModeLiteral \<Rightarrow> map_option (\<lambda>v. (v, False)) (en_runtime_value e)
      | ValueModeDynamic \<Rightarrow> (if \<not> en_dynamic e then None else Some (en_value e, True))
      | _ \<Rightarrow> None)"

record build_state =
  bs_env :: "(string, scalar) ordered"
  bs_aliases :: "(string \<times> string) list"
  bs_alias_dynamic :: "(string \<times> bool) list"
  bs_functions :: "(string, string) ordered"
  bs_bodies :: "(string \<times> string) list"
  bs_options :: "(string, option_set) ordered"
  bs_lists :: "(string \<times> list_token list) list"
  bs_list_order :: "string list"

definition build_empty :: build_state where
  "build_empty = \<lparr>bs_env = ordered_empty, bs_aliases = [], bs_alias_dynamic = [],
     bs_functions = ordered_empty, bs_bodies = [], bs_options = ordered_empty, bs_lists = [],
     bs_list_order = []\<rparr>"

definition buildScalar :: "entry \<Rightarrow> build_state \<Rightarrow> build_state" where
  "buildScalar e b =
     (case activationValue e of
        None \<Rightarrow> b
      | Some (value, dynamic) \<Rightarrow>
          let name = hd (en_names e);
              exported = (case ordered_lookup name (bs_env b) of
                 None \<Rightarrow> en_exported e
               | Some previous \<Rightarrow> mv_exported previous = Some True \<or> en_exported e)
          in b\<lparr>bs_env := place name \<lparr>mv_name = name, mv_applied = value, mv_original = None,
                 mv_exported = Some exported, mv_dynamic = Some dynamic\<rparr> (bs_env b)\<rparr>)"

definition buildList :: "entry \<Rightarrow> build_state \<Rightarrow> build_state" where
  "buildList e b =
     (let raw = hd (en_names e);
          composed = composeList raw (en_list_value e) (bs_lists b);
          chosen = (if composed = None \<and> en_list_value e = None \<and> en_value_mode e = ValueModeLegacy
                    then composeLegacyList raw (en_value e) (bs_lists b) else composed)
      in case chosen of
           None \<Rightarrow> b
         | Some (name, next) \<Rightarrow>
             b\<lparr>bs_lists := assoc_put name next (bs_lists b),
               bs_list_order := (if map_of (bs_lists b) name \<noteq> None
                  then remove1 name (bs_list_order b) else bs_list_order b) @ [name]\<rparr>)"

definition buildAlias :: "entry \<Rightarrow> build_state \<Rightarrow> build_state" where
  "buildAlias e b =
     (if length (en_names e) = 1 \<and> symbolNameRE (hd (en_names e)) then
        case activationValue e of
          None \<Rightarrow> b
        | Some (value, dynamic) \<Rightarrow>
            b\<lparr>bs_aliases := assoc_put (hd (en_names e)) value (bs_aliases b),
              bs_alias_dynamic := assoc_put (hd (en_names e)) dynamic (bs_alias_dynamic b)\<rparr>
      else b)"

definition buildFunction :: "entry \<Rightarrow> build_state \<Rightarrow> build_state" where
  "buildFunction e b =
     (case en_function_body e of
        None \<Rightarrow> b
      | Some body \<Rightarrow>
          (if en_names e = [] \<or> \<not> list_all symbolNameRE (en_names e) then b
           else fold (\<lambda>n b. b\<lparr>bs_functions := place n n (bs_functions b),
                    bs_bodies := assoc_put n body (bs_bodies b)\<rparr>) (en_names e) b))"

definition buildOptions :: "entry \<Rightarrow> build_state \<Rightarrow> build_state" where
  "buildOptions e b =
     (if en_category e \<noteq> CatOptions
         \<or> (en_cmd_name e \<noteq> ''setopt'' \<and> en_cmd_name e \<noteq> ''unsetopt'') then b
      else fold (\<lambda>n b. if optionNameRE n
               then b\<lparr>bs_options := place n \<lparr>os_name = n, os_enabled = (en_cmd_name e = ''setopt''),
                        os_was_on = False\<rparr> (bs_options b)\<rparr>
               else b) (en_names e) b)"

definition buildEntry :: "entry \<Rightarrow> build_state \<Rightarrow> build_state" where
  "buildEntry e b =
     (if \<not> EffectiveManaged e \<or> \<not> Representable e then b
      else case en_kind e of
        KindAssignment \<Rightarrow>
          (if length (en_names e) \<noteq> 1 then b
           else if en_category e = CatEnvironment \<or> en_category e = CatSecrets then buildScalar e b
           else if en_category e = CatPath then buildList e b
           else b)
      | KindAlias \<Rightarrow> buildAlias e b
      | KindFuncDecl \<Rightarrow> buildFunction e b
      | KindCommand \<Rightarrow> buildOptions e b
      | _ \<Rightarrow> b)"

text \<open>The final loop over a list's tokens: base position and additions.\<close>

fun tokenLoop :: "list_token list \<Rightarrow> nat \<Rightarrow> string list \<Rightarrow> bool list \<Rightarrow> nat \<times> string list \<times> bool list" where
  "tokenLoop [] base adds dynamic = (base, adds, dynamic)"
| "tokenLoop (t # ts) base adds dynamic =
     (if lt_base t then tokenLoop ts (length adds) adds dynamic
      else tokenLoop ts base (adds @ [lt_value t]) (dynamic @ [lt_dynamic t]))"

definition listDelta :: "build_state \<Rightarrow> string \<Rightarrow> list_delta" where
  "listDelta b name =
     (let tokens = (case map_of (bs_lists b) name of None \<Rightarrow> [] | Some ts \<Rightarrow> ts);
          (base, adds, dynamic) = tokenLoop tokens 0 [] []
      in \<lparr>ld_name = name, ld_additions = adds, ld_deletions = [],
          ld_base_index = Some (int base), ld_addition_dynamic = dynamic\<rparr>)"

definition Build :: "profile \<Rightarrow> manifest" where
  "Build p =
     (let b = fold buildEntry p build_empty
      in \<lparr>mf_profile = [], mf_schema = SchemaV1, mf_env = snd (bs_env b),
          mf_lists = map (listDelta b) (bs_list_order b),
          mf_aliases = \<lparr>al_added = bs_aliases b, al_shadowed = [], al_dynamic = bs_alias_dynamic b\<rparr>,
          mf_functions = \<lparr>fn_added = snd (bs_functions b), fn_shadowed = [], fn_bodies = bs_bodies b\<rparr>,
          mf_options = snd (bs_options b)\<rparr>)"

section \<open>Live states of a profile\<close>

definition liveEntryIdentities :: "entry \<Rightarrow> identity list" where
  "liveEntryIdentities e =
     (if \<not> EffectiveManaged e \<or> \<not> Representable e \<or> en_secret e \<noteq> None then []
      else case en_kind e of
        KindAssignment \<Rightarrow>
          (case en_names e of
             [n] \<Rightarrow>
               (if en_category e = CatPath then
                  (if canonicalList n = ''PATH'' then [Identity LivePath ''PATH'']
                   else if canonicalList n = ''FPATH'' then [Identity LiveFPath ''FPATH'']
                   else [])
                else if en_category e = CatEnvironment \<or> en_category e = CatSecrets
                then [Identity LiveEnv n] else [])
           | _ \<Rightarrow> [])
      | KindAlias \<Rightarrow> (case en_names e of [n] \<Rightarrow> [Identity LiveAlias n] | _ \<Rightarrow> [])
      | KindFuncDecl \<Rightarrow> map (Identity LiveFunction) (en_names e)
      | KindCommand \<Rightarrow>
          (if en_category e = CatOptions \<and> (en_cmd_name e = ''setopt'' \<or> en_cmd_name e = ''unsetopt'')
           then map (Identity LiveOption) (en_names e) else [])
      | _ \<Rightarrow> [])"

definition listIdentity :: "list_delta \<Rightarrow> identity" where
  "listIdentity l = Identity (if ld_name l = ''FPATH'' then LiveFPath else LivePath) (ld_name l)"

definition manifestValues :: "manifest \<Rightarrow> (identity \<times> live_value) list" where
  "manifestValues m =
     (let env = fold (\<lambda>s. assoc_put (Identity LiveEnv (mv_name s)) (ScalarLiveValue (mv_applied s)))
            (mf_env m) [];
          aliases = fold (\<lambda>(name, body). assoc_put (Identity LiveAlias name) (ScalarLiveValue body))
            (al_added (mf_aliases m)) env;
          functions = fold (\<lambda>name vs. case map_of (fn_bodies (mf_functions m)) name of
                None \<Rightarrow> vs
              | Some body \<Rightarrow> assoc_put (Identity LiveFunction name) (ScalarLiveValue body) vs)
            (fn_added (mf_functions m)) aliases;
          lists = fold (\<lambda>l. assoc_put (listIdentity l) (ListLiveValue (ld_additions l)))
            (mf_lists m) functions
      in fold (\<lambda>x. assoc_put (Identity LiveOption (os_name x)) (OptionLiveValue (os_enabled x)))
           (mf_options m) lists)"

definition sourceOrder :: "(identity \<times> live_value) list \<Rightarrow> profile \<Rightarrow> identity list" where
  "sourceOrder values source =
     snd (fold (\<lambda>e t. fold (\<lambda>i t. if map_of values i = None then t else place i i t)
                 (liveEntryIdentities e) t) source ordered_empty)"

fun appendStates ::
  "(identity \<times> live_value) list \<Rightarrow> identity set \<Rightarrow> identity list \<Rightarrow> live_state list" where
  "appendStates values seen [] = []"
| "appendStates values seen (i # is) =
     (case map_of values i of
        None \<Rightarrow> appendStates values seen is
      | Some v \<Rightarrow>
          (if i \<in> seen then appendStates values seen is
           else \<lparr>ls_identity = i, ls_value = CloneLiveValue v\<rparr> # appendStates values (insert i seen) is))"

definition liveStatesFromManifest :: "profile \<Rightarrow> manifest \<Rightarrow> live_state list" where
  "liveStatesFromManifest source m =
     (let values = manifestValues m
      in appendStates values {}
           (sourceOrder values source
            @ map (\<lambda>s. Identity LiveEnv (mv_name s)) (mf_env m)
            @ map listIdentity (mf_lists m)
            @ map (Identity LiveFunction) (fn_added (mf_functions m))
            @ map (\<lambda>x. Identity LiveOption (os_name x)) (mf_options m)))"

section \<open>The effective projection\<close>

fun effectiveLoop ::
  "(identity, live_state) slot_table \<Rightarrow> identity list \<Rightarrow> overlay_entry list
     \<Rightarrow> (identity, live_state) slot_table \<times> identity list" where
  "effectiveLoop t tombstones [] = (t, tombstones)"
| "effectiveLoop t tombstones (e # es) =
     (if ov_tombstone e
      then effectiveLoop (slot_drop (ov_identity e) t) (tombstones @ [ov_identity e]) es
      else effectiveLoop (slot_put (ov_identity e)
             \<lparr>ls_identity = ov_identity e, ls_value = CloneLiveValue (ov_value e)\<rparr> t) tombstones es)"

definition effectiveProjection :: "live_state list \<Rightarrow> overlay_entry list \<Rightarrow> live_projection" where
  "effectiveProjection base overlay =
     (let (t, tombstones) = effectiveLoop (overlayBase base) [] overlay
      in \<lparr>pr_schema = WorktreeSchemaV1, pr_states = slot_active t, pr_tombstones = tombstones\<rparr>)"

definition BuildEffective :: "profile \<Rightarrow> overlay_entry list \<Rightarrow> committed_worktree result" where
  "BuildEffective base overlay =
     bindR (NormalizeLiveStates (liveStatesFromManifest base (Build base))) (\<lambda>states.
     bindR (NormalizeOverlay overlay) (\<lambda>normalized.
       Inr (NewCommittedWorktree base (effectiveProjection states normalized))))"

end
