(* ===== verification/WorkflowService.thy ===== *)
theory WorkflowService
  imports ShellService Builder
begin

text \<open>
  The repository-facing half of \<^verbatim>\<open>core/worktree/service.go\<close>: commit,
  branches, checkout, hard reset, the automatic-apply default, status and diff, and the
  first materialization. The \<^verbatim>\<open>Repository\<close> interface is a record of
  functions over an abstract repository state, a parameter.
\<close>

section \<open>The repository interface\<close>

record 'r repository =
  rp_branches :: "'r \<Rightarrow> string list result \<times> 'r"
  rp_resolve :: "string \<Rightarrow> 'r \<Rightarrow> string result \<times> 'r"
  rp_read :: "string \<Rightarrow> 'r \<Rightarrow> committed_worktree result \<times> 'r"
  rp_create_from :: "string \<Rightarrow> string \<Rightarrow> 'r \<Rightarrow> unit result \<times> 'r"
  rp_commit :: "string \<Rightarrow> string \<Rightarrow> committed_worktree \<Rightarrow> string \<Rightarrow> 'r
    \<Rightarrow> (commit_result \<times> go_error option) \<times> 'r"

text \<open>A repository call whose error is returned as it is.\<close>

definition callT :: "('r \<Rightarrow> 'a result \<times> 'r) \<Rightarrow> ('r, 'a) tx" where
  "callT f = bindT (repoT f) liftT"

lemma callT_run [tx_simps]:
  "callT f e st = (Inr (y, st'), e') \<longleftrightarrow>
     fst (f (sv_repo e)) = Inr y \<and> st' = st \<and> e' = e\<lparr>sv_repo := snd (f (sv_repo e))\<rparr>"
  by (auto simp: callT_def tx_simps)

section \<open>Changes against the committed projection\<close>

definition workflowChanges :: "wt_state \<Rightarrow> live_change list result" where
  "workflowChanges st =
     DiffSnapshot (snap (pr_states (cw_projection (st_committed st)))) (snap (st_shared st))"

definition overlayOf :: "live_change \<Rightarrow> overlay_entry" where
  "overlayOf c =
     (if ch_kind c = LiveRemove
      then \<lparr>ov_identity = ch_identity c,
            ov_value = \<lparr>lv_present = False, lv_scalar = None, lv_list = None, lv_option = None\<rparr>,
            ov_tombstone = True\<rparr>
      else \<lparr>ov_identity = ch_identity c, ov_value = CloneLiveValue (ch_value c), ov_tombstone = False\<rparr>)"

definition workflowOverlay :: "live_change list \<Rightarrow> overlay_entry list" where
  "workflowOverlay = map overlayOf"

definition seedOrRecover :: "('r, unit) tx" where
  "seedOrRecover = orErrT seedRegistryFromState ErrRecoveryRequired"

text \<open>
  A split outcome: the branch points at an exact object whose projection is the shared
  generation. Any other object is refused.
\<close>

definition acceptsObject :: "wt_state \<Rightarrow> committed_worktree \<Rightarrow> bool" where
  "acceptsObject st exact \<longleftrightarrow>
     validateCommitted exact = OK \<and> equalLiveStates (pr_states (cw_projection exact)) (st_shared st)"

definition adoptObject :: "string \<Rightarrow> committed_worktree \<Rightarrow> wt_state \<Rightarrow> wt_state" where
  "adoptObject oid exact st =
     st\<lparr>st_base_oid := oid,
        st_committed := NewCommittedWorktree (cw_source exact) (cw_projection exact)\<rparr>"

definition repairPublishedState :: "'r repository \<Rightarrow> ('r, unit) tx" where
  "repairPublishedState R =
     bindT getT (\<lambda>st.
     bindT (callT (rp_resolve R (st_branch st))) (\<lambda>observed.
       if observed = st_base_oid st then returnT ()
       else if \<not> stateOIDRE observed then failT ErrRecoveryRequired
       else bindT (orErrT (callT (rp_read R observed)) ErrRecoveryRequired) (\<lambda>exact.
         if \<not> acceptsObject st exact then failT ErrRecoveryRequired
         else bindT (modifyT (adoptObject observed exact)) (\<lambda>_. seedOrRecover))))"

definition requireMaterialized :: "('r, unit) tx" where
  "requireMaterialized =
     bindT getT (\<lambda>st. if \<not> st_materialized st then failT ErrWorktreeUnmaterialized else returnT ())"

section \<open>Replacing the generation\<close>

text \<open>\<^verbatim>\<open>fmt.Sprintf("%d", n)\<close> of an unsigned number.\<close>

fun decimal :: "nat \<Rightarrow> string" where
  "decimal n = (if n < 10 then [char_of (48 + n)] else decimal (n div 10) @ [char_of (48 + n mod 10)])"

declare decimal.simps [simp del]

definition workflowOperation :: "string \<Rightarrow> u64 \<Rightarrow> string" where
  "workflowOperation operation next = ''workflow-'' @ operation @ '':'' @ decimal (unat next)"

definition appendGeneration :: "string \<Rightarrow> live_change list \<Rightarrow> wt_state \<Rightarrow> wt_state result" where
  "appendGeneration operation changes st =
     (if changes = [] then Inr st
      else bindR (NextRevision (st_head_revision st)) (\<lambda>next.
        CompactStateHistory (st\<lparr>st_head_revision := next,
          st_events := st_events st @ [\<lparr>se_revision = next,
            se_operation_id = workflowOperation operation next, se_shell_id = [],
            se_changes = CloneLiveChanges changes\<rparr>]\<rparr>)))"

definition rebasedShell :: "wt_state \<Rightarrow> shell_state \<Rightarrow> shell_state" where
  "rebasedShell st sh =
     sh\<lparr>sh_behind := (sh_applied_revision sh < st_head_revision st
          \<or> \<not> equalLiveStates (sh_applied_baseline sh) (st_shared st) \<or> sh_conflict sh \<noteq> None),
        sh_last_active := st_head_revision st\<rparr>"

definition rebaseShells :: "wt_state \<Rightarrow> wt_state" where
  "rebaseShells st = st\<lparr>st_shells := map (\<lambda>(sid, sh). (sid, rebasedShell st sh)) (st_shells st)\<rparr>"

definition replaceWorkflowGeneration ::
  "string \<Rightarrow> string \<Rightarrow> committed_worktree \<Rightarrow> string \<Rightarrow> ('r, unit) tx" where
  "replaceWorkflowGeneration branch oid document operation =
     bindT getT (\<lambda>st.
     let target = CloneLiveStates (pr_states (cw_projection document)) in
     bindT (liftT (DiffSnapshot (snap (st_shared st)) (snap target))) (\<lambda>changes.
     bindT (modifyT (\<lambda>st. st\<lparr>st_branch := branch, st_base_oid := oid,
         st_committed := NewCommittedWorktree (cw_source document) (cw_projection document),
         st_shared := target\<rparr>)) (\<lambda>_.
     bindT seedOrRecover (\<lambda>_.
     bindT (stateT (\<lambda>st. bindR (appendGeneration operation changes st) (\<lambda>st'. Inr ((), st')))) (\<lambda>_.
     modifyT rebaseShells)))))"

section \<open>Operations\<close>

definition recoverT :: "commit_result \<Rightarrow> ('r, unit) tx" where
  "recoverT res =
     (\<lambda>e st. (Inr ((), st), e\<lparr>sv_commit := (res\<lparr>cm_recovery := True\<rparr>, snd (sv_commit e))\<rparr>))"

definition adoptCommit :: "'r repository \<Rightarrow> commit_result \<Rightarrow> ('r, unit) tx" where
  "adoptCommit R res =
     (let recover = recoverT res
      in if \<not> stateOIDRE (cm_oid res) then recover
         else bindT (repoT (rp_read R (cm_oid res))) (\<lambda>read.
           bindT getT (\<lambda>st.
           case read of
             Inl _ \<Rightarrow> recover
           | Inr exact \<Rightarrow>
               (if \<not> acceptsObject st exact then recover
                else (\<lambda>e s. case seedRegistryFromState e (adoptObject (cm_oid res) exact s) of
                        (Inl _, e') \<Rightarrow> recover e' s
                      | (Inr y, e') \<Rightarrow> (Inr y, e'))))))"

definition commitTx :: "'r repository \<Rightarrow> string \<Rightarrow> ('r, unit) tx" where
  "commitTx R message =
     bindT requireMaterialized (\<lambda>_.
     bindT getT (\<lambda>st.
     bindT (liftT (workflowChanges st)) (\<lambda>changes.
     if changes = [] then returnT ()
     else
       bindT (liftT (BuildEffective (cw_source (st_committed st)) (workflowOverlay changes))) (\<lambda>document.
       if \<not> equalLiveStates (pr_states (cw_projection document)) (st_shared st)
       then failT ErrRecoveryRequired
       else
         bindT (repoT (rp_commit R (st_branch st) (st_base_oid st) document message)) (\<lambda>(res, err).
         bindT (setCommitT (res, err)) (\<lambda>_.
         if \<not> cm_committed res then
           (case err of Some e \<Rightarrow> failT e | None \<Rightarrow> returnT ())
         else bindT (adoptCommit R res) (\<lambda>_. returnT ())))))))"

text \<open>The result and the error of a commit, from the captured variables and the transaction.\<close>

definition commitOutcome :: "unit result \<Rightarrow> commit_result \<times> go_error option \<Rightarrow> commit_result \<times> go_error option" where
  "commitOutcome outcome captured =
     (let (res, err) = captured
      in case outcome of
           Inl e \<Rightarrow>
             (if cm_committed res then (res\<lparr>cm_recovery := True\<rparr>, Some ErrRecoveryRequired) else (res, Some e))
         | Inr _ \<Rightarrow>
             (if cm_committed res \<and> cm_recovery res then (res, Some ErrRecoveryRequired) else (res, err)))"

definition Commit ::
  "'r repository \<Rightarrow> (state_dto \<Rightarrow> bool) \<Rightarrow> io_run \<Rightarrow> string \<Rightarrow> 'r service
     \<Rightarrow> (commit_result \<times> go_error option) \<times> 'r service" where
  "Commit R too_large io message s =
     (if message = [] \<or> has_nul message
      then ((noCommit, Some (Errorf ''worktree commit message is invalid'')), s)
      else
        let s0 = s\<lparr>sc_env := (sc_env s)\<lparr>sv_commit := (noCommit, None)\<rparr>\<rparr>;
            ((_, outcome), s') = WithTransaction too_large io (commitTx R message) s0
        in (commitOutcome outcome (sv_commit (sc_env s')), s'))"

definition branchesTx :: "'r repository \<Rightarrow> ('r, string list) tx" where
  "branchesTx R =
     bindT requireMaterialized (\<lambda>_. bindT (repairPublishedState R) (\<lambda>_. callT (rp_branches R)))"

definition Branches ::
  "'r repository \<Rightarrow> (state_dto \<Rightarrow> bool) \<Rightarrow> io_run \<Rightarrow> 'r service \<Rightarrow> string list result \<times> 'r service" where
  "Branches R too_large io s =
     (let (r, s') = runOp (WithTransaction too_large io (branchesTx R) s)
      in (bindR r (\<lambda>bs. Inr (sort bs)), s'))"

definition branchTx :: "'r repository \<Rightarrow> string \<Rightarrow> ('r, unit) tx" where
  "branchTx R branch =
     bindT requireMaterialized (\<lambda>_. bindT (repairPublishedState R) (\<lambda>_.
     bindT getT (\<lambda>st. callT (rp_create_from R branch (st_base_oid st)))))"

definition Branch ::
  "'r repository \<Rightarrow> (state_dto \<Rightarrow> bool) \<Rightarrow> io_run \<Rightarrow> string \<Rightarrow> 'r service \<Rightarrow> unit result \<times> 'r service" where
  "Branch R too_large io branch s =
     (if \<not> validStateBranch branch then (Inl (Errorf ''worktree branch is invalid''), s)
      else runOp (WithTransaction too_large io (branchTx R branch) s))"

definition shell_busy :: "shell_state \<Rightarrow> bool" where
  "shell_busy sh \<longleftrightarrow>
     sh_conflict sh \<noteq> None \<or> sh_unpublished sh \<noteq> [] \<or> pd_kind (sh_pending sh) \<noteq> PendingNone"

definition checkoutTx :: "'r repository \<Rightarrow> string \<Rightarrow> bool \<Rightarrow> ('r, unit) tx" where
  "checkoutTx R branch create =
     bindT requireMaterialized (\<lambda>_.
     bindT getT (\<lambda>st.
     bindT (liftT (workflowChanges st)) (\<lambda>changes.
     if changes \<noteq> [] then failT ErrWorktreeDirty
     else if list_ex (\<lambda>(sid, sh). shell_busy sh) (st_shells st) then failT ErrConflictRequiresResolution
     else
       bindT (repairPublishedState R) (\<lambda>_.
       bindT getT (\<lambda>st.
       bindT (if create then callT (rp_create_from R branch (st_base_oid st)) else returnT ()) (\<lambda>_.
       bindT (callT (rp_resolve R branch)) (\<lambda>targetOID.
       if \<not> stateOIDRE targetOID then failT ErrRecoveryRequired
       else
         bindT (orErrT (callT (rp_read R targetOID)) ErrRecoveryRequired) (\<lambda>target.
         if validateCommitted target \<noteq> OK then failT ErrRecoveryRequired
         else replaceWorkflowGeneration branch targetOID target ''checkout'')))))))) "

definition Checkout ::
  "'r repository \<Rightarrow> (state_dto \<Rightarrow> bool) \<Rightarrow> io_run \<Rightarrow> string \<Rightarrow> bool \<Rightarrow> 'r service
     \<Rightarrow> unit result \<times> 'r service" where
  "Checkout R too_large io branch create s =
     (if \<not> validStateBranch branch then (Inl (Errorf ''worktree branch is invalid''), s)
      else runOp (WithTransaction too_large io (checkoutTx R branch create) s))"

definition resetTx :: "'r repository \<Rightarrow> ('r, unit) tx" where
  "resetTx R =
     bindT requireMaterialized (\<lambda>_.
     bindT getT (\<lambda>st.
     bindT (orErrT (callT (rp_read R (st_base_oid st))) ErrRecoveryRequired) (\<lambda>target.
     if validateCommitted target \<noteq> OK then failT ErrRecoveryRequired
     else replaceWorkflowGeneration (st_branch st) (st_base_oid st) target ''reset'')))"

definition ResetHard ::
  "'r repository \<Rightarrow> (state_dto \<Rightarrow> bool) \<Rightarrow> io_run \<Rightarrow> 'r service \<Rightarrow> unit result \<times> 'r service" where
  "ResetHard R too_large io s = runOp (WithTransaction too_large io (resetTx R) s)"

definition SetAutoApplyDefault ::
  "(state_dto \<Rightarrow> bool) \<Rightarrow> io_run \<Rightarrow> bool \<Rightarrow> 'r service \<Rightarrow> unit result \<times> 'r service" where
  "SetAutoApplyDefault too_large io enabled s =
     runOp (WithTransaction too_large io
       (bindT requireMaterialized (\<lambda>_. modifyT (\<lambda>st. st\<lparr>st_auto_apply_default := enabled\<rparr>))) s)"

section \<open>Materialization\<close>

definition materializedState :: "string \<Rightarrow> string \<Rightarrow> committed_worktree \<Rightarrow> live_state list \<Rightarrow> live_change list \<Rightarrow> wt_state" where
  "materializedState branch oid canonical shared changes =
     \<lparr>st_schema_version = StateSchemaVersion, st_materialized = True, st_branch = branch,
      st_base_oid = oid, st_committed = canonical, st_head_revision = 1,
      st_auto_apply_default = True, st_admitted = [], st_shared = shared,
      st_compaction_floor = 0, st_compaction_baseline = [],
      st_events = [\<lparr>se_revision = 1, se_operation_id = ''materialize:1'', se_shell_id = [],
        se_changes = changes\<rparr>],
      st_shells = [], st_receipts = [], st_admitted_missing = False\<rparr>"

definition materializeCandidate :: "string \<Rightarrow> string \<Rightarrow> committed_worktree \<Rightarrow> wt_state result" where
  "materializeCandidate branch oid canonical =
     bindR (orErr (DiffSnapshot (snap []) (snap (pr_states (cw_projection canonical))))
         ErrRecoveryRequired) (\<lambda>changes.
     bindR (orErr (applyStateChanges [] changes) ErrRecoveryRequired) (\<lambda>shared.
     let candidate = materializedState branch oid canonical shared changes in
     bindR (orErr (ValidateState candidate) ErrRecoveryRequired) (\<lambda>_. Inr candidate)))"

definition materializeTx :: "wt_state \<Rightarrow> ('r, unit) tx" where
  "materializeTx candidate =
     bindT getT (\<lambda>st.
       if st_materialized st then
         (if st_branch st \<noteq> st_branch candidate \<or> st_base_oid st \<noteq> st_base_oid candidate
             \<or> st_committed st \<noteq> st_committed candidate
          then failT ErrRecoveryRequired else seedOrRecover)
       else
         bindT (liftT (case cloneState candidate of
             None \<Rightarrow> Inl (Errorf ''panic'') | Some c \<Rightarrow> Inr c)) (\<lambda>c.
         bindT (modifyT (\<lambda>_. c)) (\<lambda>_. seedOrRecover)))"

definition Materialize ::
  "(state_dto \<Rightarrow> bool) \<Rightarrow> io_run \<Rightarrow> string \<Rightarrow> string \<Rightarrow> committed_worktree \<Rightarrow> 'r service
     \<Rightarrow> unit result \<times> 'r service" where
  "Materialize too_large io branch oid committed s =
     (let canonical = NewCommittedWorktree (cw_source committed) (cw_projection committed)
      in case materializeCandidate branch oid canonical of
           Inl e \<Rightarrow> (Inl e, s)
         | Inr candidate \<Rightarrow> runOp (WithTransaction too_large io (materializeTx candidate) s))"

section \<open>Status and diff\<close>

record shell_status =
  ss_attached :: bool
  ss_applied_revision :: u64
  ss_behind :: bool
  ss_auto_apply :: bool
  ss_conflict_count :: nat

record worktree_status =
  ws_branch :: string
  ws_base_oid :: string
  ws_revision :: u64
  ws_dirty_count :: nat
  ws_conflict_count :: nat
  ws_shell :: "shell_status option"

datatype auto_apply_source = AutoApplyDefaultSource | AutoApplyShellSource

record workflow_status =
  wf_worktree :: worktree_status
  wf_persisted_default :: bool
  wf_effective :: bool
  wf_source :: auto_apply_source

definition shellStatus :: "hashing \<Rightarrow> wt_state \<Rightarrow> shell_state \<Rightarrow> shell_status result" where
  "shellStatus H st sh =
     bindR (FingerprintSnapshot H (snap (sh_applied_baseline sh))) (\<lambda>applied.
     bindR (FingerprintSnapshot H (snap (st_shared st))) (\<lambda>shared.
       Inr \<lparr>ss_attached = True, ss_applied_revision = sh_applied_revision sh,
            ss_behind = (sh_behind sh \<or> sh_conflict sh \<noteq> None \<or> sh_recovered sh \<noteq> RecoveredNone
              \<or> sh_applied_revision sh < st_head_revision st \<or> applied \<noteq> shared),
            ss_auto_apply = (case sh_auto_apply sh of None \<Rightarrow> st_auto_apply_default st | Some b \<Rightarrow> b),
            ss_conflict_count = (if sh_conflict sh \<noteq> None then 1 else 0)\<rparr>))"

definition workflowStatusFromState :: "hashing \<Rightarrow> wt_state \<Rightarrow> string \<Rightarrow> worktree_status result" where
  "workflowStatusFromState H st shellID =
     (if \<not> st_materialized st then Inl ErrWorktreeUnmaterialized
      else bindR (workflowChanges st) (\<lambda>changes.
        let status = \<lparr>ws_branch = st_branch st, ws_base_oid = st_base_oid st,
              ws_revision = st_head_revision st, ws_dirty_count = length changes,
              ws_conflict_count = length (filter (\<lambda>(sid, sh). sh_conflict sh \<noteq> None) (st_shells st)),
              ws_shell = None\<rparr>
        in case map_of (st_shells st) shellID of
             None \<Rightarrow> Inr status
           | Some sh \<Rightarrow> bindR (shellStatus H st sh) (\<lambda>s. Inr (status\<lparr>ws_shell := Some s\<rparr>))))"

definition ReadState :: "(state_dto \<Rightarrow> bool) \<Rightarrow> io_run \<Rightarrow> 'r service \<Rightarrow> wt_state result \<times> 'r service" where
  "ReadState too_large io s =
     runOp (WithTransaction too_large io
       (bindT getT (\<lambda>st. liftT (case cloneState st of None \<Rightarrow> Inl (Errorf ''panic'') | Some c \<Rightarrow> Inr c))) s)"

definition repairPublishedRef ::
  "'r repository \<Rightarrow> (state_dto \<Rightarrow> bool) \<Rightarrow> io_run \<Rightarrow> 'r service \<Rightarrow> unit result \<times> 'r service" where
  "repairPublishedRef R too_large io s =
     runOp (WithTransaction too_large io
       (bindT requireMaterialized (\<lambda>_. repairPublishedState R)) s)"

text \<open>The optional repair, then the read; a service without a repository only reads.\<close>

definition repairThenRead ::
  "'r repository option \<Rightarrow> (state_dto \<Rightarrow> bool) \<Rightarrow> io_run \<Rightarrow> io_run \<Rightarrow> 'r service
     \<Rightarrow> wt_state result \<times> 'r service" where
  "repairThenRead repo too_large io1 io2 s =
     (let (repaired, s1) = (case repo of
            None \<Rightarrow> (OK, s) | Some R \<Rightarrow> repairPublishedRef R too_large io1 s)
      in case repaired of
           Inl e \<Rightarrow> (Inl e, s1)
         | Inr _ \<Rightarrow> ReadState too_large io2 s1)"

definition WorkflowStatus ::
  "hashing \<Rightarrow> 'r repository option \<Rightarrow> (state_dto \<Rightarrow> bool) \<Rightarrow> io_run \<Rightarrow> io_run \<Rightarrow> string \<Rightarrow> 'r service
     \<Rightarrow> workflow_status result \<times> 'r service" where
  "WorkflowStatus H repo too_large io1 io2 shellID s =
     (if shellID \<noteq> [] \<and> \<not> validStateToken shellID
      then (Inl (Errorf ''shell status ID is invalid''), s)
      else
        let (r, s') = repairThenRead repo too_large io1 io2 s
        in (bindR r (\<lambda>st. bindR (workflowStatusFromState H st shellID) (\<lambda>status.
              let override = Option.bind (map_of (st_shells st) shellID) sh_auto_apply
              in Inr \<lparr>wf_worktree = status, wf_persisted_default = st_auto_apply_default st,
                   wf_effective = (case override of None \<Rightarrow> st_auto_apply_default st | Some b \<Rightarrow> b),
                   wf_source = (if override = None then AutoApplyDefaultSource
                     else AutoApplyShellSource)\<rparr>)), s'))"

definition serviceStatus ::
  "hashing \<Rightarrow> 'r repository option \<Rightarrow> (state_dto \<Rightarrow> bool) \<Rightarrow> io_run \<Rightarrow> io_run \<Rightarrow> string \<Rightarrow> 'r service
     \<Rightarrow> worktree_status result \<times> 'r service" where
  "serviceStatus H repo too_large io1 io2 shellID s =
     (let (r, s') = WorkflowStatus H repo too_large io1 io2 shellID s
      in (bindR r (\<lambda>w. Inr (wf_worktree w)), s'))"

definition serviceDiff ::
  "'r repository option \<Rightarrow> (state_dto \<Rightarrow> bool) \<Rightarrow> io_run \<Rightarrow> io_run \<Rightarrow> 'r service
     \<Rightarrow> categorized_diff result \<times> 'r service" where
  "serviceDiff repo too_large io1 io2 s =
     (let (r, s') = repairThenRead repo too_large io1 io2 s
      in (bindR r (\<lambda>st.
            if \<not> st_materialized st then Inl ErrWorktreeUnmaterialized
            else bindR (workflowChanges st) CategorizeDiff), s'))"

end
