(* ===== verification/ServiceInv.thy ===== *)
theory ServiceInv
  imports RegistryRun WorkflowService
begin

text \<open>
  The invariant of the canonical state and its preservation by every operation of
  \<^verbatim>\<open>core/worktree/service.go\<close>. The invariant is stronger than
  \<^const>\<open>ValidateState\<close>: every shell has an attachment revision, and every
  generation of the retained history fits the record bound, which compaction needs.
\<close>

section \<open>The invariant\<close>

definition frame_inv :: "wt_state \<Rightarrow> bool" where
  "frame_inv st \<longleftrightarrow> st_materialized st \<and> st_schema_version st = StateSchemaVersion
     \<and> validStateBranch (st_branch st) \<and> stateOIDRE (st_base_oid st)
     \<and> validateCommitted (st_committed st) = OK
     \<and> validateAdmittedIdentities (st_admitted st) = OK"

definition hist_inv :: "wt_state \<Rightarrow> bool" where
  "hist_inv st \<longleftrightarrow> st_head_revision st \<noteq> 0 \<and> st_head_revision st \<noteq> MaxUint64
     \<and> st_compaction_floor st \<le> st_head_revision st
     \<and> history_state_ok st
     \<and> history_records (st_compaction_baseline st) (st_events st)"

definition shell_inv :: "u64 \<Rightarrow> string \<Rightarrow> shell_state \<Rightarrow> bool" where
  "shell_inv head sid sh \<longleftrightarrow>
     validateShellState sid sh head = OK \<and> sh_attached_revision sh \<noteq> 0 \<and> shell_bytes sh"

definition shells_inv :: "u64 \<Rightarrow> (string \<times> shell_state) list \<Rightarrow> bool" where
  "shells_inv head shells \<longleftrightarrow> length shells \<le> MaxShellRecords \<and> distinct (map fst shells)
     \<and> (\<forall>(sid, sh) \<in> set shells. shell_inv head sid sh)"

definition receipts_inv :: "wt_state \<Rightarrow> bool" where
  "receipts_inv st \<longleftrightarrow> receipts_wf (fst ` set (st_shells st)) (st_receipts st)
     \<and> (\<forall>r \<in> set (st_receipts st). length (or_fingerprint r) = 32)"

definition wt_inv :: "wt_state \<Rightarrow> bool" where
  "wt_inv st \<longleftrightarrow> frame_inv st \<and> hist_inv st
     \<and> shells_inv (st_head_revision st) (st_shells st) \<and> receipts_inv st"

text \<open>The two bounds an operation can run into.\<close>

definition in_limits :: "wt_state \<Rightarrow> bool" where
  "in_limits st \<longleftrightarrow> st_head_revision st \<noteq> MaxUint64 \<and> within_bounds (st_shared st)"

lemma wt_inv_valid: "wt_inv st \<Longrightarrow> ValidateState st = OK"
  by (auto simp: wt_inv_def frame_inv_def hist_inv_def shells_inv_def shell_inv_def receipts_inv_def
      receipts_ok_iff ValidateState_materialized materialized_ok_def shells_ok_def)

lemma wt_inv_bytes: "wt_inv st \<Longrightarrow> state_bytes_ok st"
  by (auto simp: wt_inv_def shells_inv_def shell_inv_def receipts_inv_def state_bytes_ok_def)

lemma wt_inv_limits: "wt_inv st \<Longrightarrow> in_limits st"
  by (auto simp: wt_inv_def hist_inv_def in_limits_def history_state_ok_iff)

lemma valid_in_limits: "st_materialized st \<Longrightarrow> ValidateState st = OK \<Longrightarrow> in_limits st"
  by (auto simp: ValidateState_materialized materialized_ok_def history_state_ok_iff in_limits_def)

text \<open>A service hashing is SHA-256: 32 bytes, never all zero.\<close>

definition good_hash :: "hashing \<Rightarrow> bool" where
  "good_hash H \<longleftrightarrow> (\<forall>x. length (hx_sha256 H x) = 32 \<and> hx_sha256 H x \<noteq> zero32)"

section \<open>Frames\<close>

lemma frame_inv_cong:
  "frame_inv st \<Longrightarrow> st_materialized st' = st_materialized st \<Longrightarrow>
   st_schema_version st' = st_schema_version st \<Longrightarrow> st_branch st' = st_branch st \<Longrightarrow>
   st_base_oid st' = st_base_oid st \<Longrightarrow> st_committed st' = st_committed st \<Longrightarrow>
   validateAdmittedIdentities (st_admitted st') = OK \<Longrightarrow> frame_inv st'"
  by (simp add: frame_inv_def)

lemma hist_inv_cong:
  "hist_inv st \<Longrightarrow> st_head_revision st' = st_head_revision st \<Longrightarrow>
   st_compaction_floor st' = st_compaction_floor st \<Longrightarrow>
   st_compaction_baseline st' = st_compaction_baseline st \<Longrightarrow> st_events st' = st_events st \<Longrightarrow>
   st_shared st' = st_shared st \<Longrightarrow> hist_inv st'"
  by (simp add: hist_inv_def history_state_ok_def)

lemma wt_inv_same_but_admitted:
  assumes "wt_inv st" "same_but_admitted st st'"
  shows "wt_inv st'"
proof -
  obtain a m where st': "st' = st\<lparr>st_admitted := a, st_admitted_missing := m\<rparr>"
    and "validateAdmittedIdentities a = OK"
    using assms by (auto simp: same_but_admitted_def wt_inv_def frame_inv_def)
  then show ?thesis
    using assms(1)
    by (auto simp: wt_inv_def receipts_inv_def frame_inv_def intro: hist_inv_cong)
qed

lemma wt_inv_put_shell:
  assumes inv: "wt_inv st" and sh: "shell_inv (st_head_revision st) sid sh"
    and room: "sid \<in> fst ` set (st_shells st) \<or> length (st_shells st) < MaxShellRecords"
  shows "wt_inv (putShell sid sh st)"
proof -
  have d: "distinct (map fst (st_shells st))" using inv by (simp add: wt_inv_def shells_inv_def)
  have "\<forall>(sid', sh') \<in> set (assoc_put sid sh (st_shells st)). shell_inv (st_head_revision st) sid' sh'"
    using inv sh set_assoc_put_subset [of sid sh "st_shells st"]
    by (auto simp: wt_inv_def shells_inv_def)
  moreover have "length (assoc_put sid sh (st_shells st)) \<le> MaxShellRecords"
    using inv room by (auto simp: length_assoc_put wt_inv_def shells_inv_def)
  moreover have "receipts_wf (fst ` set (assoc_put sid sh (st_shells st))) (st_receipts st)"
    using inv by (auto simp: wt_inv_def receipts_inv_def keys_assoc_put intro: receipts_wf_mono)
  ultimately show ?thesis
    using inv d distinct_assoc_put [OF d]
    by (auto simp: wt_inv_def putShell_def shells_inv_def receipts_inv_def frame_inv_def
        intro: hist_inv_cong)
qed

lemma wt_inv_append_receipt:
  assumes inv: "wt_inv st" and r: "receipt_ok (fst ` set (st_shells st)) r"
    and len: "length (or_fingerprint r) = 32"
    and fresh: "receiptFor st (or_shell_id r) (or_operation_id r) = None"
  shows "wt_inv (appendReceipt r st)"
proof -
  have "\<forall>sid \<in> fst ` set (st_shells st). validStateToken sid"
    using inv by (auto simp: wt_inv_def shells_inv_def shell_inv_def validateShellState_eq_OK shell_frame_ok_def)
  then have "receipts_wf (fst ` set (st_shells st)) (st_receipts (appendReceipt r st))"
    using inv r fresh by (intro appendReceipt_wf) (auto simp: wt_inv_def receipts_inv_def)
  moreover have "\<forall>x \<in> set (st_receipts (appendReceipt r st)). length (or_fingerprint x) = 32"
    using inv len appendReceipt_set [of r st] by (auto simp: wt_inv_def receipts_inv_def)
  ultimately show ?thesis
    using inv
    by (auto simp: wt_inv_def receipts_inv_def intro: frame_inv_cong hist_inv_cong)
      (auto simp: frame_inv_def)
qed

text \<open>The last step of every shell operation: the shell is stored and the receipt appended.\<close>

lemma wt_inv_record:
  assumes "wt_inv st" "shell_inv (st_head_revision st) sid sh"
    and "sid \<in> fst ` set (st_shells st) \<or> length (st_shells st) < MaxShellRecords"
    and "or_shell_id r = sid" "validStateToken (or_operation_id r)" "validateReceiptUnion r = OK"
    and "length (or_fingerprint r) = 32"
    and "receiptFor st sid (or_operation_id r) = None"
  shows "wt_inv (appendReceipt r (putShell sid sh st))"
proof (rule wt_inv_append_receipt)
  show "wt_inv (putShell sid sh st)" using assms(1-3) by (rule wt_inv_put_shell)
  show "receipt_ok (fst ` set (st_shells (putShell sid sh st))) r"
    using assms by (simp add: receipt_ok_def putShell_def keys_assoc_put)
  show "receiptFor (putShell sid sh st) (or_shell_id r) (or_operation_id r) = None"
    using assms by (simp add: receiptFor_def putShell_def)
qed (use assms in simp)

section \<open>Growing the history\<close>

lemma validateShellState_mono:
  "validateShellState sid sh head = OK \<Longrightarrow> head \<le> head' \<Longrightarrow> validateShellState sid sh head' = OK"
  by (auto simp: validateShellState_eq_OK shell_frame_ok_def validatePending_eq_OK
      pending_target_ok_def validateConflict_eq_OK split: pending_kind.splits)

lemma shells_inv_mono: "shells_inv head shells \<Longrightarrow> head \<le> head' \<Longrightarrow> shells_inv head' shells"
  by (auto simp: shells_inv_def shell_inv_def intro: validateShellState_mono)

lemma next_revision_le: "r \<noteq> MaxUint64 \<Longrightarrow> r \<le> r + 1 \<and> r + 1 \<noteq> (0 :: u64)"
proof -
  assume "r \<noteq> MaxUint64"
  then have nz: "r + 1 \<noteq> 0" by (simp add: MaxUint64_def eq_neg_iff_add_eq_0)
  then have "unat (r + 1) = Suc (unat r)" using unatSuc [of r] by (simp add: add.commute)
  then have "r \<le> r + 1" by (simp add: word_le_nat_alt)
  with nz show ?thesis by simp
qed

lemma history_records_append:
  assumes "history_records b es"
    and "card (dom (applyMap (live_map b) (events_changes (es @ [e])))) \<le> MaxSnapshotRecords"
  shows "history_records b (es @ [e])"
  unfolding history_records_def
proof (intro allI impI)
  fix k
  assume "k \<le> length (es @ [e])"
  then consider "k \<le> length es" | "k = Suc (length es)" by (cases "k \<le> length es") auto
  then show "card (dom (applyMap (live_map b) (events_changes (take k (es @ [e]))))) \<le> MaxSnapshotRecords"
    using assms by cases (auto simp: history_records_def)
qed

lemma append_event_inv:
  assumes inv: "hist_inv st"
    and e: "event_ok e" "se_revision e = st_head_revision st + 1"
    and shared: "good_states shared" "live_map shared = applyMap (live_map (st_shared st)) (se_changes e)"
    and st2: "CompactStateHistory (st1\<lparr>st_shared := shared, st_head_revision := st_head_revision st + 1,
      st_events := st_events st @ [e]\<rparr>) = Inr st2"
    and st1: "st_compaction_floor st1 = st_compaction_floor st"
      "st_compaction_baseline st1 = st_compaction_baseline st"
    and limits: "in_limits st2"
  shows "hist_inv st2 \<and> (\<exists>b f es. st2 = st1\<lparr>st_shared := shared,
      st_head_revision := st_head_revision st + 1, st_compaction_baseline := b,
      st_compaction_floor := f, st_events := es\<rparr>)
    \<and> (\<exists>k. st_events st2 = drop k (st_events st @ [e]))"
proof -
  let ?b = "st_compaction_baseline st" and ?f = "st_compaction_floor st"
  let ?h = "st_head_revision st + 1" and ?es = "st_events st @ [e]"
  let ?st = "st1\<lparr>st_shared := shared, st_head_revision := ?h, st_events := ?es\<rparr>"
  have old: "history_ok ?b ?f (st_head_revision st) (st_events st)" "?f \<le> st_head_revision st"
    "live_map (st_shared st) = applyMap (live_map ?b) (events_changes (st_events st))"
    "history_records ?b (st_events st)" "st_head_revision st \<noteq> MaxUint64"
    using inv by (auto simp: hist_inv_def history_state_ok_iff)
  note step = next_revision_le [OF old(5)]
  have ok: "history_ok ?b ?f ?h ?es"
    using old(1) validateEventSequence_append [OF _ e] by (simp add: history_ok_def)
  have le: "\<not> ?h < ?f" using old(2) step by (auto simp: not_less intro: order_trans)
  have replay: "applyMap (live_map ?b) (events_changes ?es) = live_map shared"
    using shared(2) old(3) by (simp add: applyMap_append)
  obtain b f es where c: "CompactStateHistory ?st = Inr (?st\<lparr>st_compaction_baseline := b,
        st_compaction_floor := f, st_events := es\<rparr>)"
    and h: "history_ok b f ?h es"
    and r: "applyMap (live_map b) (events_changes es) = applyMap (live_map ?b) (events_changes ?es)"
    and len: "length es \<le> MaxStateEvents" "\<exists>k. es = drop k ?es"
    and recs: "history_records ?b ?es \<longrightarrow> history_records b es"
    using CompactStateHistory_spec [of ?st] ok le st1 by auto
  have eq: "st2 = st1\<lparr>st_shared := shared, st_head_revision := ?h, st_compaction_baseline := b,
      st_compaction_floor := f, st_events := es\<rparr>"
    using c st2 by simp
  have bounds: "within_bounds shared" and top: "?h \<noteq> MaxUint64"
    using limits by (simp_all add: in_limits_def eq)
  have "card (dom (live_map shared)) \<le> MaxSnapshotRecords"
    using bounds good_states_card [OF shared(1)] by (simp add: within_bounds_def)
  then have records: "history_records b es"
    using recs history_records_append [OF old(4), of e] replay by simp
  have "card (dom (live_map b)) \<le> MaxSnapshotRecords"
    using records by (auto simp: history_records_def dest!: spec [where x = 0])
  then have "length b \<le> MaxSnapshotRecords"
    using h good_states_card [of b] by (simp add: history_ok_def)
  moreover have "f \<le> ?h"
  proof -
    have "unat f + length es < 2 ^ 64" "?h = f + of_nat (length es)"
      using h validateEventsFrom_unat [of f es]
      by (auto simp: history_ok_def validateEventSequence_eq_OK)
    then have "unat ?h = unat f + length es"
      by (simp add: unat_word_ariths unat_of_nat take_bit_eq_mod)
    then show ?thesis by (simp add: word_le_nat_alt)
  qed
  ultimately have "hist_inv st2"
    using h len records bounds top step shared(1) r replay
    by (simp add: hist_inv_def history_state_ok_iff eq)
  with eq len show ?thesis by auto
qed

end
