(* ===== verification/ShellInv.thy ===== *)
theory ShellInv
  imports ServiceInv
begin

text \<open>
  Every operation of a shell keeps the invariant: attach, publish, prepare, resolve and
  acknowledge, first for the part that computes the new state, then for the callback.
\<close>

section \<open>Tokens and reasons\<close>

lemma reason_valid: "r \<noteq> AdmissionNone \<Longrightarrow> validStateReason (reason_string r)"
  by (cases r; simp; code_simp)

lemma hexEncode_token: "list_all token_rest (hexEncode bs)"
proof (induction bs)
  case Nil
  then show ?case by simp
next
  case (Cons c cs)
  have "of_char c < (256 :: nat)" by (rule nat_of_char_less_256)
  then have "of_char c div 16 < (16 :: nat)" by (intro less_mult_imp_div_less) simp
  moreover have "\<forall>n \<in> set [0..<16]. token_rest (hex_digit n)" by code_simp
  ultimately have "token_rest (hex_digit (of_char c div 16))" "token_rest (hex_digit (of_char c mod 16))"
    by simp_all
  with Cons show ?case by simp
qed

lemma newResolutionToken_valid:
  assumes "good_hash H" "prefix = ''conflict'' \<or> prefix = ''pull''"
  shows "validToken (newResolutionToken H prefix opid fp revision) = OK"
proof -
  have rest: "list_all token_rest (''onflict'' @ '':'')" "list_all token_rest (''ull'' @ '':'')"
    and first: "is_alnum CHR ''c''" "is_alnum CHR ''p''"
    by code_simp+
  have "length (hexEncode (take 16 (hx_sha256 H x))) = 32" for x
    using assms(1) by (simp add: good_hash_def)
  then show ?thesis
    using assms(2) rest first hexEncode_token
    by (auto simp: newResolutionToken_def validToken_def liveTokenRE_def MaxResolutionTokenBytes_def)
qed

lemma validateCredential_token: "validateCredential cr = OK \<Longrightarrow> validStateToken (cr_shell_id cr)"
  by (auto simp: validateCredential_def validStateToken_def if_Inl_eq_Inr)

lemma validatePrivateRequest_OK:
  "validatePrivateRequest opid cr = OK \<Longrightarrow> validStateToken opid \<and> validStateToken (cr_shell_id cr)"
  by (auto simp: validatePrivateRequest_def if_Inl_eq_Inr orErr_eq_Inr validateCredential_token)

lemma fingerprintParts_length: "good_hash H \<Longrightarrow> length (fingerprintParts H d ps) = 32"
  by (simp add: fingerprintParts_def good_hash_def)

lemma FingerprintSnapshot_nonzero:
  "good_hash H \<Longrightarrow> FingerprintSnapshot H sn = Inr fp \<Longrightarrow> fp \<noteq> zero32 \<and> length fp = 32"
  by (auto simp: FingerprintSnapshot_def good_hash_def bindR_eq_Inr)

section \<open>Lists of present states\<close>

lemma good_states_presentOnly:
  "distinct (map ls_identity ss) \<Longrightarrow> \<forall>s \<in> set ss. ValidateLiveIdentityState s = OK \<Longrightarrow>
   good_states (presentOnly ss)"
  by (auto simp: good_states_def presentOnly_def distinct_map_filter comp_def
      intro: ValidateLiveIdentityState_clone)

lemma length_presentOnly: "length (presentOnly ss) \<le> length ss"
  by (simp add: presentOnly_def)

lemma presentIdentities_valid: "validateIdentityList (presentIdentities sn) = OK"
proof (cases "NormalizeLiveStates (sn_states sn)")
  case (Inl e)
  then show ?thesis by (simp add: presentIdentities_def validateIdentityList_eq_OK)
next
  case (Inr ns)
  have "ValidateIdentity (ls_identity s) = OK" if "s \<in> set ns" for s
    using NormalizeLiveStates_valid [OF Inr that]
    by (auto simp: ValidateLiveIdentityState_def bindR_eq_Inr)
  then show ?thesis
    using Inr NormalizeLiveStates_distinct [OF Inr]
    by (auto simp: presentIdentities_def validateIdentityList_eq_OK distinct_map_filter)
qed

lemma registryAttach_facts:
  assumes "registryAttach r sn = Inr a"
  shows "distinct (map ls_identity (am_baseline a))
    \<and> (\<forall>s \<in> set (am_baseline a). ValidateLiveIdentityState s = OK)
    \<and> length (am_baseline a) \<le> MaxSnapshotRecords
    \<and> (\<forall>x \<in> set (am_exclusions a). validateExclusion x = OK)"
proof -
  let ?ss = "keep_last ls_identity (sn_states sn)"
  let ?own = "filter (\<lambda>s. AllowsLiveValue r (ls_identity s)) ?ss"
  have v: "ValidateLiveSnapshot sn = OK" using assms by (simp add: registryAttach_eq_Inr)
  have base: "am_baseline a = map CloneLiveState ?own"
    using assms by (simp add: registryAttach_eq_Inr Let_def)
  have valid: "ValidateLiveIdentityState s = OK" if "s \<in> set ?ss" for s
    using v that set_keep_last_subset [of ls_identity "sn_states sn"]
    by (auto simp: ValidateLiveSnapshot_eq_OK)
  have "length ?own \<le> length ?ss" by (rule length_filter_le)
  also have "\<dots> \<le> length (sn_states sn)" by (rule length_keep_last)
  also have "\<dots> \<le> MaxSnapshotRecords" using v by (simp add: ValidateLiveSnapshot_eq_OK)
  finally have len: "length ?own \<le> MaxSnapshotRecords" .
  have "\<forall>x \<in> set (am_exclusions a). validateExclusion x = OK"
  proof
    fix x
    assume "x \<in> set (am_exclusions a)"
    then obtain s where s: "s \<in> set ?ss"
      and x: "ex_identity x = ls_identity s" "ex_reason x = reason_string
        (if exclusionReason r (ls_identity s) \<noteq> AdmissionNone
         then exclusionReason r (ls_identity s) else AdmissionPresentAtAttach)"
      using assms by (auto simp: registryAttach_eq_Inr Let_def)
    with valid [OF s] reason_valid show "validateExclusion x = OK"
      by (auto simp: validateExclusion_def ValidateLiveIdentityState_def bindR_eq_Inr)
  qed
  with valid len show ?thesis
    by (auto simp: base distinct_map_filter comp_def ValidateLiveIdentityState_clone)
qed

lemma validateChanges_filter:
  "validateChanges cs = OK \<Longrightarrow> validateChanges (filter P cs) = OK"
  by (auto simp: validateChanges_eq_OK distinct_map_filter)

lemma DiffSnapshot_changes:
  assumes "DiffSnapshot (snap ss) (snap ts) = Inr cs"
  shows "validateChanges cs = OK \<and> cs = refDiff (live_map ss) (live_map ts)
    \<and> within_bounds ss \<and> within_bounds ts"
proof -
  have ok: "ValidateSnapshot (snap ss) = OK" "ValidateSnapshot (snap ts) = OK"
    and cs: "cs = refDiff (live_map ss) (live_map ts)"
    using assms by (auto simp: DiffSnapshot_eq_Inr)
  then have valid: "\<forall>s \<in> set ss. ValidateLiveIdentityState s = OK" "\<forall>s \<in> set ts. ValidateLiveIdentityState s = OK"
    by (auto simp: ValidateSnapshot_snap)
  have "validateChanges cs = OK"
    using refDiff_distinct refDiff_valid [OF valid] by (auto simp: validateChanges_eq_OK cs)
  with ok cs show ?thesis by (simp add: ValidateSnapshot_snap)
qed

lemma within_bounds_present: "good_states ss \<Longrightarrow> within_bounds ss \<Longrightarrow> validatePresentStates ss = OK"
  by (simp add: validatePresentStates_eq_OK within_bounds_def)

section \<open>Shells of a valid state\<close>

lemma shell_of_state:
  assumes "wt_inv st" "map_of (st_shells st) sid = Some sh"
  shows "shell_inv (st_head_revision st) sid sh \<and> sid \<in> fst ` set (st_shells st)"
  using assms map_of_SomeD [OF assms(2)]
  by (force simp: wt_inv_def shells_inv_def)

lemma authorizeShell_eq_Inr:
  "authorizeShell H st cred = Inr sh \<longleftrightarrow>
     st_materialized st \<and> map_of (st_shells st) (cr_shell_id cred) = Some sh
     \<and> VerifyShellCapability (hx_sha256 H) (sh_verifier sh) (cr_capability cred)"
  by (auto simp: authorizeShell_def Let_def split: option.splits)

lemma shell_inv_unfold:
  "shell_inv head sid sh \<longleftrightarrow> shell_frame_ok sid sh head \<and> shell_lists_ok sh \<and> shell_phase_ok sh
     \<and> validatePending (sh_pending sh) sh head = OK
     \<and> (\<forall>c. sh_conflict sh = Some c \<longrightarrow> validateConflict c head = OK)
     \<and> sh_attached_revision sh \<noteq> 0 \<and> length (sh_verifier sh) = 32 \<and> pending_bytes (sh_pending sh)"
  by (auto simp: shell_inv_def validateShellState_eq_OK shell_bytes_def)

lemma noPending_ok [simp]:
  "validatePending noPending sh head = OK" "pending_bytes noPending" "pd_kind noPending = PendingNone"
  by (simp_all add: validatePending_eq_OK noPending_def pending_bytes_def)

lemma head_nonzero: "wt_inv st \<Longrightarrow> st_head_revision st \<noteq> 0"
  by (simp add: wt_inv_def hist_inv_def)

lemma shared_present: "wt_inv st \<Longrightarrow> validatePresentStates (st_shared st) = OK"
  by (auto simp: wt_inv_def hist_inv_def history_state_ok_def)

lemma fresh_shell_receipt:
  assumes "wt_inv st" "map_of (st_shells st) sid = None"
  shows "receiptFor st sid opid = None"
proof -
  have "sid \<notin> fst ` set (st_shells st)" using assms(2) by (simp add: map_of_eq_None_iff)
  then show ?thesis
    using assms(1) by (auto simp: receiptFor_None wt_inv_def receipts_inv_def receipts_wf_def receipt_ok_def)
qed

section \<open>Attach\<close>

lemma attachedShell_inv:
  assumes inv: "wt_inv st" and a: "registryAttach r initial = Inr a"
    and sid: "validStateToken sid" and v: "length verifier = 32" "verifier \<noteq> zero32"
  shows "shell_inv (st_head_revision st) sid (attachedShell verifier a initial st)"
proof -
  note f = registryAttach_facts [OF a]
  have base: "validatePresentStates (presentOnly (CloneLiveStates (am_baseline a))) = OK"
    using f good_states_presentOnly [of "CloneLiveStates (am_baseline a)"]
      length_presentOnly [of "CloneLiveStates (am_baseline a)"]
    by (auto simp: validatePresentStates_eq_OK CloneLiveStates_def comp_def
        intro: ValidateLiveIdentityState_clone)
  have none: "validatePresentStates [] = OK" "validateChanges [] = OK"
    by (simp_all add: validatePresentStates_eq_OK validateChanges_eq_OK)
  show ?thesis
    using sid v f base none head_nonzero [OF inv] validatePresentStates_clone [OF shared_present [OF inv]]
      presentIdentities_valid
    by (auto simp: shell_inv_unfold attachedShell_def Let_def shell_frame_ok_def shell_lists_ok_def
        shell_phase_ok_def)
qed

lemma attachRecord_inv:
  assumes inv: "wt_inv st" and a: "registryAttach r initial = Inr a"
    and new: "map_of (st_shells st) (cr_shell_id (ar_credential req)) = None"
      "length (st_shells st) < MaxShellRecords"
    and tokens: "validStateToken (ar_operation_id req)" "validStateToken (cr_shell_id (ar_credential req))"
    and v: "length verifier = 32" "verifier \<noteq> zero32" "length fp = 32"
  shows "wt_inv (snd (attachRecord req fp verifier a initial st))"
  unfolding attachRecord_def Let_def snd_conv
  by (rule wt_inv_record)
    (use assms attachedShell_inv [OF inv a tokens(2) v(1,2)] fresh_shell_receipt [OF inv new(1)]
     in \<open>simp_all add: emptyReceipt_def validateReceiptUnion_def count_some_def\<close>)

section \<open>Publish\<close>

lemma commitAccepted_inv:
  assumes inv: "wt_inv st" and c: "commitAccepted opid sid accepted st = Inr st1"
    and tokens: "validStateToken opid" "validStateToken sid"
    and changes: "validateChanges accepted = OK" and limits: "in_limits st1"
  shows "wt_inv st1 \<and> st_head_revision st \<le> st_head_revision st1
    \<and> st_shells st1 = st_shells st \<and> st_receipts st1 = st_receipts st
    \<and> live_map (st_shared st1) = applyMap (live_map (st_shared st)) accepted"
proof (cases "accepted = []")
  case True
  with c inv show ?thesis by (simp add: commitAccepted_def)
next
  case False
  let ?e = "\<lparr>se_revision = st_head_revision st + 1, se_operation_id = opid, se_shell_id = sid,
    se_changes = CloneLiveChanges accepted\<rparr>"
  obtain shared where shared: "applyStateChanges (st_shared st) accepted = Inr shared"
    and st1: "CompactStateHistory (st\<lparr>st_shared := shared, st_head_revision := st_head_revision st + 1,
      st_events := st_events st @ [?e]\<rparr>) = Inr st1"
    using False c by (auto simp: commitAccepted_def bindR_eq_Inr NextRevision_def if_Inl_eq_Inr)
  have hist: "hist_inv st" using inv by (simp add: wt_inv_def)
  then have top: "st_head_revision st \<noteq> MaxUint64" by (simp add: hist_inv_def)
  note step = next_revision_le [OF top]
  have e: "event_ok ?e" "se_revision ?e = st_head_revision st + 1"
    using step tokens changes by (auto simp: event_ok_def validateChanges_clone)
  from applyStateChanges_spec [OF shared]
  have g: "good_states shared" "live_map shared = applyMap (live_map (st_shared st)) (se_changes ?e)"
    by auto
  from append_event_inv [OF hist e g st1 refl refl limits]
  have "hist_inv st1" and eq: "\<exists>b f es. st1 = st\<lparr>st_shared := shared,
      st_head_revision := st_head_revision st + 1, st_compaction_baseline := b,
      st_compaction_floor := f, st_events := es\<rparr>"
    by auto
  with inv step g show ?thesis
    by (auto simp: wt_inv_def frame_inv_def receipts_inv_def intro: shells_inv_mono)
qed

lemma publishedShell_inv:
  assumes sh: "shell_inv head sid sh" and le: "head \<le> head'" and nz: "head' \<noteq> 0"
    and idle: "pd_kind (sh_pending sh) = PendingNone" "sh_conflict sh = None" "sh_unpublished sh = []"
    and observed: "validatePresentStates observed = OK"
    and losing: "validateChanges losing = OK"
    and conflicts: "losing \<noteq> [] \<longrightarrow> validateConflict (hd conflicts) head' = OK"
  shows "shell_inv head' sid (publishedShell sh observed losing conflicts head')"
proof -
  have pending: "sh_pending sh = noPending"
    using sh idle(1) by (auto simp: shell_inv_unfold validatePending_eq_OK noPending_def)
  then show ?thesis
    using sh le nz idle observed losing conflicts validateChanges_clone [OF losing]
    by (auto simp: shell_inv_unfold publishedShell_def Let_def shell_frame_ok_def shell_lists_ok_def
        shell_phase_ok_def intro: order_trans)
qed

lemma publishConflicts_ok:
  assumes "good_hash H" "c \<in> set (publishConflicts H req fp gap head losing)"
    and "validateChanges losing = OK" "head \<noteq> 0" "pq_acknowledged_revision req \<le> head"
  shows "validateConflict c head = OK"
proof -
  obtain x where x: "x \<in> set losing" and c: "cf_identity c = ch_identity x"
    "cf_kind c = (if gap then ConflictHistoryGap else ConflictOverlap)" "cf_shared_revision c = head"
    "cf_base_revision c = pq_acknowledged_revision req"
    "cf_token c = newResolutionToken H ''conflict'' (pq_operation_id req) fp head"
    using assms(2) by (auto simp: publishConflicts_def)
  have "validateLiveChange x = OK" using x assms(3) by (simp add: validateChanges_eq_OK)
  then have "ValidateIdentity (ch_identity x) = OK" using validateLiveChange_cases by blast
  then show ?thesis
    using assms(4,5) newResolutionToken_valid [OF assms(1)] by (simp add: validateConflict_eq_OK c)
qed

lemma publishMerge_inv:
  assumes inv: "wt_inv st" and H: "good_hash H"
    and known: "map_of (st_shells st) (cr_shell_id (pq_credential req)) = Some sh"
    and idle: "pd_kind (sh_pending sh) = PendingNone" "sh_conflict sh = None" "sh_unpublished sh = []"
    and ack: "pq_acknowledged_revision req = sh_applied_revision sh"
    and tokens: "validStateToken (pq_operation_id req)" and fp: "length fp = 32"
    and fresh: "receiptFor st (cr_shell_id (pq_credential req)) (pq_operation_id req) = None"
    and run: "publishMerge H req fp sh admitted st = Inr (res, st')" and limits: "in_limits st'"
  shows "wt_inv st'"
proof -
  let ?sid = "cr_shell_id (pq_credential req)" and ?ack = "pq_acknowledged_revision req"
  obtain observed semantic st1 where
    observed: "applyStateChanges (sh_capture_baseline sh) admitted = Inr observed"
    and semantic: "DiffSnapshot (snap (sh_capture_baseline sh)) (snap observed) = Inr semantic"
    and st1: "commitAccepted (pq_operation_id req) ?sid (acceptedChanges st ?ack semantic) st = Inr st1"
    and res: "res = \<lparr>pb_shared_revision = st_head_revision st1,
        pb_accepted = map ch_identity (acceptedChanges st ?ack semantic),
        pb_conflicts = publishConflicts H req fp (?ack < st_compaction_floor st)
          (st_head_revision st1) (losingChanges st ?ack semantic)\<rparr>"
    and st': "st' = appendReceipt
        ((emptyReceipt ?sid (pq_operation_id req) ReceiptPublish fp)\<lparr>or_publish := Some res\<rparr>)
        (putShell ?sid (publishedShell sh observed (losingChanges st ?ack semantic)
          (pb_conflicts res) (st_head_revision st1)) st1)"
    using run by (auto simp: publishMerge_def bindR_eq_Inr Let_def)
  note sem = DiffSnapshot_changes [OF semantic]
  have changes: "validateChanges (acceptedChanges st ?ack semantic) = OK"
    "validateChanges (losingChanges st ?ack semantic) = OK"
    using sem by (auto simp: acceptedChanges_def losingChanges_def pendingChanges_def validateChanges_filter)
  note sh = shell_of_state [OF inv known]
  have sid: "validStateToken ?sid" using sh by (simp add: shell_inv_unfold shell_frame_ok_def)
  have l1: "in_limits st1" using limits by (simp add: st' in_limits_def putShell_def)
  note c = commitAccepted_inv [OF inv st1 tokens sid changes(1) l1]
  have present: "validatePresentStates observed = OK"
    using sem applyStateChanges_spec [OF observed] by (auto intro: within_bounds_present)
  have nz: "st_head_revision st1 \<noteq> 0" using c head_nonzero by blast
  have le: "?ack \<le> st_head_revision st1"
    using sh c ack by (auto simp: shell_inv_unfold shell_frame_ok_def intro: order_trans)
  have "shell_inv (st_head_revision st1) ?sid (publishedShell sh observed
      (losingChanges st ?ack semantic) (pb_conflicts res) (st_head_revision st1))"
  proof (rule publishedShell_inv [OF _ _ nz idle present changes(2)])
    show "shell_inv (st_head_revision st) ?sid sh" "st_head_revision st \<le> st_head_revision st1"
      using sh c by auto
    show "losingChanges st ?ack semantic \<noteq> [] \<longrightarrow>
        validateConflict (hd (pb_conflicts res)) (st_head_revision st1) = OK"
    proof
      assume "losingChanges st ?ack semantic \<noteq> []"
      then have "pb_conflicts res \<noteq> []" by (simp add: res publishConflicts_def)
      then have "hd (pb_conflicts res) \<in> set (pb_conflicts res)" by (rule hd_in_set)
      then show "validateConflict (hd (pb_conflicts res)) (st_head_revision st1) = OK"
        using publishConflicts_ok [OF H _ changes(2) nz le] by (simp add: res)
    qed
  qed
  then show ?thesis
    unfolding st'
    by (intro wt_inv_record)
      (use c sh tokens fp fresh in \<open>simp_all add: emptyReceipt_def validateReceiptUnion_def
        count_some_def receiptFor_def\<close>)
qed

section \<open>Prepare\<close>

lemma preparePull_inv:
  assumes inv: "wt_inv st" and H: "good_hash H"
    and known: "map_of (st_shells st) (cr_shell_id (pp_credential req)) = Some sh"
    and idle: "pd_kind (sh_pending sh) = PendingNone" "sh_conflict sh = None" "sh_unpublished sh = []"
    and tokens: "validStateToken (pp_operation_id req)" and fp: "length fp = 32"
    and fresh: "receiptFor st (cr_shell_id (pp_credential req)) (pp_operation_id req) = None"
    and run: "preparePull H req fp sh st = Inr (res, st')"
  shows "wt_inv st'"
proof -
  let ?sid = "cr_shell_id (pp_credential req)" and ?head = "st_head_revision st"
  define sh1 where "sh1 = pullShell req sh"
  note sh = shell_of_state [OF inv known]
  have none: "validatePresentStates [] = OK" by (simp add: validatePresentStates_eq_OK)
  have pending: "sh_pending sh = noPending"
    using sh idle(1) by (auto simp: shell_inv_unfold validatePending_eq_OK noPending_def)
  have sh1: "shell_inv ?head ?sid sh1" "sh_pending sh1 = noPending" "sh_conflict sh1 = None"
    "sh_unpublished sh1 = []" "sh_applied_revision sh1 \<le> ?head"
    using sh pending idle none
    by (auto simp: sh1_def pullShell_def shell_inv_unfold shell_frame_ok_def shell_lists_ok_def shell_phase_ok_def)
  have idle_step: "wt_inv (appendReceipt ((emptyReceipt ?sid (pp_operation_id req) ReceiptPreparePull fp)
        \<lparr>or_prepare := Some r\<rparr>) (putShell ?sid sh2 st))"
    if "shell_inv ?head ?sid sh2" for r sh2
    using that sh tokens fp fresh inv
    by (intro wt_inv_record) (simp_all add: emptyReceipt_def validateReceiptUnion_def count_some_def)
  obtain changes where changes: "DiffSnapshot (snap (sh_capture_baseline sh)) (snap (st_shared st)) = Inr changes"
    using run by (auto simp: preparePull_def Let_def bindR_eq_Inr)
  show ?thesis
  proof (cases "changes = [] \<and> pp_applied_revision req = ?head \<and> sh_applied_revision sh1 = ?head")
    case True
    with run changes have "st' = appendReceipt ((emptyReceipt ?sid (pp_operation_id req) ReceiptPreparePull fp)
        \<lparr>or_prepare := Some \<lparr>pl_pending_revision = 0, pl_token = [], pl_changes = []\<rparr>\<rparr>)
        (putShell ?sid (sh1\<lparr>sh_last_active := ?head\<rparr>) st)"
      by (auto simp: preparePull_def Let_def sh1_def [symmetric])
    moreover have "shell_inv ?head ?sid (sh1\<lparr>sh_last_active := ?head\<rparr>)"
      using sh1 by (auto simp: shell_inv_unfold shell_frame_ok_def shell_lists_ok_def shell_phase_ok_def)
    ultimately show ?thesis using idle_step by simp
  next
    case False
    let ?token = "newResolutionToken H ''pull'' (pp_operation_id req) fp ?head"
    from run changes False obtain target where target: "FingerprintSnapshot H (snap (st_shared st)) = Inr target"
      and st': "\<exists>r. st' = appendReceipt ((emptyReceipt ?sid (pp_operation_id req) ReceiptPreparePull fp)
        \<lparr>or_prepare := Some r\<rparr>)
        (putShell ?sid (sh1\<lparr>sh_pending := \<lparr>pd_kind = PendingPull, pd_revision = ?head,
          pd_fingerprint = target, pd_token = ?token, pd_conflict = None,
          pd_changes = CloneLiveChanges changes\<rparr>, sh_transition := TransitionPrepare,
          sh_behind := True, sh_last_active := ?head\<rparr>) st)"
      by (auto simp: preparePull_def Let_def bindR_eq_Inr sh1_def [symmetric])
    have "shell_inv ?head ?sid (sh1\<lparr>sh_pending := \<lparr>pd_kind = PendingPull, pd_revision = ?head,
          pd_fingerprint = target, pd_token = ?token, pd_conflict = None,
          pd_changes = CloneLiveChanges changes\<rparr>, sh_transition := TransitionPrepare,
          sh_behind := True, sh_last_active := ?head\<rparr>)"
      using sh1 head_nonzero [OF inv] FingerprintSnapshot_nonzero [OF H target]
        newResolutionToken_valid [OF H] DiffSnapshot_changes [OF changes] validateChanges_clone
      by (auto simp: shell_inv_unfold shell_frame_ok_def shell_lists_ok_def shell_phase_ok_def
          validatePending_eq_OK pending_target_ok_def pending_bytes_def)
    with st' idle_step show ?thesis by blast
  qed
qed

section \<open>Resolve\<close>

lemma resolveShared_inv:
  assumes inv: "wt_inv st" and H: "good_hash H"
    and known: "map_of (st_shells st) (cr_shell_id (rq_credential req)) = Some sh"
    and tokens: "validStateToken (rq_operation_id req)" and fp: "length fp = 32"
    and fresh: "receiptFor st (cr_shell_id (rq_credential req)) (rq_operation_id req) = None"
    and run: "resolveShared H req fp sh observed st = Inr (res, st')"
  shows "wt_inv st'"
proof -
  let ?sid = "cr_shell_id (rq_credential req)" and ?head = "st_head_revision st"
  note sh = shell_of_state [OF inv known]
  obtain c where c: "sh_conflict sh = Some c"
    using run by (auto simp: resolveShared_def Let_def split: option.splits)
  obtain changes target where token: "cf_token c = rq_token req"
    and changes: "DiffSnapshot (snap observed) (snap (st_shared st)) = Inr changes"
    and target: "FingerprintSnapshot H (snap (st_shared st)) = Inr target"
    and idle: "pd_kind (sh_pending sh) = PendingNone"
    and st': "\<exists>r. st' = appendReceipt ((emptyReceipt ?sid (rq_operation_id req) ReceiptResolve fp)
      \<lparr>or_resolve := Some r\<rparr>)
      (putShell ?sid (sh\<lparr>sh_pending := \<lparr>pd_kind = PendingResolution, pd_revision = ?head,
        pd_fingerprint = target, pd_token = rq_token req, pd_conflict = Some (rq_conflict req),
        pd_changes = CloneLiveChanges changes\<rparr>, sh_transition := TransitionResolve,
        sh_behind := True, sh_last_active := ?head\<rparr>) st)"
    using run c by (auto simp: resolveShared_def Let_def bindR_eq_Inr if_Inl_eq_Inr orErr_eq_Inr)
  have "shell_inv ?head ?sid (sh\<lparr>sh_pending := \<lparr>pd_kind = PendingResolution, pd_revision = ?head,
        pd_fingerprint = target, pd_token = rq_token req, pd_conflict = Some (rq_conflict req),
        pd_changes = CloneLiveChanges changes\<rparr>, sh_transition := TransitionResolve,
        sh_behind := True, sh_last_active := ?head\<rparr>)"
    using sh c token idle head_nonzero [OF inv] FingerprintSnapshot_nonzero [OF H target]
      DiffSnapshot_changes [OF changes] validateChanges_clone
    by (auto simp: shell_inv_unfold shell_frame_ok_def shell_lists_ok_def shell_phase_ok_def
        validatePending_eq_OK validateConflict_eq_OK pending_target_ok_def pending_bytes_def)
  with st' sh tokens fp fresh inv show ?thesis
    by (auto intro!: wt_inv_record simp: emptyReceipt_def validateReceiptUnion_def count_some_def)
qed

section \<open>Acknowledge\<close>

lemma acknowledge_inv:
  assumes inv: "wt_inv st" and H: "good_hash H"
    and known: "map_of (st_shells st) (cr_shell_id (ak_credential req)) = Some sh"
    and observed: "good_states observed"
    and tokens: "validStateToken (ak_operation_id req)" and fp: "length fp = 32"
    and fresh: "receiptFor st (cr_shell_id (ak_credential req)) (ak_operation_id req) = None"
    and run: "acknowledge H req fp sh observed st = Inr (res, st')"
  shows "wt_inv st'"
proof -
  let ?sid = "cr_shell_id (ak_credential req)" and ?head = "st_head_revision st"
  note sh = shell_of_state [OF inv known]
  have busy: "pd_kind (sh_pending sh) \<noteq> PendingNone"
    and seen: "FingerprintSnapshot H (snap observed) = Inr (pd_fingerprint (sh_pending sh))"
    and st': "\<exists>r. st' = appendReceipt ((emptyReceipt ?sid (ak_operation_id req) ReceiptAcknowledge fp)
      \<lparr>or_acknowledge := Some r\<rparr>) (putShell ?sid (acknowledgedShell sh observed ?head) st)"
    using run by (auto simp: acknowledge_def Let_def bindR_eq_Inr if_Inl_eq_Inr orErr_eq_Inr)
  have "ValidateLiveSnapshot (snap observed) = OK"
    using seen by (auto simp: FingerprintSnapshot_def bindR_eq_Inr)
  then have "validatePresentStates observed = OK"
    using observed by (intro within_bounds_present) (auto simp: ValidateLiveSnapshot_snap)
  then have present: "validatePresentStates (CloneLiveStates observed) = OK"
    by (rule validatePresentStates_clone)
  have none: "validateChanges [] = OK" by (simp add: validateChanges_eq_OK)
  have target: "pd_revision (sh_pending sh) \<le> ?head" "pd_revision (sh_pending sh) \<noteq> 0"
    using sh busy by (auto simp: shell_inv_unfold validatePending_eq_OK pending_target_ok_def
        split: pending_kind.splits)
  have "shell_inv ?head ?sid (acknowledgedShell sh observed ?head)"
    using sh present none target
    by (auto simp: shell_inv_unfold acknowledgedShell_def Let_def shell_frame_ok_def shell_lists_ok_def
        shell_phase_ok_def)
  with st' sh tokens fp fresh inv show ?thesis
    by (auto intro!: wt_inv_record simp: emptyReceipt_def validateReceiptUnion_def count_some_def)
qed

section \<open>The callbacks\<close>

text \<open>The snapshot a callback admits is a list of present, valid, distinct states.\<close>

lemma admittedSnapshot_run:
  assumes "admittedSnapshot sh sn e st = (Inr (observed, st'), e')"
  shows "good_states observed \<and> same_but_admitted st st' \<and> env_same e e'
    \<and> (\<exists>ns. NormalizeLiveStates (sn_states sn) = Inr ns \<and>
        (let a = attachmentFromShell (sv_registry e) sh in
         observed = map CloneLiveState (filter (\<lambda>s. lv_present (ls_value s)
           \<and> gate.passes a (sv_registry e) (ls_identity s)) ns)
         \<and> sv_registry e' = fold (gate.enter a)
           (map ls_identity (filter (\<lambda>s. lv_present (ls_value s)) ns)) (sv_registry e)))
    \<and> (\<forall>owned. in_step owned e st \<longrightarrow> in_step owned e' st')"
proof -
  obtain ns where ns: "NormalizeLiveStates (sn_states sn) = Inr ns"
    and run: "admittedSnapshotLoop (attachmentFromShell (sv_registry e) sh) ns e st = (Inr (observed, st'), e')"
    using assms by (auto simp: admittedSnapshot_def tx_simps)
  note f = admittedSnapshotLoop_run [OF run]
  have "good_states observed"
    using f NormalizeLiveStates_distinct [OF ns] NormalizeLiveStates_valid [OF ns]
    by (auto simp: good_states_def distinct_map_filter comp_def ValidateLiveIdentityState_clone)
  with f ns show ?thesis by (auto simp: Let_def)
qed

lemma admittedChanges_run:
  assumes "admittedChanges sh cs e st = (Inr (out, st'), e')"
  shows "out = map CloneLiveChange (filter (\<lambda>c. gate.passes (attachmentFromShell (sv_registry e) sh)
        (sv_registry e) (ch_identity c)) cs)
    \<and> same_but_admitted st st' \<and> env_same e e'
    \<and> sv_registry e' = fold (gate.enter (attachmentFromShell (sv_registry e) sh))
        (map ch_identity cs) (sv_registry e)
    \<and> (\<forall>owned. in_step owned e st \<longrightarrow> in_step owned e' st')"
  using admittedChangesLoop_run [of "attachmentFromShell (sv_registry e) sh" cs e st out st' e'] assms
  by (auto simp: admittedChanges_def tx_simps)

lemma attachTx_inv:
  assumes inv: "wt_inv st" and H: "good_hash H"
    and req: "validatePrivateRequest (ar_operation_id req) (ar_credential req) = OK" and fp: "length fp = 32"
    and run: "attachTx H req initial fp e st = (Inr (res, st'), e')"
  shows "wt_inv st'"
proof -
  note tokens = validatePrivateRequest_OK [OF req]
  show ?thesis
  proof (cases "map_of (st_shells st) (cr_shell_id (ar_credential req))")
    case (Some sh)
    with run inv show ?thesis
      by (auto simp: attachTx_def tx_simps if_tx_run split: if_splits sum.splits option.splits)
  next
    case None
    with run obtain verifier st1 e1 a where
      v: "DeriveShellCapabilityVerifier (hx_sha256 H) (cr_capability (ar_credential req)) = Inr verifier"
      and seed: "seedRegistryFromState e st = (Inr ((), st1), e1)"
      and room: "length (st_shells st) < MaxShellRecords"
      and a: "registryAttach (sv_registry e1) initial = Inr a"
      and st': "st' = snd (attachRecord req fp verifier a initial st1)"
      by (auto simp: attachTx_def tx_simps if_tx_run split: if_splits sum.splits)
    have same: "same_but_admitted st st1" using seed by (rule seed_same_but_admitted)
    have "length verifier = 32 \<and> verifier \<noteq> zero32"
      using v H by (auto simp: DeriveShellCapabilityVerifier_def good_hash_def split: option.splits)
    then show ?thesis
      unfolding st' using tokens fp room None a same_but_admitted_sel [OF same]
      by (intro attachRecord_inv [OF wt_inv_same_but_admitted [OF inv same] a]) auto
  qed
qed

lemma publishTx_inv:
  assumes inv: "wt_inv st" and H: "good_hash H"
    and req: "validatePrivateRequest (pq_operation_id req) (pq_credential req) = OK" and fp: "length fp = 32"
    and run: "publishTx H req delta fp e st = (Inr (res, st'), e')" and limits: "in_limits st'"
  shows "wt_inv st'"
proof -
  obtain sh where auth: "authorizeShell H st (pq_credential req) = Inr sh"
    using run by (auto simp: publishTx_def tx_simps)
  then have known: "map_of (st_shells st) (cr_shell_id (pq_credential req)) = Some sh"
    by (simp add: authorizeShell_eq_Inr)
  show ?thesis
  proof (cases "receiptFor st (cr_shell_id (pq_credential req)) (pq_operation_id req)")
    case (Some r)
    with run auth inv show ?thesis
      by (auto simp: publishTx_def tx_simps if_tx_run split: if_splits)
  next
    case None
    with run auth obtain st1 e1 st2 e2 admitted where
      idle: "pd_kind (sh_pending sh) = PendingNone" "sh_conflict sh = None" "sh_unpublished sh = []"
        "pq_acknowledged_revision req = sh_applied_revision sh"
      and seed: "seedRegistryFromState e st = (Inr ((), st1), e1)"
      and adm: "admittedChanges sh delta e1 st1 = (Inr (admitted, st2), e2)"
      and merge: "publishMerge H req fp sh admitted st2 = Inr (res, st')"
      by (auto simp: publishTx_def tx_simps if_tx_run split: if_splits)
    have same: "same_but_admitted st st2"
      using seed_same_but_admitted [OF seed] admittedChanges_run [OF adm]
      by (blast intro: same_but_admitted_trans)
    show ?thesis
      using idle merge limits None known fp validatePrivateRequest_OK [OF req] same_but_admitted_sel [OF same]
      by (intro publishMerge_inv [OF wt_inv_same_but_admitted [OF inv same] H, of req sh fp admitted res])
        (auto simp: receiptFor_def)
  qed
qed

lemma prepareTx_inv:
  assumes inv: "wt_inv st" and H: "good_hash H"
    and req: "validatePrivateRequest (pp_operation_id req) (pp_credential req) = OK" and fp: "length fp = 32"
    and run: "prepareTx H req fp e st = (Inr (res, st'), e')"
  shows "wt_inv st'"
proof -
  obtain sh where auth: "authorizeShell H st (pp_credential req) = Inr sh"
    using run by (auto simp: prepareTx_def tx_simps)
  then have known: "map_of (st_shells st) (cr_shell_id (pp_credential req)) = Some sh"
    by (simp add: authorizeShell_eq_Inr)
  show ?thesis
  proof (cases "receiptFor st (cr_shell_id (pp_credential req)) (pp_operation_id req)")
    case (Some r)
    with run auth inv show ?thesis
      by (auto simp: prepareTx_def tx_simps if_tx_run split: if_splits)
  next
    case None
    with run auth have "pd_kind (sh_pending sh) = PendingNone" "sh_conflict sh = None" "sh_unpublished sh = []"
      "preparePull H req fp sh st = Inr (res, st')"
      by (auto simp: prepareTx_def tx_simps if_tx_run split: if_splits)
    with None known fp validatePrivateRequest_OK [OF req] show ?thesis
      by (intro preparePull_inv [OF inv H]) auto
  qed
qed

lemma resolveTx_inv:
  assumes inv: "wt_inv st" and H: "good_hash H"
    and req: "validatePrivateRequest (rq_operation_id req) (rq_credential req) = OK"
    and run: "resolveTx H req sn e st = (Inr (res, st'), e')"
  shows "wt_inv st'"
proof -
  obtain sh st1 e1 st2 e2 observed where auth: "authorizeShell H st (rq_credential req) = Inr sh"
    and seed: "seedRegistryFromState e st = (Inr ((), st1), e1)"
    and adm: "admittedSnapshot sh sn e1 st1 = (Inr (observed, st2), e2)"
    using run by (auto simp: resolveTx_def tx_simps)
  let ?fp = "fingerprintParts H ''resolve'' [JIdentity (rq_conflict req), JToken (rq_token req), JStates observed]"
  have known: "map_of (st_shells st) (cr_shell_id (rq_credential req)) = Some sh"
    using auth by (simp add: authorizeShell_eq_Inr)
  have same: "same_but_admitted st st2"
    using seed_same_but_admitted [OF seed] admittedSnapshot_run [OF adm]
    by (blast intro: same_but_admitted_trans)
  note inv2 = wt_inv_same_but_admitted [OF inv same]
  show ?thesis
  proof (cases "receiptFor st2 (cr_shell_id (rq_credential req)) (rq_operation_id req)")
    case (Some r)
    with run auth seed adm inv2 show ?thesis
      by (auto simp: resolveTx_def tx_simps if_tx_run Let_def split: if_splits)
  next
    case None
    with run auth seed adm have "resolveShared H req ?fp sh observed st2 = Inr (res, st')"
      by (auto simp: resolveTx_def tx_simps Let_def)
    with None known validatePrivateRequest_OK [OF req] same_but_admitted_sel [OF same] show ?thesis
      by (intro resolveShared_inv [OF inv2 H _ _ fingerprintParts_length [OF H]]) auto
  qed
qed

lemma acknowledgeTx_inv:
  assumes inv: "wt_inv st" and H: "good_hash H"
    and req: "validatePrivateRequest (ak_operation_id req) (ak_credential req) = OK"
    and run: "acknowledgeTx H req sn e st = (Inr (res, st'), e')"
  shows "wt_inv st'"
proof -
  obtain sh st1 e1 st2 e2 observed where auth: "authorizeShell H st (ak_credential req) = Inr sh"
    and seed: "seedRegistryFromState e st = (Inr ((), st1), e1)"
    and adm: "admittedSnapshot sh sn e1 st1 = (Inr (observed, st2), e2)"
    using run by (auto simp: acknowledgeTx_def tx_simps)
  let ?fp = "fingerprintParts H ''acknowledge'' [JRevision (ak_revision req), JToken (ak_token req), JStates observed]"
  have known: "map_of (st_shells st) (cr_shell_id (ak_credential req)) = Some sh"
    using auth by (simp add: authorizeShell_eq_Inr)
  note f = admittedSnapshot_run [OF adm]
  have same: "same_but_admitted st st2"
    using seed_same_but_admitted [OF seed] f by (blast intro: same_but_admitted_trans)
  note inv2 = wt_inv_same_but_admitted [OF inv same]
  show ?thesis
  proof (cases "receiptFor st2 (cr_shell_id (ak_credential req)) (ak_operation_id req)")
    case (Some r)
    with run auth seed adm inv2 show ?thesis
      by (auto simp: acknowledgeTx_def tx_simps if_tx_run Let_def split: if_splits)
  next
    case None
    with run auth seed adm have "acknowledge H req ?fp sh observed st2 = Inr (res, st')"
      by (auto simp: acknowledgeTx_def tx_simps Let_def)
    with None known f validatePrivateRequest_OK [OF req] same_but_admitted_sel [OF same] show ?thesis
      by (intro acknowledge_inv [OF inv2 H _ _ _ fingerprintParts_length [OF H]]) auto
  qed
qed

end
