(* ===== verification/WorkflowInv.thy ===== *)
theory WorkflowInv
  imports ShellInv
begin

text \<open>
  The repository-facing operations keep the invariant, and so do the conversions to and
  from the durable form and the projection of a recovered persistence error.
\<close>

lemma fst_comp_second [simp]: "fst \<circ> (\<lambda>(k, v). (k, g k v)) = fst"
  by (auto simp: fun_eq_iff)

lemma keys_second: "fst ` set (map (\<lambda>(k, v). (k, g k v)) m) = fst ` set m"
  by (metis fst_comp_second list.map_comp set_map)

section \<open>Workflow operation names are tokens\<close>

lemma decimal_token: "list_all token_rest (decimal n)"
proof (induction n rule: decimal.induct)
  case (1 n)
  have digit: "token_rest (char_of (48 + d))" if "d < 10" for d :: nat
  proof -
    have "\<forall>d \<in> set [0..<10]. token_rest (char_of (48 + d :: nat))" by code_simp
    with that show ?thesis by simp
  qed
  show ?case
  proof (cases "n < 10")
    case True
    then show ?thesis using digit [of n] by (simp add: decimal.simps [of n])
  next
    case False
    then show ?thesis using 1 digit [of "n mod 10"] by (simp add: decimal.simps [of n])
  qed
qed

lemma decimal_length: "n < 10 ^ Suc k \<Longrightarrow> length (decimal n) \<le> Suc k"
proof (induction k arbitrary: n)
  case 0
  then show ?case by (simp add: decimal.simps [of n])
next
  case (Suc k)
  show ?case
  proof (cases "n < 10")
    case True
    then show ?thesis by (simp add: decimal.simps [of n])
  next
    case False
    have "n div 10 < 10 ^ Suc k"
      using Suc.prems by (intro less_mult_imp_div_less) simp
    then have "length (decimal (n div 10)) \<le> Suc k" by (rule Suc.IH)
    with False show ?thesis by (simp add: decimal.simps [of n])
  qed
qed

lemma workflowOperation_token:
  assumes "operation = ''checkout'' \<or> operation = ''reset''"
  shows "validStateToken (workflowOperation operation next)"
proof -
  have "unat next < 2 ^ 64" using unsigned_less [of "next", where ?'a = nat] by simp
  then have "unat next < 10 ^ Suc 19" by (rule less_le_trans) simp
  then have len: "length (decimal (unat next)) \<le> 20" using decimal_length [of _ 19] by simp
  have parts: "is_alnum CHR ''w''" "list_all token_rest ''orkflow-checkout:''"
    "list_all token_rest ''orkflow-reset:''"
    by code_simp+
  show ?thesis
    using assms parts len decimal_token
    by (auto simp: workflowOperation_def validStateToken_def liveTokenRE_def MaxResolutionTokenBytes_def)
qed

section \<open>Adopting an object\<close>

lemma NewCommittedWorktree_ok:
  "validateCommitted c = OK \<Longrightarrow>
     validateCommitted (NewCommittedWorktree (cw_source c) (cw_projection c)) = OK"
  using validateCommitted_clone by (simp add: cloneCommitted_def)

lemma adoptObject_inv:
  "wt_inv st \<Longrightarrow> stateOIDRE oid \<Longrightarrow> validateCommitted exact = OK \<Longrightarrow> wt_inv (adoptObject oid exact st)"
  by (auto simp: wt_inv_def adoptObject_def frame_inv_def receipts_inv_def NewCommittedWorktree_ok
      intro: hist_inv_cong)

lemma seedOrRecover_run:
  "seedOrRecover e st = (Inr (u, st'), e') \<longleftrightarrow> seedRegistryFromState e st = (Inr (u, st'), e')"
  by (simp add: seedOrRecover_def tx_simps)

lemma seed_inv: "seedRegistryFromState e st = (Inr (u, st'), e') \<Longrightarrow> wt_inv st \<Longrightarrow> wt_inv st'"
  using seed_same_but_admitted wt_inv_same_but_admitted by blast

lemma requireMaterialized_run [tx_simps]:
  "requireMaterialized e st = (Inr (u, st'), e') \<longleftrightarrow> st_materialized st \<and> st' = st \<and> e' = e"
  by (auto simp: requireMaterialized_def tx_simps if_tx_run)

lemma repairPublishedState_inv:
  assumes "repairPublishedState R e st = (Inr (u, st'), e')" "wt_inv st"
  shows "wt_inv st'"
  using assms
  by (auto simp: repairPublishedState_def tx_simps if_tx_run seedOrRecover_run acceptsObject_def
      split: if_splits intro: seed_inv adoptObject_inv)

lemma recoverT_run [tx_simps]:
  "recoverT res e st = (Inr (u, st'), e') \<longleftrightarrow>
     st' = st \<and> e' = e\<lparr>sv_commit := (res\<lparr>cm_recovery := True\<rparr>, snd (sv_commit e))\<rparr>"
  by (auto simp: recoverT_def)

lemma adoptCommit_inv:
  assumes run: "adoptCommit R res e st = (Inr (u, st'), e')" and inv: "wt_inv st"
  shows "wt_inv st'"
proof (cases "stateOIDRE (cm_oid res)")
  case False
  with run inv show ?thesis by (auto simp: adoptCommit_def Let_def tx_simps)
next
  case True
  obtain read r where rp: "rp_read R (cm_oid res) (sv_repo e) = (read, r)" by fastforce
  let ?e = "e\<lparr>sv_repo := r\<rparr>"
  show ?thesis
  proof (cases read)
    case (Inl x)
    with True run rp inv show ?thesis by (auto simp: adoptCommit_def Let_def tx_simps)
  next
    case (Inr exact)
    show ?thesis
    proof (cases "acceptsObject st exact")
      case False
      with True Inr run rp inv show ?thesis by (auto simp: adoptCommit_def Let_def tx_simps if_tx_run)
    next
      case accepts: True
      let ?st = "adoptObject (cm_oid res) exact st"
      have "wt_inv ?st" using True accepts inv by (auto simp: acceptsObject_def intro: adoptObject_inv)
      obtain out e2 where seed: "seedRegistryFromState ?e ?st = (out, e2)" by fastforce
      show ?thesis
      proof (cases out)
        case (Inl err)
        with True Inr accepts run rp seed inv show ?thesis
          by (auto simp: adoptCommit_def Let_def tx_simps if_tx_run)
      next
        case (Inr y)
        with True \<open>read = Inr exact\<close> accepts run rp seed have "y = (u, st')"
          by (auto simp: adoptCommit_def Let_def tx_simps if_tx_run)
        with Inr seed \<open>wt_inv ?st\<close> show ?thesis by (auto intro: seed_inv)
      qed
    qed
  qed
qed

lemma commitTx_inv:
  assumes "commitTx R message e st = (Inr (u, st'), e')" "wt_inv st"
  shows "wt_inv st'"
  using assms
  by (auto simp: commitTx_def tx_simps if_tx_run case_prod_unfold split: if_splits option.splits
      intro: adoptCommit_inv)

section \<open>Replacing the generation\<close>

lemma rebaseShells_inv:
  assumes "shells_inv head shells" "head \<le> st_head_revision st"
  shows "shells_inv (st_head_revision st) (map (\<lambda>(sid, sh). (sid, rebasedShell st sh)) shells)"
proof -
  have "shell_inv (st_head_revision st) sid (rebasedShell st sh)"
    if "shell_inv (st_head_revision st) sid sh" for sid sh
    using that by (auto simp: shell_inv_unfold rebasedShell_def shell_frame_ok_def shell_lists_ok_def
        shell_phase_ok_def validatePending_eq_OK split: pending_kind.splits)
  moreover have "shells_inv (st_head_revision st) shells" using assms by (rule shells_inv_mono)
  ultimately show ?thesis by (auto simp: shells_inv_def)
qed

lemma replaceGeneration_hist:
  assumes inv: "wt_inv st" and doc: "validateCommitted document = OK"
    and changes: "DiffSnapshot (snap (st_shared st))
        (snap (CloneLiveStates (pr_states (cw_projection document)))) = Inr changes"
    and op: "operation = ''checkout'' \<or> operation = ''reset''"
    and st2: "st_head_revision st2 = st_head_revision st" "st_events st2 = st_events st"
      "st_compaction_floor st2 = st_compaction_floor st"
      "st_compaction_baseline st2 = st_compaction_baseline st"
      "st_shared st2 = CloneLiveStates (pr_states (cw_projection document))"
    and run: "appendGeneration operation changes st2 = Inr st3" and limits: "in_limits st3"
  shows "hist_inv st3 \<and> st_head_revision st \<le> st_head_revision st3
    \<and> (\<exists>h b f es. st3 = st2\<lparr>st_head_revision := h, st_compaction_baseline := b,
        st_compaction_floor := f, st_events := es\<rparr>)"
proof -
  let ?target = "CloneLiveStates (pr_states (cw_projection document))"
  have hist: "hist_inv st" using inv by (simp add: wt_inv_def)
  have good: "good_states ?target"
    using doc by (auto simp: validateCommitted_eq_OK validatePresentStates_eq_OK intro: good_states_clone)
  note ch = DiffSnapshot_changes [OF changes]
  show ?thesis
  proof (cases "changes = []")
    case True
    then have "live_map (st_shared st) = live_map ?target"
      using ch by (auto simp: refDiff_Nil)
    moreover have "st3 = st2" using run True by (simp add: appendGeneration_def)
    ultimately have "hist_inv st3"
      using hist good ch st2 by (auto simp: hist_inv_def history_state_ok_iff)
    moreover have "st2 = st2\<lparr>st_head_revision := st_head_revision st2,
        st_compaction_baseline := st_compaction_baseline st2,
        st_compaction_floor := st_compaction_floor st2, st_events := st_events st2\<rparr>"
      by simp
    ultimately show ?thesis using \<open>st3 = st2\<close> st2(1) by (metis order_refl)
  next
    case False
    let ?e = "\<lparr>se_revision = st_head_revision st + 1,
      se_operation_id = workflowOperation operation (st_head_revision st + 1), se_shell_id = [],
      se_changes = CloneLiveChanges changes\<rparr>"
    have top: "st_head_revision st \<noteq> MaxUint64" using hist by (simp add: hist_inv_def)
    note step = next_revision_le [OF top]
    have e: "event_ok ?e" "se_revision ?e = st_head_revision st + 1"
      using step ch workflowOperation_token [OF op] by (auto simp: event_ok_def validateChanges_clone)
    have "applyMap (live_map (st_shared st)) (refDiff (live_map (st_shared st)) (live_map ?target))
        = live_map ?target"
      by (rule applyMap_refDiff) (auto dest: live_map_Some_clone)
    then have "live_map ?target = applyMap (live_map (st_shared st)) (se_changes ?e)"
      using ch by simp
    moreover have c: "CompactStateHistory (st2\<lparr>st_shared := ?target,
        st_head_revision := st_head_revision st + 1, st_events := st_events st @ [?e]\<rparr>) = Inr st3"
      using run False st2 top
      by (auto simp: appendGeneration_def NextRevision_def bindR_eq_Inr st2(5) [symmetric] simp del: st2(5))
    ultimately have "hist_inv st3 \<and> (\<exists>b f es. st3 = st2\<lparr>st_shared := ?target,
        st_head_revision := st_head_revision st + 1, st_compaction_baseline := b,
        st_compaction_floor := f, st_events := es\<rparr>)"
      using append_event_inv [OF hist e good _ c st2(3,4) limits] by blast
    then obtain b f es where h: "hist_inv st3" and st3: "st3 = st2\<lparr>st_shared := ?target,
        st_head_revision := st_head_revision st + 1, st_compaction_baseline := b,
        st_compaction_floor := f, st_events := es\<rparr>"
      by blast
    then have eq: "st3 = st2\<lparr>st_head_revision := st_head_revision st + 1, st_compaction_baseline := b,
        st_compaction_floor := f, st_events := es\<rparr>"
      using st2(5) by (intro wt_state.equality) simp_all
    show ?thesis
    proof (intro conjI)
      show "hist_inv st3" by (rule h)
      show "st_head_revision st \<le> st_head_revision st3" using step st3 by simp
      show "\<exists>h b f es. st3 = st2\<lparr>st_head_revision := h, st_compaction_baseline := b,
          st_compaction_floor := f, st_events := es\<rparr>"
        using eq by blast
    qed
  qed
qed

lemma replaceWorkflowGeneration_inv:
  assumes inv: "wt_inv st" and names: "validStateBranch branch" "stateOIDRE oid"
    and doc: "validateCommitted document = OK"
    and op: "operation = ''checkout'' \<or> operation = ''reset''"
    and run: "replaceWorkflowGeneration branch oid document operation e st = (Inr (u, st'), e')"
    and limits: "in_limits st'"
  shows "wt_inv st'"
proof -
  let ?target = "CloneLiveStates (pr_states (cw_projection document))"
  let ?st1 = "st\<lparr>st_branch := branch, st_base_oid := oid,
    st_committed := NewCommittedWorktree (cw_source document) (cw_projection document),
    st_shared := ?target\<rparr>"
  obtain changes st2 st3 where
    changes: "DiffSnapshot (snap (st_shared st)) (snap ?target) = Inr changes"
    and seed: "\<exists>e1. seedRegistryFromState e ?st1 = (Inr ((), st2), e1)"
    and app: "appendGeneration operation changes st2 = Inr st3"
    and st': "st' = rebaseShells st3"
    using run by (auto simp: replaceWorkflowGeneration_def tx_simps Let_def seedOrRecover_run bindR_eq_Inr)
  have same: "same_but_admitted ?st1 st2" using seed seed_same_but_admitted by blast
  have admitted: "validateAdmittedIdentities (st_admitted st2) = OK"
    using seed seed_run by blast
  note sel = same_but_admitted_sel [OF same]
  obtain a m where st2: "st2 = ?st1\<lparr>st_admitted := a, st_admitted_missing := m\<rparr>"
    using same unfolding same_but_admitted_def by blast
  have l3: "in_limits st3" using limits by (simp add: st' in_limits_def rebaseShells_def)
  have "hist_inv st3 \<and> st_head_revision st \<le> st_head_revision st3
      \<and> (\<exists>h b f es. st3 = st2\<lparr>st_head_revision := h, st_compaction_baseline := b,
        st_compaction_floor := f, st_events := es\<rparr>)"
    by (rule replaceGeneration_hist [OF inv doc changes op _ _ _ _ _ app l3]) (simp_all add: sel)
  then obtain h b f es where hist: "hist_inv st3" and le: "st_head_revision st \<le> st_head_revision st3"
    and st3: "st3 = st2\<lparr>st_head_revision := h, st_compaction_baseline := b,
      st_compaction_floor := f, st_events := es\<rparr>"
    by blast
  have "shells_inv (st_head_revision st') (st_shells st')"
    using rebaseShells_inv [of "st_head_revision st" "st_shells st" st3] inv le
    by (simp add: wt_inv_def st' rebaseShells_def) (simp add: st3 st2)
  moreover have "fst ` set (st_shells st') = fst ` set (st_shells st)"
    unfolding st' rebaseShells_def st3 st2 by (simp add: keys_second del: set_map)
  moreover have "hist_inv st'" using hist by (rule hist_inv_cong) (simp_all add: st' rebaseShells_def)
  moreover have "frame_inv st'"
    using inv names admitted NewCommittedWorktree_ok [OF doc]
    by (simp add: wt_inv_def frame_inv_def st' rebaseShells_def st3 st2)
  ultimately show ?thesis
    using inv by (simp add: wt_inv_def receipts_inv_def) (simp add: st' rebaseShells_def st3 st2)
qed

lemma checkoutTx_inv:
  assumes run: "checkoutTx R branch create e st = (Inr (u, st'), e')" and inv: "wt_inv st"
    and branch: "validStateBranch branch" and limits: "in_limits st'"
  shows "wt_inv st'"
proof -
  obtain st1 e1 e2 oid target where
    repair: "repairPublishedState R e st = (Inr ((), st1), e1)"
    and names: "stateOIDRE oid" and doc: "validateCommitted target = OK"
    and replace: "replaceWorkflowGeneration branch oid target ''checkout'' e2 st1 = (Inr (u, st'), e')"
    using run by (auto simp: checkoutTx_def tx_simps if_tx_run split: if_splits)
  show ?thesis
    by (rule replaceWorkflowGeneration_inv [OF repairPublishedState_inv [OF repair inv] branch names doc
          _ replace limits]) simp
qed

lemma resetTx_inv:
  assumes run: "resetTx R e st = (Inr (u, st'), e')" and inv: "wt_inv st" and limits: "in_limits st'"
  shows "wt_inv st'"
proof -
  have names: "validStateBranch (st_branch st)" "stateOIDRE (st_base_oid st)"
    using inv by (simp_all add: wt_inv_def frame_inv_def)
  obtain e1 target where doc: "validateCommitted target = OK"
    and replace: "replaceWorkflowGeneration (st_branch st) (st_base_oid st) target ''reset'' e1 st
      = (Inr (u, st'), e')"
    using run by (auto simp: resetTx_def tx_simps if_tx_run split: if_splits)
  show ?thesis
    by (rule replaceWorkflowGeneration_inv [OF inv names doc _ replace limits]) simp
qed

section \<open>Copying and projecting\<close>

lemma normShell_inv: "shell_inv head sid sh \<Longrightarrow> shell_inv head sid (normShell sh)"
  using normShell_ok [of sid sh head]
  by (auto simp: shell_inv_def shell_bytes_def pending_bytes_def normShell_def normPending_def)

lemma history_records_clone:
  "history_records b es \<Longrightarrow> history_records (CloneLiveStates b) (cloneEvents es)"
  unfolding history_records_def
proof (intro allI impI)
  fix k
  assume r: "\<forall>k \<le> length es. card (dom (applyMap (live_map b) (events_changes (take k es)))) \<le> MaxSnapshotRecords"
    and k: "k \<le> length (cloneEvents es)"
  have "take k (cloneEvents es) = cloneEvents (take k es)" by (simp add: cloneEvents_def take_map)
  moreover have "k \<le> length es" using k by (simp add: cloneEvents_def)
  ultimately show "card (dom (applyMap (live_map (CloneLiveStates b))
      (events_changes (take k (cloneEvents es))))) \<le> MaxSnapshotRecords"
    using r by (simp only: live_map_clone events_changes_clone)
qed

lemma receipts_wf_norm: "receipts_wf shells rs \<Longrightarrow> receipts_wf shells (map normReceipt rs)"
proof -
  assume wf: "receipts_wf shells rs"
  have "validateReceiptUnion (normReceipt r) = validateReceiptUnion r" for r
    unfolding validateReceiptUnion_def normReceipt_sel count_some_map option.map_disc_iff ..
  moreover have "receipts_of sid (map normReceipt rs) = map normReceipt (receipts_of sid rs)" for sid
    by (induction rs) (auto simp: normReceipt_sel)
  moreover have "map receiptKey (map normReceipt rs) = map receiptKey rs"
    by (simp add: receiptKey_def normReceipt_sel)
  ultimately show ?thesis
    using wf by (auto simp: receipts_wf_def receipt_ok_def normReceipt_sel simp del: map_map)
qed

lemma wt_inv_norm:
  assumes "wt_inv st"
  shows "wt_inv (normState st)"
proof -
  have "hist_inv (normState st)"
  proof -
    have "history_state_ok (normState st)"
      using assms history_state_ok_norm by (simp add: wt_inv_def hist_inv_def)
    moreover have "history_records (st_compaction_baseline (normState st)) (st_events (normState st))"
      using assms history_records_clone by (simp add: wt_inv_def hist_inv_def normState_def)
    ultimately show ?thesis
      using assms by (simp add: wt_inv_def hist_inv_def) (simp add: normState_def)
  qed
  moreover have "frame_inv (normState st)"
  proof -
    have "validateAdmittedIdentities [] = OK" by (simp add: validateAdmittedIdentities_def)
    then show ?thesis
      using assms by (auto simp: wt_inv_def frame_inv_def normState_def validateCommitted_clone)
  qed
  moreover have "shells_inv (st_head_revision st) (st_shells (normState st))"
    using assms by (auto simp: wt_inv_def shells_inv_def normState_def intro: normShell_inv)
  moreover have "fst ` set (st_shells (normState st)) = fst ` set (st_shells st)"
    unfolding normState_def by (simp add: keys_second del: set_map)
  moreover have "length (or_fingerprint (normReceipt r)) = length (or_fingerprint r)" for r
    by (simp add: normReceipt_def)
  ultimately show ?thesis
    using assms receipts_wf_norm
    by (simp add: wt_inv_def receipts_inv_def) (simp add: normState_def)
qed

lemma project_inv:
  assumes "wt_inv st"
  shows "wt_inv (projectRecoveredPersistence st)"
proof -
  have "shell_inv head sid (sh\<lparr>sh_recovered := RecoveredPersistence\<rparr>)" if "shell_inv head sid sh" for head sid sh
    using that by (auto simp: shell_inv_unfold shell_frame_ok_def shell_lists_ok_def shell_phase_ok_def
        validatePending_eq_OK split: pending_kind.splits)
  then have "shells_inv (st_head_revision st) (st_shells (projectRecoveredPersistence st))"
    using assms by (auto simp: wt_inv_def shells_inv_def projectRecoveredPersistence_def)
  moreover have "fst ` set (st_shells (projectRecoveredPersistence st)) = fst ` set (st_shells st)"
    unfolding projectRecoveredPersistence_def by (simp add: keys_second del: set_map)
  moreover have "hist_inv (projectRecoveredPersistence st)"
    using assms by (auto simp: wt_inv_def projectRecoveredPersistence_def intro: hist_inv_cong)
  ultimately show ?thesis
    using assms by (simp add: wt_inv_def receipts_inv_def frame_inv_def)
      (simp add: projectRecoveredPersistence_def)
qed

section \<open>Materialization\<close>

lemma materializeCandidate_inv:
  assumes "materializeCandidate branch oid canonical = Inr c"
  shows "wt_inv c"
proof -
  obtain changes shared where shared: "applyStateChanges [] changes = Inr shared"
    and c: "c = materializedState branch oid canonical shared changes"
    and v: "ValidateState c = OK"
    using assms by (auto simp: materializeCandidate_def bindR_eq_Inr orErr_eq_Inr Let_def)
  from applyStateChanges_spec [OF shared] have g: "good_states shared"
    and m: "live_map shared = applyMap Map.empty changes" by auto
  have "st_materialized c" by (simp add: c materializedState_def)
  then have parts: "materialized_ok c" "history_state_ok c" "st_schema_version c = StateSchemaVersion"
    using v by (auto simp: ValidateState_materialized)
  then have "length shared \<le> MaxSnapshotRecords"
    by (auto simp: history_state_ok_iff c materializedState_def within_bounds_def)
  then have "history_records [] (st_events c)"
    using good_states_card [OF g] m
    by (auto simp: history_records_def c materializedState_def le_Suc_eq)
  then show ?thesis
    using parts
    by (auto simp: wt_inv_def frame_inv_def hist_inv_def materialized_ok_def shells_inv_def
        receipts_inv_def receipts_wf_def)
      (auto simp: c materializedState_def)
qed

lemma materializeTx_inv:
  assumes run: "materializeTx c e st = (Inr (u, st'), e')" and c: "wt_inv c"
    and st: "st_materialized st \<longrightarrow> wt_inv st"
  shows "wt_inv st'"
  using run st cloneState_eq [OF wt_inv_bytes [OF c]] wt_inv_norm [OF c]
  by (auto simp: materializeTx_def tx_simps if_tx_run seedOrRecover_run split: if_splits intro: seed_inv)

end
