(* ===== verification/ServiceRun.thy ===== *)
theory ServiceRun
  imports WorkflowInv
begin

text \<open>
  The service as a transition system: every operation of
  \<^verbatim>\<open>core/worktree/service.go\<close> run in its transaction, with every outcome
  of the system calls, by any number of processes that share the state file. The
  document on the disk is always one the store reads back, and the state it holds
  satisfies the invariant.
\<close>

section \<open>Documents and generations\<close>

lemma normPending_idem [simp]: "normPending (normPending p) = normPending p"
  by (simp add: normPending_def)

lemma normShell_idem [simp]: "normShell (normShell s) = normShell s"
  by (simp add: normShell_def)

lemma normReceipt_idem [simp]: "normReceipt (normReceipt r) = normReceipt r"
  by (cases "or_prepare r"; cases "or_resolve r") (simp_all add: normReceipt_def)

lemma normState_idem [simp]: "normState (normState st) = normState st"
  by (simp add: normState_def comp_def case_prod_unfold)

lemma toPendingDTO_norm [simp]: "toPendingDTO (normPending p) = toPendingDTO p"
  by (simp add: toPendingDTO_def normPending_def)

lemma toShellDTO_norm [simp]: "toShellDTO (normShell s) = toShellDTO s"
  by (simp add: toShellDTO_def normShell_def)

lemma toReceiptDTO_norm [simp]: "toReceiptDTO (normReceipt r) = toReceiptDTO r"
  by (cases "or_prepare r"; cases "or_resolve r") (simp_all add: toReceiptDTO_def normReceipt_def)

lemma toStateDTO_norm [simp]: "toStateDTO (normState st) = toStateDTO st"
  by (auto simp: toStateDTO_def normState_def comp_def case_prod_unfold)

definition document_of :: "wt_state \<Rightarrow> disk \<Rightarrow> bool" where
  "document_of st d \<longleftrightarrow>
     (case dk_file d of
        None \<Rightarrow> st = emptyState
      | Some dto \<Rightarrow> wt_inv st \<and> dto = toStateDTO st)"

definition disk_inv :: "disk \<Rightarrow> bool" where
  "disk_inv d \<longleftrightarrow> (\<exists>st. document_of st d)"

definition generation :: "wt_state \<Rightarrow> bool" where
  "generation st \<longleftrightarrow> wt_inv st \<or> st = emptyState"

lemma emptyState_valid: "ValidateState emptyState = OK"
  by (simp add: ValidateState_def emptyState_def StateSchemaVersion_def)

lemma readCanonical_document:
  assumes "document_of st d" "readCanonical too_large d = Inr (st', previous)"
  shows "generation st' \<and> previous = toStateDTO st' \<and> toStateDTO st' = toStateDTO st
    \<and> (dk_file d = None \<longleftrightarrow> st' = emptyState)"
proof (cases "dk_file d")
  case None
  with assms show ?thesis
    by (auto simp: readCanonical_def document_of_def MarshalState_def bindR_eq_Inr if_Inl_eq_Inr generation_def)
next
  case (Some dto)
  with assms have inv: "wt_inv st" and dto: "dto = toStateDTO st" by (auto simp: document_of_def)
  note n = wt_inv_norm [OF inv]
  have from_dto: "fromStateDTO dto = Inr (normState st)"
    using fromStateDTO_to [OF wt_inv_bytes [OF inv]] dto by simp
  have clone: "cloneState (normState st) = Some (normState st)"
    using cloneState_eq [OF wt_inv_bytes [OF n]] by simp
  have "st' = normState st \<and> previous = dto"
    using assms(2) Some from_dto clone wt_inv_valid [OF n]
    by (auto simp: readCanonical_def UnmarshalState_def split: if_splits)
  moreover have "normState st \<noteq> emptyState"
    using n by (auto simp: wt_inv_def frame_inv_def emptyState_def)
  ultimately show ?thesis using n dto Some by (simp add: generation_def)
qed

lemma readCanonical_total:
  assumes "document_of st d" "\<not> too_large (toStateDTO st)"
  shows "\<exists>st' previous. readCanonical too_large d = Inr (st', previous)"
proof (cases "dk_file d")
  case None
  with assms emptyState_valid show ?thesis
    by (auto simp: readCanonical_def document_of_def MarshalState_def)
next
  case (Some dto)
  with assms have inv: "wt_inv st" and dto: "dto = toStateDTO st" by (auto simp: document_of_def)
  note n = wt_inv_norm [OF inv]
  have "fromStateDTO dto = Inr (normState st)" "cloneState (normState st) = Some (normState st)"
    using fromStateDTO_to [OF wt_inv_bytes [OF inv]] cloneState_eq [OF wt_inv_bytes [OF n]] dto by simp_all
  with Some assms(2) dto wt_inv_valid [OF n] show ?thesis
    by (simp add: readCanonical_def UnmarshalState_def)
qed

section \<open>Callbacks that keep the invariant\<close>

definition keeps :: "('r, 'a) tx \<Rightarrow> bool" where
  "keeps m \<longleftrightarrow> (\<forall>e st x st' e'. m e st = (Inr (x, st'), e') \<longrightarrow> in_limits st'
     \<longrightarrow> (wt_inv st \<longrightarrow> wt_inv st') \<and> (st = emptyState \<longrightarrow> st' = emptyState \<or> wt_inv st'))"

lemma wt_inv_not_empty: "wt_inv st \<Longrightarrow> st \<noteq> emptyState"
  by (auto simp: wt_inv_def frame_inv_def emptyState_def)

lemma valid_limits: "ValidateState st = OK \<Longrightarrow> in_limits st"
proof (cases "st_materialized st")
  case False
  assume "ValidateState st = OK"
  with False show ?thesis
    by (auto simp: ValidateState_def in_limits_def within_bounds_def MaxUint64_def if_Inl_eq_Inr)
qed (rule valid_in_limits)

lemma project_empty [simp]: "projectRecoveredPersistence emptyState = emptyState"
  by (simp add: projectRecoveredPersistence_def emptyState_def)

lemma project_generation: "generation st \<Longrightarrow> generation (projectRecoveredPersistence st)"
  using project_inv by (auto simp: generation_def)

lemma project_limits: "in_limits (projectRecoveredPersistence st) = in_limits st"
  by (simp add: in_limits_def projectRecoveredPersistence_def)

lemma persistCanonical_file:
  "persistCanonical io previous next projected d = (out, d') \<Longrightarrow>
     dk_file d' = dk_file d \<or> (dk_file d' = Some next \<and> previous \<noteq> next)"
  by (auto simp: persistCanonical_def Let_def split: if_splits replace_outcome.splits prod.splits)

text \<open>The state with the recovery evidence of a marked disk projected into its shells.\<close>

definition recovered :: "disk \<Rightarrow> wt_state \<Rightarrow> wt_state" where
  "recovered d st = (if dk_marker d then projectRecoveredPersistence st else st)"

lemma recovered_empty [simp]: "recovered d emptyState = emptyState"
  by (simp add: recovered_def)

lemma recovered_inv: "wt_inv st \<Longrightarrow> wt_inv (recovered d st)"
  by (simp add: recovered_def project_inv)

lemma recovered_limits [simp]: "in_limits (recovered d st) = in_limits st"
  by (simp add: recovered_def project_limits)

lemma MarshalState_eq_Inr:
  "MarshalState too_large st = Inr dto \<Longrightarrow> dto = toStateDTO st \<and> ValidateState st = OK"
  by (auto simp: MarshalState_def bindR_eq_Inr if_Inl_eq_Inr split: if_splits)

text \<open>A cycle that changes the disk has read, run the callback, encoded and written.\<close>

lemma WithTransaction_run:
  assumes run: "WithTransaction too_large io m s = (out, s')" and changed: "sc_disk s' \<noteq> sc_disk s"
  shows "\<exists>st previous x st2 env nxt projected o'.
    readCanonical too_large (sc_disk s) = Inr (st, previous)
    \<and> m (sc_env s) (recovered (sc_disk s) st) = (Inr (x, st2), env)
    \<and> MarshalState too_large (recovered (sc_disk s) st2) = Inr nxt
    \<and> persistCanonical io previous nxt projected (sc_disk s) = (o', sc_disk s')"
proof (cases "bindR (raise (io_enter io)) (\<lambda>_. bindR (readCanonical too_large (sc_disk s)) (\<lambda>loaded.
    bindR (raise (io_marker io)) (\<lambda>_. Inr loaded)))")
  case (Inl e)
  with run changed show ?thesis by (auto simp: WithTransaction_def)
next
  case (Inr loaded)
  obtain st previous where l: "loaded = (st, previous)" by fastforce
  with Inr have read: "readCanonical too_large (sc_disk s) = Inr (st, previous)"
    by (auto simp: bindR_eq_Inr)
  obtain r env where mut: "m (sc_env s) (recovered (sc_disk s) st) = (r, env)" by fastforce
  show ?thesis
  proof (cases r)
    case (Inl e)
    with \<open>_ = Inr loaded\<close> l run changed mut show ?thesis
      by (auto simp: WithTransaction_def Let_def recovered_def)
  next
    case (Inr y)
    obtain x st2 where y: "y = (x, st2)" by fastforce
    show ?thesis
    proof (cases "bindR (raise (io_leave io)) (\<lambda>_. MarshalState too_large (recovered (sc_disk s) st2))")
      case (Inl e)
      with \<open>_ = Inr loaded\<close> \<open>r = Inr y\<close> y l run changed mut show ?thesis
        by (auto simp: WithTransaction_def Let_def recovered_def)
    next
      case (Inr nxt)
      then have "MarshalState too_large (recovered (sc_disk s) st2) = Inr nxt"
        by (auto simp: bindR_eq_Inr)
      moreover have "\<exists>o'. persistCanonical io previous nxt
          (dk_marker (sc_disk s) \<and> st_shells st2 \<noteq> []) (sc_disk s) = (o', sc_disk s')"
        using \<open>_ = Inr loaded\<close> \<open>r = Inr y\<close> Inr y l run mut
        by (auto simp: WithTransaction_def Let_def recovered_def split: prod.splits)
      ultimately show ?thesis using read mut \<open>r = Inr y\<close> y by blast
    qed
  qed
qed

lemma WithTransaction_inv:
  assumes m: "keeps m" and inv: "disk_inv (sc_disk s)"
    and run: "WithTransaction too_large io m s = (out, s')"
  shows "disk_inv (sc_disk s')"
proof (cases "sc_disk s' = sc_disk s")
  case True
  with inv show ?thesis by simp
next
  case False
  let ?proj = "recovered (sc_disk s)"
  obtain st0 where st0: "document_of st0 (sc_disk s)" using inv by (auto simp: disk_inv_def)
  from WithTransaction_run [OF run False] obtain st previous x st2 env nxt projected o' where
    read: "readCanonical too_large (sc_disk s) = Inr (st, previous)"
    and mut: "m (sc_env s) (?proj st) = (Inr (x, st2), env)"
    and next_eq: "MarshalState too_large (?proj st2) = Inr nxt"
    and persist: "persistCanonical io previous nxt projected (sc_disk s) = (o', sc_disk s')"
    by blast
  note rd = readCanonical_document [OF st0 read]
  note next_is = MarshalState_eq_Inr [OF next_eq]
  have limits: "in_limits st2" using valid_limits [of "?proj st2"] next_is by simp
  have step: "wt_inv (?proj st2) \<or> ?proj st2 = emptyState \<and> st = emptyState"
  proof (cases "st = emptyState")
    case True
    then have "?proj st = emptyState" by simp
    then have "st2 = emptyState \<or> wt_inv st2" using m mut limits unfolding keeps_def by metis
    with True show ?thesis using recovered_inv by auto
  next
    case False
    then have "wt_inv (?proj st)" using rd recovered_inv by (auto simp: generation_def)
    then have "wt_inv st2" using m mut limits unfolding keeps_def by metis
    then show ?thesis using recovered_inv by auto
  qed
  from persistCanonical_file [OF persist] show ?thesis
  proof
    assume "dk_file (sc_disk s') = dk_file (sc_disk s)"
    with inv show ?thesis by (simp add: disk_inv_def document_of_def)
  next
    assume "dk_file (sc_disk s') = Some nxt \<and> previous \<noteq> nxt"
    with step next_is rd show ?thesis by (auto simp: disk_inv_def document_of_def)
  qed
qed

section \<open>Every callback keeps the invariant\<close>

lemma keepsI:
  assumes "\<And>e st x st' e'. m e st = (Inr (x, st'), e') \<Longrightarrow> wt_inv st \<Longrightarrow> in_limits st' \<Longrightarrow> wt_inv st'"
    and "\<And>e x st' e'. m e emptyState = (Inr (x, st'), e') \<Longrightarrow> in_limits st' \<Longrightarrow> st' = emptyState \<or> wt_inv st'"
  shows "keeps m"
  using assms unfolding keeps_def by blast

lemma emptyState_unmaterialized [simp]: "\<not> st_materialized emptyState"
  by (simp add: emptyState_def)

lemma authorize_empty [simp]: "authorizeShell H emptyState cred = Inl ErrUnauthorized"
  by (simp add: authorizeShell_def)

lemma requireMaterialized_keeps:
  assumes "\<And>e st x st' e'. m e st = (Inr (x, st'), e') \<Longrightarrow> wt_inv st \<Longrightarrow> in_limits st' \<Longrightarrow> wt_inv st'"
  shows "keeps (bindT requireMaterialized (\<lambda>_. m))"
  using assms by (intro keepsI) (auto simp: tx_simps)

lemma attachTx_keeps:
  assumes "good_hash H" "validatePrivateRequest (ar_operation_id req) (ar_credential req) = OK" "length fp = 32"
  shows "keeps (attachTx H req initial fp)"
  by (rule keepsI) (blast intro: attachTx_inv [OF _ assms], auto simp: attachTx_def tx_simps if_tx_run)

lemma publishTx_keeps:
  assumes "good_hash H" "validatePrivateRequest (pq_operation_id req) (pq_credential req) = OK" "length fp = 32"
  shows "keeps (publishTx H req delta fp)"
  by (rule keepsI) (blast intro: publishTx_inv [OF _ assms], auto simp: publishTx_def tx_simps)

lemma prepareTx_keeps:
  assumes "good_hash H" "validatePrivateRequest (pp_operation_id req) (pp_credential req) = OK" "length fp = 32"
  shows "keeps (prepareTx H req fp)"
  by (rule keepsI) (blast intro: prepareTx_inv [OF _ assms], auto simp: prepareTx_def tx_simps)

lemma resolveTx_keeps:
  assumes "good_hash H" "validatePrivateRequest (rq_operation_id req) (rq_credential req) = OK"
  shows "keeps (resolveTx H req sn)"
  by (rule keepsI) (blast intro: resolveTx_inv [OF _ assms], auto simp: resolveTx_def tx_simps)

lemma acknowledgeTx_keeps:
  assumes "good_hash H" "validatePrivateRequest (ak_operation_id req) (ak_credential req) = OK"
  shows "keeps (acknowledgeTx H req sn)"
  by (rule keepsI) (blast intro: acknowledgeTx_inv [OF _ assms], auto simp: acknowledgeTx_def tx_simps)

lemma commitTx_keeps: "keeps (commitTx R message)"
  by (rule keepsI) (blast intro: commitTx_inv, auto simp: commitTx_def tx_simps)

lemma branchesTx_keeps: "keeps (branchesTx R)"
  unfolding branchesTx_def
  by (rule requireMaterialized_keeps) (auto simp: tx_simps intro: repairPublishedState_inv)

lemma branchTx_keeps: "keeps (branchTx R b)"
  unfolding branchTx_def
  by (rule requireMaterialized_keeps) (auto simp: tx_simps intro: repairPublishedState_inv)

lemma repairTx_keeps: "keeps (bindT requireMaterialized (\<lambda>_. repairPublishedState R))"
  by (rule requireMaterialized_keeps) (auto intro: repairPublishedState_inv)

lemma checkoutTx_keeps: "validStateBranch b \<Longrightarrow> keeps (checkoutTx R b create)"
  by (rule keepsI) (blast intro: checkoutTx_inv, auto simp: checkoutTx_def tx_simps)

lemma resetTx_keeps: "keeps (resetTx R)"
  by (rule keepsI) (blast intro: resetTx_inv, auto simp: resetTx_def tx_simps)

lemma autoApplyTx_keeps:
  "keeps (bindT requireMaterialized (\<lambda>_. modifyT (\<lambda>st. st\<lparr>st_auto_apply_default := enabled\<rparr>)))"
  by (rule requireMaterialized_keeps)
    (auto simp: tx_simps wt_inv_def receipts_inv_def intro: frame_inv_cong hist_inv_cong, simp add: frame_inv_def)

lemma readTx_keeps: "keeps (bindT getT (\<lambda>st. liftT (c st)))"
  by (intro keepsI) (auto simp: tx_simps)

lemma materializeTx_keeps:
  assumes "materializeCandidate branch oid canonical = Inr candidate"
  shows "keeps (materializeTx candidate)"
  using materializeTx_inv [OF _ materializeCandidate_inv [OF assms]]
  by (intro keepsI) (blast, metis emptyState_unmaterialized)

section \<open>The transition system\<close>

text \<open>
  One step of the world: an operation of the service, with any request and any outcome
  of its system calls, or another process taking over, with its own registry and its own
  view of the repository, on the same disk.
\<close>

inductive service_step :: "hashing \<Rightarrow> 'r service \<Rightarrow> 'r service \<Rightarrow> bool" for H where
  step_attach: "Attach H too_large io req1 s = (r1, s') \<Longrightarrow> service_step H s s'"
| step_publish: "Publish H too_large io req2 s = (r2, s') \<Longrightarrow> service_step H s s'"
| step_prepare: "PreparePull H too_large io req3 s = (r3, s') \<Longrightarrow> service_step H s s'"
| step_resolve: "ResolveShared H too_large io req4 s = (r4, s') \<Longrightarrow> service_step H s s'"
| step_acknowledge: "Acknowledge H too_large io req5 s = (r5, s') \<Longrightarrow> service_step H s s'"
| step_commit: "Commit R too_large io message s = (r6, s') \<Longrightarrow> service_step H s s'"
| step_branches: "Branches R too_large io s = (r7, s') \<Longrightarrow> service_step H s s'"
| step_branch: "Branch R too_large io branch s = (r8, s') \<Longrightarrow> service_step H s s'"
| step_checkout: "Checkout R too_large io branch create s = (r9, s') \<Longrightarrow> service_step H s s'"
| step_reset: "ResetHard R too_large io s = (r10, s') \<Longrightarrow> service_step H s s'"
| step_auto_apply: "SetAutoApplyDefault too_large io enabled s = (r11, s') \<Longrightarrow> service_step H s s'"
| step_materialize: "Materialize too_large io branch oid committed s = (r12, s') \<Longrightarrow> service_step H s s'"
| step_status: "WorkflowStatus H repo too_large io io2 sid s = (r13, s') \<Longrightarrow> service_step H s s'"
| step_diff: "serviceDiff repo too_large io io2 s = (r14, s') \<Longrightarrow> service_step H s s'"
| step_short_status: "serviceStatus H repo too_large io io2 sid s = (r15, s') \<Longrightarrow> service_step H s s'"
| step_process: "service_step H s (s\<lparr>sc_env := env\<rparr>)"

lemma runOp_disk: "snd (runOp x) = snd x"
  by (auto simp: runOp_def split: prod.splits option.splits sum.splits)

lemma transaction_disk:
  "keeps m \<Longrightarrow> disk_inv (sc_disk s) \<Longrightarrow> disk_inv (sc_disk (snd (WithTransaction too_large io m s)))"
  using WithTransaction_inv [of m s] by (cases "WithTransaction too_large io m s") auto

lemma runOp_inv:
  "keeps m \<Longrightarrow> disk_inv (sc_disk s) \<Longrightarrow> runOp (WithTransaction too_large io m s) = (r, s') \<Longrightarrow>
     disk_inv (sc_disk s')"
  using transaction_disk [of m s too_large io] runOp_disk [of "WithTransaction too_large io m s"] by simp

lemma repairThenRead_inv:
  assumes "repairThenRead repo too_large io io2 s = (r, s')" "disk_inv (sc_disk s)"
  shows "disk_inv (sc_disk s')"
proof -
  obtain repaired s1 where r: "(case repo of None \<Rightarrow> (OK, s) | Some R \<Rightarrow> repairPublishedRef R too_large io s)
      = (repaired, s1)" by fastforce
  have "disk_inv (sc_disk s1)"
    using r assms(2) runOp_inv [OF repairTx_keeps]
    by (auto simp: repairPublishedRef_def split: option.splits)
  then show ?thesis
    using assms(1) r runOp_inv [OF readTx_keeps]
    by (auto simp: repairThenRead_def ReadState_def split: sum.splits)
qed

lemma service_step_inv:
  assumes "service_step H s s'" "good_hash H" "disk_inv (sc_disk s)"
  shows "disk_inv (sc_disk s')"
  using assms
proof (cases rule: service_step.cases)
  case (step_attach too_large io req r)
  then show ?thesis
    using assms(2,3) runOp_inv [OF attachTx_keeps [OF assms(2) _ fingerprintParts_length [OF assms(2)]] assms(3)]
    by (auto simp: Attach_def Let_def bindR_eq_Inr split: sum.splits)
next
  case (step_publish too_large io req r)
  then show ?thesis
    using assms(2,3) runOp_inv [OF publishTx_keeps [OF assms(2) _ fingerprintParts_length [OF assms(2)]] assms(3)]
    by (auto simp: Publish_def Let_def bindR_eq_Inr split: sum.splits)
next
  case (step_prepare too_large io req r)
  then show ?thesis
    using assms(2,3) runOp_inv [OF prepareTx_keeps [OF assms(2) _ fingerprintParts_length [OF assms(2)]] assms(3)]
    by (auto simp: PreparePull_def Let_def split: sum.splits)
next
  case (step_resolve too_large io req r)
  then show ?thesis
    using assms(2,3) runOp_inv [OF resolveTx_keeps [OF assms(2)] assms(3)]
    by (auto simp: ResolveShared_def Let_def split: sum.splits if_splits)
next
  case (step_acknowledge too_large io req r)
  then show ?thesis
    using assms(2,3) runOp_inv [OF acknowledgeTx_keeps [OF assms(2)] assms(3)]
    by (auto simp: Acknowledge_def Let_def split: sum.splits if_splits)
next
  case (step_commit R too_large io message r)
  then show ?thesis
    using assms(2,3) transaction_disk [OF commitTx_keeps]
    by (auto simp: Commit_def Let_def case_prod_unfold split: if_splits intro!: transaction_disk [OF commitTx_keeps])
next
  case (step_branches R too_large io r)
  then show ?thesis
    using assms(2,3) runOp_inv [OF branchesTx_keeps] by (auto simp: Branches_def split: prod.splits)
next
  case (step_branch R too_large io b r)
  then show ?thesis
    using assms(2,3) runOp_inv [OF branchTx_keeps] by (auto simp: Branch_def split: if_splits)
next
  case (step_checkout R too_large io b create r)
  then show ?thesis
    using assms(2,3) runOp_inv [OF checkoutTx_keeps] by (auto simp: Checkout_def split: if_splits)
next
  case (step_reset R too_large io r)
  then show ?thesis
    using assms(2,3) runOp_inv [OF resetTx_keeps] by (auto simp: ResetHard_def)
next
  case (step_auto_apply too_large io enabled r)
  then show ?thesis
    using assms(2,3) runOp_inv [OF autoApplyTx_keeps] by (auto simp: SetAutoApplyDefault_def)
next
  case (step_materialize too_large io b oid committed r)
  then show ?thesis
    using assms(2,3) runOp_inv [OF materializeTx_keeps] by (auto simp: Materialize_def Let_def split: sum.splits)
next
  case (step_status repo too_large io io2 sid r)
  then show ?thesis
    using assms repairThenRead_inv by (auto simp: WorkflowStatus_def Let_def split: prod.splits if_splits)
next
  case (step_short_status repo too_large io io2 sid r)
  then show ?thesis
    using assms repairThenRead_inv
    by (auto simp: serviceStatus_def WorkflowStatus_def Let_def split: prod.splits if_splits)
next
  case (step_diff repo too_large io io2 r)
  then show ?thesis
    using assms repairThenRead_inv by (auto simp: serviceDiff_def split: prod.splits)
qed simp

lemma service_run_inv:
  "(service_step H)\<^sup>*\<^sup>* s s' \<Longrightarrow> good_hash H \<Longrightarrow> disk_inv (sc_disk s) \<Longrightarrow> disk_inv (sc_disk s')"
  by (induction rule: rtranclp_induct) (blast intro: service_step_inv)+

end
