(* ===== verification/PublishFacts.thy ===== *)
theory PublishFacts
  imports ShellInv
begin

text \<open>
  What \<open>Publish\<close> does to the shared worktree, read at the level of finite maps: a
  three-way merge of the shell's capture baseline, what the shell now observes, and the
  shared state, in which a change made by another shell after the acknowledged revision
  always stands. Also the retry and authorization behaviour of the callbacks.
\<close>

section \<open>Changes against a list of states\<close>

lemma changeMatchesStates_spec:
  assumes "validateLiveChange c = OK" "good_states ss"
  shows "changeMatchesStates c ss \<longleftrightarrow> live_map ss (ch_identity c) = change_result c"
proof -
  note c = validateLiveChange_cases [OF assms(1)]
  have present: "lv_present (ls_value s)" "ValidateLiveValue (id_kind (ls_identity s)) (ls_value s) = OK"
    if "s \<in> set ss" for s
    using that assms(2) by (auto simp: good_states_def ValidateLiveIdentityState_def bindR_eq_Inr)
  have find: "s \<in> set ss \<and> ls_identity s = ch_identity c"
    if "find (\<lambda>s. ls_identity s = ch_identity c) ss = Some s" for s
    using that by (auto simp: find_Some_iff)
  have "changeMatchesStates c ss \<longleftrightarrow>
      (case find (\<lambda>s. ls_identity s = ch_identity c) ss of
         None \<Rightarrow> ch_kind c = LiveRemove
       | Some s \<Rightarrow> ch_kind c \<noteq> LiveRemove \<and> EqualLiveValue (id_kind (ch_identity c)) (ch_value c) (ls_value s))"
    by (induction c ss rule: changeMatchesStates.induct) auto
  moreover have "find (\<lambda>s. ls_identity s = ch_identity c) ss = None \<longleftrightarrow> live_map ss (ch_identity c) = None"
    using assms(2) live_map_distinct [of ss "ch_identity c"]
    by (auto simp: good_states_def find_None_iff) (metis not_Some_eq, blast)
  moreover have "live_map ss (ch_identity c) = Some (CloneLiveValue (ls_value s))"
    if "find (\<lambda>s. ls_identity s = ch_identity c) ss = Some s" for s
    using that present assms(2) live_map_distinct [of ss "ch_identity c"]
    by (auto simp: good_states_def find_Some_iff)
  moreover have "EqualLiveValue (id_kind (ch_identity c)) (ch_value c) (ls_value s)
      \<longleftrightarrow> CloneLiveValue (ch_value c) = CloneLiveValue (ls_value s)"
    if "find (\<lambda>s. ls_identity s = ch_identity c) ss = Some s" "ch_kind c \<noteq> LiveRemove" for s
    using present [of s] find [OF that(1)] that(2) c by (intro EqualLiveValue_iff_clone) auto
  ultimately show ?thesis
    by (auto simp: change_result_def split: option.splits)
qed

section \<open>Who changed what since a revision\<close>

text \<open>The identities a publish may not touch: those another shell may have changed.\<close>

definition protected_since :: "wt_state \<Rightarrow> u64 \<Rightarrow> identity set" where
  "protected_since st revision =
     (if revision < st_compaction_floor st then UNIV else changedIdentitiesAfter st revision)"

lemma losesTo_protected: "losesTo st ack c \<longleftrightarrow> ch_identity c \<in> protected_since st ack"
  by (simp add: losesTo_def protected_since_def)

text \<open>The shared map at a retained revision.\<close>

definition shared_at :: "wt_state \<Rightarrow> u64 \<Rightarrow> identity \<Rightarrow> live_value option" where
  "shared_at st revision =
     applyMap (live_map (st_compaction_baseline st))
       (events_changes (filter (\<lambda>e. se_revision e \<le> revision) (st_events st)))"

lemma event_revisions_sorted:
  assumes "validateEventsFrom (floor + 1) es = OK"
  shows "sorted (map se_revision es)"
  unfolding sorted_iff_nth_mono
proof (intro allI impI)
  fix i j
  assume "i \<le> j" "j < length (map se_revision es)"
  then show "map se_revision es ! i \<le> map se_revision es ! j"
    using validateEventsFrom_unat [OF assms] by (auto simp: word_le_nat_alt)
qed

lemma filter_sorted_prefix:
  "sorted (map key es) \<Longrightarrow>
     filter (\<lambda>e. key e \<le> r) es @ filter (\<lambda>e. \<not> key e \<le> r) es = es"
proof (induction es)
  case (Cons e es)
  show ?case
  proof (cases "key e \<le> r")
    case False
    then have "\<forall>x \<in> set es. \<not> key x \<le> r" using Cons.prems by auto
    then show ?thesis using False by (auto simp: filter_empty_conv filter_id_conv)
  qed (use Cons in auto)
qed simp

lemma shared_at_unchanged:
  assumes hist: "hist_inv st" and i: "i \<notin> changedIdentitiesAfter st revision"
  shows "live_map (st_shared st) i = shared_at st revision i"
proof -
  let ?old = "filter (\<lambda>e. se_revision e \<le> revision) (st_events st)"
  let ?new = "filter (\<lambda>e. \<not> se_revision e \<le> revision) (st_events st)"
  have "sorted (map se_revision (st_events st))"
    using hist by (auto simp: hist_inv_def history_state_ok_iff history_ok_def
        validateEventSequence_eq_OK intro: event_revisions_sorted)
  then have "events_changes (st_events st) = events_changes ?old @ events_changes ?new"
    using filter_sorted_prefix [of se_revision "st_events st" revision]
    by (metis concat_append map_append)
  moreover have "live_map (st_shared st) = applyMap (live_map (st_compaction_baseline st))
      (events_changes (st_events st))"
    using hist by (auto simp: hist_inv_def history_state_ok_iff)
  moreover have "i \<notin> ch_identity ` set (events_changes ?new)"
    using i by (auto simp: changedIdentitiesAfter_def)
  ultimately show ?thesis by (simp add: shared_at_def applyMap_append applyMap_other)
qed

text \<open>So a protected identity is exactly what may have moved.\<close>

lemma moved_is_protected:
  assumes "hist_inv st" "live_map (st_shared st) i \<noteq> shared_at st revision i"
  shows "i \<in> protected_since st revision"
  using assms shared_at_unchanged by (auto simp: protected_since_def)

section \<open>Publish as a three-way merge\<close>

definition three_way ::
  "identity set \<Rightarrow> (identity \<Rightarrow> live_value option) \<Rightarrow> (identity \<Rightarrow> live_value option)
     \<Rightarrow> (identity \<Rightarrow> live_value option) \<Rightarrow> identity \<Rightarrow> live_value option" where
  "three_way blocked base mine theirs =
     (\<lambda>i. if mine i = base i \<or> i \<in> blocked then theirs i else mine i)"

text \<open>The identities the shell changed to something the shared state does not hold.\<close>

definition contested ::
  "(identity \<Rightarrow> live_value option) \<Rightarrow> (identity \<Rightarrow> live_value option)
     \<Rightarrow> (identity \<Rightarrow> live_value option) \<Rightarrow> identity set" where
  "contested base mine theirs = {i. mine i \<noteq> base i \<and> mine i \<noteq> theirs i}"

lemma semantic_facts:
  assumes "DiffSnapshot (snap (sh_capture_baseline sh)) (snap observed) = Inr semantic"
  shows "semantic = refDiff (live_map (sh_capture_baseline sh)) (live_map observed)"
    "validateChanges semantic = OK"
  using DiffSnapshot_changes [OF assms] by auto

lemma semantic_result:
  assumes "DiffSnapshot (snap (sh_capture_baseline sh)) (snap observed) = Inr semantic" "c \<in> set semantic"
  shows "change_result c = live_map observed (ch_identity c)
    \<and> live_map observed (ch_identity c) \<noteq> live_map (sh_capture_baseline sh) (ch_identity c)
    \<and> validateLiveChange c = OK"
proof -
  have r: "refChange (live_map (sh_capture_baseline sh)) (live_map observed) (ch_identity c) = Some c"
    using assms(2) semantic_facts(1) [OF assms(1)] by (simp add: set_refDiff)
  then have "change_result c = live_map observed (ch_identity c)"
    by (rule refChange_result) (rule live_map_Some_clone)
  moreover have "live_map observed (ch_identity c) \<noteq> live_map (sh_capture_baseline sh) (ch_identity c)"
    using r refChange_None [of "live_map (sh_capture_baseline sh)" "live_map observed" "ch_identity c"]
    by (metis option.distinct(1))
  ultimately show ?thesis
    using assms(2) semantic_facts(2) [OF assms(1)] by (simp add: validateChanges_eq_OK)
qed

lemma semantic_identities:
  assumes "DiffSnapshot (snap (sh_capture_baseline sh)) (snap observed) = Inr semantic"
  shows "ch_identity ` set semantic = {i. live_map observed i \<noteq> live_map (sh_capture_baseline sh) i}"
proof -
  have "i \<in> ch_identity ` set semantic"
    if ne: "live_map observed i \<noteq> live_map (sh_capture_baseline sh) i" for i
  proof -
    obtain c where "refChange (live_map (sh_capture_baseline sh)) (live_map observed) i = Some c"
      using ne refChange_None [of "live_map (sh_capture_baseline sh)" "live_map observed" i]
      by (metis not_Some_eq)
    moreover from this have "ch_identity c = i" by (rule refChange_identity)
    ultimately have "c \<in> set semantic" by (simp add: semantic_facts(1) [OF assms] set_refDiff)
    with \<open>ch_identity c = i\<close> show ?thesis by blast
  qed
  then show ?thesis using semantic_result [OF assms] by auto
qed

lemma pending_identities:
  assumes "good_states (st_shared st)"
    and "DiffSnapshot (snap (sh_capture_baseline sh)) (snap observed) = Inr semantic"
  shows "ch_identity ` set (pendingChanges st semantic)
     = contested (live_map (sh_capture_baseline sh)) (live_map observed) (live_map (st_shared st))"
proof -
  have "ch_identity ` set (pendingChanges st semantic) =
      {i \<in> ch_identity ` set semantic. live_map observed i \<noteq> live_map (st_shared st) i}"
    using semantic_result [OF assms(2)] changeMatchesStates_spec [OF _ assms(1)]
    by (auto simp: pendingChanges_def)
  then show ?thesis by (auto simp: semantic_identities [OF assms(2)] contested_def)
qed

lemma accepted_identities:
  assumes "good_states (st_shared st)"
    and "DiffSnapshot (snap (sh_capture_baseline sh)) (snap observed) = Inr semantic"
  shows "ch_identity ` set (acceptedChanges st ack semantic)
     = contested (live_map (sh_capture_baseline sh)) (live_map observed) (live_map (st_shared st))
       - protected_since st ack"
  unfolding pending_identities [OF assms, symmetric] by (auto simp: acceptedChanges_def losesTo_protected)

lemma losing_identities:
  assumes "good_states (st_shared st)"
    and "DiffSnapshot (snap (sh_capture_baseline sh)) (snap observed) = Inr semantic"
  shows "ch_identity ` set (losingChanges st ack semantic)
     = contested (live_map (sh_capture_baseline sh)) (live_map observed) (live_map (st_shared st))
       \<inter> protected_since st ack"
  unfolding pending_identities [OF assms, symmetric] by (auto simp: losingChanges_def losesTo_protected)

lemma applyMap_accepted:
  assumes "good_states (st_shared st)"
    and "DiffSnapshot (snap (sh_capture_baseline sh)) (snap observed) = Inr semantic"
  shows "applyMap (live_map (st_shared st)) (acceptedChanges st ack semantic)
     = three_way (protected_since st ack) (live_map (sh_capture_baseline sh))
         (live_map observed) (live_map (st_shared st))"
proof
  fix i
  let ?acc = "acceptedChanges st ack semantic"
  have d: "distinct (map ch_identity ?acc)"
    using semantic_facts(2) [OF assms(2)]
    by (auto simp: validateChanges_eq_OK acceptedChanges_def pendingChanges_def distinct_map_filter)
  show "applyMap (live_map (st_shared st)) ?acc i
     = three_way (protected_since st ack) (live_map (sh_capture_baseline sh))
         (live_map observed) (live_map (st_shared st)) i"
  proof (cases "i \<in> ch_identity ` set ?acc")
    case True
    then obtain c where c: "c \<in> set ?acc" "ch_identity c = i" by auto
    then have "applyMap (live_map (st_shared st)) ?acc i = live_map observed i"
      using applyMap_one [OF d c(1)] semantic_result [OF assms(2), of c]
      by (auto simp: acceptedChanges_def pendingChanges_def)
    with True show ?thesis by (simp add: accepted_identities [OF assms] three_way_def contested_def)
  next
    case False
    then show ?thesis
      by (auto simp: applyMap_other accepted_identities [OF assms] three_way_def contested_def)
  qed
qed

lemma CompactStateHistory_head:
  "CompactStateHistory st = Inr st' \<Longrightarrow> st_head_revision st' = st_head_revision st"
  by (auto simp: CompactStateHistory_def bindR_eq_Inr split: if_splits)

lemma commitAccepted_head:
  "commitAccepted opid sid accepted st = Inr st1 \<Longrightarrow>
     st_head_revision st1 = st_head_revision st + (if accepted = [] then 0 else 1)"
  by (auto simp: commitAccepted_def bindR_eq_Inr NextRevision_def if_Inl_eq_Inr
      dest!: CompactStateHistory_head)

text \<open>The whole merge, from the capture baseline and the admitted changes of a shell.\<close>

lemma publishMerge_spec:
  assumes inv: "wt_inv st"
    and known: "map_of (st_shells st) (cr_shell_id (pq_credential req)) = Some sh"
    and tokens: "validStateToken (pq_operation_id req)"
    and run: "publishMerge H req fp sh admitted st = Inr (res, st')" and limits: "in_limits st'"
  defines "ack \<equiv> pq_acknowledged_revision req"
    and "base \<equiv> live_map (sh_capture_baseline sh)" and "theirs \<equiv> live_map (st_shared st)"
  shows "\<exists>mine. mine = applyMap base admitted
    \<and> live_map (st_shared st') = three_way (protected_since st ack) base mine theirs
    \<and> set (pb_accepted res) = contested base mine theirs - protected_since st ack
    \<and> cf_identity ` set (pb_conflicts res) = contested base mine theirs \<inter> protected_since st ack
    \<and> (\<exists>sh'. map_of (st_shells st') (cr_shell_id (pq_credential req)) = Some sh'
        \<and> live_map (sh_capture_baseline sh') = mine
        \<and> ch_identity ` set (sh_unpublished sh') =
            (if pb_conflicts res = [] then ch_identity ` set (sh_unpublished sh)
             else cf_identity ` set (pb_conflicts res)))
    \<and> st_head_revision st' = st_head_revision st + (if pb_accepted res = [] then 0 else 1)"
proof -
  let ?sid = "cr_shell_id (pq_credential req)"
  obtain observed semantic st1 where
    observed: "applyStateChanges (sh_capture_baseline sh) admitted = Inr observed"
    and semantic: "DiffSnapshot (snap (sh_capture_baseline sh)) (snap observed) = Inr semantic"
    and st1: "commitAccepted (pq_operation_id req) ?sid (acceptedChanges st ack semantic) st = Inr st1"
    and res: "res = \<lparr>pb_shared_revision = st_head_revision st1,
        pb_accepted = map ch_identity (acceptedChanges st ack semantic),
        pb_conflicts = publishConflicts H req fp (ack < st_compaction_floor st)
          (st_head_revision st1) (losingChanges st ack semantic)\<rparr>"
    and st': "st' = appendReceipt
        ((emptyReceipt ?sid (pq_operation_id req) ReceiptPublish fp)\<lparr>or_publish := Some res\<rparr>)
        (putShell ?sid (publishedShell sh observed (losingChanges st ack semantic)
          (pb_conflicts res) (st_head_revision st1)) st1)"
    using run by (auto simp: publishMerge_def bindR_eq_Inr Let_def ack_def)
  have good: "good_states (st_shared st)"
    using shared_present [OF inv] by (simp add: validatePresentStates_eq_OK)
  have sid: "validStateToken ?sid"
    using shell_of_state [OF inv known] by (simp add: shell_inv_unfold shell_frame_ok_def)
  have mine: "live_map observed = applyMap base admitted"
    using applyStateChanges_spec [OF observed] by (simp add: base_def)
  have changes: "validateChanges (acceptedChanges st ack semantic) = OK"
    using DiffSnapshot_changes [OF semantic]
    by (auto simp: acceptedChanges_def pendingChanges_def validateChanges_filter)
  have l1: "in_limits st1" using limits by (simp add: st' in_limits_def putShell_def)
  note c = commitAccepted_inv [OF inv st1 tokens sid changes l1]
  have merged: "live_map (st_shared st') = three_way (protected_since st ack) base
      (live_map observed) theirs"
    using c applyMap_accepted [OF good semantic, of ack]
    by (simp add: st' putShell_def base_def theirs_def)
  have accepted: "set (pb_accepted res) = contested base (live_map observed) theirs - protected_since st ack"
    using accepted_identities [OF good semantic, of ack] by (simp add: res base_def theirs_def)
  have "cf_identity ` set (pb_conflicts res) = ch_identity ` set (losingChanges st ack semantic)"
    by (simp add: res publishConflicts_def image_image)
  then have conflicts: "cf_identity ` set (pb_conflicts res)
      = contested base (live_map observed) theirs \<inter> protected_since st ack"
    using losing_identities [OF good semantic, of ack] by (simp add: base_def theirs_def)
  have shell: "map_of (st_shells st') ?sid = Some (publishedShell sh observed (losingChanges st ack semantic)
      (pb_conflicts res) (st_head_revision st1))"
    by (simp add: st' putShell_def)
  have nil: "pb_conflicts res = [] \<longleftrightarrow> losingChanges st ack semantic = []"
    by (simp add: res publishConflicts_def)
  have head: "st_head_revision st' = st_head_revision st + (if pb_accepted res = [] then 0 else 1)"
    using commitAccepted_head [OF st1] by (simp add: st' putShell_def res)
  show ?thesis
    using merged accepted conflicts shell nil head mine losing_identities [OF good semantic, of ack]
    by (intro exI [of _ "live_map observed"] conjI exI [of _ "publishedShell sh observed
        (losingChanges st ack semantic) (pb_conflicts res) (st_head_revision st1)"])
      (simp_all add: publishedShell_def Let_def CloneLiveChanges_def image_image base_def theirs_def)
qed

end
