(* ===== verification/ShellFacts.thy ===== *)
theory ShellFacts
  imports PublishFacts
begin

text \<open>
  The contracts the five shell operations share: a request without the capability of its
  shell is refused and changes nothing; a request that is sent again is answered from its
  receipt, and a different request under the same operation ID is refused. Then what each
  operation does to the shell and the shared state.
\<close>

section \<open>Unauthorized requests\<close>

lemma authorizeShell_error: "authorizeShell H st cred = Inl err \<Longrightarrow> err = ErrUnauthorized"
  by (auto simp: authorizeShell_def Let_def split: if_splits option.splits)

definition refuses :: "('r, 'a) tx \<Rightarrow> 'r service_env \<Rightarrow> wt_state \<Rightarrow> bool" where
  "refuses m e st \<longleftrightarrow> m e st = (Inl ErrUnauthorized, e)"

lemma authorize_refuses:
  "authorizeShell H st cred = Inl err \<Longrightarrow>
     refuses (bindT getT (\<lambda>st. bindT (liftT (authorizeShell H st cred)) (f st))) e st"
  by (auto simp: refuses_def bindT_def getT_def liftT_def failT_def dest: authorizeShell_error)

lemma publishTx_refuses:
  "authorizeShell H st (pq_credential req) = Inl err \<Longrightarrow> refuses (publishTx H req delta fp) e st"
  unfolding publishTx_def by (rule authorize_refuses)

lemma prepareTx_refuses:
  "authorizeShell H st (pp_credential req) = Inl err \<Longrightarrow> refuses (prepareTx H req fp) e st"
  unfolding prepareTx_def by (rule authorize_refuses)

lemma resolveTx_refuses:
  "authorizeShell H st (rq_credential req) = Inl err \<Longrightarrow> refuses (resolveTx H req sn) e st"
  unfolding resolveTx_def by (rule authorize_refuses)

lemma acknowledgeTx_refuses:
  "authorizeShell H st (ak_credential req) = Inl err \<Longrightarrow> refuses (acknowledgeTx H req sn) e st"
  unfolding acknowledgeTx_def by (rule authorize_refuses)

section \<open>Receipts make an operation repeatable\<close>

text \<open>
  The interface of an operation that records a receipt: \<open>run\<close> executes a request,
  \<open>asks\<close> says that a request carries the operation ID and the credential in question,
  \<open>stamp\<close> is its fingerprint, and \<open>answer\<close> reads the recorded result.
\<close>

locale recorded_operation =
  fixes run :: "'q \<Rightarrow> ('r, 'a) tx"
    and asks :: "'q \<Rightarrow> bool"
    and stamp :: "'q \<Rightarrow> fingerprint"
    and may :: "wt_state \<Rightarrow> bool"
    and receipt :: "wt_state \<Rightarrow> operation_receipt option"
    and answer :: "operation_receipt \<Rightarrow> 'a option"
  assumes authorized: "asks q \<Longrightarrow> run q e st = (Inr (x, st'), e') \<Longrightarrow> receipt st = Some r \<Longrightarrow> may st"
    and found: "asks q \<Longrightarrow> may st \<Longrightarrow> receipt st = Some r \<Longrightarrow> run q e st =
      (if or_fingerprint r \<noteq> stamp q \<or> answer r = None then (Inl ErrOperationReplay, e)
       else (Inr (the (answer r), st), e))"
    and records: "asks q \<Longrightarrow> run q e st = (Inr (x, st'), e') \<Longrightarrow> receipt st = None \<Longrightarrow>
      may st' \<and> (\<exists>r. receipt st' = Some r \<and> or_fingerprint r = stamp q \<and> answer r = Some x)"
begin

lemma after_run:
  assumes q: "asks q" and run: "run q e st = (Inr (x, st'), e')"
  shows "may st' \<and> (\<exists>r. receipt st' = Some r \<and> or_fingerprint r = stamp q \<and> answer r = Some x)"
proof (cases "receipt st")
  case None
  with q run show ?thesis by (rule records)
next
  case (Some r)
  have "may st" using q run Some by (rule authorized)
  from found [OF q this Some] run show ?thesis
    using \<open>may st\<close> Some by (auto split: if_splits)
qed

lemma retry:
  assumes "asks q" "run q e st = (Inr (x, st'), e')"
  shows "run q e2 st' = (Inr (x, st'), e2)"
  using after_run [OF assms] found [OF assms(1)] by auto

lemma replay:
  assumes "asks q" "run q e st = (Inr (x, st'), e')" "asks q'" "stamp q' \<noteq> stamp q"
  shows "run q' e2 st' = (Inl ErrOperationReplay, e2)"
  using after_run [OF assms(1,2)] found [OF assms(3)] assms(4) by auto

text \<open>Retries do not add up: any number of them leaves the state of the first.\<close>

lemma retries:
  assumes "asks q" "run q e st = (Inr (x, st'), e')"
  shows "fold (\<lambda>env s. case run q env s of (Inr (_, s'), _) \<Rightarrow> s' | _ \<Rightarrow> s) envs st' = st'"
  by (induction envs) (simp_all add: retry [OF assms])

end

lemma receiptFor_putShell [simp]: "receiptFor (putShell sid sh st) a b = receiptFor st a b"
  by (simp add: receiptFor_def putShell_def)

lemma authorizeShell_record:
  assumes "authorizeShell H st cred = Inr sh" "sh_verifier sh' = sh_verifier sh"
    and "st_materialized st'"
  shows "authorizeShell H (appendReceipt r (putShell (cr_shell_id cred) sh' st')) cred = Inr sh'"
  using assms by (simp add: authorizeShell_eq_Inr putShell_def)

lemma same_but_admitted_materialized:
  "same_but_admitted st st' \<Longrightarrow> st_materialized st' = st_materialized st"
  by (auto simp: same_but_admitted_def)

lemma receiptFor_record:
  assumes "receiptFor st (or_shell_id r) (or_operation_id r) = None"
  shows "receiptFor (appendReceipt r (putShell sid sh st)) (or_shell_id r) (or_operation_id r) = Some r"
  using assms by (intro receiptFor_append) simp

section \<open>Publish\<close>

lemma publishMerge_shape:
  assumes "publishMerge H req fp sh admitted st = Inr (res, st')"
  shows "\<exists>sh' st1 r. st' = appendReceipt r (putShell (cr_shell_id (pq_credential req)) sh' st1)
    \<and> sh_verifier sh' = sh_verifier sh \<and> st_materialized st1 = st_materialized st
    \<and> st_receipts st1 = st_receipts st \<and> or_shell_id r = cr_shell_id (pq_credential req)
    \<and> or_operation_id r = pq_operation_id req \<and> or_kind r = ReceiptPublish
    \<and> or_fingerprint r = fp \<and> or_publish r = Some res"
proof -
  have c: "st_materialized st1 = st_materialized st \<and> st_receipts st1 = st_receipts st"
    if "commitAccepted opid sid accepted st = Inr st1" for opid sid accepted st1
    using that by (auto simp: commitAccepted_def bindR_eq_Inr CompactStateHistory_def split: if_splits)
  from assms show ?thesis
    unfolding publishMerge_def
    by (simp add: bindR_eq_Inr Let_def)
      (elim exE conjE, intro exI conjI, rule sym, assumption,
       auto simp: publishedShell_def Let_def emptyReceipt_def dest: c)
qed

lemma publishTx_fresh:
  assumes run: "publishTx H req delta fp e st = (Inr (res, st'), e')"
    and fresh: "receiptFor st (cr_shell_id (pq_credential req)) (pq_operation_id req) = None"
  shows "\<exists>sh st1 e1 st2 e2 admitted.
    authorizeShell H st (pq_credential req) = Inr sh
    \<and> pd_kind (sh_pending sh) = PendingNone \<and> sh_conflict sh = None \<and> sh_unpublished sh = []
    \<and> pq_acknowledged_revision req = sh_applied_revision sh \<and> sh_applied_revision sh \<noteq> 0
    \<and> seedRegistryFromState e st = (Inr ((), st1), e1)
    \<and> admittedChanges sh delta e1 st1 = (Inr (admitted, st2), e2)
    \<and> publishMerge H req fp sh admitted st2 = Inr (res, st') \<and> e' = e2"
  using run fresh by (auto simp: publishTx_def tx_simps if_tx_run split: if_splits)

interpretation publish_op: recorded_operation
  "\<lambda>(req, delta, fp). publishTx H req delta fp"
  "\<lambda>(req, delta, fp). pq_credential req = cred \<and> pq_operation_id req = opid"
  "\<lambda>(req, delta, fp). fp"
  "\<lambda>st. \<exists>sh. authorizeShell H st cred = Inr sh"
  "\<lambda>st. receiptFor st (cr_shell_id cred) opid"
  "\<lambda>r. if or_kind r = ReceiptPublish then or_publish r else None"
  for H cred opid
proof (unfold_locales, goal_cases)
  case (1 q e st x st' e' r)
  then show ?case by (auto simp: publishTx_def tx_simps split: prod.splits)
next
  case (2 q st r e)
  then show ?case
    by (auto simp: publishTx_def bindT_def getT_def liftT_def returnT_def failT_def split: prod.splits)
next
  case (3 q e st x st' e')
  obtain req delta fp where q: "q = (req, delta, fp)" by (cases q) auto
  with 3 have cred: "pq_credential req = cred" "pq_operation_id req = opid" by auto
  obtain sh st1 e1 st2 e2 admitted where auth: "authorizeShell H st cred = Inr sh"
    and seed: "seedRegistryFromState e st = (Inr ((), st1), e1)"
    and adm: "admittedChanges sh delta e1 st1 = (Inr (admitted, st2), e2)"
    and merge: "publishMerge H req fp sh admitted st2 = Inr (x, st')"
    using publishTx_fresh [of H req delta fp e st x st' e'] 3 q cred by auto
  have same: "same_but_admitted st st2"
    using seed_same_but_admitted [OF seed] admittedChanges_run [OF adm]
    by (blast intro: same_but_admitted_trans)
  obtain sh' st3 r where shape: "st' = appendReceipt r (putShell (cr_shell_id cred) sh' st3)"
    "sh_verifier sh' = sh_verifier sh" "st_materialized st3 = st_materialized st2"
    "st_receipts st3 = st_receipts st2" "or_shell_id r = cr_shell_id cred" "or_operation_id r = opid"
    "or_kind r = ReceiptPublish" "or_fingerprint r = fp" "or_publish r = Some x"
    using publishMerge_shape [OF merge] cred by auto
  have "authorizeShell H st' cred = Inr sh'"
    unfolding shape(1) using auth shape(3) same_but_admitted_materialized [OF same]
    by (intro authorizeShell_record [OF auth shape(2)]) (simp add: authorizeShell_eq_Inr)
  moreover have "receiptFor st3 (or_shell_id r) (or_operation_id r) = None"
    using 3(3) shape same_but_admitted_sel [OF same] by (simp add: receiptFor_def)
  then have "receiptFor st' (cr_shell_id cred) opid = Some r"
    using receiptFor_record [of st3 r] shape by simp
  ultimately show ?case using shape q by auto
qed

section \<open>Prepare\<close>

lemma preparePull_shape:
  assumes "preparePull H req fp sh st = Inr (res, st')"
  shows "\<exists>sh' r. st' = appendReceipt r (putShell (cr_shell_id (pp_credential req)) sh' st)
    \<and> sh_verifier sh' = sh_verifier sh \<and> or_shell_id r = cr_shell_id (pp_credential req)
    \<and> or_operation_id r = pp_operation_id req \<and> or_kind r = ReceiptPreparePull
    \<and> or_fingerprint r = fp \<and> map_option clonePrepareResult (or_prepare r) = Some res"
proof -
  let ?sid = "cr_shell_id (pp_credential req)"
  let ?receipt = "emptyReceipt ?sid (pp_operation_id req) ReceiptPreparePull fp"
  have v: "sh_verifier (pullShell req sh) = sh_verifier sh" by (simp add: pullShell_def)
  have clone: "clonePrepareResult (clonePrepareResult x) = clonePrepareResult x"
    "clonePrepareResult \<lparr>pl_pending_revision = a, pl_token = b, pl_changes = CloneLiveChanges cs\<rparr>
      = \<lparr>pl_pending_revision = a, pl_token = b, pl_changes = CloneLiveChanges cs\<rparr>"
    "clonePrepareResult \<lparr>pl_pending_revision = a, pl_token = b, pl_changes = []\<rparr>
      = \<lparr>pl_pending_revision = a, pl_token = b, pl_changes = []\<rparr>" for x a b cs
    by (simp_all add: clonePrepareResult_def CloneLiveChanges_def comp_def)
  obtain changes where c: "DiffSnapshot (snap (sh_capture_baseline sh)) (snap (st_shared st)) = Inr changes"
    using assms by (auto simp: preparePull_def bindR_eq_Inr Let_def)
  show ?thesis
  proof (cases "changes = [] \<and> pp_applied_revision req = st_head_revision st
      \<and> sh_applied_revision (pullShell req sh) = st_head_revision st")
    case True
    let ?res = "\<lparr>pl_pending_revision = 0, pl_token = [], pl_changes = []\<rparr>"
    have res: "res = ?res" and eq: "st' = appendReceipt (?receipt\<lparr>or_prepare := Some ?res\<rparr>)
        (putShell ?sid ((pullShell req sh)\<lparr>sh_last_active := st_head_revision st\<rparr>) st)"
      using assms c True by (auto simp: preparePull_def Let_def)
    show ?thesis
      by (rule exI, rule exI, rule conjI, rule eq) (simp add: res emptyReceipt_def v clone)
  next
    case False
    with assms c obtain target where target: "FingerprintSnapshot H (snap (st_shared st)) = Inr target"
      by (auto simp: preparePull_def Let_def bindR_eq_Inr)
    let ?token = "newResolutionToken H ''pull'' (pp_operation_id req) fp (st_head_revision st)"
    let ?res = "\<lparr>pl_pending_revision = st_head_revision st, pl_token = ?token,
      pl_changes = CloneLiveChanges changes\<rparr>"
    have res: "res = ?res" and eq: "st' = appendReceipt (?receipt\<lparr>or_prepare := Some (clonePrepareResult ?res)\<rparr>)
        (putShell ?sid ((pullShell req sh)\<lparr>sh_pending := \<lparr>pd_kind = PendingPull,
          pd_revision = st_head_revision st, pd_fingerprint = target, pd_token = ?token, pd_conflict = None,
          pd_changes = CloneLiveChanges changes\<rparr>, sh_transition := TransitionPrepare,
          sh_behind := True, sh_last_active := st_head_revision st\<rparr>) st)"
      using assms unfolding preparePull_def Let_def c bindR_Inr if_not_P [OF False] target
      by auto
    show ?thesis
      by (rule exI, rule exI, rule conjI, rule eq) (simp add: res emptyReceipt_def v clone)
  qed
qed

interpretation prepare_op: recorded_operation
  "\<lambda>(req, fp). prepareTx H req fp"
  "\<lambda>(req, fp). pp_credential req = cred \<and> pp_operation_id req = opid"
  "\<lambda>(req, fp). fp"
  "\<lambda>st. \<exists>sh. authorizeShell H st cred = Inr sh"
  "\<lambda>st. receiptFor st (cr_shell_id cred) opid"
  "\<lambda>r. if or_kind r = ReceiptPreparePull then map_option clonePrepareResult (or_prepare r) else None"
  for H cred opid
proof (unfold_locales, goal_cases)
  case (1 q e st x st' e' r)
  then show ?case by (auto simp: prepareTx_def tx_simps split: prod.splits)
next
  case (2 q st r e)
  then show ?case
    by (auto simp: prepareTx_def bindT_def getT_def liftT_def returnT_def failT_def split: prod.splits)
next
  case (3 q e st x st' e')
  obtain req fp where q: "q = (req, fp)" by (cases q) auto
  with 3 obtain sh where auth: "authorizeShell H st cred = Inr sh"
    and pull: "preparePull H req fp sh st = Inr (x, st')"
    and cred: "pp_credential req = cred" "pp_operation_id req = opid"
    by (auto simp: prepareTx_def tx_simps if_tx_run split: if_splits)
  obtain sh' r where shape: "st' = appendReceipt r (putShell (cr_shell_id cred) sh' st)"
    "sh_verifier sh' = sh_verifier sh" "or_shell_id r = cr_shell_id cred" "or_operation_id r = opid"
    "or_kind r = ReceiptPreparePull" "or_fingerprint r = fp"
    "map_option clonePrepareResult (or_prepare r) = Some x"
    using preparePull_shape [OF pull] cred by auto
  have "authorizeShell H st' cred = Inr sh'"
    unfolding shape(1) using auth
    by (intro authorizeShell_record [OF auth shape(2)]) (simp add: authorizeShell_eq_Inr)
  moreover have "receiptFor st' (cr_shell_id cred) opid = Some r"
    using receiptFor_record [of st r] 3(3) shape by simp
  ultimately show ?case using shape q by auto
qed

section \<open>Attach\<close>

text \<open>Who may repeat an attachment: the holder of the capability the shell was attached with.\<close>

definition attach_receipt :: "shell_credential \<Rightarrow> string \<Rightarrow> wt_state \<Rightarrow> operation_receipt option" where
  "attach_receipt cred opid st =
     Option.bind (map_of (st_shells st) (cr_shell_id cred)) (\<lambda>_. receiptFor st (cr_shell_id cred) opid)"

definition attached_as :: "hashing \<Rightarrow> shell_credential \<Rightarrow> wt_state \<Rightarrow> bool" where
  "attached_as H cred st \<longleftrightarrow> st_materialized st
     \<and> (\<exists>sh v. map_of (st_shells st) (cr_shell_id cred) = Some sh
          \<and> DeriveShellCapabilityVerifier (hx_sha256 H) (cr_capability cred) = Inr v \<and> sh_verifier sh = v)"

lemma attach_receipt_eq_Some:
  "attach_receipt cred opid st = Some r \<longleftrightarrow>
     (\<exists>sh. map_of (st_shells st) (cr_shell_id cred) = Some sh)
     \<and> receiptFor st (cr_shell_id cred) opid = Some r"
  by (auto simp: attach_receipt_def bind_eq_Some_conv)

lemma attachTx_fresh:
  assumes run: "attachTx H req initial fp e st = (Inr (res, st'), e')"
    and new: "map_of (st_shells st) (cr_shell_id (ar_credential req)) = None"
  shows "\<exists>verifier st1 e1 a. st_materialized st
    \<and> DeriveShellCapabilityVerifier (hx_sha256 H) (cr_capability (ar_credential req)) = Inr verifier
    \<and> length (st_shells st) < MaxShellRecords
    \<and> seedRegistryFromState e st = (Inr ((), st1), e1)
    \<and> registryAttach (sv_registry e1) initial = Inr a
    \<and> (res, st') = attachRecord req fp verifier a initial st1 \<and> e' = e1"
  using run new by (auto simp: attachTx_def tx_simps if_tx_run split: if_splits sum.splits)

interpretation attach_op: recorded_operation
  "\<lambda>(req, initial, fp). attachTx H req initial fp"
  "\<lambda>(req, initial, fp). ar_credential req = cred \<and> ar_operation_id req = opid"
  "\<lambda>(req, initial, fp). fp"
  "attached_as H cred" "attach_receipt cred opid"
  "\<lambda>r. if or_kind r = ReceiptAttach then or_attach r else None"
  for H cred opid
proof (unfold_locales, goal_cases)
  case (1 q e st x st' e' r)
  then show ?case
    by (auto simp: attachTx_def tx_simps if_tx_run attach_receipt_eq_Some attached_as_def
        VerifyShellCapability_def split: prod.splits if_splits sum.splits)
next
  case (2 q st r e)
  then show ?case
    by (auto simp: attachTx_def bindT_def getT_def returnT_def failT_def attach_receipt_eq_Some
        attached_as_def VerifyShellCapability_def split: prod.splits)
next
  case (3 q e st x st' e')
  obtain req initial fp where q: "q = (req, initial, fp)" by (cases q) auto
  with 3 have cred: "ar_credential req = cred" "ar_operation_id req = opid"
    and run: "attachTx H req initial fp e st = (Inr (x, st'), e')" by auto
  have new: "map_of (st_shells st) (cr_shell_id cred) = None"
  proof (rule ccontr)
    assume "map_of (st_shells st) (cr_shell_id cred) \<noteq> None"
    with 3(3) have "receiptFor st (cr_shell_id cred) opid = None"
      by (auto simp: attach_receipt_def)
    with \<open>map_of (st_shells st) (cr_shell_id cred) \<noteq> None\<close> run cred show False
      by (auto simp: attachTx_def tx_simps if_tx_run split: if_splits sum.splits)
  qed
  obtain verifier st1 e1 a where m: "st_materialized st"
    and v: "DeriveShellCapabilityVerifier (hx_sha256 H) (cr_capability cred) = Inr verifier"
    and seed: "seedRegistryFromState e st = (Inr ((), st1), e1)"
    and rec: "(x, st') = attachRecord req fp verifier a initial st1"
    using attachTx_fresh [OF run] new cred by auto
  have "st_materialized st1"
    using m same_but_admitted_materialized [OF seed_same_but_admitted [OF seed]] by simp
  with rec v cred show ?case
    by (auto simp: attachRecord_def Let_def attached_as_def attach_receipt_eq_Some putShell_def
        attachedShell_def receiptFor_def appendReceipt_def emptyReceipt_def q)
qed

lemma attach_twice:
  assumes "map_of (st_shells st) (cr_shell_id (ar_credential req)) = Some sh"
    and "receiptFor st (cr_shell_id (ar_credential req)) (ar_operation_id req) = None"
    and "st_materialized st"
  shows "\<exists>err. attachTx H req initial fp e st = (Inl err, e)
    \<and> (err = ErrShellAlreadyAttached \<or> err = ErrUnauthorized)"
  using assms
  by (auto simp: attachTx_def bindT_def getT_def failT_def split: sum.splits)

section \<open>What an attached shell starts from\<close>

lemma live_map_filter_identity:
  "live_map (filter (\<lambda>s. P (ls_identity s)) ss) i = (if P i then live_map ss i else None)"
proof -
  have "map_of (rev (live_pairs (filter (\<lambda>s. P (ls_identity s)) ss))) i
      = (if P i then map_of (rev (live_pairs ss)) i else None)"
    by (induction ss rule: rev_induct) (auto simp: live_pairs_def)
  then show ?thesis by (simp add: live_map_def)
qed

end
