(* ===== verification/PullFacts.thy ===== *)
theory PullFacts
  imports ShellFacts
begin

text \<open>
  Pulling, resolving and acknowledging at the level of finite maps: what a prepared
  transition asks of a shell, that a shell which reaches that target is acknowledged and
  is then at the head, and that nothing else is acknowledged.
\<close>

section \<open>Fingerprints of snapshots\<close>

definition canonical_states :: "live_state list \<Rightarrow> live_state list" where
  "canonical_states ss = sort_key ls_identity (CloneLiveStates ss)"

lemma FingerprintSnapshot_good:
  assumes "good_states ss"
  shows "FingerprintSnapshot H (snap ss) = Inr fp \<longleftrightarrow>
    within_bounds ss \<and> fp = hx_sha256 H (hx_json H (JStates (canonical_states ss)))"
  using good_states_valid [OF assms] good_states_normalize [OF assms]
  by (auto simp: FingerprintSnapshot_def bindR_eq_Inr ValidateLiveSnapshot_snap canonical_states_def)

lemma FingerprintSnapshot_bounds: "FingerprintSnapshot H (snap ss) = Inr fp \<Longrightarrow> within_bounds ss"
  by (auto simp: FingerprintSnapshot_def bindR_eq_Inr ValidateLiveSnapshot_snap)

lemma canonical_states_cong:
  assumes "good_states ss" "good_states ts" "live_map ss = live_map ts"
  shows "canonical_states ss = canonical_states ts"
proof -
  let ?cs = "CloneLiveStates ss" and ?ct = "CloneLiveStates ts"
  have d: "distinct (map ls_identity ?cs)"
    using good_states_clone [OF assms(1)] by (simp add: good_states_def)
  have "inj_on ls_identity (set ?cs)" using d by (simp add: distinct_map)
  moreover have "mset ?cs = mset (sort_key ls_identity ?ct)"
    using good_states_same_map [OF assms] by simp
  ultimately show ?thesis
    unfolding canonical_states_def by (intro sort_key_inj_key_eq) simp_all
qed

lemma live_map_canonical:
  assumes "good_states ss"
  shows "live_map (canonical_states ss) = live_map ss"
proof
  fix i
  have d: "distinct (map ls_identity (CloneLiveStates ss))"
    using good_states_clone [OF assms] by (simp add: good_states_def)
  then have d': "distinct (map ls_identity (canonical_states ss))"
    unfolding canonical_states_def by (metis distinct_map distinct_sort set_sort)
  have "live_map (canonical_states ss) i = Some v \<longleftrightarrow> live_map (CloneLiveStates ss) i = Some v" for v
    unfolding live_map_distinct [OF d] live_map_distinct [OF d'] by (simp add: canonical_states_def)
  then show "live_map (canonical_states ss) i = live_map ss i"
    by (metis live_map_clone not_Some_eq)
qed

lemma FingerprintSnapshot_cong:
  assumes "good_states ss" "good_states ts" "live_map ss = live_map ts"
  shows "FingerprintSnapshot H (snap ss) = Inr fp \<longleftrightarrow> FingerprintSnapshot H (snap ts) = Inr fp"
  using canonical_states_cong [OF assms] good_states_same_bounds [OF assms]
  by (simp add: FingerprintSnapshot_good assms(1,2))

text \<open>A fingerprint nothing else collides with.\<close>

definition identifies :: "hashing \<Rightarrow> fingerprint \<Rightarrow> live_state list \<Rightarrow> bool" where
  "identifies H fp target \<longleftrightarrow>
     (\<forall>ss. hx_sha256 H (hx_json H (JStates ss)) = fp \<longrightarrow> ss = canonical_states target)"

lemma FingerprintSnapshot_identifies:
  assumes "good_states ss" "good_states target" "identifies H fp target"
    and "FingerprintSnapshot H (snap ss) = Inr fp"
  shows "live_map ss = live_map target"
proof -
  have "canonical_states ss = canonical_states target"
    using assms by (simp add: FingerprintSnapshot_good identifies_def)
  then show ?thesis using live_map_canonical assms(1,2) by metis
qed

section \<open>Prepared transitions\<close>

text \<open>
  A shell that waits for a target: its pending transition names a revision and a token and
  holds the fingerprint of the target.
\<close>

definition waits_for :: "hashing \<Rightarrow> shell_state \<Rightarrow> u64 \<Rightarrow> resolution_token \<Rightarrow> live_state list \<Rightarrow> bool" where
  "waits_for H sh revision token target \<longleftrightarrow>
     pd_kind (sh_pending sh) \<noteq> PendingNone \<and> pd_revision (sh_pending sh) = revision
     \<and> pd_token (sh_pending sh) = token
     \<and> FingerprintSnapshot H (snap target) = Inr (pd_fingerprint (sh_pending sh))"

lemma shared_good: "wt_inv st \<Longrightarrow> good_states (st_shared st)"
  using shared_present by (simp add: validatePresentStates_eq_OK)

lemma pullShell_sel [simp]:
  "sh_capture_baseline (pullShell req sh) = sh_capture_baseline sh"
  "sh_conflict (pullShell req sh) = sh_conflict sh" "sh_pending (pullShell req sh) = sh_pending sh"
  "sh_verifier (pullShell req sh) = sh_verifier sh"
  by (simp_all add: pullShell_def)

lemma preparePull_spec:
  assumes inv: "wt_inv st" and idle: "pd_kind (sh_pending sh) = PendingNone"
    and run: "preparePull H req fp sh st = Inr (res, st')"
  shows "st_shared st' = st_shared st \<and> st_head_revision st' = st_head_revision st
    \<and> (\<exists>sh'. map_of (st_shells st') (cr_shell_id (pp_credential req)) = Some sh'
        \<and> sh_capture_baseline sh' = sh_capture_baseline sh \<and> sh_conflict sh' = sh_conflict sh
        \<and> applyMap (live_map (sh_capture_baseline sh)) (pl_changes res) = live_map (st_shared st)
        \<and> (if pl_pending_revision res = 0
           then pl_changes res = [] \<and> pd_kind (sh_pending sh') = PendingNone
             \<and> sh_applied_revision sh' = st_head_revision st
           else pl_pending_revision res = st_head_revision st
             \<and> waits_for H sh' (pl_pending_revision res) (pl_token res) (st_shared st)
             \<and> pd_kind (sh_pending sh') = PendingPull \<and> sh_behind sh'))"
proof -
  let ?sid = "cr_shell_id (pp_credential req)"
  have head: "st_head_revision st \<noteq> 0" using inv by (rule head_nonzero)
  obtain changes where c: "DiffSnapshot (snap (sh_capture_baseline sh)) (snap (st_shared st)) = Inr changes"
    using run by (auto simp: preparePull_def bindR_eq_Inr Let_def)
  have "applyMap (live_map (sh_capture_baseline sh))
      (refDiff (live_map (sh_capture_baseline sh)) (live_map (st_shared st))) = live_map (st_shared st)"
    by (rule applyMap_refDiff) (auto dest: live_map_Some_clone)
  then have applied: "applyMap (live_map (sh_capture_baseline sh)) changes = live_map (st_shared st)"
    using DiffSnapshot_changes [OF c] by simp
  show ?thesis
  proof (cases "changes = [] \<and> pp_applied_revision req = st_head_revision st
      \<and> sh_applied_revision (pullShell req sh) = st_head_revision st")
    case True
    with run c have "res = \<lparr>pl_pending_revision = 0, pl_token = [], pl_changes = []\<rparr>"
      "\<exists>r. st' = appendReceipt r (putShell ?sid ((pullShell req sh)\<lparr>sh_last_active := st_head_revision st\<rparr>) st)"
      by (auto simp: preparePull_def Let_def)
    with applied idle True show ?thesis by (auto simp: putShell_def)
  next
    case False
    with run c obtain target where target: "FingerprintSnapshot H (snap (st_shared st)) = Inr target"
      by (auto simp: preparePull_def Let_def bindR_eq_Inr)
    let ?token = "newResolutionToken H ''pull'' (pp_operation_id req) fp (st_head_revision st)"
    let ?res = "\<lparr>pl_pending_revision = st_head_revision st, pl_token = ?token,
      pl_changes = CloneLiveChanges changes\<rparr>"
    have "res = ?res \<and> (\<exists>r. st' = appendReceipt r
        (putShell ?sid ((pullShell req sh)\<lparr>sh_pending := \<lparr>pd_kind = PendingPull,
          pd_revision = st_head_revision st, pd_fingerprint = target, pd_token = ?token, pd_conflict = None,
          pd_changes = CloneLiveChanges changes\<rparr>, sh_transition := TransitionPrepare,
          sh_behind := True, sh_last_active := st_head_revision st\<rparr>) st))"
      using run unfolding preparePull_def Let_def c bindR_Inr if_not_P [OF False] target by auto
    with applied head target show ?thesis by (auto simp: putShell_def waits_for_def)
  qed
qed

lemma resolveShared_spec:
  assumes run: "resolveShared H req fp sh observed st = Inr (res, st')"
  shows "st_shared st' = st_shared st \<and> st_head_revision st' = st_head_revision st
    \<and> rs_token res = rq_token req \<and> rs_pending_revision res = st_head_revision st
    \<and> applyMap (live_map observed) (rs_changes res) = live_map (st_shared st)
    \<and> FingerprintSnapshot H (snap observed) = FingerprintSnapshot H (snap (sh_capture_baseline sh))
    \<and> (\<exists>c sh'. sh_conflict sh = Some c \<and> cf_identity c = rq_conflict req \<and> cf_token c = rq_token req
        \<and> map_of (st_shells st') (cr_shell_id (rq_credential req)) = Some sh'
        \<and> sh_conflict sh' = Some c \<and> pd_conflict (sh_pending sh') = Some (rq_conflict req)
        \<and> pd_kind (sh_pending sh') = PendingResolution
        \<and> waits_for H sh' (rs_pending_revision res) (rs_token res) (st_shared st))"
proof -
  obtain c where c: "sh_conflict sh = Some c"
    using run by (auto simp: resolveShared_def Let_def split: option.splits)
  obtain changes target where token: "cf_token c = rq_token req" "cf_identity c = rq_conflict req"
    and same: "\<exists>x. FingerprintSnapshot H (snap observed) = Inr x
      \<and> FingerprintSnapshot H (snap (sh_capture_baseline sh)) = Inr x"
    and changes: "DiffSnapshot (snap observed) (snap (st_shared st)) = Inr changes"
    and target: "FingerprintSnapshot H (snap (st_shared st)) = Inr target"
    and res: "res = \<lparr>rs_pending_revision = st_head_revision st, rs_token = rq_token req,
      rs_changes = CloneLiveChanges changes\<rparr>"
    and st': "\<exists>r. st' = appendReceipt
      ((emptyReceipt (cr_shell_id (rq_credential req)) (rq_operation_id req) ReceiptResolve fp)
        \<lparr>or_resolve := Some r\<rparr>)
      (putShell (cr_shell_id (rq_credential req)) (sh\<lparr>sh_pending := \<lparr>pd_kind = PendingResolution,
        pd_revision = st_head_revision st, pd_fingerprint = target, pd_token = rq_token req,
        pd_conflict = Some (rq_conflict req), pd_changes = CloneLiveChanges changes\<rparr>,
        sh_transition := TransitionResolve, sh_behind := True, sh_last_active := st_head_revision st\<rparr>) st)"
    using run c by (auto simp: resolveShared_def Let_def bindR_eq_Inr if_Inl_eq_Inr orErr_eq_Inr)
  have "applyMap (live_map observed) (refDiff (live_map observed) (live_map (st_shared st)))
      = live_map (st_shared st)"
    by (rule applyMap_refDiff) (auto dest: live_map_Some_clone)
  then have "applyMap (live_map observed) changes = live_map (st_shared st)"
    using DiffSnapshot_changes [OF changes] by simp
  with st' c token same res target show ?thesis by (auto simp: putShell_def waits_for_def)
qed

section \<open>Acknowledging\<close>

text \<open>A resolution is acknowledged only for the conflict the shell still holds.\<close>

definition conflict_agrees :: "shell_state \<Rightarrow> bool" where
  "conflict_agrees sh \<longleftrightarrow>
     (pd_kind (sh_pending sh) = PendingResolution \<longrightarrow>
        (\<exists>i c. pd_conflict (sh_pending sh) = Some i \<and> sh_conflict sh = Some c
           \<and> i = cf_identity c \<and> pd_token (sh_pending sh) = cf_token c))"

lemma acknowledge_accepts:
  assumes wait: "waits_for H sh (ak_revision req) (ak_token req) target" and agree: "conflict_agrees sh"
    and good: "good_states observed" "good_states target" and same: "live_map observed = live_map target"
  shows "\<exists>r. acknowledge H req fp sh observed st =
    Inr (\<lparr>ac_applied_revision = ak_revision req, ac_acknowledged = True\<rparr>,
         appendReceipt r (putShell (cr_shell_id (ak_credential req))
           (acknowledgedShell sh observed (st_head_revision st)) st))"
proof -
  have "FingerprintSnapshot H (snap observed) = Inr (pd_fingerprint (sh_pending sh))"
    using FingerprintSnapshot_cong [OF good same] wait by (simp add: waits_for_def)
  then show ?thesis
    using wait agree by (auto simp: acknowledge_def Let_def waits_for_def conflict_agrees_def orErr_def)
qed

lemma acknowledge_spec:
  assumes "acknowledge H req fp sh observed st = Inr (res, st')"
  shows "pd_kind (sh_pending sh) \<noteq> PendingNone \<and> pd_revision (sh_pending sh) = ak_revision req
    \<and> pd_token (sh_pending sh) = ak_token req
    \<and> FingerprintSnapshot H (snap observed) = Inr (pd_fingerprint (sh_pending sh))
    \<and> (\<exists>r. st' = appendReceipt r (putShell (cr_shell_id (ak_credential req))
         (acknowledgedShell sh observed (st_head_revision st)) st))"
  using assms by (auto simp: acknowledge_def Let_def bindR_eq_Inr if_Inl_eq_Inr orErr_eq_Inr)

lemma acknowledge_only:
  assumes run: "acknowledge H req fp sh observed st = Inr (res, st')"
    and good: "good_states observed" "good_states target"
    and id: "identifies H (pd_fingerprint (sh_pending sh)) target"
  shows "live_map observed = live_map target"
  using FingerprintSnapshot_identifies [OF good id] acknowledge_spec [OF run] by blast

lemma acknowledgedShell_sel:
  "sh_attach_state (acknowledgedShell sh observed head) = AttachStateAtHead"
  "sh_applied_revision (acknowledgedShell sh observed head) = pd_revision (sh_pending sh)"
  "live_map (sh_applied_baseline (acknowledgedShell sh observed head)) = live_map observed"
  "live_map (sh_capture_baseline (acknowledgedShell sh observed head)) = live_map observed"
  "sh_pending (acknowledgedShell sh observed head) = noPending"
  "pd_kind (sh_pending sh) = PendingResolution \<Longrightarrow>
     sh_conflict (acknowledgedShell sh observed head) = None
     \<and> sh_unpublished (acknowledgedShell sh observed head) = []"
  "sh_behind (acknowledgedShell sh observed head) \<longleftrightarrow>
     pd_revision (sh_pending sh) < head \<or> sh_conflict (acknowledgedShell sh observed head) \<noteq> None"
  by (simp_all add: acknowledgedShell_def Let_def)

lemma acknowledgedShell_conflict:
  "pd_kind (sh_pending sh) \<noteq> PendingResolution \<Longrightarrow>
     sh_conflict (acknowledgedShell sh observed head) = sh_conflict sh"
  by (simp add: acknowledgedShell_def Let_def)

section \<open>What an attached shell starts from\<close>

lemma attached_capture:
  assumes "registryAttach r initial = Inr a"
  shows "live_map (presentOnly (CloneLiveStates (am_baseline a)))
    = (\<lambda>i. if AllowsLiveValue r i then live_map (sn_states initial) i else None)"
proof
  fix i
  let ?ss = "keep_last ls_identity (sn_states initial)"
  let ?P = "\<lambda>s. AllowsLiveValue r (ls_identity s)"
  have base: "am_baseline a = CloneLiveStates (filter ?P ?ss)"
    using assms by (auto simp: registryAttach_eq_Inr Let_def CloneLiveStates_def)
  have d: "distinct (map ls_identity (filter ?P ?ss))" by (simp add: distinct_map_filter)
  have dp: "distinct (map ls_identity (presentOnly (CloneLiveStates (am_baseline a))))"
    using d by (auto simp: presentOnly_def base CloneLiveStates_def comp_def distinct_map_filter filter_map)
  have "live_map (presentOnly (CloneLiveStates (am_baseline a))) i = Some v
      \<longleftrightarrow> live_map (filter ?P ?ss) i = Some v" for v
    unfolding live_map_distinct [OF d] live_map_distinct [OF dp]
    by (auto simp: presentOnly_def base CloneLiveStates_def)
  then have "live_map (presentOnly (CloneLiveStates (am_baseline a))) i = live_map (filter ?P ?ss) i"
    by (metis not_Some_eq)
  then show "live_map (presentOnly (CloneLiveStates (am_baseline a))) i
    = (if AllowsLiveValue r i then live_map (sn_states initial) i else None)"
    using live_map_filter_identity [of "AllowsLiveValue r" ?ss i] by simp
qed

end
