(* ===== verification/BuilderFacts.thy ===== *)
theory BuilderFacts
  imports Builder
begin

text \<open>
  What \<^verbatim>\<open>core/activate/builder.go\<close> computes: the environment of a manifest
  against its reference reading (last value wins, export is sticky, last position), the
  live states of a profile as a list without duplicates in source order, and the
  effective projection as the overlay algorithm of \<^verbatim>\<open>core/worktree/diff.go\<close>.
\<close>

section \<open>The effective projection is the overlay of the worktree package\<close>

lemma effectiveLoop_eq:
  "effectiveLoop t ts es = (fold overlayStep es t, ts @ map ov_identity (filter ov_tombstone es))"
  by (induction t ts es rule: effectiveLoop.induct) (simp_all add: overlayStep_def)

lemma effectiveProjection_eq:
  "effectiveProjection base overlay =
     \<lparr>pr_schema = WorktreeSchemaV1, pr_states = applyNormalizedOverlay base overlay,
      pr_tombstones = map ov_identity (filter ov_tombstone overlay)\<rparr>"
  by (simp add: effectiveProjection_def effectiveLoop_eq applyNormalizedOverlay_def)

section \<open>Appending at the last occurrence\<close>

lemma keep_last_snoc:
  "keep_last key (xs @ [x]) = filter (\<lambda>y. key y \<noteq> key x) (keep_last key xs) @ [x]"
  by (induction xs) auto

lemma fold_place_filter:
  "fold (\<lambda>i t. if P i then place i i t else t) is t = fold (\<lambda>i. place i i) (filter P is) t"
  by (induction "is" arbitrary: t) auto

lemma fold_concat: "fold (\<lambda>x. fold f (g x)) xs t = fold f (concat (map g xs)) t"
  by (induction xs arbitrary: t) auto

lemma sourceOrder_eq:
  "sourceOrder values source =
     keep_last id (filter (\<lambda>i. map_of values i \<noteq> None) (concat (map liveEntryIdentities source)))"
proof -
  have step: "(\<lambda>i t. if map_of values i = None then t else place i i t) =
      (\<lambda>i t. if map_of values i \<noteq> None then place i i t else t)"
    by (auto simp: fun_eq_iff)
  have "sourceOrder values source =
      snd (place_all id (filter (\<lambda>i. map_of values i \<noteq> None)
        (concat (map liveEntryIdentities source))) ordered_empty)"
    unfolding sourceOrder_def step place_all_def
    by (simp add: fold_concat fold_place_filter filter_concat comp_def)
  then show ?thesis by (simp add: place_all_empty)
qed

section \<open>Live states without duplicates\<close>

lemma appendStates_distinct:
  "distinct (map ls_identity (appendStates values seen is))
   \<and> ls_identity ` set (appendStates values seen is) \<inter> seen = {}"
proof (induction "is" arbitrary: seen)
  case Nil
  then show ?case by simp
next
  case (Cons i "is")
  show ?case
  proof (cases "map_of values i")
    case None
    with Cons.IH show ?thesis by simp
  next
    case (Some v)
    with Cons.IH [of seen] Cons.IH [of "insert i seen"] show ?thesis by auto
  qed
qed

lemma appendStates_members:
  "s \<in> set (appendStates values seen is) \<Longrightarrow>
     \<exists>v. map_of values (ls_identity s) = Some v \<and> ls_value s = CloneLiveValue v \<and> ls_identity s \<in> set is"
  by (induction "is" arbitrary: seen) (auto split: option.splits if_splits)

lemma appendStates_complete:
  "i \<in> set is \<Longrightarrow> i \<notin> seen \<Longrightarrow> map_of values i = Some v \<Longrightarrow>
     i \<in> ls_identity ` set (appendStates values seen is)"
  by (induction "is" arbitrary: seen) (auto split: option.splits)

lemma liveStatesFromManifest_distinct:
  "distinct (map ls_identity (liveStatesFromManifest source m))"
  using appendStates_distinct [of "manifestValues m" "{}"]
  by (simp add: liveStatesFromManifest_def Let_def)

section \<open>The environment of a manifest\<close>

text \<open>What an entry contributes: name, value, dynamic, exported.\<close>

definition envContribution :: "entry \<Rightarrow> (string \<times> string \<times> bool \<times> bool) option" where
  "envContribution e =
     (if EffectiveManaged e \<and> Representable e \<and> en_kind e = KindAssignment
         \<and> length (en_names e) = 1
         \<and> (en_category e = CatEnvironment \<or> en_category e = CatSecrets)
      then map_option (\<lambda>(v, d). (hd (en_names e), v, d, en_exported e)) (activationValue e)
      else None)"

definition envScalar :: "(string \<times> string \<times> bool \<times> bool) list \<Rightarrow> string \<times> string \<times> bool \<times> bool \<Rightarrow> scalar" where
  "envScalar cs c =
     \<lparr>mv_name = fst c, mv_applied = fst (snd c), mv_original = None,
      mv_exported = Some (\<exists>c' \<in> set cs. fst c' = fst c \<and> snd (snd (snd c'))),
      mv_dynamic = Some (fst (snd (snd c)))\<rparr>"

lemma fold_keeps: "(\<And>x b. h (f x b) = h b) \<Longrightarrow> h (fold f xs b) = h b"
  by (induction xs arbitrary: b) auto

lemma bs_env_other:
  "bs_env (buildList e b) = bs_env b" "bs_env (buildAlias e b) = bs_env b"
  "bs_env (buildFunction e b) = bs_env b" "bs_env (buildOptions e b) = bs_env b"
  by (auto simp: buildList_def buildAlias_def buildFunction_def buildOptions_def Let_def
      split: option.splits intro!: fold_keeps [where h = bs_env])

lemma bs_env_buildEntry:
  "bs_env (buildEntry e b) =
     (case envContribution e of
        None \<Rightarrow> bs_env b
      | Some (n, v, d, x) \<Rightarrow>
          place n \<lparr>mv_name = n, mv_applied = v, mv_original = None,
             mv_exported = Some (case ordered_lookup n (bs_env b) of None \<Rightarrow> x
               | Some previous \<Rightarrow> mv_exported previous = Some True \<or> x),
             mv_dynamic = Some d\<rparr> (bs_env b))"
  by (cases "en_kind e"; cases "activationValue e")
    (auto simp: buildEntry_def envContribution_def buildScalar_def bs_env_other Let_def)

lemma keep_last_has_key: "(\<exists>c \<in> set (keep_last key cs). key c = n) \<longleftrightarrow> (\<exists>c \<in> set cs. key c = n)"
proof -
  have "n \<in> key ` set (keep_last key cs) \<longleftrightarrow> n \<in> key ` set cs" by simp
  then show ?thesis by (simp only: image_iff eq_commute [of n])
qed

lemma find_map_keep_last:
  "find (\<lambda>y. mv_name y = n) (map (envScalar cs) (keep_last fst cs)) =
     (if \<exists>c \<in> set cs. fst c = n
      then Some (envScalar cs (the (find (\<lambda>c. fst c = n) (keep_last fst cs)))) else None)"
proof -
  have map: "find (\<lambda>y. mv_name y = n) (map (envScalar cs) ds) =
      map_option (envScalar cs) (find (\<lambda>c. fst c = n) ds)" for ds
    by (induction ds) (auto simp: envScalar_def)
  have "find (\<lambda>c. fst c = n) (keep_last fst cs) = None \<longleftrightarrow> \<not> (\<exists>c \<in> set cs. fst c = n)"
    using keep_last_has_key [of fst cs n] unfolding find_None_iff Bex_def by blast
  then show ?thesis
    unfolding map by (cases "find (\<lambda>c. fst c = n) (keep_last fst cs)") auto
qed

lemma build_env_snoc:
  assumes wf: "ordered_wf mv_name t" and list: "snd t = map (envScalar cs) (keep_last fst cs)"
    and x: "x = (case ordered_lookup n t of None \<Rightarrow> ex
      | Some previous \<Rightarrow> mv_exported previous = Some True \<or> ex)"
  shows "snd (place n \<lparr>mv_name = n, mv_applied = v, mv_original = None, mv_exported = Some x,
      mv_dynamic = Some d\<rparr> t) = map (envScalar (cs @ [(n, v, d, ex)])) (keep_last fst (cs @ [(n, v, d, ex)]))"
proof -
  let ?c = "(n, v, d, ex)"
  have same: "envScalar (cs @ [?c]) c = envScalar cs c" if "fst c \<noteq> n" for c
    using that by (auto simp: envScalar_def)
  have "x = (\<exists>c \<in> set (cs @ [?c]). fst c = n \<and> snd (snd (snd c)))"
    unfolding x ordered_lookup_find [OF wf] list find_map_keep_last
  proof (cases "\<exists>c \<in> set cs. fst c = n")
    case True
    then obtain c where c: "find (\<lambda>c. fst c = n) (keep_last fst cs) = Some c"
      using find_None_iff [of "\<lambda>c. fst c = n" "keep_last fst cs"] keep_last_has_key [of fst cs n]
      by (cases "find (\<lambda>c. fst c = n) (keep_last fst cs)") auto
    then have "fst c = n" by (auto simp: find_Some_iff)
    with True c show "(case if \<exists>c\<in>set cs. fst c = n
        then Some (envScalar cs (the (find (\<lambda>c. fst c = n) (keep_last fst cs)))) else None of
        None \<Rightarrow> ex | Some previous \<Rightarrow> mv_exported previous = Some True \<or> ex) =
      (\<exists>c \<in> set (cs @ [?c]). fst c = n \<and> snd (snd (snd c)))"
      by (auto simp: envScalar_def)
  qed auto
  then have new: "\<lparr>mv_name = n, mv_applied = v, mv_original = None, mv_exported = Some x,
      mv_dynamic = Some d\<rparr> = envScalar (cs @ [?c]) ?c"
    by (simp add: envScalar_def)
  have "filter (\<lambda>y. mv_name y \<noteq> n) (map (envScalar cs) (keep_last fst cs)) =
      map (envScalar cs) (filter (\<lambda>c. fst c \<noteq> n) (keep_last fst cs))"
    by (simp add: filter_map comp_def envScalar_def)
  also have "\<dots> = map (envScalar (cs @ [?c])) (filter (\<lambda>c. fst c \<noteq> n) (keep_last fst cs))"
    by (simp add: same)
  finally show ?thesis
    using place_list [OF wf, of _ n] by (simp add: keep_last_snoc list new envScalar_def)
qed

lemma Build_env_fold:
  "ordered_wf mv_name (bs_env (fold buildEntry p build_empty))
   \<and> snd (bs_env (fold buildEntry p build_empty)) =
      (let cs = List.map_filter envContribution p in map (envScalar cs) (keep_last fst cs))"
proof (induction p rule: rev_induct)
  case Nil
  then show ?case
    by (simp add: build_empty_def ordered_wf_empty Let_def) (simp add: ordered_empty_def)
next
  case (snoc e p)
  have mf: "List.map_filter envContribution (p @ [e]) =
      List.map_filter envContribution p @ (case envContribution e of None \<Rightarrow> [] | Some c \<Rightarrow> [c])"
    by (cases "envContribution e") (auto simp: List.map_filter_def)
  show ?case
  proof (cases "envContribution e")
    case None
    with snoc mf show ?thesis by (simp add: bs_env_buildEntry)
  next
    case (Some c)
    obtain n v d x where c: "c = (n, v, d, x)" by (cases c)
    with snoc Some mf show ?thesis
      using build_env_snoc [where t = "bs_env (fold buildEntry p build_empty)"
          and cs = "List.map_filter envContribution p" and n = n and ex = x and v = v and d = d,
          OF _ _ refl]
      by (simp add: bs_env_buildEntry place_wf Let_def)
  qed
qed

lemma Build_env:
  "mf_env (Build p) =
     (let cs = List.map_filter envContribution p in map (envScalar cs) (keep_last fst cs))"
  using Build_env_fold [of p] by (simp add: Build_def Let_def)

end
