(* ===== verification/WorkflowFacts.thy ===== *)
theory WorkflowFacts
  imports ServiceRun PullFacts BuilderFacts
begin

text \<open>
  What the workflow operations do to a generation: when a worktree is clean, what a
  commit, a checkout, a hard reset and the first materialization leave, and what one
  transaction can leave on the disk.
\<close>

section \<open>Clean worktrees\<close>

abbreviation committed_map :: "wt_state \<Rightarrow> identity \<Rightarrow> live_value option" where
  "committed_map st \<equiv> live_map (pr_states (cw_projection (st_committed st)))"

abbreviation shared_map :: "wt_state \<Rightarrow> identity \<Rightarrow> live_value option" where
  "shared_map st \<equiv> live_map (st_shared st)"

lemma committed_good: "validateCommitted c = OK \<Longrightarrow> good_states (pr_states (cw_projection c))"
  by (auto simp: validateCommitted_eq_OK validatePresentStates_eq_OK)

lemma shared_bounds: "wt_inv st \<Longrightarrow> within_bounds (st_shared st)"
  using wt_inv_limits by (simp add: in_limits_def)

lemma workflowChanges_clean:
  assumes "wt_inv st"
  shows "workflowChanges st = Inr [] \<longleftrightarrow> committed_map st = shared_map st"
proof -
  have g: "good_states (pr_states (cw_projection (st_committed st)))"
    using assms committed_good by (auto simp: wt_inv_def frame_inv_def)
  note s = shared_good [OF assms] shared_bounds [OF assms]
  have "committed_map st = shared_map st \<Longrightarrow> within_bounds (pr_states (cw_projection (st_committed st)))"
    using good_states_same_bounds [OF g s(1)] s(2) by simp
  then show ?thesis
    using good_states_valid [OF g] good_states_valid [OF s(1)] s(2)
    by (auto simp: workflowChanges_def DiffSnapshot_eq_Inr ValidateSnapshot_snap
        eq_commute [of "[]"] refDiff_Nil)
qed

lemma workflowChanges_apply:
  "workflowChanges st = Inr cs \<Longrightarrow> applyMap (committed_map st) cs = shared_map st"
proof -
  assume "workflowChanges st = Inr cs"
  then have "cs = refDiff (committed_map st) (shared_map st)"
    using DiffSnapshot_changes unfolding workflowChanges_def by blast
  moreover have "applyMap (committed_map st) (refDiff (committed_map st) (shared_map st)) = shared_map st"
    by (rule applyMap_refDiff) (auto dest: live_map_Some_clone)
  ultimately show ?thesis by simp
qed

section \<open>Replacing the generation\<close>

lemma appendGeneration_spec:
  assumes "appendGeneration operation changes st = Inr st'"
  shows "st_head_revision st' = st_head_revision st + (if changes = [] then 0 else 1)
    \<and> st_branch st' = st_branch st \<and> st_base_oid st' = st_base_oid st \<and> st_committed st' = st_committed st
    \<and> st_shared st' = st_shared st \<and> st_shells st' = st_shells st \<and> st_receipts st' = st_receipts st"
  using assms
  by (auto simp: appendGeneration_def bindR_eq_Inr NextRevision_def if_Inl_eq_Inr CompactStateHistory_def
      split: if_splits)

lemma replaceWorkflowGeneration_spec:
  assumes run: "replaceWorkflowGeneration branch oid document operation e st = (Inr (u, st'), e')"
  shows "st_branch st' = branch \<and> st_base_oid st' = oid
    \<and> st_committed st' = NewCommittedWorktree (cw_source document) (cw_projection document)
    \<and> shared_map st' = live_map (pr_states (cw_projection document))
    \<and> st_head_revision st' = st_head_revision st
        + (if shared_map st = live_map (pr_states (cw_projection document)) then 0 else 1)
    \<and> st_receipts st' = st_receipts st
    \<and> st_shells st' = map (\<lambda>(sid, sh). (sid, rebasedShell st' sh)) (st_shells st)"
proof -
  let ?target = "CloneLiveStates (pr_states (cw_projection document))"
  let ?st1 = "st\<lparr>st_branch := branch, st_base_oid := oid,
    st_committed := NewCommittedWorktree (cw_source document) (cw_projection document),
    st_shared := ?target\<rparr>"
  obtain changes st2 st3 where
    changes: "DiffSnapshot (snap (st_shared st)) (snap ?target) = Inr changes"
    and seed: "\<exists>e1. seedRegistryFromState e ?st1 = (Inr ((), st2), e1)"
    and app: "appendGeneration operation changes st2 = Inr st3" and st': "st' = rebaseShells st3"
    using run by (auto simp: replaceWorkflowGeneration_def tx_simps Let_def seedOrRecover_run bindR_eq_Inr)
  have "same_but_admitted ?st1 st2" using seed seed_same_but_admitted by blast
  then obtain a m where st2: "st2 = ?st1\<lparr>st_admitted := a, st_admitted_missing := m\<rparr>"
    unfolding same_but_admitted_def by blast
  have nil: "changes = [] \<longleftrightarrow> shared_map st = live_map (pr_states (cw_projection document))"
    using DiffSnapshot_changes [OF changes] by (simp add: refDiff_Nil)
  have rebased: "rebasedShell st3 sh = rebasedShell st' sh" for sh
    by (simp add: st' rebaseShells_def rebasedShell_def)
  have "st_shells st' = map (\<lambda>(sid, sh). (sid, rebasedShell st3 sh)) (st_shells st3)"
    by (simp add: st' rebaseShells_def)
  then have "st_shells st' = map (\<lambda>(sid, sh). (sid, rebasedShell st' sh)) (st_shells st3)"
    by (simp only: rebased)
  moreover have "CloneLiveProjection (cw_projection document) = cw_projection document
      \<or> True" by simp
  ultimately show ?thesis
    using appendGeneration_spec [OF app] nil by (simp add: st2) (simp add: st' rebaseShells_def)
qed

lemma NewCommitted_map [simp]:
  "live_map (pr_states (cw_projection (NewCommittedWorktree source projection))) = live_map (pr_states projection)"
  by (simp add: NewCommittedWorktree_def CloneLiveProjection_def)

section \<open>Hard reset and checkout\<close>

lemma resetTx_spec:
  assumes "resetTx R e st = (Inr (u, st'), e')"
  shows "\<exists>target. fst (rp_read R (st_base_oid st) (sv_repo e)) = Inr target
    \<and> st_branch st' = st_branch st \<and> st_base_oid st' = st_base_oid st
    \<and> shared_map st' = live_map (pr_states (cw_projection target)) \<and> committed_map st' = shared_map st'"
proof -
  obtain e1 target where "fst (rp_read R (st_base_oid st) (sv_repo e)) = Inr target"
    and "replaceWorkflowGeneration (st_branch st) (st_base_oid st) target ''reset'' e1 st = (Inr (u, st'), e')"
    using assms by (auto simp: resetTx_def tx_simps if_tx_run split: if_splits)
  then show ?thesis using replaceWorkflowGeneration_spec by fastforce
qed

lemma checkoutTx_spec:
  assumes "checkoutTx R branch create e st = (Inr (u, st'), e')"
  shows "workflowChanges st = Inr [] \<and> (\<forall>(sid, sh) \<in> set (st_shells st). \<not> shell_busy sh)
    \<and> (\<exists>oid target. stateOIDRE oid \<and> validateCommitted target = OK
        \<and> (\<exists>r. fst (rp_resolve R branch r) = Inr oid) \<and> (\<exists>r. fst (rp_read R oid r) = Inr target)
        \<and> st_branch st' = branch \<and> st_base_oid st' = oid
        \<and> shared_map st' = live_map (pr_states (cw_projection target))
        \<and> committed_map st' = shared_map st')"
proof -
  obtain st1 e1 e2 oid target r1 r2 where clean: "workflowChanges st = Inr []"
    and idle: "\<not> list_ex (\<lambda>(sid, sh). shell_busy sh) (st_shells st)"
    and names: "stateOIDRE oid" and doc: "validateCommitted target = OK"
    and calls: "fst (rp_resolve R branch r1) = Inr oid" "fst (rp_read R oid r2) = Inr target"
    and replace: "replaceWorkflowGeneration branch oid target ''checkout'' e2 st1 = (Inr (u, st'), e')"
    using assms by (auto simp: checkoutTx_def tx_simps if_tx_run split: if_splits)
  have "\<forall>(sid, sh) \<in> set (st_shells st). \<not> shell_busy sh"
    using idle by (auto simp: list_ex_iff)
  then show ?thesis
    using clean names doc calls replaceWorkflowGeneration_spec [OF replace] by fastforce
qed

lemma checkoutTx_dirty:
  assumes "st_materialized st" "workflowChanges st = Inr cs" "cs \<noteq> []"
  shows "checkoutTx R branch create e st = (Inl ErrWorktreeDirty, e)"
  using assms
  by (simp add: checkoutTx_def bindT_def requireMaterialized_def getT_def liftT_def returnT_def failT_def)

lemma checkoutTx_busy:
  assumes "st_materialized st" "workflowChanges st = Inr []" "(sid, sh) \<in> set (st_shells st)" "shell_busy sh"
  shows "checkoutTx R branch create e st = (Inl ErrConflictRequiresResolution, e)"
  using assms
  by (auto simp: checkoutTx_def bindT_def requireMaterialized_def getT_def liftT_def returnT_def
      failT_def list_ex_iff)

section \<open>Commit\<close>

lemma adoptCommit_result:
  assumes run: "adoptCommit R res e st = (Inr (u, st'), e')" and e: "fst (sv_commit e) = res"
  shows "cm_committed (fst (sv_commit e')) = cm_committed res"
proof -
  obtain read r where rp: "rp_read R (cm_oid res) (sv_repo e) = (read, r)" by fastforce
  have seeded: "sv_commit e2 = sv_commit e1"
    if "seedRegistryFromState e1 s = (Inr y, e2)" for e1 s y e2
    using that seed_run [of e1 s "fst y" "snd y" e2] by (cases y) (simp add: env_same_def)
  show ?thesis
    using run e rp
    by (auto simp: adoptCommit_def Let_def tx_simps if_tx_run recoverT_def
        dest!: seeded split: if_splits sum.splits prod.splits)
qed

lemma adoptCommit_spec:
  assumes run: "adoptCommit R res e st = (Inr (u, st'), e')" and e: "fst (sv_commit e) = res"
    and ok: "\<not> cm_recovery (fst (sv_commit e'))"
  shows "st_base_oid st' = cm_oid res \<and> shared_map st' = shared_map st
    \<and> st_head_revision st' = st_head_revision st \<and> fst (sv_commit e') = res
    \<and> (\<exists>exact. acceptsObject st exact
         \<and> committed_map st' = live_map (pr_states (cw_projection exact)))"
proof -
  obtain read r where rp: "rp_read R (cm_oid res) (sv_repo e) = (read, r)" by fastforce
  have oid: "stateOIDRE (cm_oid res)"
    using run ok by (auto simp: adoptCommit_def Let_def tx_simps split: if_splits)
  let ?e = "e\<lparr>sv_repo := r\<rparr>"
  obtain exact where exact: "read = Inr exact"
    using run ok oid rp by (cases read) (auto simp: adoptCommit_def Let_def tx_simps)
  have accepts: "acceptsObject st exact"
    using run ok oid rp exact by (auto simp: adoptCommit_def Let_def tx_simps if_tx_run split: if_splits)
  let ?st = "adoptObject (cm_oid res) exact st"
  obtain out e2 where seed: "seedRegistryFromState ?e ?st = (out, e2)" by fastforce
  obtain y where y: "out = Inr y"
    using run ok oid rp exact accepts seed
    by (cases out) (auto simp: adoptCommit_def Let_def tx_simps if_tx_run)
  then have "y = (u, st')" "e' = e2"
    using run oid rp exact accepts seed by (auto simp: adoptCommit_def Let_def tx_simps if_tx_run)
  with seed y have seeded: "seedRegistryFromState ?e ?st = (Inr (u, st'), e')" by simp
  have "\<exists>a m. st' = ?st\<lparr>st_admitted := a, st_admitted_missing := m\<rparr>"
    using seed_run [OF seeded] by blast
  moreover have "sv_commit e' = sv_commit e"
    using seed_run [OF seeded] by (simp add: env_same_def)
  ultimately show ?thesis
    using accepts e by (auto simp: adoptObject_def acceptsObject_def)
qed

lemma commitTx_spec:
  assumes inv: "wt_inv st" and run: "commitTx R message e st = (Inr (u, st'), e')"
    and e: "sv_commit e = (noCommit, None)" and res: "fst (sv_commit e') = res"
  shows "(\<not> cm_committed res \<longrightarrow> st' = st)
    \<and> (cm_committed res \<and> \<not> cm_recovery res \<longrightarrow>
         st_base_oid st' = cm_oid res \<and> shared_map st' = shared_map st
         \<and> st_head_revision st' = st_head_revision st \<and> committed_map st' = shared_map st')"
proof -
  obtain changes where changes: "workflowChanges st = Inr changes"
    using run by (auto simp: commitTx_def tx_simps)
  show ?thesis
  proof (cases "changes = []")
    case True
    with run changes e res show ?thesis by (auto simp: commitTx_def tx_simps if_tx_run noCommit_def)
  next
    case False
    with run changes obtain document where
      document: "BuildEffective (cw_source (st_committed st)) (workflowOverlay changes) = Inr document"
      "equalLiveStates (pr_states (cw_projection document)) (st_shared st)"
      by (auto simp: commitTx_def tx_simps if_tx_run split: if_splits)
    obtain result err r where
      "rp_commit R (st_branch st) (st_base_oid st) document message (sv_repo e) = ((result, err), r)"
      by (metis prod.exhaust)
    with run changes False document have rest: "(if \<not> cm_committed result then
          (case err of Some x \<Rightarrow> failT x | None \<Rightarrow> returnT ())
          else bindT (adoptCommit R result) (\<lambda>_. returnT ()))
        (e\<lparr>sv_repo := r, sv_commit := (result, err)\<rparr>) st = (Inr (u, st'), e')"
      by (simp add: commitTx_def tx_simps if_tx_run)
    show ?thesis
    proof (cases "cm_committed result")
      case False
      with rest res show ?thesis by (auto simp: tx_simps split: option.splits)
    next
      case True
      with rest have adopt: "adoptCommit R result (e\<lparr>sv_repo := r, sv_commit := (result, err)\<rparr>) st
          = (Inr ((), st'), e')"
        by (auto simp: tx_simps)
      have committed: "cm_committed res" using adoptCommit_result [OF adopt] True res by simp
      show ?thesis
      proof (cases "cm_recovery res")
        case True
        with committed show ?thesis by simp
      next
        case False
        with adopt res obtain exact where kept: "st_base_oid st' = cm_oid result"
          "shared_map st' = shared_map st" "st_head_revision st' = st_head_revision st"
          "fst (sv_commit e') = result"
          and exact: "acceptsObject st exact" "committed_map st' = live_map (pr_states (cw_projection exact))"
          using adoptCommit_spec [OF adopt] by auto
        then have "committed_map st' = shared_map st"
          using committed_good equalLiveStates_iff shared_good [OF inv]
          by (auto simp: acceptsObject_def)
        with kept committed res show ?thesis by auto
      qed
    qed
  qed
qed


text \<open>The identities an effective document may change are those of the overlay.\<close>

lemma BuildEffective_other:
  assumes build: "BuildEffective source es = Inr document"
    and i: "i \<notin> ov_identity ` set es"
  shows "live_map (pr_states (cw_projection document)) i
    = live_map (liveStatesFromManifest source (Build source)) i"
proof -
  obtain states ns where states: "NormalizeLiveStates (liveStatesFromManifest source (Build source)) = Inr states"
    and ns: "NormalizeOverlay es = Inr ns" "document = NewCommittedWorktree source (effectiveProjection states ns)"
    using build by (auto simp: BuildEffective_def bindR_eq_Inr)
  have "ov_identity ` set ns = ov_identity ` set es"
  proof -
    have "ov_identity ` set ns = ov_identity ` set (keep_last ov_identity es)"
      using ns(1) by (auto simp: NormalizeOverlay_eq_Inr image_image CloneOverlayEntry_def)
    then show ?thesis by simp
  qed
  moreover have "live_map (applyNormalizedOverlay states ns) = overlayMap (live_map states) ns"
  proof (rule live_map_applyNormalizedOverlay)
    show "distinct (map ls_identity states)" using NormalizeLiveStates_distinct [OF states] .
    fix e assume "e \<in> set ns" "\<not> ov_tombstone e"
    then obtain e' where "e' \<in> set es" "e = CloneOverlayEntry e'"
      using ns(1) set_keep_last_subset [of ov_identity es] by (auto simp: NormalizeOverlay_eq_Inr)
    then show "lv_present (ov_value e)"
      using ns(1) \<open>\<not> ov_tombstone e\<close> validateOverlayEntry_present [of e']
      by (auto simp: NormalizeOverlay_eq_Inr CloneOverlayEntry_def)
  qed
  ultimately show ?thesis
    using i ns(2) overlayMap_other live_map_normalize [OF states] by (simp add: effectiveProjection_eq)
qed

text \<open>
  A commit rebuilds the document from the committed source and the changes against the
  committed projection. An identity the projection took from an earlier overlay, and that
  is not changed again, is then missing, and the commit is refused.
\<close>

lemma commitTx_stale:
  assumes inv: "wt_inv st" and changes: "workflowChanges st = Inr cs" "cs \<noteq> []"
    and same: "committed_map st i = shared_map st i"
    and stale: "live_map (liveStatesFromManifest (cw_source (st_committed st))
        (Build (cw_source (st_committed st)))) i \<noteq> shared_map st i"
  shows "\<exists>err. commitTx R message e st = (Inl err, e)"
proof -
  have mat: "st_materialized st" using inv by (simp add: wt_inv_def frame_inv_def)
  have "ch_identity ` set cs = {i. committed_map st i \<noteq> shared_map st i}"
  proof -
    have "cs = refDiff (committed_map st) (shared_map st)"
      using changes(1) DiffSnapshot_changes unfolding workflowChanges_def by blast
    then have "set (map ch_identity cs) = {i. committed_map st i \<noteq> shared_map st i}"
      by (auto simp: refDiff_identities refChange_None domIff)
    then show ?thesis by simp
  qed
  then have other: "i \<notin> ov_identity ` set (workflowOverlay cs)"
    using same by (force simp: workflowOverlay_def overlayOf_def)
  show ?thesis
  proof (cases "BuildEffective (cw_source (st_committed st)) (workflowOverlay cs)")
    case (Inl err)
    with changes mat show ?thesis
      by (simp add: commitTx_def bindT_def requireMaterialized_def getT_def liftT_def returnT_def failT_def)
  next
    case (Inr document)
    have "\<not> equalLiveStates (pr_states (cw_projection document)) (st_shared st)"
    proof
      assume eq: "equalLiveStates (pr_states (cw_projection document)) (st_shared st)"
      then have "live_map (pr_states (cw_projection document)) = shared_map st"
        by (auto simp: equalLiveStates_def DiffSnapshot_eq_Inr refDiff_Nil NormalizeLiveStates_eq_Inr
            eq_commute [of "[]"]
            CloneLiveStates_def [symmetric] split: sum.splits if_splits)
      with BuildEffective_other [OF Inr other] stale show False by simp
    qed
    with Inr changes mat show ?thesis
      by (simp add: commitTx_def bindT_def requireMaterialized_def getT_def liftT_def returnT_def failT_def)
  qed
qed

end
