(* ===== verification/TransactionFacts.thy ===== *)
theory TransactionFacts
  imports WorkflowFacts
begin

text \<open>
  What one transaction leaves on the disk: nothing of a callback that failed, either the
  old or the complete new document of one that did not, and the new one when the
  transaction reports success. Then the framing of a request before it is hashed.
\<close>

section \<open>What is left on the disk\<close>

lemma transaction_file:
  assumes run: "WithTransaction too_large io m s = (out, s')"
  shows "dk_file (sc_disk s') = dk_file (sc_disk s)
    \<or> (\<exists>st previous x st2 env. readCanonical too_large (sc_disk s) = Inr (st, previous)
        \<and> m (sc_env s) (recovered (sc_disk s) st) = (Inr (x, st2), env)
        \<and> dk_file (sc_disk s') = Some (toStateDTO (recovered (sc_disk s) st2))
        \<and> ValidateState (recovered (sc_disk s) st2) = OK)"
proof (cases "sc_disk s' = sc_disk s")
  case False
  from WithTransaction_run [OF run False] show ?thesis
    using persistCanonical_file MarshalState_eq_Inr by blast
qed simp

lemma persistCanonical_durable:
  "persistCanonical io previous nxt projected d = (OK, d') \<Longrightarrow>
     previous \<noteq> nxt \<and> dk_file d' = Some nxt \<or> previous = nxt \<and> dk_file d' = dk_file d"
  by (auto simp: persistCanonical_def Let_def raise_def split: if_splits replace_outcome.splits prod.splits option.splits)

lemma transaction_done:
  assumes run: "WithTransaction too_large io m s = ((Some x, OK), s')"
  shows "\<exists>st previous st2. readCanonical too_large (sc_disk s) = Inr (st, previous)
    \<and> m (sc_env s) (recovered (sc_disk s) st) = (Inr (x, st2), sc_env s')
    \<and> MarshalState too_large (recovered (sc_disk s) st2) = Inr (toStateDTO (recovered (sc_disk s) st2))
    \<and> (previous \<noteq> toStateDTO (recovered (sc_disk s) st2)
         \<and> dk_file (sc_disk s') = Some (toStateDTO (recovered (sc_disk s) st2))
       \<or> previous = toStateDTO (recovered (sc_disk s) st2) \<and> dk_file (sc_disk s') = dk_file (sc_disk s))"
proof (cases "bindR (raise (io_enter io)) (\<lambda>_. bindR (readCanonical too_large (sc_disk s)) (\<lambda>loaded.
    bindR (raise (io_marker io)) (\<lambda>_. Inr loaded)))")
  case (Inl e)
  with run show ?thesis by (auto simp: WithTransaction_def)
next
  case (Inr loaded)
  obtain st previous where l: "loaded = (st, previous)" by fastforce
  with Inr have read: "readCanonical too_large (sc_disk s) = Inr (st, previous)"
    by (auto simp: bindR_eq_Inr)
  let ?rec = "recovered (sc_disk s)"
  obtain r env where mut: "m (sc_env s) (?rec st) = (r, env)" by fastforce
  show ?thesis
  proof (cases r)
    case (Inl e)
    with \<open>_ = Inr loaded\<close> l run mut show ?thesis
      by (auto simp: WithTransaction_def Let_def recovered_def)
  next
    case (Inr y)
    obtain x' st2 where y: "y = (x', st2)" by fastforce
    show ?thesis
    proof (cases "bindR (raise (io_leave io)) (\<lambda>_. MarshalState too_large (?rec st2))")
      case (Inl e)
      with \<open>_ = Inr loaded\<close> \<open>r = Inr y\<close> y l run mut show ?thesis
        by (auto simp: WithTransaction_def Let_def recovered_def)
    next
      case (Inr nxt)
      then have enc: "MarshalState too_large (?rec st2) = Inr nxt" by (auto simp: bindR_eq_Inr)
      have "x' = x \<and> env = sc_env s' \<and> persistCanonical io previous nxt
          (dk_marker (sc_disk s) \<and> st_shells st2 \<noteq> []) (sc_disk s) = (OK, sc_disk s')"
        using \<open>_ = Inr loaded\<close> \<open>r = Inr y\<close> Inr y l run mut
        by (auto simp: WithTransaction_def Let_def recovered_def split: prod.splits)
      then show ?thesis
        using read mut \<open>r = Inr y\<close> y enc MarshalState_eq_Inr [OF enc]
          persistCanonical_durable [of io previous nxt _ "sc_disk s" "sc_disk s'"] by auto
    qed
  qed
qed

text \<open>A transaction that succeeds can be read back: the next reader gets the same state.\<close>

lemma read_back:
  assumes enc: "MarshalState too_large st = Inr (toStateDTO st)" and inv: "wt_inv st"
    and stored: "dk_file d = Some (toStateDTO st)"
  shows "readCanonical too_large d = Inr (normState st, toStateDTO st)"
proof -
  have doc: "document_of st d" using inv stored by (simp add: document_of_def)
  have small: "\<not> too_large (toStateDTO st)"
    using enc by (auto simp: MarshalState_def bindR_eq_Inr split: if_splits)
  obtain st' previous where r: "readCanonical too_large d = Inr (st', previous)"
    using readCanonical_total [of st d too_large] doc small by blast
  have "fromStateDTO (toStateDTO st) = Inr (normState st)"
    using fromStateDTO_to [OF wt_inv_bytes [OF inv]] by simp
  moreover have "cloneState (normState st) = Some (normState st)"
    using cloneState_eq [OF wt_inv_bytes [OF wt_inv_norm [OF inv]]] by simp
  ultimately have "st' = normState st \<and> previous = toStateDTO st"
    using r stored by (auto simp: readCanonical_def UnmarshalState_def bindR_def split: if_splits sum.splits option.splits)
  with r show ?thesis by simp
qed

lemma transaction_read_back:
  assumes m: "keeps m" and inv: "disk_inv (sc_disk s)"
    and run: "WithTransaction too_large io m s = ((Some x, OK), s')"
  shows "\<exists>st previous st2. readCanonical too_large (sc_disk s) = Inr (st, previous)
    \<and> m (sc_env s) (recovered (sc_disk s) st) = (Inr (x, st2), sc_env s')
    \<and> readCanonical too_large (sc_disk s') =
        Inr (if st2 = emptyState then emptyState else normState (recovered (sc_disk s) st2),
          toStateDTO (recovered (sc_disk s) st2))"
proof -
  let ?rec = "recovered (sc_disk s)"
  obtain st previous st2 where read: "readCanonical too_large (sc_disk s) = Inr (st, previous)"
    and mut: "m (sc_env s) (?rec st) = (Inr (x, st2), sc_env s')"
    and enc: "MarshalState too_large (?rec st2) = Inr (toStateDTO (?rec st2))"
    and stored: "previous \<noteq> toStateDTO (?rec st2) \<and> dk_file (sc_disk s') = Some (toStateDTO (?rec st2))
      \<or> previous = toStateDTO (?rec st2) \<and> dk_file (sc_disk s') = dk_file (sc_disk s)"
    using transaction_done [OF run] by blast
  obtain doc where "document_of doc (sc_disk s)" using inv by (auto simp: disk_inv_def)
  from readCanonical_document [OF this read]
  have gen: "generation st" and previous: "previous = toStateDTO st"
    and none: "dk_file (sc_disk s) = None \<longleftrightarrow> st = emptyState" by auto
  have old: "dk_file (sc_disk s) = Some previous" if "st \<noteq> emptyState"
    using that none read by (auto simp: readCanonical_def split: option.splits sum.splits)
  have "in_limits (?rec st2)" using MarshalState_eq_Inr [OF enc] valid_limits by blast
  then have limits: "in_limits st2" by simp
  have "readCanonical too_large (sc_disk s') =
      Inr (if st2 = emptyState then emptyState else normState (?rec st2), toStateDTO (?rec st2))"
  proof (cases "wt_inv st2")
    case True
    then have w: "wt_inv (?rec st2)" by (rule recovered_inv)
    have "dk_file (sc_disk s') = Some (toStateDTO (?rec st2))"
    proof (cases "st = emptyState")
      case True
      have "st_materialized (?rec st2)" using w by (simp add: wt_inv_def frame_inv_def)
      then have "toStateDTO emptyState \<noteq> toStateDTO (?rec st2)"
        by (auto simp: toStateDTO_def emptyState_def)
      then show ?thesis using stored previous True by simp
    next
      case False
      then show ?thesis using stored old by auto
    qed
    from read_back [OF enc w this] show ?thesis using True wt_inv_not_empty by auto
  next
    case False
    have "(wt_inv (?rec st) \<longrightarrow> wt_inv st2) \<and> (?rec st = emptyState \<longrightarrow> st2 = emptyState \<or> wt_inv st2)"
      using m mut limits unfolding keeps_def by blast
    then have empty: "st = emptyState" "st2 = emptyState"
      using False gen recovered_inv [of st "sc_disk s"] by (auto simp: generation_def)
    then have "dk_file (sc_disk s') = None" using stored previous none by auto
    then show ?thesis using empty enc by (simp add: readCanonical_def)
  qed
  with read mut show ?thesis by blast
qed

section \<open>Callbacks that fail\<close>

lemma transaction_refused:
  assumes fails: "\<And>st previous. readCanonical too_large (sc_disk s) = Inr (st, previous) \<Longrightarrow>
      \<exists>err env. m (sc_env s) (recovered (sc_disk s) st) = (Inl err, env)"
    and run: "runOp (WithTransaction too_large io m s) = (r, s')"
  shows "sc_disk s' = sc_disk s \<and> isl r"
proof -
  obtain out s1 where t: "WithTransaction too_large io m s = (out, s1)" by fastforce
  have same: "sc_disk s1 = sc_disk s"
  proof (rule ccontr)
    assume "sc_disk s1 \<noteq> sc_disk s"
    from WithTransaction_run [OF t this] fails show False by fastforce
  qed
  have "isl (fst (runOp (out, s1)))"
  proof (rule ccontr)
    assume "\<not> isl (fst (runOp (out, s1)))"
    then obtain x where "out = (Some x, OK)"
      by (cases out; cases "fst out"; cases "snd out") (auto simp: runOp_def)
    with t transaction_done [of too_large io m s x s1] fails show False by fastforce
  qed
  then show ?thesis using run t same runOp_disk [of "(out, s1)"] by (auto simp: runOp_def split: prod.splits)
qed

lemma authorizeShell_recovered:
  assumes "\<And>sh. authorizeShell H st cred \<noteq> Inr sh"
  shows "\<exists>err. authorizeShell H (recovered d st) cred = Inl err"
proof (rule ccontr)
  assume "\<nexists>err. authorizeShell H (recovered d st) cred = Inl err"
  then obtain sh where "authorizeShell H (recovered d st) cred = Inr sh"
    by (cases "authorizeShell H (recovered d st) cred") auto
  then have auth: "st_materialized (recovered d st)"
    "map_of (st_shells (recovered d st)) (cr_shell_id cred) = Some sh"
    "VerifyShellCapability (hx_sha256 H) (sh_verifier sh) (cr_capability cred)"
    by (auto simp: authorizeShell_eq_Inr)
  have "\<exists>sh0. map_of (st_shells st) (cr_shell_id cred) = Some sh0 \<and> sh_verifier sh0 = sh_verifier sh"
    using auth(2) by (auto simp: recovered_def projectRecoveredPersistence_def map_of_map split: if_splits)
  moreover have "st_materialized st"
    using auth(1) by (auto simp: recovered_def projectRecoveredPersistence_def split: if_splits)
  ultimately obtain sh0 where "authorizeShell H st cred = Inr sh0"
    using auth(3) by (auto simp: authorizeShell_eq_Inr)
  with assms show False by blast
qed

section \<open>Framing\<close>

lemma length_be64 [simp]: "length (be64 w) = 8"
  by (simp add: be64_def)

lemma be64_inject: "be64 v = be64 w \<Longrightarrow> v = w"
proof -
  assume eq: "be64 v = be64 w"
  have byte: "unat (drop_bit (8 * k) v) mod 256 = unat (drop_bit (8 * k) w) mod 256" if "k < 8" for k
  proof -
    have "k \<in> set [7, 6, 5, 4, 3, 2, 1, 0]" using that by auto
    then have "(char_of (unat (drop_bit (8 * k) v) mod 256) :: char) = char_of (unat (drop_bit (8 * k) w) mod 256)"
      using eq unfolding be64_def map_eq_conv by blast
    then have "(of_char (char_of (unat (drop_bit (8 * k) v) mod 256) :: char) :: nat)
        = of_char (char_of (unat (drop_bit (8 * k) w) mod 256) :: char)" by (rule arg_cong)
    then show ?thesis by (simp only: of_char_of mod_mod_trivial)
  qed
  show "v = w"
  proof (rule bit_word_eqI)
    fix n
    assume n: "n < LENGTH(64)"
    let ?k = "n div 8"
    have k: "?k < 8" using n by simp
    have "bit u n = bit (unat (drop_bit (8 * ?k) u) mod 256) (n mod 8)" for u :: u64
    proof -
      have "unat (drop_bit (8 * ?k) u) mod 256 = take_bit 8 (unat (drop_bit (8 * ?k) u))"
        by (simp add: take_bit_eq_mod)
      moreover have "8 * ?k + n mod 8 = n" by simp
      ultimately show ?thesis
        using n by (simp add: bit_take_bit_iff unsigned_drop_bit_eq bit_drop_bit_eq bit_unsigned_iff)
    qed
    with byte [OF k] show "bit v n = bit w n" by metis
  qed
qed

lemma len64_inject:
  "length p < 2 ^ 64 \<Longrightarrow> length q < 2 ^ 64 \<Longrightarrow> len64 p = len64 q \<Longrightarrow> length p = length q"
  by (simp add: len64_def word_of_nat_eq_iff take_bit_nat_eq_self)

lemma framed_prefix:
  assumes "framed p @ r = framed q @ s" "length p < 2 ^ 64" "length q < 2 ^ 64"
  shows "p = q \<and> r = s"
proof -
  have "be64 (len64 p) = be64 (len64 q)" and rest: "p @ r = q @ s"
    using assms(1) by (auto simp: framed_def append_eq_append_conv_if split: if_splits)
  then have "len64 p = len64 q" using be64_inject by blast
  then have "length p = length q" using len64_inject [OF assms(2,3)] by simp
  with rest show ?thesis by simp
qed

lemma framed_nonempty: "framed p \<noteq> []"
  using length_be64 [of "len64 p"] by (auto simp: framed_def simp del: length_be64)

lemma framed_list_inject:
  assumes "concat (map framed ps) = concat (map framed qs)"
    and "\<forall>p \<in> set ps. length p < 2 ^ 64" "\<forall>q \<in> set qs. length q < 2 ^ 64"
  shows "ps = qs"
  using assms
proof (induction ps arbitrary: qs)
  case Nil
  then show ?case using framed_nonempty by (cases qs) auto
next
  case (Cons p ps)
  then obtain q qs' where qs: "qs = q # qs'"
    using framed_nonempty by (cases qs) auto
  with Cons.prems have "p = q \<and> concat (map framed ps) = concat (map framed qs')"
    by (intro framed_prefix) auto
  with Cons qs show ?case by auto
qed

lemma operationPreimage_inject:
  assumes eq: "operationPreimage d ps = operationPreimage d' qs"
    and nul: "\<not> has_nul d" "\<not> has_nul d'"
    and len: "\<forall>p \<in> set ps. length p < 2 ^ 64" "\<forall>q \<in> set qs. length q < 2 ^ 64"
  shows "d = d' \<and> ps = qs"
proof -
  have split: "takeWhile (\<lambda>c. c \<noteq> CHR 0x00) (x @ CHR 0x00 # r) = x
      \<and> dropWhile (\<lambda>c. c \<noteq> CHR 0x00) (x @ CHR 0x00 # r) = CHR 0x00 # r" if "\<not> has_nul x" for x r
    using that by (auto simp: has_nul_def takeWhile_append dropWhile_append)
  have "d @ CHR 0x00 # concat (map framed ps) = d' @ CHR 0x00 # concat (map framed qs)"
    using eq by (simp add: operationPreimage_def)
  then have "d = d' \<and> concat (map framed ps) = concat (map framed qs)"
    using split [OF nul(1)] split [OF nul(2)] by (metis list.inject)
  with framed_list_inject [OF _ len] show ?thesis by blast
qed

end
