(* ===== verification/Samples.thy ===== *)
theory Samples
  imports TransactionFacts
begin

text \<open>
  A concrete run the witnesses are evaluated on: a profile that exports one variable is
  materialized, two shells attach to it, both publish a new value of that variable, the
  second one loses and keeps a conflict, resolves it and acknowledges.
\<close>

section \<open>The world\<close>

definition sample_sha :: "string \<Rightarrow> string" where
  "sample_sha x = CHR ''k'' # take 31 (rev x @ replicate 31 CHR ''0'')"

definition sample_hash :: hashing where
  "sample_hash = \<lparr>hx_sha256 = sample_sha,
     hx_json = (\<lambda>d. case d of JStates ss \<Rightarrow> concat (map (\<lambda>s. id_name (ls_identity s) @
        (case lv_scalar (ls_value s) of None \<Rightarrow> [] | Some v \<Rightarrow> v)) ss) | _ \<Rightarrow> [])\<rparr>"

lemma sample_hash_good: "good_hash sample_hash"
proof -
  have "length (sample_sha x) = 32" for x by (simp add: sample_sha_def)
  moreover have "sample_sha x \<noteq> zero32" for x
  proof
    assume "sample_sha x = zero32"
    then have "hd (sample_sha x) = hd zero32" by simp
    then show False by (simp add: sample_sha_def zero32_def)
  qed
  ultimately show ?thesis by (simp add: good_hash_def sample_hash_def)
qed

definition sample_oid :: string where
  "sample_oid = replicate 40 CHR ''a''"

definition foo :: identity where "foo = Identity LiveEnv ''FOO''"
definition new_name :: identity where "new_name = Identity LiveEnv ''NEW''"

definition env_entry :: "string \<Rightarrow> string \<Rightarrow> entry" where
  "env_entry name v =
     \<lparr>en_text = [], en_start_line = 1, en_category = CatEnvironment, en_kind = KindAssignment,
      en_cmd_name = ''export'', en_names = [name], en_value = v, en_exported = True,
      en_managed = True, en_override = OverrideAuto, en_dynamic = False, en_fidelity_known = True,
      en_append = False, en_array = False, en_flagged = False, en_indexed = False,
      en_alias_assignment = False, en_declaration_flags = [], en_option_flags = [], en_secret = None,
      en_value_mode = ValueModeLiteral, en_runtime_value = Some v, en_function_body = None,
      en_list_value = None\<rparr>"

definition set_to :: "identity \<Rightarrow> string \<Rightarrow> live_state" where
  "set_to i v = \<lparr>ls_identity = i, ls_value = ScalarLiveValue v\<rparr>"

definition change_to :: "change_kind \<Rightarrow> identity \<Rightarrow> string \<Rightarrow> live_change" where
  "change_to k i v = \<lparr>ch_kind = k, ch_identity = i, ch_value = ScalarLiveValue v\<rparr>"

definition sample_source :: profile where
  "sample_source = [env_entry ''FOO'' ''bar'']"

definition sample_committed :: committed_worktree where
  "sample_committed = NewCommittedWorktree sample_source
     \<lparr>pr_schema = WorktreeSchemaV1, pr_states = [set_to foo ''bar''], pr_tombstones = []\<rparr>"

lemma sample_build: "BuildEffective sample_source [] = Inr sample_committed"
  by code_simp

definition sample_state :: wt_state where
  "sample_state = materializedState ''main'' sample_oid sample_committed [set_to foo ''bar'']
     [change_to LiveAdd foo ''bar'']"

lemma sample_materialize: "materializeCandidate ''main'' sample_oid sample_committed = Inr sample_state"
  by code_simp

lemma sample_inv: "wt_inv sample_state"
  using sample_materialize by (rule materializeCandidate_inv)

section \<open>A process\<close>

definition sample_env :: "unit service_env" where
  "sample_env = \<lparr>sv_registry = NewRegistry 1 (Some (\<lambda>_. False)), sv_repo = (), sv_commit = (noCommit, None)\<rparr>"

end
