(* ===== verification/SampleRuns.thy ===== *)
theory SampleRuns
  imports Samples
begin

text \<open>
  A run of the shell operations from the state of \<open>Samples\<close>: two shells attach, the
  first publishes a new value, the second publishes another value for the same identity
  and one for a new identity, loses the first and keeps a conflict.
\<close>

section \<open>Requests\<close>

definition credential :: "string \<Rightarrow> char \<Rightarrow> shell_credential" where
  "credential sid c = \<lparr>cr_shell_id = sid, cr_capability = \<lparr>cap_material = Some (replicate 32 c)\<rparr>\<rparr>"

definition alice :: shell_credential where "alice = credential ''alice'' CHR ''A''"
definition bob :: shell_credential where "bob = credential ''bob'' CHR ''B''"

definition stamp_of :: "char \<Rightarrow> fingerprint" where "stamp_of c = replicate 32 c"

definition attach_of :: "string \<Rightarrow> shell_credential \<Rightarrow> attach_request" where
  "attach_of opid cred = \<lparr>ar_operation_id = opid, ar_credential = cred, ar_initial = snap [set_to foo ''bar'']\<rparr>"

definition publish_of :: "string \<Rightarrow> shell_credential \<Rightarrow> live_change list \<Rightarrow> publish_request" where
  "publish_of opid cred delta = \<lparr>pq_operation_id = opid, pq_credential = cred,
     pq_acknowledged_revision = 1, pq_delta = delta\<rparr>"

definition sample_registry :: registry where
  "sample_registry = (NewRegistry 1 (Some (\<lambda>_. False)))\<lparr>rg_owned := {foo}\<rparr>"

lemma sample_registry_sel [simp]:
  "rg_owned sample_registry = {foo}" "rg_id sample_registry = 1" "rg_pinned sample_registry = {}"
  by (simp_all add: sample_registry_def NewRegistry_def)

lemma sample_seed:
  "Seed r sample_source = Inr (r\<lparr>rg_owned := {foo}, rg_pinned := {}\<rparr>)"
proof -
  have "seedLoop [] sample_source = Inr [(foo, \<lparr>sd_owned = True, sd_pin = False\<rparr>)]" by code_simp
  then show ?thesis by (simp add: Seed_def del: set_map set_filter)
qed

definition seeded_env :: "unit service_env" where
  "seeded_env = sample_env\<lparr>sv_registry := sample_registry\<rparr>"

lemma sample_source_of [simp]: "cw_source sample_committed = sample_source"
  by (simp add: sample_committed_def NewCommittedWorktree_def)

lemma seed_sample:
  "cw_source (st_committed st) = sample_source \<Longrightarrow> st_admitted st = [] \<Longrightarrow> \<not> st_admitted_missing st \<Longrightarrow>
     seedRegistryFromState sample_env st = (Inr ((), st), seeded_env)"
  by (simp add: seedRegistryFromState_def tx_simps if_tx_run sample_seed RestoreAdmitted_def
      validateAdmittedIdentities_def sample_env_def seeded_env_def sample_registry_def NewRegistry_def)

lemma capability_of:
  "DeriveShellCapabilityVerifier sample_sha \<lparr>cap_material = Some (replicate 32 CHR ''A'')\<rparr> = Inr (CHR ''k'' # replicate 31 CHR ''A'')"
  "VerifyShellCapability sample_sha (CHR ''k'' # replicate 31 CHR ''A'') \<lparr>cap_material = Some (replicate 32 CHR ''A'')\<rparr>"
  "DeriveShellCapabilityVerifier sample_sha \<lparr>cap_material = Some (replicate 32 CHR ''B'')\<rparr> = Inr (CHR ''k'' # replicate 31 CHR ''B'')"
  "VerifyShellCapability sample_sha (CHR ''k'' # replicate 31 CHR ''B'') \<lparr>cap_material = Some (replicate 32 CHR ''B'')\<rparr>"
  by code_simp+

lemma sample_attachment:
  "registryAttach sample_registry (snap [set_to foo ''bar'']) =
     Inr \<lparr>am_baseline = [set_to foo ''bar''], am_exclusions = [], am_present = {foo}, am_registry = 1\<rparr>"
  by code_simp


section \<open>Two attachments\<close>

definition fresh_shell :: "char \<Rightarrow> shell_state" where
  "fresh_shell c =
     \<lparr>sh_verifier = CHR ''k'' # replicate 31 c,
      sh_attach_state = AttachStateAtHead, sh_attached_revision = 1, sh_applied_revision = 1,
      sh_applied_baseline = [set_to foo ''bar''], sh_capture_baseline = [set_to foo ''bar''],
      sh_unpublished = [], sh_present_at_attach = [foo], sh_exclusions = [],
      sh_transition = TransitionAttach, sh_pending = noPending, sh_behind = False,
      sh_auto_apply = None, sh_conflict = None, sh_recovered = RecoveredNone, sh_last_active = 1\<rparr>"

definition attach_answer :: attach_result where
  "attach_answer = \<lparr>at_revision = 1, at_attached = True, at_reconcile_required = False, at_exclusions = []\<rparr>"

definition attach_note :: "string \<Rightarrow> string \<Rightarrow> char \<Rightarrow> operation_receipt" where
  "attach_note sid opid c =
     (emptyReceipt sid opid ReceiptAttach (stamp_of c))\<lparr>or_attach := Some attach_answer\<rparr>"

definition alice_state :: wt_state where
  "alice_state = sample_state\<lparr>st_shells := [(''alice'', fresh_shell CHR ''A'')],
     st_receipts := [attach_note ''alice'' ''op-1'' CHR ''1'']\<rparr>"

definition both_state :: wt_state where
  "both_state = alice_state\<lparr>st_shells := [(''alice'', fresh_shell CHR ''A''), (''bob'', fresh_shell CHR ''B'')],
     st_receipts := [attach_note ''alice'' ''op-1'' CHR ''1'', attach_note ''bob'' ''op-2'' CHR ''2'']\<rparr>"

lemma sample_state_sel [simp]:
  "st_materialized sample_state" "st_shells sample_state = []" "st_receipts sample_state = []"
  "st_committed sample_state = sample_committed" "st_admitted sample_state = []"
  "\<not> st_admitted_missing sample_state" "st_head_revision sample_state = 1"
  "st_shared sample_state = [set_to foo ''bar'']" "st_branch sample_state = ''main''"
  "st_base_oid sample_state = sample_oid" "st_compaction_floor sample_state = 0"
  "st_compaction_baseline sample_state = []"
  by (simp_all add: sample_state_def materializedState_def)

lemma same_values: "equalLiveStates [set_to foo ''bar''] [set_to foo ''bar'']"
  by code_simp

lemma set_to_sel [simp]:
  "ls_identity (set_to i v) = i" "lv_present (ls_value (set_to i v))" "CloneLiveState (set_to i v) = set_to i v"
  by (simp_all add: set_to_def CloneLiveState_def CloneLiveValue_def ScalarLiveValue_def)

lemma present_foo: "presentIdentities (snap [set_to foo ''bar'']) = [foo]"
  by code_simp

lemmas run_sample = tx_simps if_tx_run seed_sample credential_def sample_hash_def capability_of Let_def
  appendReceipt_def putShell_def MaxOperationReceiptsPerShell_def MaxShellRecords_def

lemma alice_attached:
  "attachTx sample_hash (attach_of ''op-1'' alice) (snap [set_to foo ''bar'']) (stamp_of CHR ''1'')
     sample_env sample_state = (Inr (attach_answer, alice_state), seeded_env)"
  by (simp add: attachTx_def run_sample attach_of_def alice_def sample_attachment seeded_env_def
     attachRecord_def attachedShell_def same_values present_foo presentOnly_def CloneLiveStates_def
     attach_answer_def alice_state_def fresh_shell_def attach_note_def)

lemma attached_state_sel [simp]:
  "st_materialized alice_state" "st_committed alice_state = sample_committed" "st_admitted alice_state = []"
  "\<not> st_admitted_missing alice_state" "st_head_revision alice_state = 1"
  "st_shared alice_state = [set_to foo ''bar'']"
  "st_materialized both_state" "st_committed both_state = sample_committed" "st_admitted both_state = []"
  "\<not> st_admitted_missing both_state" "st_head_revision both_state = 1"
  "st_shared both_state = [set_to foo ''bar'']" "st_compaction_floor both_state = 0"
  by (simp_all add: alice_state_def both_state_def)

lemma bob_attached:
  "attachTx sample_hash (attach_of ''op-2'' bob) (snap [set_to foo ''bar'']) (stamp_of CHR ''2'')
     sample_env alice_state = (Inr (attach_answer, both_state), seeded_env)"
  by (simp add: attachTx_def run_sample attach_of_def bob_def sample_attachment seeded_env_def
     attachRecord_def attachedShell_def same_values present_foo presentOnly_def CloneLiveStates_def
     attach_answer_def alice_state_def both_state_def fresh_shell_def attach_note_def emptyReceipt_def)


section \<open>Two publications\<close>

definition publish_note :: "string \<Rightarrow> string \<Rightarrow> char \<Rightarrow> publish_result \<Rightarrow> operation_receipt" where
  "publish_note sid opid c res = (emptyReceipt sid opid ReceiptPublish (stamp_of c))\<lparr>or_publish := Some res\<rparr>"

definition alice_delta :: "live_change list" where
  "alice_delta = [change_to LiveUpdate foo ''baz'']"

definition alice_answer :: publish_result where
  "alice_answer = \<lparr>pb_shared_revision = 2, pb_accepted = [foo], pb_conflicts = []\<rparr>"

definition alice_ahead :: shell_state where
  "alice_ahead = (fresh_shell CHR ''A'')\<lparr>sh_transition := TransitionPublish,
       sh_capture_baseline := [set_to foo ''baz''], sh_behind := True, sh_last_active := 2\<rparr>"

definition published_state :: wt_state where
  "published_state = both_state\<lparr>st_head_revision := 2, st_shared := [set_to foo ''baz''],
     st_events := st_events sample_state @ [\<lparr>se_revision = 2, se_operation_id = ''op-3'',
       se_shell_id = ''alice'', se_changes = alice_delta\<rparr>],
     st_shells := [(''alice'', alice_ahead), (''bob'', fresh_shell CHR ''B'')],
     st_receipts := st_receipts both_state @ [publish_note ''alice'' ''op-3'' CHR ''3'' alice_answer]\<rparr>"

lemma event_sample [simp]:
  "st_events sample_state = [\<lparr>se_revision = 1, se_operation_id = ''materialize:1'', se_shell_id = [],
      se_changes = [change_to LiveAdd foo ''bar'']\<rparr>]"
  "st_events alice_state = st_events sample_state" "st_events both_state = st_events sample_state"
  by (simp_all add: sample_state_def materializedState_def alice_state_def both_state_def)

lemma alice_pieces:
  "validateChanges alice_delta = OK"
  "applyStateChanges [set_to foo ''bar''] alice_delta = Inr [set_to foo ''baz'']"
  "DiffSnapshot (snap [set_to foo ''bar'']) (snap [set_to foo ''baz'']) = Inr alice_delta"
  "changeMatchesStates (change_to LiveUpdate foo ''baz'') [set_to foo ''bar''] = False"
  "exclusionReason sample_registry foo = AdmissionNone"
  by code_simp+

lemma change_to_sel [simp]:
  "ch_identity (change_to k i v) = i" "ch_kind (change_to k i v) = k"
  "CloneLiveChange (change_to k i v) = change_to k i v"
  by (simp_all add: change_to_def CloneLiveChange_def CloneLiveValue_def ScalarLiveValue_def)

lemma short_history:
  assumes "length (st_events st) \<le> 128" "\<not> st_head_revision st < st_compaction_floor st"
    and "validateEventSequence (st_compaction_floor st) (st_head_revision st) (st_events st) = OK"
  shows "CompactStateHistory st = Inr st"
proof -
  have "compactLoop b f es = Inr (b, f, es)" if "length es \<le> 128" for b f es
    using that by (cases es) (simp_all add: MaxStateEvents_def)
  with assms show ?thesis by (simp add: CompactStateHistory_def)
qed

lemma alice_admitted:
  "admittedChanges (fresh_shell c) alice_delta seeded_env st = (Inr (alice_delta, st), seeded_env)"
  by (simp add: admittedChanges_def alice_delta_def tx_simps admitIdentity_def if_tx_run
     seeded_env_def AllowsLiveValue_def alice_pieces ex_bool_eq) (simp add: sample_registry_def Owns_def)

lemma fresh_shell_sel [simp]:
  "sh_verifier (fresh_shell c) = CHR ''k'' # replicate 31 c" "sh_pending (fresh_shell c) = noPending"
  "sh_conflict (fresh_shell c) = None" "sh_unpublished (fresh_shell c) = []"
  "sh_applied_revision (fresh_shell c) = 1" "sh_capture_baseline (fresh_shell c) = [set_to foo ''bar'']"
  by (simp_all add: fresh_shell_def)

lemma both_state_shells [simp]:
  "st_shells both_state = [(''alice'', fresh_shell CHR ''A''), (''bob'', fresh_shell CHR ''B'')]"
  "st_receipts both_state = [attach_note ''alice'' ''op-1'' CHR ''1'', attach_note ''bob'' ''op-2'' CHR ''2'']"
  by (simp_all add: both_state_def)

lemma attach_note_sel [simp]:
  "or_shell_id (attach_note sid opid c) = sid" "or_operation_id (attach_note sid opid c) = opid"
  by (simp_all add: attach_note_def emptyReceipt_def)

lemma next_revisions: "NextRevision 1 = Inr 2" "NextRevision 2 = Inr 3"
  by code_simp+

lemma alice_delta_sel:
  "alice_delta \<noteq> []" "map ch_identity alice_delta = [foo]" "CloneLiveChanges alice_delta = alice_delta"
  by (simp_all add: alice_delta_def CloneLiveChanges_def)

lemma alice_merge:
  "publishMerge sample_hash (publish_of ''op-3'' alice alice_delta) (stamp_of CHR ''3'')
     (fresh_shell CHR ''A'') alice_delta both_state = Inr (alice_answer, published_state)"
proof -
  have acc: "acceptedChanges both_state 1 alice_delta = alice_delta" "losingChanges both_state 1 alice_delta = []"
    by (simp_all add: acceptedChanges_def losingChanges_def pendingChanges_def alice_delta_def alice_pieces
        losesTo_def changedIdentitiesAfter_def
        del: changeMatchesStates.simps)
  have seq: "validateEventSequence 0 2 [\<lparr>se_revision = 1, se_operation_id = ''materialize:1'', se_shell_id = [],
      se_changes = [change_to LiveAdd foo ''bar'']\<rparr>, \<lparr>se_revision = 2, se_operation_id = ''op-3'',
       se_shell_id = ''alice'', se_changes = alice_delta\<rparr>] = OK" by code_simp
  show ?thesis
    by (simp add: publishMerge_def alice_pieces publish_of_def alice_def credential_def acc Let_def commitAccepted_def
      alice_delta_sel next_revisions short_history seq publishConflicts_def publishedShell_def alice_answer_def
      published_state_def alice_ahead_def putShell_def appendReceipt_def MaxOperationReceiptsPerShell_def publish_note_def)
qed

lemma alice_published:
  "publishTx sample_hash (publish_of ''op-3'' alice alice_delta) alice_delta (stamp_of CHR ''3'')
     sample_env both_state = (Inr (alice_answer, published_state), seeded_env)"
  using alice_merge
  by (simp add: publishTx_def run_sample alice_def publish_of_def authorizeShell_def alice_pieces receiptFor_def
    alice_admitted)

section \<open>A losing publication\<close>

definition bob_delta :: "live_change list" where
  "bob_delta = [change_to LiveUpdate foo ''qux'', change_to LiveAdd new_name ''1'']"

definition bob_token :: resolution_token where
  "bob_token = newResolutionToken sample_hash ''conflict'' ''op-4'' (stamp_of CHR ''4'') 3"

definition bob_conflict :: conflict where
  "bob_conflict = \<lparr>cf_kind = ConflictOverlap, cf_identity = foo, cf_base_revision = 1,
     cf_shared_revision = 3, cf_token = bob_token\<rparr>"

definition bob_answer :: publish_result where
  "bob_answer = \<lparr>pb_shared_revision = 3, pb_accepted = [new_name], pb_conflicts = [bob_conflict]\<rparr>"

definition bob_losing :: shell_state where
  "bob_losing = (fresh_shell CHR ''B'')\<lparr>sh_transition := TransitionUnpublished,
     sh_capture_baseline := [set_to foo ''qux'', set_to new_name ''1''],
     sh_conflict := Some bob_conflict, sh_unpublished := [change_to LiveUpdate foo ''qux''],
     sh_behind := True, sh_last_active := 3\<rparr>"

definition admitted_state :: wt_state where
  "admitted_state = published_state\<lparr>st_admitted := [new_name]\<rparr>"

definition admitted_env :: "unit service_env" where
  "admitted_env = sample_env\<lparr>sv_registry := sample_registry\<lparr>rg_owned := {new_name, foo}\<rparr>\<rparr>"

definition conflict_state :: wt_state where
  "conflict_state = admitted_state\<lparr>st_head_revision := 3,
     st_shared := [set_to foo ''baz'', set_to new_name ''1''],
     st_events := st_events published_state @ [\<lparr>se_revision = 3, se_operation_id = ''op-4'',
       se_shell_id = ''bob'', se_changes = [change_to LiveAdd new_name ''1'']\<rparr>],
     st_shells := [(''alice'', alice_ahead), (''bob'', bob_losing)],
     st_receipts := st_receipts published_state @ [publish_note ''bob'' ''op-4'' CHR ''4'' bob_answer]\<rparr>"

lemma published_state_sel [simp]:
  "st_materialized published_state" "st_committed published_state = sample_committed"
  "st_admitted published_state = []" "\<not> st_admitted_missing published_state"
  "st_shells published_state = [(''alice'', alice_ahead), (''bob'', fresh_shell CHR ''B'')]"
  "st_head_revision published_state = 2" "st_shared published_state = [set_to foo ''baz'']"
  "st_compaction_floor published_state = 0"
  by (simp_all add: published_state_def)

lemma admitted_state_sel [simp]:
  "st_shells admitted_state = st_shells published_state" "st_head_revision admitted_state = 2"
  "st_shared admitted_state = [set_to foo ''baz'']" "st_compaction_floor admitted_state = 0"
  "st_events admitted_state = st_events published_state" "st_receipts admitted_state = st_receipts published_state"
  by (simp_all add: admitted_state_def)

lemma published_events:
  "st_events published_state = [\<lparr>se_revision = 1, se_operation_id = ''materialize:1'', se_shell_id = [],
      se_changes = [change_to LiveAdd foo ''bar'']\<rparr>, \<lparr>se_revision = 2, se_operation_id = ''op-3'',
       se_shell_id = ''alice'', se_changes = alice_delta\<rparr>]"
  by (simp add: published_state_def)

lemma names_differ [simp]: "foo \<noteq> new_name" "new_name \<noteq> foo"
  by (simp_all add: foo_def new_name_def)

lemma bob_pieces:
  "validateChanges bob_delta = OK" "ValidateIdentity new_name = OK"
  "exclusionReason sample_registry new_name = AdmissionNone"
  "exclusionReason (sample_registry\<lparr>rg_owned := {new_name, foo}\<rparr>) new_name = AdmissionNone"
  "validateAdmittedIdentities [new_name] = OK"
  "applyStateChanges [set_to foo ''bar''] bob_delta = Inr [set_to foo ''qux'', set_to new_name ''1'']"
  "applyStateChanges [set_to foo ''baz''] [change_to LiveAdd new_name ''1''] =
     Inr [set_to foo ''baz'', set_to new_name ''1'']"
  "DiffSnapshot (snap [set_to foo ''bar'']) (snap [set_to foo ''qux'', set_to new_name ''1'']) = Inr bob_delta"
  "\<not> changeMatchesStates (change_to LiveUpdate foo ''qux'') [set_to foo ''baz'']"
  "\<not> changeMatchesStates (change_to LiveAdd new_name ''1'') [set_to foo ''baz'']"
  by code_simp+

lemma bob_admitted:
  "admittedChanges (fresh_shell c) bob_delta seeded_env published_state =
     (Inr (bob_delta, admitted_state), admitted_env)"
  by (simp add: admittedChanges_def bob_delta_def tx_simps admitIdentity_def if_tx_run
     seeded_env_def AllowsLiveValue_def alice_pieces bob_pieces ex_bool_eq Admit_def appendAdmittedIdentity_def
     attachmentFromShell_def Owns_def admitted_state_def admitted_env_def fresh_shell_def Let_def)


lemma published_receipts:
  "st_receipts published_state = [attach_note ''alice'' ''op-1'' CHR ''1'', attach_note ''bob'' ''op-2'' CHR ''2'',
     publish_note ''alice'' ''op-3'' CHR ''3'' alice_answer]"
  by (simp add: published_state_def)

lemma publish_note_sel [simp]:
  "or_shell_id (publish_note sid opid c res) = sid" "or_operation_id (publish_note sid opid c res) = opid"
  by (simp_all add: publish_note_def emptyReceipt_def)

lemma bob_merge:
  "publishMerge sample_hash (publish_of ''op-4'' bob bob_delta) (stamp_of CHR ''4'')
     (fresh_shell CHR ''B'') bob_delta admitted_state = Inr (bob_answer, conflict_state)"
proof -
  have acc: "acceptedChanges admitted_state 1 bob_delta = [change_to LiveAdd new_name ''1'']"
    "losingChanges admitted_state 1 bob_delta = [change_to LiveUpdate foo ''qux'']"
    by (simp_all add: acceptedChanges_def losingChanges_def pendingChanges_def bob_delta_def bob_pieces
        losesTo_def changedIdentitiesAfter_def admitted_state_def published_state_def alice_delta_def word_le_nat_alt
        del: changeMatchesStates.simps)
  have seq: "validateEventSequence 0 3 [\<lparr>se_revision = 1, se_operation_id = ''materialize:1'', se_shell_id = [],
      se_changes = [change_to LiveAdd foo ''bar'']\<rparr>, \<lparr>se_revision = 2, se_operation_id = ''op-3'',
       se_shell_id = ''alice'', se_changes = alice_delta\<rparr>, \<lparr>se_revision = 3, se_operation_id = ''op-4'',
       se_shell_id = ''bob'', se_changes = [change_to LiveAdd new_name ''1'']\<rparr>] = OK" by code_simp
  show ?thesis
    by (simp add: publishMerge_def bob_pieces publish_of_def bob_def credential_def acc Let_def commitAccepted_def
      next_revisions short_history seq published_events CloneLiveChanges_def)
     (simp add: publishConflicts_def publishedShell_def bob_answer_def
      conflict_state_def bob_losing_def bob_conflict_def bob_token_def published_events
      putShell_def appendReceipt_def MaxOperationReceiptsPerShell_def publish_note_def CloneLiveChanges_def
      Let_def published_receipts)
qed

lemma bob_published:
  "publishTx sample_hash (publish_of ''op-4'' bob bob_delta) bob_delta (stamp_of CHR ''4'')
     sample_env published_state = (Inr (bob_answer, conflict_state), admitted_env)"
  using bob_merge
  by (simp add: publishTx_def run_sample bob_def publish_of_def authorizeShell_def bob_pieces receiptFor_def
    bob_admitted published_receipts)


section \<open>The states of the run satisfy the invariant\<close>

lemma credentials_ok: "validateCredential alice = OK" "validateCredential bob = OK"
  by code_simp+

lemma operations_ok:
  "validStateToken ''op-1''" "validStateToken ''op-2''" "validStateToken ''op-3''" "validStateToken ''op-4''"
  "validStateToken ''op-5''" "validStateToken ''op-6''"
  by code_simp+

lemma requests_ok:
  "validatePrivateRequest (ar_operation_id (attach_of ''op-1'' alice)) (ar_credential (attach_of ''op-1'' alice)) = OK"
  "validatePrivateRequest (ar_operation_id (attach_of ''op-2'' bob)) (ar_credential (attach_of ''op-2'' bob)) = OK"
  "validatePrivateRequest (pq_operation_id (publish_of ''op-3'' alice d)) (pq_credential (publish_of ''op-3'' alice d)) = OK"
  "validatePrivateRequest (pq_operation_id (publish_of ''op-4'' bob d)) (pq_credential (publish_of ''op-4'' bob d)) = OK"
  by (simp_all add: validatePrivateRequest_def attach_of_def publish_of_def credentials_ok operations_ok)

lemma stamp_length [simp]: "length (stamp_of c) = 32"
  by (simp add: stamp_of_def)

lemma new_name_added:
  "DiffSnapshot (snap [set_to foo ''baz'']) (snap [set_to foo ''baz'', set_to new_name ''1'']) =
     Inr [change_to LiveAdd new_name ''1'']"
  by code_simp

lemma sample_bounds:
  "within_bounds [set_to foo ''baz'']" "within_bounds [set_to foo ''baz'', set_to new_name ''1'']"
  using DiffSnapshot_changes [OF alice_pieces(3)] DiffSnapshot_changes [OF new_name_added] by simp_all

lemma alice_inv: "wt_inv alice_state"
  using attachTx_inv [OF sample_inv sample_hash_good requests_ok(1) stamp_length alice_attached] .

lemma both_inv: "wt_inv both_state"
  using attachTx_inv [OF alice_inv sample_hash_good requests_ok(2) stamp_length bob_attached] .

lemma published_limits: "in_limits published_state"
  by (simp add: in_limits_def sample_bounds MaxUint64_def)

lemma published_inv: "wt_inv published_state"
  using publishTx_inv [OF both_inv sample_hash_good requests_ok(3) stamp_length alice_published published_limits] .

lemma conflict_limits: "in_limits conflict_state"
  by (simp add: in_limits_def conflict_state_def sample_bounds MaxUint64_def)

lemma conflict_inv: "wt_inv conflict_state"
  using publishTx_inv [OF published_inv sample_hash_good requests_ok(4) stamp_length bob_published conflict_limits] .

end
