(* ===== verification/LiveProperties.thy ===== *)
theory LiveProperties
  imports SampleRuns
begin

text \<open>
  The properties of the pure parts: snapshots and their differences
  (\<^verbatim>\<open>core/model/worktree.go\<close>, \<^verbatim>\<open>core/worktree/diff.go\<close>), the registry
  (\<^verbatim>\<open>core/worktree/registry.go\<close>) and the projection of a profile
  (\<^verbatim>\<open>core/activate/builder.go\<close>).
\<close>

section \<open>Snapshots and differences\<close>


text \<open>
  C20: The difference of two snapshots is the reference difference of the finite maps they
  stand for: one change for each identity the two maps bind differently, in the order of the
  identities, an addition, a removal or an update as the maps say. Duplicates, order and
  absent values of the snapshots do not matter, and it fails exactly when one of them is
  invalid.
\<close>

theorem diff_is_reference:
  "DiffSnapshot b a = Inr cs \<longleftrightarrow> ValidateSnapshot b = OK \<and> ValidateSnapshot a = OK
     \<and> cs = refDiff (live_map (sn_states b)) (live_map (sn_states a))"
  by (rule DiffSnapshot_eq_Inr)

text \<open>
  Differences can be applied. Applying the difference of two lists of states to the
  first succeeds and gives a list without duplicates that binds what the second binds.
\<close>

theorem apply_after_diff:
  assumes "DiffSnapshot (snap ss) (snap ts) = Inr cs"
  shows "\<exists>us. applyStateChanges ss cs = Inr us \<and> good_states us \<and> live_map us = live_map ts"
  using assms by (rule apply_diff)

theorem apply_after_diff_witness:
  "\<exists>us. applyStateChanges [set_to foo ''bar''] bob_delta = Inr us
     \<and> live_map us = live_map [set_to foo ''qux'', set_to new_name ''1'']"
  using apply_after_diff [OF bob_pieces(8)] by blast

text \<open>
  An overlay on a list of states. The result binds what the overlay says for its
  identities and what the base says for the others; it lists the present states of the base
  that survive in their order and then the additions in the order of the overlay.
\<close>

theorem overlay_semantics:
  assumes "distinct (map ls_identity base)" "distinct (map ov_identity es)"
    and "list_all (\<lambda>e. validateOverlayEntry e = OK) es"
  shows "live_map (applyNormalizedOverlay base es) = overlayMap (live_map base) es
    \<and> map ls_identity (applyNormalizedOverlay base es) =
      filter (\<lambda>i. i \<notin> ov_identity ` {e \<in> set es. ov_tombstone e})
        (map ls_identity (filter (\<lambda>s. lv_present (ls_value s)) base))
      @ map ov_identity (filter (\<lambda>e. \<not> ov_tombstone e
          \<and> ov_identity e \<notin> ls_identity ` {s \<in> set base. lv_present (ls_value s)}) es)"
proof
  show "live_map (applyNormalizedOverlay base es) = overlayMap (live_map base) es"
    using assms by (intro live_map_applyNormalizedOverlay)
      (auto simp: list_all_iff intro: validateOverlayEntry_present)
qed (rule applyNormalizedOverlay_order [OF assms(1,2)])

theorem overlay_semantics_witness:
  "map ls_identity (applyNormalizedOverlay [set_to foo ''bar''] (workflowOverlay bob_delta)) = [foo, new_name]"
proof -
  let ?es = "workflowOverlay bob_delta" and ?base = "[set_to foo ''bar'']"
  have valid: "list_all (\<lambda>e. validateOverlayEntry e = OK) ?es" by code_simp
  have ids: "map ov_identity ?es = [foo, new_name]" "filter ov_tombstone ?es = []"
    by (simp_all add: workflowOverlay_def overlayOf_def bob_delta_def)
  then have none: "{e \<in> set ?es. ov_tombstone e} = {}" by (auto simp: filter_empty_conv)
  have base: "{s \<in> set ?base. lv_present (ls_value s)} = {set_to foo ''bar''}" by auto
  have "map ov_identity (filter (\<lambda>e. \<not> ov_tombstone e \<and> ov_identity e \<notin> ls_identity ` {set_to foo ''bar''}) ?es)
      = [new_name]"
    by (simp add: workflowOverlay_def overlayOf_def bob_delta_def)
  moreover have "distinct (map ls_identity ?base)" "distinct (map ov_identity ?es)" by (simp_all add: ids)
  ultimately show ?thesis
    using overlay_semantics [OF _ _ valid, of ?base] unfolding none base by simp
qed

section \<open>The registry\<close>

text \<open>
  What the committed source owns and pins. Seeding succeeds exactly when every secret
  reference of the source is well formed; then an identity is owned or pinned according to
  the last entry that names it, and nothing of the registry's earlier contents is left.
\<close>

theorem seed_last_entry:
  "Seed r p = Inr r' \<longleftrightarrow> source_secrets_ok p
     \<and> r' = r\<lparr>rg_owned := Collect (source_owned p), rg_pinned := Collect (source_pinned p)\<rparr>"
  by (rule Seed_eq_Inr)

text \<open>
  Nothing observed at attachment is lost silently: every identity present in the
  initial snapshot is either captured in the baseline or reported with a reason, never both,
  and nothing else is.
\<close>

theorem attach_reports_all:
  assumes "registryAttach r sn = Inr a"
  shows "ls_identity ` {s \<in> set (am_baseline a). lv_present (ls_value s)} \<union> ex_identity ` set (am_exclusions a)
      = dom (live_map (sn_states sn))
    \<and> ls_identity ` set (am_baseline a) \<inter> ex_identity ` set (am_exclusions a) = {}
    \<and> am_present a = dom (live_map (sn_states sn))"
proof -
  let ?ss = "keep_last ls_identity (sn_states sn)"
  have d: "distinct (map ls_identity ?ss)" by simp
  have dom: "dom (live_map (sn_states sn)) = ls_identity ` {s \<in> set ?ss. lv_present (ls_value s)}"
    using live_map_distinct [OF d] by (auto simp: dom_def)
  have a: "am_baseline a = map CloneLiveState (filter (\<lambda>s. AllowsLiveValue r (ls_identity s)) ?ss)"
    "ex_identity ` set (am_exclusions a) =
       ls_identity ` {s \<in> set ?ss. lv_present (ls_value s) \<and> \<not> AllowsLiveValue r (ls_identity s)}"
    "am_present a = ls_identity ` {s \<in> set ?ss. lv_present (ls_value s)}"
    using assms by (auto simp: registryAttach_eq_Inr Let_def image_image)
  have "{s \<in> set (am_baseline a). lv_present (ls_value s)} =
      CloneLiveState ` {s \<in> set ?ss. lv_present (ls_value s) \<and> AllowsLiveValue r (ls_identity s)}"
    unfolding a(1) by auto
  then have "ls_identity ` {s \<in> set (am_baseline a). lv_present (ls_value s)} =
      ls_identity ` {s \<in> set ?ss. lv_present (ls_value s) \<and> AllowsLiveValue r (ls_identity s)}"
    by (simp add: image_image)
  moreover have "ls_identity ` set (am_baseline a) \<subseteq> {i. AllowsLiveValue r i}" by (auto simp: a(1))
  ultimately show ?thesis unfolding dom a(2,3) by auto
qed

theorem attach_reports_all_witness:
  "dom (live_map [set_to foo ''bar'']) = {foo}"
  using attach_reports_all [OF sample_attachment] by simp

section \<open>The projection of a profile\<close>

text \<open>
  C21: The environment of a built manifest is a function of the contributions of the entries
  in source order: one variable for each name, at the place of its last contribution and
  with its value, exported if any contribution exported it.
\<close>

theorem build_environment:
  "mf_env (Build p) =
     (let cs = List.map_filter envContribution p in map (envScalar cs) (keep_last fst cs))"
  by (rule Build_env)

lemma remdups_snoc: "remdups (xs @ [x]) = filter (\<lambda>y. y \<noteq> x) (remdups xs) @ [x]"
  by (induction xs) auto

lemma first_occurrences_Cons:
  "rev (remdups (rev (x # xs))) = x # filter (\<lambda>y. y \<noteq> x) (rev (remdups (rev xs)))"
  by (simp add: remdups_snoc rev_filter)

lemma appendStates_eq:
  "appendStates values seen is =
     map (\<lambda>i. \<lparr>ls_identity = i, ls_value = CloneLiveValue (the (map_of values i))\<rparr>)
       (filter (\<lambda>i. i \<notin> seen) (rev (remdups (rev (filter (\<lambda>i. map_of values i \<noteq> None) is)))))"
proof (induction "is" arbitrary: seen)
  case (Cons i "is")
  show ?case
  proof (cases "map_of values i")
    case (Some v)
    then show ?thesis
      using Cons first_occurrences_Cons [of i "filter (\<lambda>i. map_of values i \<noteq> None) is"]
      by (auto intro!: arg_cong [of _ _ "map _"] filter_cong)
  qed (simp add: Cons)
qed simp

text \<open>
  The live states of a profile are listed once each, and in the order of the source:
  first every identity the source names that has a value, at its last mention, then the
  remaining variables, lists, functions and options of the manifest, each with the value
  the manifest gives it.
\<close>

theorem live_states_in_source_order:
  "liveStatesFromManifest source m =
     map (\<lambda>i. \<lparr>ls_identity = i, ls_value = CloneLiveValue (the (map_of (manifestValues m) i))\<rparr>)
       (rev (remdups (rev (filter (\<lambda>i. map_of (manifestValues m) i \<noteq> None)
         (remdups (concat (map liveEntryIdentities source))
          @ map (\<lambda>s. Identity LiveEnv (mv_name s)) (mf_env m) @ map listIdentity (mf_lists m)
          @ map (Identity LiveFunction) (fn_added (mf_functions m))
          @ map (\<lambda>x. Identity LiveOption (os_name x)) (mf_options m))))))"
proof -
  have last: "keep_last id xs = remdups xs" for xs :: "'a list" by (induction xs) auto
  have "sourceOrder (manifestValues m) source =
      filter (\<lambda>i. map_of (manifestValues m) i \<noteq> None) (remdups (concat (map liveEntryIdentities source)))"
    by (simp add: sourceOrder_eq last remdups_filter)
  then show ?thesis by (simp add: liveStatesFromManifest_def Let_def appendStates_eq)
qed


end
