(* ===== verification/PullSamples.thy ===== *)
theory PullSamples
  imports SampleRuns
begin

text \<open>
  The second half of the sample run: the first shell prepares a pull of what the second
  published, and the second one asks to resolve the conflict it lost.
\<close>

section \<open>The target of both\<close>

definition merged :: "live_state list" where
  "merged = [set_to foo ''baz'', set_to new_name ''1'']"

definition target_stamp :: fingerprint where
  "target_stamp = hx_sha256 sample_hash (hx_json sample_hash (JStates (canonical_states merged)))"

lemma conflict_state_sel [simp]:
  "st_shared conflict_state = merged" "st_head_revision conflict_state = 3"
  "st_shells conflict_state = [(''alice'', alice_ahead), (''bob'', bob_losing)]"
  "st_receipts conflict_state = st_receipts published_state @ [publish_note ''bob'' ''op-4'' CHR ''4'' bob_answer]"
  "st_committed conflict_state = sample_committed" "st_admitted conflict_state = [new_name]"
  "st_materialized conflict_state" "\<not> st_admitted_missing conflict_state"
  by (simp_all add: conflict_state_def merged_def admitted_state_def)

lemma target_good: "good_states merged"
  using shared_good [OF conflict_inv] by simp

lemma target_print: "FingerprintSnapshot sample_hash (snap merged) = Inr target_stamp"
  using target_good sample_bounds(2) by (simp add: FingerprintSnapshot_good target_stamp_def merged_def)

section \<open>A pull\<close>

definition pull_of :: "string \<Rightarrow> shell_credential \<Rightarrow> prepare_pull_request" where
  "pull_of opid cred = \<lparr>pp_operation_id = opid, pp_credential = cred, pp_applied_revision = 1\<rparr>"

definition alice_token :: resolution_token where
  "alice_token = newResolutionToken sample_hash ''pull'' ''op-5'' (stamp_of CHR ''5'') 3"

definition alice_pull :: prepare_pull_result where
  "alice_pull = \<lparr>pl_pending_revision = 3, pl_token = alice_token,
     pl_changes = [change_to LiveAdd new_name ''1'']\<rparr>"

definition alice_pulling :: shell_state where
  "alice_pulling = alice_ahead\<lparr>sh_pending := \<lparr>pd_kind = PendingPull, pd_revision = 3,
       pd_fingerprint = target_stamp, pd_token = alice_token, pd_conflict = None,
       pd_changes = [change_to LiveAdd new_name ''1'']\<rparr>,
     sh_transition := TransitionPrepare, sh_behind := True, sh_last_active := 3\<rparr>"

definition pulling_state :: wt_state where
  "pulling_state = conflict_state\<lparr>
     st_shells := [(''alice'', alice_pulling), (''bob'', bob_losing)],
     st_receipts := st_receipts conflict_state @ [(emptyReceipt ''alice'' ''op-5'' ReceiptPreparePull (stamp_of CHR ''5''))
       \<lparr>or_prepare := Some (clonePrepareResult alice_pull)\<rparr>]\<rparr>"

lemma alice_ahead_sel [simp]:
  "sh_capture_baseline alice_ahead = [set_to foo ''baz'']" "sh_applied_revision alice_ahead = 1"
  "sh_conflict alice_ahead = None" "sh_unpublished alice_ahead = []" "sh_pending alice_ahead = noPending"
  "sh_verifier alice_ahead = CHR ''k'' # replicate 31 CHR ''A''"
  by (simp_all add: alice_ahead_def)

lemma alice_prepares:
  "preparePull sample_hash (pull_of ''op-5'' alice) (stamp_of CHR ''5'') alice_ahead conflict_state
     = Inr (alice_pull, pulling_state)"
  by (simp add: preparePull_def Let_def pull_of_def pullShell_def target_print new_name_added [folded merged_def]
      alice_pull_def alice_token_def alice_pulling_def pulling_state_def alice_def credential_def
      putShell_def appendReceipt_def published_receipts MaxOperationReceiptsPerShell_def CloneLiveChanges_def)

section \<open>A resolution\<close>

definition resolve_of :: "string \<Rightarrow> resolve_request" where
  "resolve_of opid = \<lparr>rq_operation_id = opid, rq_credential = bob, rq_conflict = foo, rq_token = bob_token,
     rq_snapshot = snap [set_to foo ''qux'', set_to new_name ''1'']\<rparr>"

definition bob_seen :: "live_state list" where
  "bob_seen = [set_to foo ''qux'', set_to new_name ''1'']"

definition bob_resolution :: resolve_result where
  "bob_resolution = \<lparr>rs_pending_revision = 3, rs_token = bob_token,
     rs_changes = [change_to LiveUpdate foo ''baz'']\<rparr>"

definition bob_resolving :: shell_state where
  "bob_resolving = bob_losing\<lparr>sh_pending := \<lparr>pd_kind = PendingResolution, pd_revision = 3,
       pd_fingerprint = target_stamp, pd_token = bob_token, pd_conflict = Some foo,
       pd_changes = [change_to LiveUpdate foo ''baz'']\<rparr>,
     sh_transition := TransitionResolve, sh_behind := True, sh_last_active := 3\<rparr>"

definition resolving_state :: wt_state where
  "resolving_state = conflict_state\<lparr>
     st_shells := [(''alice'', alice_ahead), (''bob'', bob_resolving)],
     st_receipts := st_receipts conflict_state @ [(emptyReceipt ''bob'' ''op-6'' ReceiptResolve (stamp_of CHR ''6''))
       \<lparr>or_resolve := Some (cloneResolveResult bob_resolution)\<rparr>]\<rparr>"

lemma bob_losing_sel [simp]:
  "sh_capture_baseline bob_losing = bob_seen" "sh_conflict bob_losing = Some bob_conflict"
  "sh_unpublished bob_losing = [change_to LiveUpdate foo ''qux'']" "sh_pending bob_losing = noPending"
  by (simp_all add: bob_losing_def bob_seen_def)

lemma bob_change:
  "DiffSnapshot (snap bob_seen) (snap merged) = Inr [change_to LiveUpdate foo ''baz'']"
  by code_simp

lemma bob_seen_good: "good_states bob_seen \<and> within_bounds bob_seen"
proof -
  have "shell_inv 3 ''bob'' bob_losing"
    using shell_of_state [OF conflict_inv, of "''bob''" bob_losing] by simp
  then have "good_states bob_seen" by (auto simp: shell_inv_unfold shell_lists_ok_def validatePresentStates_eq_OK)
  then show ?thesis using DiffSnapshot_changes [OF bob_change] by blast
qed

lemma bob_print: "\<exists>fp. FingerprintSnapshot sample_hash (snap bob_seen) = Inr fp"
  using bob_seen_good by (simp add: FingerprintSnapshot_good)

lemma bob_resolves:
  "resolveShared sample_hash (resolve_of ''op-6'') (stamp_of CHR ''6'') bob_losing bob_seen conflict_state
     = Inr (bob_resolution, resolving_state)"
proof -
  obtain fp where "FingerprintSnapshot sample_hash (snap bob_seen) = Inr fp" using bob_print by blast
  then show ?thesis
    by (simp add: resolveShared_def Let_def resolve_of_def bob_conflict_def changesContainIdentity_def
      target_print bob_change bob_resolution_def bob_resolving_def resolving_state_def bob_def credential_def
      putShell_def appendReceipt_def published_receipts MaxOperationReceiptsPerShell_def CloneLiveChanges_def)
qed

end
