(* ===== verification/StateProperties.thy ===== *)
theory StateProperties
  imports PullSamples
begin

text \<open>
  The properties of the canonical state of \<^verbatim>\<open>core/worktree/state.go\<close>: its
  causal history and compaction, its document, its receipts, its fingerprints and tokens.
\<close>

section \<open>The causal history\<close>

text \<open>
  C16: What a valid state says about its history. The shared state is the replay of the
  retained events over the compaction baseline, the revisions of the events run without a
  gap from the floor to the head, and no revision wrapped around.
\<close>

theorem valid_state_history:
  assumes "ValidateState st = OK" "st_materialized st"
  shows "shared_map st = applyMap (live_map (st_compaction_baseline st)) (events_changes (st_events st))
    \<and> unat (st_head_revision st) = unat (st_compaction_floor st) + length (st_events st)
    \<and> map (\<lambda>e. unat (se_revision e)) (st_events st)
      = [Suc (unat (st_compaction_floor st))..<Suc (unat (st_head_revision st))]
    \<and> length (st_events st) \<le> 128"
proof -
  have h: "history_state_ok st" using assms ValidateState_materialized by blast
  let ?f = "st_compaction_floor st" and ?es = "st_events st"
  have seq: "validateEventsFrom (?f + 1) ?es = OK" "st_head_revision st = ?f + of_nat (length ?es)"
    using h by (auto simp: history_state_ok_iff history_ok_def validateEventSequence_eq_OK)
  note rev = validateEventsFrom_unat [OF seq(1)]
  have head: "unat (st_head_revision st) = unat ?f + length ?es"
    using rev seq(2) by (simp add: unat_add_bounded unat_of_nat)
  have "map (\<lambda>e. unat (se_revision e)) ?es = [Suc (unat ?f)..<Suc (unat ?f + length ?es)]"
    using rev by (intro nth_equalityI) (auto simp del: upt_Suc)
  then show ?thesis
    using head h by (simp add: history_state_ok_iff MaxStateEvents_def)
qed

theorem valid_state_history_witness:
  "unat (st_head_revision conflict_state) = 3 \<and> length (st_events conflict_state) = 3"
proof -
  have mat: "st_materialized conflict_state" using conflict_inv by (simp add: wt_inv_def frame_inv_def)
  have three: "length (st_events conflict_state) = 3" "st_compaction_floor conflict_state = 0"
    by (simp_all add: conflict_state_def published_events)
  then show ?thesis
    using valid_state_history [OF wt_inv_valid [OF conflict_inv] mat] by simp
qed

text \<open>
  C17: Compaction always ends with a result, forgets only the oldest events, and changes
  nothing anybody can observe: at most 128 events remain, they are a suffix of the old ones
  that still ends at the head, and their replay over the new baseline is the replay of all
  the old events over the old one.
\<close>

theorem compaction_preserves_replay:
  assumes "history_ok (st_compaction_baseline st) (st_compaction_floor st) (st_head_revision st) (st_events st)"
    and "st_compaction_floor st \<le> st_head_revision st"
  shows "\<exists>st'. CompactStateHistory st = Inr st' \<and> length (st_events st') \<le> 128
    \<and> (\<exists>k. st_events st' = drop k (st_events st))
    \<and> validateEventSequence (st_compaction_floor st') (st_head_revision st') (st_events st') = OK
    \<and> applyMap (live_map (st_compaction_baseline st')) (events_changes (st_events st'))
      = applyMap (live_map (st_compaction_baseline st)) (events_changes (st_events st))
    \<and> shared_map st' = shared_map st \<and> st_head_revision st' = st_head_revision st"
proof -
  have "\<not> st_head_revision st < st_compaction_floor st" using assms(2) by simp
  from CompactStateHistory_spec [OF assms(1) this] obtain b f es where
    compact: "CompactStateHistory st =
      Inr (st\<lparr>st_compaction_baseline := b, st_compaction_floor := f, st_events := es\<rparr>)"
    and rest: "history_ok b f (st_head_revision st) es"
      "applyMap (live_map b) (events_changes es) =
        applyMap (live_map (st_compaction_baseline st)) (events_changes (st_events st))"
      "length es \<le> MaxStateEvents" "\<exists>k. es = drop k (st_events st)" by blast
  then show ?thesis by (auto simp: MaxStateEvents_def history_ok_def)
qed

definition long_events :: "nat \<Rightarrow> nat \<Rightarrow> state_event list" where
  "long_events a b = map (\<lambda>n. \<lparr>se_revision = of_nat n, se_operation_id = ''op-3'', se_shell_id = [],
     se_changes = []\<rparr>) [a..<b]"

definition long_state :: wt_state where
  "long_state = sample_state\<lparr>st_head_revision := 130, st_events := long_events 1 131\<rparr>"

lemma long_events_from:
  "0 < a \<Longrightarrow> b < 2 ^ 64 \<Longrightarrow> validateEventsFrom (of_nat a) (long_events a b) = OK"
proof (induction "b - a" arbitrary: a)
  case 0
  then show ?case by (simp add: long_events_def)
next
  case (Suc k)
  then have "a < b" by simp
  then have first: "long_events a b = \<lparr>se_revision = of_nat a, se_operation_id = ''op-3'', se_shell_id = [],
      se_changes = []\<rparr> # long_events (Suc a) b"
    by (simp add: long_events_def upt_conv_Cons)
  have "unat (of_nat a :: u64) = a" using Suc.prems \<open>a < b\<close> by (simp add: unat_of_nat)
  then have "(of_nat a :: u64) \<noteq> 0" using Suc.prems by auto
  then show ?case
    using Suc.hyps(1) [of "Suc a"] Suc.hyps(2) Suc.prems first
    by (simp add: operations_ok add.commute) (simp add: validateChanges_def)
qed

lemma long_history:
  "history_ok (st_compaction_baseline long_state) (st_compaction_floor long_state)
     (st_head_revision long_state) (st_events long_state)"
proof -
  have "length (long_events 1 131) = 130" by (simp add: long_events_def)
  moreover have "validateEventsFrom 1 (long_events 1 131) = OK"
    using long_events_from [of 1 131] by simp
  ultimately show ?thesis
    by (simp add: history_ok_def long_state_def validateEventSequence_eq_OK)
qed

theorem compaction_preserves_replay_witness:
  "\<exists>st'. CompactStateHistory long_state = Inr st' \<and> length (st_events st') \<le> 128"
  using compaction_preserves_replay [OF long_history] by (auto simp: long_state_def)


section \<open>The document\<close>



section \<open>Receipts\<close>

text \<open>
  Receipts are bounded and the newest is kept. Recording a receipt whose operation has
  none yet keeps at most 64 receipts of each shell, at most one for each operation of a
  shell, drops at most the oldest one of that shell and none of any other, and the new
  receipt is found again.
\<close>

theorem receipts_bounded:
  assumes "receipts_wf shells (st_receipts st)" "\<forall>sid \<in> shells. validStateToken sid"
    and "receipt_ok shells r" "receiptFor st (or_shell_id r) (or_operation_id r) = None"
  shows "receiptFor (appendReceipt r st) (or_shell_id r) (or_operation_id r) = Some r
    \<and> receipts_wf shells (st_receipts (appendReceipt r st))
    \<and> (\<forall>sid. length (receipts_of sid (st_receipts (appendReceipt r st))) \<le> 64
        \<and> receipts_of sid (st_receipts (appendReceipt r st)) =
            (if sid \<noteq> or_shell_id r then receipts_of sid (st_receipts st)
             else (if length (receipts_of sid (st_receipts st)) < 64 then receipts_of sid (st_receipts st)
               else tl (receipts_of sid (st_receipts st))) @ [r]))"
proof -
  have wf: "receipts_wf shells (st_receipts (appendReceipt r st))"
    using assms by (rule appendReceipt_wf)
  then show ?thesis
    using receiptFor_append [OF assms(4)]
    by (auto simp: appendReceipt_of receipts_wf_def MaxOperationReceiptsPerShell_def)
qed

theorem receipts_bounded_witness:
  "receiptFor (appendReceipt (publish_note ''bob'' ''op-6'' CHR ''6'' bob_answer) conflict_state) ''bob'' ''op-6''
     = Some (publish_note ''bob'' ''op-6'' CHR ''6'' bob_answer)"
proof -
  let ?r = "publish_note ''bob'' ''op-6'' CHR ''6'' bob_answer"
  have shells: "fst ` set (st_shells conflict_state) = {''alice'', ''bob''}"
    by (auto simp: conflict_state_def)
  have wf: "receipts_wf {''alice'', ''bob''} (st_receipts conflict_state)"
    using conflict_inv shells by (simp add: wt_inv_def receipts_inv_def)
  have "receipt_ok {''alice'', ''bob''} ?r"
    by (simp add: receipt_ok_def operations_ok validateReceiptUnion_def publish_note_def emptyReceipt_def count_some_def)
  moreover have "validStateToken ''alice''" "validStateToken ''bob''" by code_simp+
  moreover have "receiptFor conflict_state ''bob'' ''op-6'' = None"
    by (simp add: receiptFor_def conflict_state_def published_receipts)
  ultimately show ?thesis
    using receipts_bounded [OF wf, of ?r] by simp
qed

section \<open>Fingerprints and tokens\<close>

text \<open>
  The fingerprint of a snapshot does not depend on the order of its states or on how
  its values are stored: two good lists that bind the same identities to the same values
  have the same fingerprint, or are both refused.
\<close>

theorem fingerprint_order:
  assumes "good_states ss" "good_states ts" "live_map ss = live_map ts"
  shows "FingerprintSnapshot H (snap ss) = Inr fp \<longleftrightarrow> FingerprintSnapshot H (snap ts) = Inr fp"
  using assms by (rule FingerprintSnapshot_cong)

lemma reversed_target: "good_states (rev merged)" "live_map (rev merged) = live_map merged"
  using target_good by (simp_all add: good_states_def merged_def live_map_def live_pairs_def fun_eq_iff)

theorem fingerprint_order_witness: "FingerprintSnapshot sample_hash (snap (rev merged)) = Inr target_stamp"
  using fingerprint_order [OF reversed_target(1) target_good reversed_target(2)] target_print by simp

text \<open>
  Every token the service hands out is one it accepts back: a conflict or pull token
  is never empty, never too long and made of token characters, whatever the request and
  the revision.
\<close>

theorem token_accepted:
  assumes "good_hash H" "prefix = ''conflict'' \<or> prefix = ''pull''"
  shows "validToken (newResolutionToken H prefix opid fp revision) = OK"
  using assms by (rule newResolutionToken_valid)

theorem token_accepted_witness:
  "validToken (newResolutionToken sample_hash ''pull'' ''op-5'' (stamp_of CHR ''5'') 3) = OK"
  using token_accepted [OF sample_hash_good] by simp

text \<open>
  Two requests have the same preimage only if they are the same: the operation's name
  and every part, however the parts are cut, can be read back from what is hashed.
\<close>

theorem preimage_injective:
  assumes "operationPreimage d ps = operationPreimage d' qs"
    and "\<not> has_nul d" "\<not> has_nul d'"
    and "\<forall>p \<in> set ps. length p < 2 ^ 64" "\<forall>q \<in> set qs. length q < 2 ^ 64"
  shows "d = d' \<and> ps = qs"
  using assms by (rule operationPreimage_inject)

theorem preimage_injective_witness: "operationPreimage ''publish'' [''a'', ''bc''] \<noteq> operationPreimage ''publish'' [''ab'', ''c'']"
proof
  assume "operationPreimage ''publish'' [''a'', ''bc''] = operationPreimage ''publish'' [''ab'', ''c'']"
  from preimage_injective [OF this] show False by (simp add: has_nul_def)
qed

end
