(* ===== verification/ShellProperties.thy ===== *)
theory ShellProperties
  imports PullSamples
begin

text \<open>
  The properties of the five shell operations of \<^verbatim>\<open>core/worktree/service.go\<close>,
  each with a run of the sample it applies to.
\<close>

section \<open>One publication, from the request to the shared state\<close>

lemma gate_excluded:
  assumes "gate.passes a r i"
  shows "exclusionReason r i = AdmissionNone"
  using assms by (auto simp: gate.passes_def AllowsLiveValue_def admit_answer_iff)

lemma publishTx_spec:
  assumes inv: "wt_inv st" and tokens: "validStateToken (pq_operation_id req)"
    and run: "publishTx H req delta fp e st = (Inr (res, st'), e')" and limits: "in_limits st'"
    and fresh: "receiptFor st (cr_shell_id (pq_credential req)) (pq_operation_id req) = None"
  shows "\<exists>sh admitted registry mine. authorizeShell H st (pq_credential req) = Inr sh
    \<and> rg_policy registry = rg_policy (sv_registry e)
    \<and> rg_pinned registry = Collect (source_pinned (cw_source (st_committed st)))
    \<and> admitted = filter (\<lambda>c. gate.passes (attachmentFromShell registry sh) registry (ch_identity c)) delta
    \<and> mine = applyMap (live_map (sh_capture_baseline sh)) admitted
    \<and> shared_map st' = three_way (protected_since st (pq_acknowledged_revision req))
        (live_map (sh_capture_baseline sh)) mine (shared_map st)
    \<and> set (pb_accepted res) = contested (live_map (sh_capture_baseline sh)) mine (shared_map st)
        - protected_since st (pq_acknowledged_revision req)
    \<and> cf_identity ` set (pb_conflicts res) = contested (live_map (sh_capture_baseline sh)) mine (shared_map st)
        \<inter> protected_since st (pq_acknowledged_revision req)
    \<and> st_head_revision st' = st_head_revision st + (if pb_accepted res = [] then 0 else 1)"
proof -
  obtain sh st1 e1 st2 e2 admitted where auth: "authorizeShell H st (pq_credential req) = Inr sh"
    and seed: "seedRegistryFromState e st = (Inr ((), st1), e1)"
    and adm: "admittedChanges sh delta e1 st1 = (Inr (admitted, st2), e2)"
    and merge: "publishMerge H req fp sh admitted st2 = Inr (res, st')"
    using publishTx_fresh [OF run fresh] by blast
  have same: "same_but_admitted st st2"
    using seed_same_but_admitted [OF seed] admittedChanges_run [OF adm]
    by (blast intro: same_but_admitted_trans)
  note sel = same_but_admitted_sel [OF same]
  have known: "map_of (st_shells st2) (cr_shell_id (pq_credential req)) = Some sh"
    using auth sel by (simp add: authorizeShell_eq_Inr)
  have prot: "protected_since st2 r = protected_since st r" for r
    by (simp add: protected_since_def changedIdentitiesAfter_def sel)
  have seeded: "rg_policy (sv_registry e1) = rg_policy (sv_registry e)"
    "rg_pinned (sv_registry e1) = Collect (source_pinned (cw_source (st_committed st)))"
    using seed_run [OF seed] by (auto simp: seeded_def)
  have adm': "applyMap m admitted = applyMap m (filter (\<lambda>c. gate.passes (attachmentFromShell
      (sv_registry e1) sh) (sv_registry e1) (ch_identity c)) delta)" for m
    using admittedChanges_run [OF adm] by (simp add: CloneLiveChanges_def [symmetric])
  from publishMerge_spec [OF wt_inv_same_but_admitted [OF inv same] known tokens merge limits]
  show ?thesis
    using auth seeded adm' by (auto simp: prot sel)
qed

text \<open>An identity whose value the shell changed was among the changes it sent.\<close>

lemma contested_sent:
  "i \<in> contested base (applyMap base cs) theirs \<Longrightarrow> i \<in> ch_identity ` set cs"
  using applyMap_other by (force simp: contested_def)

section \<open>Publish\<close>


lemma bob_fresh: "receiptFor published_state ''bob'' ''op-4'' = None"
  by (simp add: receiptFor_def published_receipts)

lemma publish_of_sel [simp]:
  "pq_operation_id (publish_of opid cred d) = opid" "pq_credential (publish_of opid cred d) = cred"
  "pq_acknowledged_revision (publish_of opid cred d) = 1" "pq_delta (publish_of opid cred d) = d"
  by (simp_all add: publish_of_def)

lemma credential_sel [simp]: "cr_shell_id alice = ''alice''" "cr_shell_id bob = ''bob''"
  by (simp_all add: alice_def bob_def credential_def)


text \<open>
  A publication never overwrites what another shell did: an identity whose shared value
  is not the one it had at the revision the publisher acknowledged keeps its shared value,
  whatever the publisher sends.
\<close>

theorem publish_keeps_moved:
  assumes "wt_inv st" "validStateToken (pq_operation_id req)"
    and "publishTx H req delta fp e st = (Inr (res, st'), e')" "in_limits st'"
    and "receiptFor st (cr_shell_id (pq_credential req)) (pq_operation_id req) = None"
    and "shared_map st i \<noteq> shared_at st (pq_acknowledged_revision req) i"
  shows "shared_map st' i = shared_map st i"
proof -
  have "i \<in> protected_since st (pq_acknowledged_revision req)"
    using assms(1,6) moved_is_protected by (auto simp: wt_inv_def)
  then show ?thesis using publishTx_spec [OF assms(1-5)] by (auto simp: three_way_def)
qed

lemma foo_moved: "shared_map published_state foo \<noteq> shared_at published_state 1 foo"
proof -
  have "filter (\<lambda>e. se_revision e \<le> 1) (st_events published_state) = [hd (st_events published_state)]"
    by (simp add: published_events word_le_nat_alt)
  then have "shared_at published_state 1 foo = Some (ScalarLiveValue ''bar'')"
    by (simp add: shared_at_def published_events change_result_def)
      (simp add: change_to_def CloneLiveValue_def ScalarLiveValue_def)
  then show ?thesis by (simp add: live_map_def live_pairs_def set_to_def ScalarLiveValue_def CloneLiveValue_def)
qed

theorem publish_keeps_moved_witness: "shared_map conflict_state foo = shared_map published_state foo"
  using publish_keeps_moved [OF published_inv _ bob_published conflict_limits] foo_moved
  by (simp add: operations_ok bob_fresh)

text \<open>
  C3: Nothing excluded is ever published. Every identity a publication accepts is one the
  registry admits: its name is valid, it is not a pinned secret of the committed source,
  not zsh-pro's own bookkeeping, not a volatile shell variable, and the policy does not
  call it a live secret.
\<close>

theorem publish_admits_only:
  assumes "wt_inv st" "validStateToken (pq_operation_id req)"
    and "publishTx H req delta fp e st = (Inr (res, st'), e')" "in_limits st'"
    and "receiptFor st (cr_shell_id (pq_credential req)) (pq_operation_id req) = None"
    and "i \<in> set (pb_accepted res)"
  shows "ValidateIdentity i = OK \<and> \<not> source_pinned (cw_source (st_committed st)) i
    \<and> \<not> isBookkeepingIdentity i \<and> \<not> isVolatileIdentity i
    \<and> (\<exists>policy. rg_policy (sv_registry e) = Some policy \<and> \<not> policy i)"
proof -
  obtain sh admitted registry where
    policy: "rg_policy registry = rg_policy (sv_registry e)"
      "rg_pinned registry = Collect (source_pinned (cw_source (st_committed st)))"
    and admitted: "admitted = filter (\<lambda>c. gate.passes (attachmentFromShell registry sh) registry
        (ch_identity c)) delta"
    and accepted: "set (pb_accepted res) = contested (live_map (sh_capture_baseline sh))
        (applyMap (live_map (sh_capture_baseline sh)) admitted) (shared_map st)
        - protected_since st (pq_acknowledged_revision req)"
    using publishTx_spec [OF assms(1-5)] by blast
  then have "i \<in> ch_identity ` set admitted" using assms(6) contested_sent by blast
  then have "exclusionReason registry i = AdmissionNone" using admitted gate_excluded by auto
  with policy show ?thesis by (auto simp: exclusionReason_None)
qed

theorem publish_admits_only_witness:
  "\<not> isVolatileIdentity new_name \<and> \<not> source_pinned sample_source new_name"
  using publish_admits_only [OF published_inv _ bob_published conflict_limits, of new_name]
  by (simp add: operations_ok bob_fresh bob_answer_def)


section \<open>Retries\<close>

text \<open>
  C4: A publication that is sent again, with the same operation ID and the same fingerprint,
  is answered with the result of the first and leaves the state untouched, in whatever
  process it arrives.
\<close>

theorem publish_retry:
  fixes e e2 :: "'r service_env"
  assumes "publishTx H req delta fp e st = (Inr (res, st'), e')"
  shows "publishTx H req delta fp e2 st' = (Inr (res, st'), e2)"
  using publish_op.retry [of "pq_credential req" "pq_operation_id req" "(req, delta, fp)" H] assms by simp

theorem publish_retry_witness:
  "publishTx sample_hash (publish_of ''op-4'' bob bob_delta) bob_delta (stamp_of CHR ''4'')
     admitted_env conflict_state = (Inr (bob_answer, conflict_state), admitted_env)"
  by (rule publish_retry [OF bob_published])

text \<open>
  An operation ID stands for one request: another publication of the same shell under
  an operation ID that already has a receipt is refused as a replay, without touching the
  state or the process.
\<close>

theorem publish_replay:
  fixes e e2 :: "'r service_env"
  assumes "publishTx H req delta fp e st = (Inr (res, st'), e')"
    and "pq_credential req' = pq_credential req" "pq_operation_id req' = pq_operation_id req" "fp' \<noteq> fp"
  shows "publishTx H req' delta' fp' e2 st' = (Inl ErrOperationReplay, e2)"
  using publish_op.replay [of "pq_credential req" "pq_operation_id req" "(req, delta, fp)" H _ _ _ _ _
      "(req', delta', fp')"] assms by simp

theorem publish_replay_witness:
  "publishTx sample_hash (publish_of ''op-4'' bob []) [] (stamp_of CHR ''9'') sample_env conflict_state
     = (Inl ErrOperationReplay, sample_env)"
  by (rule publish_replay [OF bob_published]) (simp_all add: stamp_of_def)

text \<open>
  The holder of the capability a shell was attached with may repeat the attachment, and
  gets the first answer; the same operation ID with another initial snapshot is refused.
\<close>

theorem attach_retry:
  fixes e e2 :: "'r service_env"
  assumes "attachTx H req initial fp e st = (Inr (res, st'), e')"
    and "ar_credential req' = ar_credential req" "ar_operation_id req' = ar_operation_id req"
  shows "attachTx H req' initial' fp' e2 st' =
    (if fp' = fp then Inr (res, st') else Inl ErrOperationReplay, e2)"
proof (cases "fp' = fp")
  case True
  have "attachTx H req' initial' fp e2 st' = (Inr (res, st'), e2)"
    using attach_op.after_run [of "ar_credential req" "ar_operation_id req" "(req, initial, fp)" H]
      attach_op.found [of "ar_credential req" "ar_operation_id req" "(req', initial', fp)" H] assms by fastforce
  with True show ?thesis by simp
next
  case False
  then show ?thesis
    using attach_op.replay [of "ar_credential req" "ar_operation_id req" "(req, initial, fp)" H _ _ _ _ _
        "(req', initial', fp')"] assms by simp
qed

theorem attach_retry_witness:
  "attachTx sample_hash (attach_of ''op-2'' bob) (snap []) (stamp_of CHR ''2'') seeded_env both_state
     = (Inr (attach_answer, both_state), seeded_env)"
  using attach_retry [OF bob_attached refl refl, of "snap []" "stamp_of CHR ''2''" seeded_env] by simp

text \<open>
  A shell is attached once. Attaching an identifier that is already known, under an
  operation ID without a receipt, fails and changes nothing: with the right capability
  because the shell is attached, with any other because it is not authorized.
\<close>

theorem attach_once:
  assumes "map_of (st_shells st) (cr_shell_id (ar_credential req)) = Some sh"
    and "receiptFor st (cr_shell_id (ar_credential req)) (ar_operation_id req) = None"
    and "st_materialized st"
  shows "\<exists>err. attachTx H req initial fp e st = (Inl err, e)
    \<and> (err = ErrShellAlreadyAttached \<or> err = ErrUnauthorized)"
  using assms by (rule attach_twice)

theorem attach_once_witness:
  "\<exists>err. attachTx sample_hash (attach_of ''op-5'' bob) (snap []) (stamp_of CHR ''5'') sample_env both_state
     = (Inl err, sample_env) \<and> (err = ErrShellAlreadyAttached \<or> err = ErrUnauthorized)"
  by (rule attach_once [where sh = "fresh_shell CHR ''B''"])
    (simp_all add: attach_of_def receiptFor_def both_state_def)


section \<open>Attach\<close>

text \<open>
  What a new shell is known by at attachment. Its capture baseline is the observed
  snapshot cut down to the identities the registry of the committed source allows, and it
  starts at the head exactly when that equals the shared state; otherwise it has applied
  nothing yet and is behind.
\<close>

theorem attach_captures:
  assumes run: "attachTx H req initial fp e st = (Inr (res, st'), e')" and inv: "wt_inv st"
    and new: "map_of (st_shells st) (cr_shell_id (ar_credential req)) = None"
  shows "\<exists>sh. map_of (st_shells st') (cr_shell_id (ar_credential req)) = Some sh
    \<and> live_map (sh_capture_baseline sh) =
        (\<lambda>i. if AllowsLiveValue (sv_registry e') i then live_map (sn_states initial) i else None)
    \<and> (if live_map (sh_capture_baseline sh) = shared_map st
       then sh_attach_state sh = AttachStateAtHead \<and> sh_applied_revision sh = st_head_revision st \<and> \<not> sh_behind sh
       else sh_attach_state sh = AttachStateCleanReconcile \<and> sh_applied_revision sh = 0 \<and> sh_behind sh)
    \<and> sh_unpublished sh = [] \<and> sh_conflict sh = None \<and> shared_map st' = shared_map st"
proof -
  obtain verifier st1 a where seed: "seedRegistryFromState e st = (Inr ((), st1), e')"
    and a: "registryAttach (sv_registry e') initial = Inr a"
    and rec: "(res, st') = attachRecord req fp verifier a initial st1"
    using attachTx_fresh [OF run new] by blast
  note sel = same_but_admitted_sel [OF seed_same_but_admitted [OF seed]]
  let ?base = "presentOnly (CloneLiveStates (am_baseline a))"
  have good: "good_states ?base"
    using registryAttach_facts [OF a]
    by (intro good_states_presentOnly)
      (auto simp: CloneLiveStates_def comp_def intro: ValidateLiveIdentityState_clone)
  have "within_bounds ?base" if "live_map ?base = shared_map st"
    using good_states_same_bounds [OF good shared_good [OF inv] that] shared_bounds [OF inv] by simp
  then have same: "equalLiveStates ?base (st_shared st) \<longleftrightarrow> live_map ?base = shared_map st"
    using equalLiveStates_iff [OF good shared_good [OF inv]] shared_bounds [OF inv] by blast
  show ?thesis
    using rec sel same attached_capture [OF a]
    by (auto simp: attachRecord_def Let_def attachedShell_def putShell_def split: if_splits)
qed

theorem attach_captures_witness:
  "\<exists>sh. map_of (st_shells both_state) ''bob'' = Some sh
    \<and> live_map (sh_capture_baseline sh) =
        (\<lambda>i. if AllowsLiveValue sample_registry i then live_map [set_to foo ''bar''] i else None)"
proof -
  have "map_of (st_shells alice_state) (cr_shell_id (ar_credential (attach_of ''op-2'' bob))) = None"
    by (simp add: alice_state_def attach_of_def)
  from attach_captures [OF bob_attached alice_inv this] show ?thesis
    by (simp add: attach_of_def seeded_env_def cong: if_cong)
qed

section \<open>Pull and resolve\<close>


definition alice_acks :: acknowledge_request where
  "alice_acks = \<lparr>ak_operation_id = ''op-7'', ak_credential = alice, ak_revision = 3, ak_token = alice_token,
     ak_snapshot = snap merged\<rparr>"









text \<open>
  C7: Nothing but the prepared target is acknowledged. If a report is acknowledged, the
  shell waits for the revision and the token it names, and the report is the target the
  shell waits for, unless two different canonical lists of states have the same SHA-256.
\<close>

theorem acknowledge_only_target:
  assumes run: "acknowledge H req fp sh observed st = Inr (res, st')"
    and good: "good_states observed" "good_states target"
    and wait: "waits_for H sh revision token target"
  shows "revision = ak_revision req \<and> token = ak_token req
    \<and> (live_map observed = live_map target
       \<or> canonical_states observed \<noteq> canonical_states target
         \<and> hx_sha256 H (hx_json H (JStates (canonical_states observed)))
           = hx_sha256 H (hx_json H (JStates (canonical_states target))))"
proof -
  have "hx_sha256 H (hx_json H (JStates (canonical_states observed)))
      = hx_sha256 H (hx_json H (JStates (canonical_states target)))"
    using acknowledge_spec [OF run] wait FingerprintSnapshot_good [OF good(1)]
      FingerprintSnapshot_good [OF good(2)] by (simp add: waits_for_def)
  moreover have "live_map observed = live_map target" if "canonical_states observed = canonical_states target"
    using that live_map_canonical [OF good(1)] live_map_canonical [OF good(2)] by simp
  ultimately show ?thesis using acknowledge_spec [OF run] wait by (auto simp: waits_for_def)
qed

theorem acknowledge_only_target_witness:
  "ak_revision alice_acks = 3 \<and> ak_token alice_acks = alice_token"
proof -
  have wait: "waits_for sample_hash alice_pulling 3 alice_token merged"
    by (simp add: waits_for_def alice_pulling_def target_print)
  have agree: "conflict_agrees alice_pulling" by (simp add: conflict_agrees_def alice_pulling_def)
  obtain r where run: "acknowledge sample_hash alice_acks (stamp_of CHR ''7'') alice_pulling merged pulling_state = Inr r"
    using acknowledge_accepts [where H = sample_hash and req = alice_acks and fp = "stamp_of CHR ''7''"
        and st = pulling_state, OF _ agree target_good target_good refl] wait by (auto simp: alice_acks_def)
  then show ?thesis
    using acknowledge_only_target [OF _ target_good target_good wait, of alice_acks "stamp_of CHR ''7''"
        pulling_state "fst r" "snd r"] by simp
qed


text \<open>
  C8: A shared state that binds a name the registry always excludes blocks every shell. A
  report is cut down to the identities the registry admits before it is compared with the
  target, so a target that binds a volatile variable or a bookkeeping name, as the committed
  source may, is never reported back: barring a second preimage of its fingerprint, every
  acknowledgement of the waiting shell fails, whatever it reports.
\<close>

theorem excluded_blocks_acknowledgement:
  assumes auth: "authorizeShell H st (ak_credential req) = Inr sh"
    and fresh: "receiptFor st (cr_shell_id (ak_credential req)) (ak_operation_id req) = None"
    and target: "good_states target" "identifies H (pd_fingerprint (sh_pending sh)) target"
    and excluded: "live_map target i \<noteq> None" "isVolatileIdentity i \<or> isBookkeepingIdentity i"
  shows "\<exists>err e'. acknowledgeTx H req sn e st = (Inl err, e')"
proof (rule ccontr)
  assume "\<nexists>err e'. acknowledgeTx H req sn e st = (Inl err, e')"
  then obtain res st' e' where run: "acknowledgeTx H req sn e st = (Inr (res, st'), e')"
    by (cases "acknowledgeTx H req sn e st"; cases "fst (acknowledgeTx H req sn e st)") auto
  then obtain st1 e1 observed st2 e2 where seed: "seedRegistryFromState e st = (Inr ((), st1), e1)"
    and adm: "admittedSnapshot sh sn e1 st1 = (Inr (observed, st2), e2)"
    using auth by (auto simp: acknowledgeTx_def tx_simps if_tx_run Let_def)
  have "st_receipts st2 = st_receipts st"
    using same_but_admitted_sel(7) [OF seed_same_but_admitted [OF seed]] admittedSnapshot_run [OF adm]
      same_but_admitted_sel(7) by metis
  then have "receiptFor st2 (cr_shell_id (ak_credential req)) (ak_operation_id req) = None"
    using fresh by (simp add: receiptFor_def)
  with run auth seed adm have ack: "acknowledge H req (fingerprintParts H ''acknowledge''
      [JRevision (ak_revision req), JToken (ak_token req), JStates observed]) sh observed st2 = Inr (res, st')"
    by (auto simp: acknowledgeTx_def tx_simps Let_def)
  have good: "good_states observed" using admittedSnapshot_run [OF adm] by blast
  have same: "live_map observed = live_map target"
    using acknowledge_only [OF ack good target] .
  have "i \<notin> ls_identity ` set observed"
    using admittedSnapshot_run [OF adm] excluded(2) gate_excluded
    by (auto simp: Let_def) (metis exclusionReason_None)+
  then have "live_map observed i = None"
    using dom_live_map_subset by blast
  with same excluded(1) show False by simp
qed

definition columns :: identity where "columns = Identity LiveEnv ''COLUMNS''"

definition lonely_hash :: "live_state list \<Rightarrow> hashing" where
  "lonely_hash ss = \<lparr>hx_sha256 = (\<lambda>x. replicate 32 (if x = ''x'' then CHR ''a'' else CHR ''b'')),
     hx_json = (\<lambda>d. if d = JStates (canonical_states ss) then ''x'' else ''y'')\<rparr>"

definition waiting_state :: wt_state where
  "waiting_state = sample_state\<lparr>st_shells := [(''alice'', (fresh_shell CHR ''A'')\<lparr>
     sh_verifier := replicate 32 CHR ''b'',
     sh_pending := \<lparr>pd_kind = PendingPull, pd_revision = 1, pd_fingerprint = replicate 32 CHR ''a'',
       pd_token = ''token'', pd_conflict = None, pd_changes = []\<rparr>\<rparr>)]\<rparr>"

theorem excluded_blocks_acknowledgement_witness:
  "\<exists>err e'. acknowledgeTx (lonely_hash [set_to columns ''80'']) alice_acks (snap [set_to columns ''80''])
     sample_env waiting_state = (Inl err, e')"
proof (rule excluded_blocks_acknowledgement [where sh = "snd (hd (st_shells waiting_state))"
      and target = "[set_to columns ''80'']" and i = columns])
  let ?H = "lonely_hash [set_to columns ''80'']"
  have "VerifyShellCapability (\<lambda>x. replicate 32 (if x = ''x'' then CHR ''a'' else CHR ''b''))
      (replicate 32 CHR ''b'') (cr_capability alice)" by code_simp
  then show "authorizeShell ?H waiting_state (ak_credential alice_acks) =
      Inr (snd (hd (st_shells waiting_state)))"
    by (simp add: authorizeShell_eq_Inr waiting_state_def alice_acks_def lonely_hash_def)
  show "receiptFor waiting_state (cr_shell_id (ak_credential alice_acks)) (ak_operation_id alice_acks) = None"
    by (simp add: receiptFor_def waiting_state_def)
  show "good_states [set_to columns ''80'']" by code_simp
  show "identifies ?H (pd_fingerprint (sh_pending (snd (hd (st_shells waiting_state))))) [set_to columns ''80'']"
    by (simp add: identifies_def lonely_hash_def waiting_state_def)
  show "live_map [set_to columns ''80''] columns \<noteq> None"
    by (simp add: live_map_def live_pairs_def)
  show "isVolatileIdentity columns \<or> isBookkeepingIdentity columns" by code_simp
qed

section \<open>Authorization\<close>

lemma refused_operation:
  assumes denied: "\<And>st previous. readCanonical too_large (sc_disk s) = Inr (st, previous) \<Longrightarrow>
      \<forall>sh. authorizeShell H st cred \<noteq> Inr sh"
    and refused: "\<And>st err e. authorizeShell H st cred = Inl err \<Longrightarrow> refuses m e st"
  shows "sc_disk (snd (runOp (WithTransaction too_large io m s))) = sc_disk s"
    and "isl (fst (runOp (WithTransaction too_large io m s)))"
proof -
  have fails: "\<exists>err env. m (sc_env s) (recovered (sc_disk s) st) = (Inl err, env)"
    if "readCanonical too_large (sc_disk s) = Inr (st, previous)" for st previous
    using authorizeShell_recovered [of H st cred "sc_disk s"] denied [OF that] refused
    unfolding refuses_def by blast
  obtain r s' where run: "runOp (WithTransaction too_large io m s) = (r, s')" by fastforce
  from transaction_refused [OF fails run]
  show "sc_disk (snd (runOp (WithTransaction too_large io m s))) = sc_disk s"
    and "isl (fst (runOp (WithTransaction too_large io m s)))"
    by (simp_all add: run)
qed

text \<open>
  C9: Without the capability of its shell a request changes nothing. If no state the store
  could read authorizes a credential, then publish, prepare, resolve and acknowledge with
  that credential all fail and leave the disk as it is, whatever else the requests hold and
  whatever the system calls return.
\<close>

theorem unauthorized_leaves_disk:
  assumes denied: "\<And>st previous. readCanonical too_large (sc_disk s) = Inr (st, previous) \<Longrightarrow>
      \<forall>sh. authorizeShell H st cred \<noteq> Inr sh"
  shows "(pq_credential req1 = cred \<longrightarrow> sc_disk (snd (Publish H too_large io req1 s)) = sc_disk s
        \<and> isl (fst (Publish H too_large io req1 s)))
    \<and> (pp_credential req2 = cred \<longrightarrow> sc_disk (snd (PreparePull H too_large io req2 s)) = sc_disk s
        \<and> isl (fst (PreparePull H too_large io req2 s)))
    \<and> (rq_credential req3 = cred \<longrightarrow> sc_disk (snd (ResolveShared H too_large io req3 s)) = sc_disk s
        \<and> isl (fst (ResolveShared H too_large io req3 s)))
    \<and> (ak_credential req4 = cred \<longrightarrow> sc_disk (snd (Acknowledge H too_large io req4 s)) = sc_disk s
        \<and> isl (fst (Acknowledge H too_large io req4 s)))"
proof (intro conjI impI)
  note refused = refused_operation [where H = H and cred = cred, OF denied]
  show "sc_disk (snd (Publish H too_large io req1 s)) = sc_disk s" "isl (fst (Publish H too_large io req1 s))"
    if "pq_credential req1 = cred"
    using that by (auto simp: Publish_def Let_def intro!: refused publishTx_refuses split: sum.split)
  show "sc_disk (snd (PreparePull H too_large io req2 s)) = sc_disk s" "isl (fst (PreparePull H too_large io req2 s))"
    if "pp_credential req2 = cred"
    using that by (auto simp: PreparePull_def Let_def intro!: refused prepareTx_refuses split: sum.split)
  show "sc_disk (snd (ResolveShared H too_large io req3 s)) = sc_disk s" "isl (fst (ResolveShared H too_large io req3 s))"
    if "rq_credential req3 = cred"
    using that by (auto simp: ResolveShared_def Let_def intro!: refused resolveTx_refuses split: sum.split)
  show "sc_disk (snd (Acknowledge H too_large io req4 s)) = sc_disk s" "isl (fst (Acknowledge H too_large io req4 s))"
    if "ak_credential req4 = cred"
    using that by (auto simp: Acknowledge_def Let_def intro!: refused acknowledgeTx_refuses split: sum.split)
qed

definition published_disk :: "unit service" where
  "published_disk = \<lparr>sc_env = sample_env,
     sc_disk = \<lparr>dk_file = Some (toStateDTO published_state), dk_marker = False\<rparr>\<rparr>"

definition mallory :: shell_credential where "mallory = credential ''alice'' CHR ''B''"

lemma mallory_fails:
  "\<not> VerifyShellCapability sample_sha (CHR ''k'' # replicate 31 CHR ''A'') (cr_capability mallory)"
  by code_simp

theorem unauthorized_leaves_disk_witness:
  "isl (fst (Publish sample_hash (\<lambda>_. False) io_fine (publish_of ''op-6'' mallory alice_delta) published_disk))"
proof -
  have denied: "\<forall>sh. authorizeShell sample_hash st mallory \<noteq> Inr sh"
    if "readCanonical (\<lambda>_. False) (sc_disk published_disk) = Inr (st, previous)" for st previous
  proof -
    have "fromStateDTO (toStateDTO published_state) = Inr (normState published_state)"
      using fromStateDTO_to [OF wt_inv_bytes [OF published_inv]] .
    moreover have "cloneState (normState published_state) = Some (normState published_state)"
      using cloneState_eq [OF wt_inv_bytes [OF wt_inv_norm [OF published_inv]]] by simp
    ultimately have "st = normState published_state"
      using that by (auto simp: published_disk_def readCanonical_def UnmarshalState_def bindR_def
          split: if_splits sum.splits option.splits)
    then show ?thesis
      using mallory_fails
      by (auto simp: authorizeShell_eq_Inr normState_def normShell_def mallory_def credential_def
          alice_ahead_def fresh_shell_def sample_hash_def)
  qed
  show ?thesis
    using unauthorized_leaves_disk [where H = sample_hash and cred = mallory and s = published_disk
        and too_large = "\<lambda>_. False" and io = io_fine
        and ?req1.0 = "publish_of ''op-6'' mallory alice_delta", OF denied] by simp
qed

end
