(* ===== verification/RepoSamples.thy ===== *)
theory RepoSamples
  imports PullSamples
begin

text \<open>
  A repository with two objects, the committed document of the sample and one in which the
  exported variable has another value, and the committed state after a commit to it.
\<close>

definition other_oid :: string where
  "other_oid = replicate 40 CHR ''b''"

definition other_committed :: committed_worktree where
  "other_committed = NewCommittedWorktree sample_source
     \<lparr>pr_schema = WorktreeSchemaV1, pr_states = [set_to foo ''baz''], pr_tombstones = []\<rparr>"

definition sample_repo :: "unit repository" where
  "sample_repo = \<lparr>rp_branches = (\<lambda>r. (Inr [''main''], r)),
     rp_resolve = (\<lambda>branch r. (Inr (if branch = ''main'' then sample_oid else other_oid), r)),
     rp_read = (\<lambda>oid r. (Inr (if oid = sample_oid then sample_committed else other_committed), r)),
     rp_create_from = (\<lambda>branch oid r. (OK, r)),
     rp_commit = (\<lambda>branch oid document message r.
       ((\<lparr>cm_committed = True, cm_oid = other_oid, cm_conflict = False, cm_recovery = False\<rparr>, None), r))\<rparr>"

lemma oids: "stateOIDRE other_oid" "stateOIDRE sample_oid" "other_oid \<noteq> sample_oid" "sample_oid \<noteq> other_oid"
  by code_simp+

lemma committed_ok: "validateCommitted other_committed = OK" "validateCommitted sample_committed = OK"
  by code_simp+

lemma committed_sel [simp]:
  "pr_states (cw_projection sample_committed) = [set_to foo ''bar'']"
  "pr_states (cw_projection other_committed) = [set_to foo ''baz'']"
  "cw_source other_committed = sample_source"
  by (simp_all add: sample_committed_def other_committed_def CloneLiveStates_def)

lemma built_other: "BuildEffective sample_source (workflowOverlay alice_delta) = Inr other_committed"
  by code_simp

lemma same_baz: "equalLiveStates [set_to foo ''baz''] [set_to foo ''baz'']"
  by code_simp

lemma published_dirty: "workflowChanges published_state = Inr alice_delta"
  by (simp add: workflowChanges_def alice_pieces)

lemma sample_clean: "workflowChanges sample_state = Inr []"
proof -
  have "DiffSnapshot (snap [set_to foo ''bar'']) (snap [set_to foo ''bar'']) = Inr []" by code_simp
  then show ?thesis by (simp add: workflowChanges_def)
qed

section \<open>A commit\<close>

lemma sample_env_sel [simp]:
  "sv_repo sample_env = ()" "sv_commit sample_env = (noCommit, None)"
  by (simp_all add: sample_env_def)

definition committed_state :: wt_state where
  "committed_state = adoptObject other_oid other_committed published_state"

lemma seed_at:
  "cw_source (st_committed st) = sample_source \<Longrightarrow> st_admitted st = [] \<Longrightarrow> \<not> st_admitted_missing st \<Longrightarrow>
     seedRegistryFromState e st = (Inr ((), st),
       e\<lparr>sv_registry := (sv_registry e)\<lparr>rg_owned := {foo}, rg_pinned := {}\<rparr>\<rparr>)"
  by (simp add: seedRegistryFromState_def tx_simps if_tx_run sample_seed RestoreAdmitted_def
      validateAdmittedIdentities_def)

lemma published_branch [simp]:
  "st_branch published_state = ''main''" "st_base_oid published_state = sample_oid"
  by (simp_all add: published_state_def both_state_def alice_state_def)

lemma sample_commits:
  "\<exists>e'. commitTx sample_repo ''note'' sample_env published_state = (Inr ((), committed_state), e')
     \<and> fst (sv_commit e') = \<lparr>cm_committed = True, cm_oid = other_oid, cm_conflict = False, cm_recovery = False\<rparr>"
  by (simp add: commitTx_def tx_simps if_tx_run published_dirty built_other same_baz alice_delta_sel
      sample_repo_def adoptCommit_def oids acceptsObject_def committed_ok seed_at adoptObject_def committed_state_def Let_def)


text \<open>
  After that commit the projection holds the new value, the source still the old one, and
  another shell publishes another identity.
\<close>

definition stale_state :: wt_state where
  "stale_state = adoptObject other_oid other_committed conflict_state"

lemma stale_inv: "wt_inv stale_state"
  unfolding stale_state_def using conflict_inv oids(1) committed_ok(1) by (rule adoptObject_inv)

lemma stale_state_sel [simp]:
  "st_committed stale_state = NewCommittedWorktree sample_source (cw_projection other_committed)"
  "st_shared stale_state = merged"
  by (simp_all add: stale_state_def adoptObject_def)

lemma stale_dirty: "workflowChanges stale_state = Inr [change_to LiveAdd new_name ''1'']"
  using new_name_added by (simp add: workflowChanges_def CloneLiveStates_def merged_def)

lemma source_value:
  "liveStatesFromManifest sample_source (Build sample_source) = [set_to foo ''bar'']"
  by code_simp

section \<open>A checkout and a reset\<close>

lemma digits: "char_of (50 :: nat) = CHR ''2''" "char_of (51 :: nat) = CHR ''3''"
  by code_simp+

lemma checkout_event:
  "workflowOperation ''checkout'' 2 = ''workflow-checkout:2''" "workflowOperation ''reset'' 3 = ''workflow-reset:3''"
  by (simp_all add: workflowOperation_def decimal.simps digits)

lemma sample_checks_out:
  "\<exists>st' e'. checkoutTx sample_repo ''dev'' False sample_env sample_state = (Inr ((), st'), e')"
proof -
  have seq: "validateEventSequence 0 2 [\<lparr>se_revision = 1, se_operation_id = ''materialize:1'', se_shell_id = [],
      se_changes = [change_to LiveAdd foo ''bar'']\<rparr>, \<lparr>se_revision = 2, se_operation_id = ''workflow-checkout:2'',
       se_shell_id = [], se_changes = alice_delta\<rparr>] = OK" by code_simp
  have changes: "DiffSnapshot (snap [set_to foo ''bar'']) (snap (CloneLiveStates [set_to foo ''baz''])) = Inr alice_delta"
    using alice_pieces by (simp add: CloneLiveStates_def)
  show ?thesis
    by (simp add: checkoutTx_def tx_simps if_tx_run sample_clean repairPublishedState_def callT_run
        replaceWorkflowGeneration_def sample_repo_def oids committed_ok changes seedOrRecover_run seed_at
        NewCommittedWorktree_sel appendGeneration_def alice_delta_sel next_revisions checkout_event
        short_history seq Let_def)
qed

lemma sample_resets:
  "\<exists>st' e'. resetTx sample_repo sample_env published_state = (Inr ((), st'), e')"
proof -
  let ?undo = "[change_to LiveUpdate foo ''bar'']"
  have seq: "validateEventSequence 0 3 [\<lparr>se_revision = 1, se_operation_id = ''materialize:1'', se_shell_id = [],
      se_changes = [change_to LiveAdd foo ''bar'']\<rparr>, \<lparr>se_revision = 2, se_operation_id = ''op-3'',
       se_shell_id = ''alice'', se_changes = alice_delta\<rparr>, \<lparr>se_revision = 3,
       se_operation_id = ''workflow-reset:3'', se_shell_id = [], se_changes = ?undo\<rparr>] = OK" by code_simp
  have changes: "DiffSnapshot (snap [set_to foo ''baz'']) (snap (CloneLiveStates [set_to foo ''bar''])) = Inr ?undo"
    by code_simp
  have clone: "CloneLiveChanges ?undo = ?undo" by (simp add: CloneLiveChanges_def)
  show ?thesis
    by (simp add: resetTx_def tx_simps if_tx_run callT_run replaceWorkflowGeneration_def sample_repo_def oids
        committed_ok changes seedOrRecover_run seed_at appendGeneration_def next_revisions checkout_event
        short_history seq published_events clone Let_def)
qed

end
