(* ===== verification/WorkflowProperties.thy ===== *)
theory WorkflowProperties
  imports RepoSamples
begin

text \<open>
  The properties of a transaction on the disk and of the workflow operations commit,
  checkout and hard reset.
\<close>

section \<open>Transactions\<close>





section \<open>Commit\<close>

lemma adoptCommit_shared:
  "adoptCommit R res e st = (Inr (u, st'), e') \<Longrightarrow> st_shared st' = st_shared st"
proof -
  assume run: "adoptCommit R res e st = (Inr (u, st'), e')"
  have seeded: "st_shared s2 = st_shared s1" if "seedRegistryFromState e1 s1 = (Inr y, e2)" "snd y = s2" for e1 s1 y e2 s2
    using that seed_same_but_admitted [of e1 s1 "fst y" "snd y" e2] same_but_admitted_sel(2) by (cases y) auto
  show ?thesis
    using run by (auto simp: adoptCommit_def Let_def tx_simps if_tx_run adoptObject_def
        dest!: seeded split: if_splits sum.splits prod.splits)
qed

lemma commitTx_shared:
  "commitTx R message e st = (Inr (u, st'), e') \<Longrightarrow> shared_map st' = shared_map st"
  by (auto simp: commitTx_def tx_simps if_tx_run case_prod_unfold dest!: adoptCommit_shared
      split: if_splits option.splits)

text \<open>
  C12: What a commit leaves. If the repository made no commit the state is as it was. If it
  did and the result needs no recovery, the worktree is based on the new object and clean:
  the shared state and the head are untouched and the committed projection equals the shared
  state.
\<close>

theorem commit_clean:
  assumes "wt_inv st" "commitTx R message e st = (Inr (u, st'), e')"
    and "sv_commit e = (noCommit, None)"
  shows "if \<not> cm_committed (fst (sv_commit e')) then st' = st
    else if cm_recovery (fst (sv_commit e')) then shared_map st' = shared_map st
    else st_base_oid st' = cm_oid (fst (sv_commit e')) \<and> shared_map st' = shared_map st
      \<and> st_head_revision st' = st_head_revision st \<and> committed_map st' = shared_map st'"
  using commitTx_spec [OF assms refl] commitTx_shared [OF assms(2)] by auto

theorem commit_clean_witness:
  "st_base_oid committed_state = other_oid \<and> committed_map committed_state = shared_map committed_state"
proof -
  obtain e' where "commitTx sample_repo ''note'' sample_env published_state = (Inr ((), committed_state), e')"
    and "fst (sv_commit e') = \<lparr>cm_committed = True, cm_oid = other_oid, cm_conflict = False, cm_recovery = False\<rparr>"
    using sample_commits by blast
  with commit_clean [OF published_inv this(1)] show ?thesis by simp
qed

text \<open>
  C13: Commits do not accumulate. A commit rebuilds the document from the committed source
  and the changes against the committed projection, but the source of a committed document
  never takes up an overlay. So once an identity has been committed from a shell, and so
  differs from what the source says, every later commit that changes only other identities
  is refused, without asking the repository.
\<close>

theorem commit_forgets_overlay:
  assumes "wt_inv st" "workflowChanges st = Inr changes" "changes \<noteq> []"
    and "committed_map st i = shared_map st i"
    and "live_map (liveStatesFromManifest (cw_source (st_committed st))
        (Build (cw_source (st_committed st)))) i \<noteq> shared_map st i"
  shows "\<exists>err. commitTx R message e st = (Inl err, e)"
  using assms by (rule commitTx_stale)

lemma two_values: "live_map [set_to foo ''bar''] foo \<noteq> live_map [set_to foo ''baz''] foo"
  by (simp add: live_map_def live_pairs_def set_to_def ScalarLiveValue_def CloneLiveValue_def)

lemma target_foo: "live_map merged foo = live_map [set_to foo ''baz''] foo"
  by (simp add: merged_def live_map_def live_pairs_def set_to_def ScalarLiveValue_def CloneLiveValue_def)

theorem commit_forgets_overlay_witness:
  "\<exists>err. commitTx sample_repo ''more'' sample_env stale_state = (Inl err, sample_env)"
  by (rule commit_forgets_overlay [OF stale_inv stale_dirty, where i = foo])
    (simp_all add: source_value two_values target_foo CloneLiveStates_def)

section \<open>Checkout and hard reset\<close>

text \<open>
  C14: A checkout that succeeds was clean and no shell was busy; afterwards the worktree is
  on the branch, based on the object the branch resolved to, with the projection of that
  object as the shared state and no changes, and every shell keeps its own record, marked
  behind when it has not applied the new generation.
\<close>

theorem checkout_clean:
  assumes "checkoutTx R branch create e st = (Inr (u, st'), e')"
  shows "workflowChanges st = Inr [] \<and> (\<forall>(sid, sh) \<in> set (st_shells st). \<not> shell_busy sh)
    \<and> (\<exists>oid target. stateOIDRE oid \<and> validateCommitted target = OK
        \<and> (\<exists>r. fst (rp_resolve R branch r) = Inr oid) \<and> (\<exists>r. fst (rp_read R oid r) = Inr target)
        \<and> st_branch st' = branch \<and> st_base_oid st' = oid
        \<and> shared_map st' = live_map (pr_states (cw_projection target))
        \<and> committed_map st' = shared_map st')"
  using assms by (rule checkoutTx_spec)

theorem checkout_clean_witness:
  "\<exists>st' e'. checkoutTx sample_repo ''dev'' False sample_env sample_state = (Inr ((), st'), e')
     \<and> st_branch st' = ''dev'' \<and> committed_map st' = shared_map st'"
proof -
  obtain st' e' where run: "checkoutTx sample_repo ''dev'' False sample_env sample_state = (Inr ((), st'), e')"
    using sample_checks_out by blast
  with checkout_clean [OF run] show ?thesis by blast
qed

text \<open>
  C15: A checkout is refused before it asks the repository for anything when the worktree
  has uncommitted changes, and then when a shell holds a conflict, unpublished changes or a
  pending transition.
\<close>

theorem checkout_guarded:
  assumes "st_materialized st" "workflowChanges st = Inr changes"
    and "changes \<noteq> [] \<or> (\<exists>(sid, sh) \<in> set (st_shells st). shell_busy sh)"
  shows "checkoutTx R branch create e st =
    (Inl (if changes \<noteq> [] then ErrWorktreeDirty else ErrConflictRequiresResolution), e)"
  using assms checkoutTx_dirty [of st changes R branch create e] checkoutTx_busy [of st _ _ R branch create e]
  by (cases "changes = []") auto

theorem checkout_guarded_witness:
  "checkoutTx sample_repo ''dev'' True sample_env published_state = (Inl ErrWorktreeDirty, sample_env)"
  using checkout_guarded [OF _ published_dirty, of sample_repo "''dev''" True sample_env]
  by (simp add: alice_delta_sel)

text \<open>
  A hard reset that succeeds leaves the branch and the base alone and makes the shared
  state the projection of the base object again: nothing is uncommitted.
\<close>

theorem reset_clean:
  assumes "resetTx R e st = (Inr (u, st'), e')"
  shows "\<exists>target. fst (rp_read R (st_base_oid st) (sv_repo e)) = Inr target
    \<and> st_branch st' = st_branch st \<and> st_base_oid st' = st_base_oid st
    \<and> shared_map st' = live_map (pr_states (cw_projection target)) \<and> committed_map st' = shared_map st'"
  using assms by (rule resetTx_spec)

theorem reset_clean_witness:
  "\<exists>st' e'. resetTx sample_repo sample_env published_state = (Inr ((), st'), e')
     \<and> shared_map st' = live_map [set_to foo ''bar'']"
proof -
  obtain st' e' where run: "resetTx sample_repo sample_env published_state = (Inr ((), st'), e')"
    using sample_resets by blast
  with reset_clean [OF run] show ?thesis by (auto simp: sample_repo_def)
qed

end
