(* ===== verification/Activation.thy ===== *)
theory Activation
  imports Builder SnapshotDiff
begin

text \<open>
  Activation planning: the operations of \<^verbatim>\<open>core/activate/plan.go\<close> and the
  two planners of \<^verbatim>\<open>core/activate/diff.go\<close>, one from the live states before and
  after a change, one from an active and a target manifest. The operations are carried out
  by generated shell code; here they are values.
\<close>

section \<open>Operations and plans\<close>

datatype op =
    SetLiveScalar identity string
  | RemoveLiveScalar identity
  | TransitionLiveList identity (tl_before_present: bool) (tl_after_present: bool)
      (tl_before: "string list") (tl_after: "string list")
  | SetLiveOptionState identity bool
  | RemoveLiveOptionState identity
  | RestoreScalar string string bool "string option"
  | UnsetScalar string string bool
  | RebuildListFromBase string
  | Unalias string
  | RestoreShadowedAlias string
  | UnsetFunc string
  | RestoreShadowedFunc string
  | RestoreOption string
  | SetScalar string string bool bool
  | ApplyListDelta string "string list" "string list" "int option" "bool list"
  | AddAlias string string bool
  | AddFunc string string
  | SetOption string bool

record plan =
  pn_deactivate :: "op list"
  pn_activate :: "op list"

record live_patch =
  lp_forward :: "op list"
  lp_replacement_reverse :: "op list"

section \<open>From live states\<close>

definition liveStateValues :: "live_state list \<Rightarrow> (identity \<times> live_value) list" where
  "liveStateValues states =
     fold (\<lambda>s m. if lv_present (ls_value s) then assoc_put (ls_identity s) (CloneLiveValue (ls_value s)) m else m)
       states []"

fun liveIdentityRank :: "live_kind \<Rightarrow> nat" where
  "liveIdentityRank LiveEnv = 0"
| "liveIdentityRank LiveAlias = 1"
| "liveIdentityRank LiveFunction = 2"
| "liveIdentityRank LivePath = 3"
| "liveIdentityRank LiveFPath = 4"
| "liveIdentityRank LiveOption = 5"
| "liveIdentityRank (LiveOther s) = 6"

text \<open>
  As in \<^verbatim>\<open>core/worktree/diff.go\<close>, the order of equal names of two unsupported
  kinds is open in the code; \<open>sort_key\<close> leaves them in their order.
\<close>

definition diffLiveStates :: "live_state list \<Rightarrow> live_state list \<Rightarrow> live_change list" where
  "diffLiveStates before after =
     (let beforeValues = liveStateValues before;
          afterValues = liveStateValues after;
          identities = map fst beforeValues
            @ filter (\<lambda>i. i \<notin> fst ` set beforeValues) (map fst afterValues)
      in List.map_filter (\<lambda>i.
           case (map_of beforeValues i, map_of afterValues i) of
             (None, Some v) \<Rightarrow> Some \<lparr>ch_kind = LiveAdd, ch_identity = i, ch_value = CloneLiveValue v\<rparr>
           | (Some v, None) \<Rightarrow> Some \<lparr>ch_kind = LiveRemove, ch_identity = i, ch_value = RemovedLiveValue\<rparr>
           | (Some v, Some w) \<Rightarrow>
               (if \<not> EqualLiveValue (id_kind i) v w
                then Some \<lparr>ch_kind = LiveUpdate, ch_identity = i, ch_value = CloneLiveValue w\<rparr> else None)
           | (None, None) \<Rightarrow> None)
         (sort_key (\<lambda>i. (liveIdentityRank (id_kind i), id_name i)) identities))"

definition changeToOp ::
  "(identity \<times> live_value) list \<Rightarrow> (identity \<times> live_value) list \<Rightarrow> live_change \<Rightarrow> op result" where
  "changeToOp beforeValues afterValues c =
     (let i = ch_identity c
      in if id_kind i = LiveEnv \<or> id_kind i = LiveAlias \<or> id_kind i = LiveFunction then
           (if ch_kind c = LiveRemove then Inr (RemoveLiveScalar i)
            else case lv_scalar (ch_value c) of
              None \<Rightarrow> Inl (Errorf ''live scalar %s/%s has no value'')
            | Some v \<Rightarrow> Inr (SetLiveScalar i v))
         else if id_kind i = LivePath \<or> id_kind i = LiveFPath then
           Inr (TransitionLiveList i (map_of beforeValues i \<noteq> None) (map_of afterValues i \<noteq> None)
             (case map_of beforeValues i of None \<Rightarrow> [] | Some v \<Rightarrow> list_elements v)
             (case map_of afterValues i of None \<Rightarrow> [] | Some v \<Rightarrow> list_elements v))
         else if id_kind i = LiveOption then
           (if ch_kind c = LiveRemove then Inr (RemoveLiveOptionState i)
            else case lv_option (ch_value c) of
              None \<Rightarrow> Inl (Errorf ''live option %s has no value'')
            | Some b \<Rightarrow> Inr (SetLiveOptionState i b))
         else Inl (Errorf ''live identity kind %q is unsupported''))"

definition liveChangesToOps ::
  "live_change list \<Rightarrow> live_state list \<Rightarrow> live_state list \<Rightarrow> op list result" where
  "liveChangesToOps changes before after =
     mapR (changeToOp (liveStateValues before) (liveStateValues after)) changes"

definition BuildLivePatch :: "live_state list \<Rightarrow> live_state list \<Rightarrow> live_patch result" where
  "BuildLivePatch before after =
     bindR (NormalizeLiveStates before) (\<lambda>b.
     bindR (NormalizeLiveStates after) (\<lambda>a.
     bindR (liveChangesToOps (diffLiveStates b a) b a) (\<lambda>forward.
     bindR (liveChangesToOps (diffLiveStates a b) a b) (\<lambda>reverse.
       Inr \<lparr>lp_forward = forward, lp_replacement_reverse = reverse\<rparr>))))"

section \<open>From manifests\<close>

definition validateListDelta :: "list_delta \<Rightarrow> unit result" where
  "validateListDelta l =
     (case ld_base_index l of
        None \<Rightarrow>
          (if ld_addition_dynamic l \<noteq> []
           then Inl (Errorf ''target list %q has dynamic metadata without base metadata'') else OK)
      | Some i \<Rightarrow>
          (if i < 0 \<or> int (length (ld_additions l)) < i
           then Inl (Errorf ''target list %q has invalid base index'')
           else if length (ld_addition_dynamic l) \<noteq> length (ld_additions l)
           then Inl (Errorf ''target list %q has invalid dynamic metadata'') else OK))"

definition normalizeScalars :: "scalar list \<Rightarrow> scalar list" where
  "normalizeScalars env =
     map (\<lambda>s.
       if list_ex (\<lambda>t. mv_name t = mv_name s \<and> mv_exported t \<noteq> None) env
       then s\<lparr>mv_exported := Some (list_ex (\<lambda>t. mv_name t = mv_name s \<and> mv_exported t = Some True) env)\<rparr>
       else s) (final_occurrences mv_name env)"

definition normalizeNames :: "string list \<Rightarrow> string list" where
  "normalizeNames = final_occurrences id"

definition normalizeOptions :: "option_set list \<Rightarrow> option_set list" where
  "normalizeOptions = final_occurrences os_name"

definition normalizeManifest :: "manifest \<Rightarrow> manifest" where
  "normalizeManifest m =
     m\<lparr>mf_env := normalizeScalars (mf_env m),
       mf_functions := (mf_functions m)\<lparr>fn_added := normalizeNames (fn_added (mf_functions m))\<rparr>,
       mf_options := normalizeOptions (mf_options m)\<rparr>"

definition containsDynamic :: "string \<Rightarrow> bool" where
  "containsDynamic s \<longleftrightarrow> list_ex (\<lambda>c. c = CHR 0x24) s \<or> list_ex (\<lambda>c. c = CHR 0x60) s"

definition scalarDynamic :: "scalar \<Rightarrow> bool" where
  "scalarDynamic s = (case mv_dynamic s of None \<Rightarrow> containsDynamic (mv_applied s) | Some b \<Rightarrow> b)"

definition aliasKeys :: "manifest \<Rightarrow> string list" where
  "aliasKeys m = sort (map fst (al_added (mf_aliases m)))"

definition deactivate :: "manifest \<Rightarrow> op list" where
  "deactivate m =
     map (\<lambda>s. if mv_original s \<noteq> None
         then RestoreScalar (mv_name s) (mv_applied s) (scalarDynamic s) (mv_original s)
         else UnsetScalar (mv_name s) (mv_applied s) (scalarDynamic s)) (mf_env m)
     @ map (\<lambda>l. RebuildListFromBase (ld_name l)) (mf_lists m)
     @ concat (map (\<lambda>k. [Unalias k, RestoreShadowedAlias k]) (aliasKeys m))
     @ concat (map (\<lambda>k. [UnsetFunc k, RestoreShadowedFunc k]) (fn_added (mf_functions m)))
     @ map (\<lambda>x. RestoreOption (os_name x)) (mf_options m)"

definition activateAlias :: "manifest \<Rightarrow> string \<Rightarrow> op" where
  "activateAlias m k =
     (let v = (case map_of (al_added (mf_aliases m)) k of None \<Rightarrow> [] | Some v \<Rightarrow> v)
      in AddAlias k v (case map_of (al_dynamic (mf_aliases m)) k of None \<Rightarrow> containsDynamic v | Some b \<Rightarrow> b))"

definition activate :: "manifest \<Rightarrow> op list" where
  "activate m =
     map (\<lambda>s. SetScalar (mv_name s) (mv_applied s) (scalarDynamic s)
         (case mv_exported s of None \<Rightarrow> True | Some b \<Rightarrow> b)) (mf_env m)
     @ map (\<lambda>l. ApplyListDelta (ld_name l) (ld_additions l) (ld_deletions l) (ld_base_index l)
         (ld_addition_dynamic l)) (mf_lists m)
     @ map (activateAlias m) (aliasKeys m)
     @ map (\<lambda>k. AddFunc k (case map_of (fn_bodies (mf_functions m)) k of None \<Rightarrow> [] | Some v \<Rightarrow> v))
         (fn_added (mf_functions m))
     @ map (\<lambda>x. SetOption (os_name x) (os_enabled x)) (mf_options m)"

definition validateTarget :: "manifest \<Rightarrow> unit result" where
  "validateTarget m =
     bindR (forE validateListDelta (mf_lists m)) (\<lambda>_.
       forE (\<lambda>name. if map_of (fn_bodies (mf_functions m)) name = None
         then Inl (Errorf ''target function %q has no activation body'') else OK)
         (fn_added (mf_functions m)))"

definition Diff :: "manifest option \<Rightarrow> manifest option \<Rightarrow> plan result" where
  "Diff active target =
     (if (case active of None \<Rightarrow> False | Some m \<Rightarrow> mf_schema m \<noteq> SchemaV1)
      then Inl (Errorf ''active manifest schema %q unsupported'')
      else if (case target of None \<Rightarrow> False | Some m \<Rightarrow> mf_schema m \<noteq> SchemaV1)
      then Inl (Errorf ''target manifest schema %q unsupported'')
      else
        let active = map_option normalizeManifest active;
            target = map_option normalizeManifest target
        in bindR (case target of None \<Rightarrow> OK | Some m \<Rightarrow> validateTarget m) (\<lambda>_.
             Inr \<lparr>pn_deactivate = (case active of None \<Rightarrow> [] | Some m \<Rightarrow> deactivate m),
                  pn_activate = (case target of None \<Rightarrow> [] | Some m \<Rightarrow> activate m)\<rparr>))"

end
