(* ===== verification/ActivationFacts.thy ===== *)
theory ActivationFacts
  imports Activation BuilderFacts
begin

text \<open>
  What the two planners of \<^verbatim>\<open>core/activate/diff.go\<close> compute: the live
  traversal is the difference of \<^verbatim>\<open>core/worktree\<close>, its operations carry one
  live map into the other and back, and a manifest made by the builder is already in normal
  form and is always accepted.
\<close>

section \<open>The live traversal\<close>

lemma liveStateValues_normalized:
  assumes "NormalizeLiveStates ss = Inr ns"
  shows "liveStateValues ns = presentStateMap ns"
proof -
  have "\<forall>s \<in> set ns. CloneLiveValue (ls_value s) = ls_value s"
    using assms by (auto simp: NormalizeLiveStates_eq_Inr)
  then show ?thesis
    unfolding liveStateValues_def presentStateMap_def by (intro fold_cong) auto
qed

lemma liveIdentityRank_eq: "liveIdentityRank k = liveKindRank k"
  by (cases k) simp_all

lemma sort_supported:
  assumes "distinct is" "\<forall>i \<in> set is. supported_kind (id_kind i)"
  shows "sort_key (\<lambda>i. (liveIdentityRank (id_kind i), id_name i)) is = sort is"
proof -
  let ?r = "\<lambda>i. (liveKindRank (id_kind i), id_name i)"
  have plain: "supported_kind k \<Longrightarrow> (case k of LiveOther s \<Rightarrow> s | _ \<Rightarrow> []) = []" for k
    by (cases k) auto
  have le: "i \<le> j \<longleftrightarrow> ?r i \<le> ?r j" if "i \<in> set is" "j \<in> set is" for i j
    using assms(2) that plain
    by (auto simp: less_eq_identity_def identity_rank_def less_eq_prod_def)
  have inj: "inj_on ?r (set is)"
    using le by (auto simp: inj_on_def intro!: antisym)
  have "map ?r (sort is) = map ?r (sort_key ?r is)"
  proof (rule sorted_distinct_set_unique)
    show "sorted (map ?r (sort is))"
      using le by (auto simp: sorted_map intro: sorted_wrt_mono_rel [of _ "(\<le>)"])
    show "sorted (map ?r (sort_key ?r is))" by (rule sorted_sort_key)
  qed (use assms(1) inj in \<open>simp_all add: distinct_map\<close>)
  then have "sort_key ?r is = sort is"
    using inj_on_map_eq_map [of ?r "sort is" "sort_key ?r is"] inj by simp
  then show ?thesis by (simp only: liveIdentityRank_eq)
qed

lemma diffLiveStates_eq:
  "diffLiveStates b a =
     List.map_filter (diffChange (map_of (liveStateValues b)) (map_of (liveStateValues a)))
       (sort_key (\<lambda>i. (liveIdentityRank (id_kind i), id_name i))
         (diffIdentities (liveStateValues b) (liveStateValues a)))"
proof -
  have "(\<lambda>i. case (f i, g i) of
             (None, Some v) \<Rightarrow> Some \<lparr>ch_kind = LiveAdd, ch_identity = i, ch_value = CloneLiveValue v\<rparr>
           | (Some v, None) \<Rightarrow> Some \<lparr>ch_kind = LiveRemove, ch_identity = i, ch_value = RemovedLiveValue\<rparr>
           | (Some v, Some w) \<Rightarrow>
               (if \<not> EqualLiveValue (id_kind i) v w
                then Some \<lparr>ch_kind = LiveUpdate, ch_identity = i, ch_value = CloneLiveValue w\<rparr> else None)
           | (None, None) \<Rightarrow> None) = diffChange f g" for f g
    by (rule ext) (simp add: diffChange_def split: option.split)
  then show ?thesis by (simp add: diffLiveStates_def diffIdentities_def Let_def)
qed

lemma diffLiveStates_refDiff:
  assumes "NormalizeLiveStates ss = Inr b" "NormalizeLiveStates ts = Inr a"
  shows "diffLiveStates b a = refDiff (live_map ss) (live_map ts)"
proof -
  have valid: "\<forall>s \<in> set ss. ValidateLiveIdentityState s = OK" "\<forall>s \<in> set ts. ValidateLiveIdentityState s = OK"
    using assms by (simp_all add: NormalizeLiveStates_eq_Inr)
  let ?b = "presentStateMap b" and ?a = "presentStateMap a"
  have change: "diffChange (map_of ?b) (map_of ?a) = refChange (live_map ss) (live_map ts)"
    using diffChange_refChange [OF valid]
    by (simp add: map_of_presentStateMap [OF assms(1)] map_of_presentStateMap [OF assms(2)] fun_eq_iff)
  have dom: "set (diffIdentities ?b ?a) = dom (live_map ss) \<union> dom (live_map ts)"
    using map_of_presentStateMap [OF assms(1)] map_of_presentStateMap [OF assms(2)]
    by (auto simp: diffIdentities_def dom_map_of_conv_image_fst [symmetric])
  have "supported_kind (id_kind i)" if "i \<in> set (diffIdentities ?b ?a)" for i
  proof -
    have "i \<in> ls_identity ` set ss \<union> ls_identity ` set ts"
      using that dom_live_map_subset [of ss] dom_live_map_subset [of ts] unfolding dom by blast
    then show ?thesis
      using valid ValidateIdentity_supported
      by (auto simp: ValidateLiveIdentityState_def bindR_eq_Inr)
  qed
  moreover have d: "distinct (diffIdentities ?b ?a)"
    using distinct_presentStateMap [of b] distinct_presentStateMap [of a]
    by (auto simp: diffIdentities_def distinct_filter)
  ultimately have sort: "sort_key (\<lambda>i. (liveIdentityRank (id_kind i), id_name i)) (diffIdentities ?b ?a)
      = sort (diffIdentities ?b ?a)"
    by (intro sort_supported) simp_all
  have "sort (diffIdentities ?b ?a) = sorted_list_of_set (dom (live_map ss) \<union> dom (live_map ts))"
    using sortIdentities_distinct [OF d] by (simp only: sortIdentities_def dom)
  with sort have sort: "sort_key (\<lambda>i. (liveIdentityRank (id_kind i), id_name i)) (diffIdentities ?b ?a)
      = sorted_list_of_set (dom (live_map ss) \<union> dom (live_map ts))"
    by (simp only:)
  then show ?thesis
    unfolding diffLiveStates_eq liveStateValues_normalized [OF assms(1)]
      liveStateValues_normalized [OF assms(2)]
    by (simp only: change sort refDiff_def)
qed

section \<open>What live operations do\<close>

text \<open>
  A live operation sets, removes or transforms one identity of a live map. A list
  transition is only defined on the value it says it starts from.
\<close>

definition list_side :: "bool \<Rightarrow> string list \<Rightarrow> live_value option" where
  "list_side present xs = (if present then Some (ListLiveValue xs) else None)"

fun runLiveOp :: "op \<Rightarrow> (identity \<rightharpoonup> live_value) \<Rightarrow> (identity \<rightharpoonup> live_value) option" where
  "runLiveOp (SetLiveScalar i v) m = Some (m(i \<mapsto> ScalarLiveValue v))"
| "runLiveOp (RemoveLiveScalar i) m = Some (m(i := None))"
| "runLiveOp (TransitionLiveList i bp ap b a) m =
     (if m i = list_side bp b then Some (m(i := list_side ap a)) else None)"
| "runLiveOp (SetLiveOptionState i b) m = Some (m(i \<mapsto> OptionLiveValue b))"
| "runLiveOp (RemoveLiveOptionState i) m = Some (m(i := None))"
| "runLiveOp _ m = None"

fun runLiveOps :: "op list \<Rightarrow> (identity \<rightharpoonup> live_value) \<Rightarrow> (identity \<rightharpoonup> live_value) option" where
  "runLiveOps [] m = Some m"
| "runLiveOps (x # xs) m = (case runLiveOp x m of None \<Rightarrow> None | Some m' \<Rightarrow> runLiveOps xs m')"

text \<open>The shapes a valid present value can have.\<close>

lemma live_value_shapes:
  assumes "ValidateLiveValue k v = OK" "lv_present v" "CloneLiveValue v = v"
  shows "k \<in> {LiveEnv, LiveAlias, LiveFunction} \<Longrightarrow> \<exists>s. v = ScalarLiveValue s"
    and "k \<in> {LivePath, LiveFPath} \<Longrightarrow> v = ListLiveValue (list_elements v)"
    and "k = LiveOption \<Longrightarrow> \<exists>b. v = OptionLiveValue b"
proof -
  have list: "lv_list v = append_nil (list_elements v)"
    using assms(3) CloneLiveValue_sel(5) [of v] by simp
  show "k \<in> {LiveEnv, LiveAlias, LiveFunction} \<Longrightarrow> \<exists>s. v = ScalarLiveValue s"
    using assms by (intro exI [of _ "the (lv_scalar v)"] live_value.equality)
      (auto simp: ValidateLiveValue_def ScalarLiveValue_def split: if_splits)
  show "k \<in> {LivePath, LiveFPath} \<Longrightarrow> v = ListLiveValue (list_elements v)"
    using assms list by (intro live_value.equality)
      (auto simp: ValidateLiveValue_def ListLiveValue_def split: if_splits)
  show "k = LiveOption \<Longrightarrow> \<exists>b. v = OptionLiveValue b"
    using assms by (intro exI [of _ "the (lv_option v)"] live_value.equality)
      (auto simp: ValidateLiveValue_def OptionLiveValue_def split: if_splits)
qed

text \<open>Every change between two valid lists becomes an operation with its effect.\<close>

lemma changeToOp_run:
  assumes norm: "NormalizeLiveStates ss = Inr b" "NormalizeLiveStates ts = Inr a"
    and c: "refChange (live_map ss) (live_map ts) (ch_identity c) = Some c"
    and m: "m (ch_identity c) = live_map ss (ch_identity c)"
  shows "\<exists>x. changeToOp (liveStateValues b) (liveStateValues a) c = Inr x
    \<and> runLiveOp x m = Some (m(ch_identity c := change_result c))"
proof -
  let ?i = "ch_identity c" and ?k = "id_kind (ch_identity c)"
  have valid: "\<forall>s \<in> set ss. ValidateLiveIdentityState s = OK" "\<forall>s \<in> set ts. ValidateLiveIdentityState s = OK"
    using norm by (simp_all add: NormalizeLiveStates_eq_Inr)
  have maps: "map_of (liveStateValues b) = live_map ss" "map_of (liveStateValues a) = live_map ts"
    using norm by (simp_all add: liveStateValues_normalized map_of_presentStateMap)
  have result: "change_result c = live_map ts ?i"
    using c by (rule refChange_result) (rule live_map_Some_clone)
  have kind: "ch_kind c = LiveRemove \<longleftrightarrow> live_map ts ?i = None"
    "live_map ts ?i = Some v \<Longrightarrow> ch_value c = v" for v
    using c by (auto simp: refChange_eq_Some)
  have shape: "live_map us ?i = Some v \<Longrightarrow> ?k \<in> {LiveEnv, LiveAlias, LiveFunction} \<Longrightarrow> \<exists>s. v = ScalarLiveValue s"
    "live_map us ?i = Some v \<Longrightarrow> ?k \<in> {LivePath, LiveFPath} \<Longrightarrow> v = ListLiveValue (list_elements v)"
    "live_map us ?i = Some v \<Longrightarrow> ?k = LiveOption \<Longrightarrow> \<exists>b. v = OptionLiveValue b"
    if "us = ss \<or> us = ts" for us v
    using live_value_shapes [of ?k v] live_map_valid [of us ?i v] live_map_Some_present [of us ?i v]
      live_map_Some_clone [of us ?i v] valid that by auto
  have "supported_kind ?k"
  proof -
    have "?i \<in> ls_identity ` set ss \<union> ls_identity ` set ts"
      using c dom_live_map_subset [of ss] dom_live_map_subset [of ts] by (auto simp: refChange_eq_Some)
    then show ?thesis
      using valid ValidateIdentity_supported
      by (auto simp: ValidateLiveIdentityState_def bindR_eq_Inr)
  qed
  then consider (scalar) "?k \<in> {LiveEnv, LiveAlias, LiveFunction}" | (list) "?k \<in> {LivePath, LiveFPath}"
    | (opt) "?k = LiveOption"
    by (cases ?k) auto
  then show ?thesis
  proof cases
    case scalar
    then show ?thesis
      using kind shape(1) [of ts] result
      by (cases "live_map ts ?i") (auto simp: changeToOp_def Let_def ScalarLiveValue_def)
  next
    case list
    have side: "live_map us ?i = list_side (live_map us ?i \<noteq> None)
        (case live_map us ?i of None \<Rightarrow> [] | Some v \<Rightarrow> list_elements v)" if "us = ss \<or> us = ts" for us
      using shape(2) [OF that _ list] by (auto simp: list_side_def split: option.split)
    show ?thesis
      using list side [of ss] side [of ts] m result by (auto simp: changeToOp_def Let_def maps)
  next
    case opt
    then show ?thesis
      using kind shape(3) [of ts] result
      by (cases "live_map ts ?i") (auto simp: changeToOp_def Let_def OptionLiveValue_def)
  qed
qed

lemma liveChangesToOps_run:
  assumes "NormalizeLiveStates ss = Inr b" "NormalizeLiveStates ts = Inr a"
    and "\<forall>c \<in> set cs. refChange (live_map ss) (live_map ts) (ch_identity c) = Some c"
    and "distinct (map ch_identity cs)"
    and "\<forall>c \<in> set cs. m (ch_identity c) = live_map ss (ch_identity c)"
  shows "\<exists>xs. liveChangesToOps cs b a = Inr xs \<and> runLiveOps xs m = Some (applyMap m cs)"
  using assms(3-5)
proof (induction cs arbitrary: m)
  case Nil
  then show ?case by (simp add: liveChangesToOps_def)
next
  case (Cons c cs)
  obtain x where x: "changeToOp (liveStateValues b) (liveStateValues a) c = Inr x"
    "runLiveOp x m = Some (m(ch_identity c := change_result c))"
    using changeToOp_run [OF assms(1,2), of c m] Cons.prems by auto
  have other: "ch_identity d \<noteq> ch_identity c" if "d \<in> set cs" for d
    using Cons.prems(2) imageI [OF that, of ch_identity] by auto
  have "\<forall>d \<in> set cs. (m(ch_identity c := change_result c)) (ch_identity d) = live_map ss (ch_identity d)"
    using Cons.prems(3) other by simp
  then obtain xs where "liveChangesToOps cs b a = Inr xs"
    "runLiveOps xs (m(ch_identity c := change_result c)) = Some (applyMap (m(ch_identity c := change_result c)) cs)"
    using Cons.IH [of "m(ch_identity c := change_result c)"] Cons.prems(1,2) by (simp del: fun_upd_apply) blast
  with x show ?case by (simp add: liveChangesToOps_def)
qed

lemma live_ops_transform:
  assumes "NormalizeLiveStates ss = Inr b" "NormalizeLiveStates ts = Inr a"
  shows "\<exists>xs. liveChangesToOps (diffLiveStates b a) b a = Inr xs
    \<and> runLiveOps xs (live_map ss) = Some (live_map ts)"
proof -
  let ?cs = "refDiff (live_map ss) (live_map ts)"
  have "applyMap (live_map ss) ?cs = live_map ts"
    by (rule applyMap_refDiff) (auto dest: live_map_Some_clone)
  then show ?thesis
    using liveChangesToOps_run [OF assms, of ?cs "live_map ss"] refDiff_distinct
    by (simp add: diffLiveStates_refDiff [OF assms] set_refDiff)
qed

section \<open>Manifests made by the builder\<close>

definition build_wf :: "build_state \<Rightarrow> bool" where
  "build_wf b \<longleftrightarrow> ordered_wf id (bs_functions b) \<and> ordered_wf os_name (bs_options b)
     \<and> set (snd (bs_functions b)) \<subseteq> fst ` set (bs_bodies b)"

lemma build_wf_empty: "build_wf build_empty"
  by (simp add: build_wf_def build_empty_def ordered_wf_empty) (simp add: ordered_empty_def)

lemma build_wf_cong:
  "bs_functions b' = bs_functions b \<Longrightarrow> bs_options b' = bs_options b \<Longrightarrow> bs_bodies b' = bs_bodies b \<Longrightarrow>
     build_wf b' = build_wf b"
  by (simp add: build_wf_def)

lemma build_wf_buildScalar: "build_wf (buildScalar e b) = build_wf b"
  by (rule build_wf_cong) (auto simp: buildScalar_def Let_def split: option.split)

lemma build_wf_buildList: "build_wf (buildList e b) = build_wf b"
proof -
  have "build_wf (case c of None \<Rightarrow> b | Some (name, ts) \<Rightarrow> b\<lparr>bs_lists := f name ts, bs_list_order := g name\<rparr>) = build_wf b"
    for c :: "(string \<times> list_token list) option" and f g
    by (cases c) (auto simp: build_wf_def)
  from this [where f = "\<lambda>name ts. assoc_put name ts (bs_lists b)"]
  show ?thesis unfolding buildList_def Let_def .
qed

lemma build_wf_buildAlias: "build_wf (buildAlias e b) = build_wf b"
  by (rule build_wf_cong) (auto simp: buildAlias_def split: option.split)

lemmas build_wf_same = build_wf_buildScalar build_wf_buildList build_wf_buildAlias

lemma build_wf_fold: "(\<And>x b. build_wf b \<Longrightarrow> build_wf (f x b)) \<Longrightarrow> build_wf b \<Longrightarrow> build_wf (fold f xs b)"
  by (induction xs arbitrary: b) auto

lemma build_wf_buildFunction: "build_wf b \<Longrightarrow> build_wf (buildFunction e b)"
  by (auto simp: buildFunction_def split: option.split intro!: build_wf_fold)
     (auto simp: build_wf_def place_wf place_list keys_assoc_put)

lemma build_wf_buildOptions: "build_wf b \<Longrightarrow> build_wf (buildOptions e b)"
  by (auto simp: buildOptions_def intro!: build_wf_fold) (auto simp: build_wf_def place_wf)

lemma build_wf_buildEntry: "build_wf b \<Longrightarrow> build_wf (buildEntry e b)"
  by (cases "en_kind e")
     (auto simp: buildEntry_def build_wf_same build_wf_buildFunction build_wf_buildOptions)

lemma tokenLoop_shape:
  "tokenLoop ts base adds dyn = (base', adds', dyn') \<Longrightarrow> base \<le> length adds \<Longrightarrow> length dyn = length adds \<Longrightarrow>
     base' \<le> length adds' \<and> length dyn' = length adds'"
  by (induction ts base adds dyn rule: tokenLoop.induct) (auto split: if_splits)

lemma validateListDelta_built: "validateListDelta (listDelta b name) = OK"
  using tokenLoop_shape [of "case map_of (bs_lists b) name of None \<Rightarrow> [] | Some ts \<Rightarrow> ts" 0 "[]" "[]"]
  by (auto simp: listDelta_def validateListDelta_def Let_def split: prod.split)

lemma Build_normal: "normalizeManifest (Build p) = Build p"
proof -
  have wf: "build_wf (fold buildEntry p build_empty)"
    by (intro build_wf_fold build_wf_buildEntry build_wf_empty)
  have options: "distinct (map os_name (mf_options (Build p)))"
    and funcs: "distinct (fn_added (mf_functions (Build p)))"
    using wf ordered_wf_distinct [of id "fst (bs_functions (fold buildEntry p build_empty))" "snd (bs_functions (fold buildEntry p build_empty))"]
      ordered_wf_distinct [of os_name "fst (bs_options (fold buildEntry p build_empty))" "snd (bs_options (fold buildEntry p build_empty))"]
    by (auto simp: build_wf_def Build_def Let_def)
  let ?cs = "List.map_filter envContribution p"
  have env: "mf_env (Build p) = map (envScalar ?cs) (keep_last fst ?cs)"
    by (simp add: Build_env Let_def)
  have names: "map mv_name (mf_env (Build p)) = map fst (keep_last fst ?cs)"
    by (simp add: env envScalar_def)
  have dis: "distinct (map mv_name (mf_env (Build p)))"
    unfolding names by simp
  have "normalizeScalars (mf_env (Build p)) = mf_env (Build p)"
  proof -
    have same: "t = s" if "s \<in> set (mf_env (Build p))" "t \<in> set (mf_env (Build p))" "mv_name t = mv_name s" for s t
      using dis that by (auto simp: distinct_map inj_on_def)
    have "s\<lparr>mv_exported := Some (list_ex (\<lambda>t. mv_name t = mv_name s \<and> mv_exported t = Some True) (mf_env (Build p)))\<rparr> = s"
      if s: "s \<in> set (mf_env (Build p))" for s
    proof -
      have "mv_exported s \<noteq> None" using s by (auto simp: env envScalar_def)
      moreover have "list_ex (\<lambda>t. mv_name t = mv_name s \<and> mv_exported t = Some True) (mf_env (Build p))
          \<longleftrightarrow> mv_exported s = Some True"
        using same s by (auto simp: list_ex_iff)
      ultimately show ?thesis by (cases s) auto
    qed
    then show ?thesis
      using dis by (auto simp: normalizeScalars_def final_occurrences_eq_keep_last keep_last_id
          intro!: map_idI)
  qed
  then show ?thesis
    using options funcs
    by (simp add: normalizeManifest_def normalizeNames_def normalizeOptions_def
        final_occurrences_eq_keep_last keep_last_id)
qed

lemma validateTarget_built: "validateTarget (Build p) = OK"
proof -
  have wf: "build_wf (fold buildEntry p build_empty)"
    by (intro build_wf_fold build_wf_buildEntry build_wf_empty)
  then have "map_of (bs_bodies (fold buildEntry p build_empty)) n \<noteq> None"
    if "n \<in> set (snd (bs_functions (fold buildEntry p build_empty)))" for n
    using that unfolding build_wf_def map_of_eq_None_iff by auto
  then show ?thesis
    by (auto simp: validateTarget_def bindR_eq_Inr forE_eq_OK Build_def Let_def validateListDelta_built)
qed

section \<open>Plans\<close>

text \<open>The slot of the shell an operation of a plan works on.\<close>

datatype plan_slot = ScalarSlot string | ListSlot string | AliasSlot string | FuncSlot string | OptionSlot string

fun slot_of :: "op \<Rightarrow> plan_slot option" where
  "slot_of (RestoreScalar n _ _ _) = Some (ScalarSlot n)"
| "slot_of (UnsetScalar n _ _) = Some (ScalarSlot n)"
| "slot_of (SetScalar n _ _ _) = Some (ScalarSlot n)"
| "slot_of (RebuildListFromBase n) = Some (ListSlot n)"
| "slot_of (ApplyListDelta n _ _ _ _) = Some (ListSlot n)"
| "slot_of (Unalias n) = Some (AliasSlot n)"
| "slot_of (RestoreShadowedAlias n) = Some (AliasSlot n)"
| "slot_of (AddAlias n _ _) = Some (AliasSlot n)"
| "slot_of (UnsetFunc n) = Some (FuncSlot n)"
| "slot_of (RestoreShadowedFunc n) = Some (FuncSlot n)"
| "slot_of (AddFunc n _) = Some (FuncSlot n)"
| "slot_of (RestoreOption n) = Some (OptionSlot n)"
| "slot_of (SetOption n _) = Some (OptionSlot n)"
| "slot_of _ = None"

text \<open>Aliases and functions are removed and then restored, the others are undone in one step.\<close>

fun undo_steps :: "plan_slot option \<Rightarrow> plan_slot option list" where
  "undo_steps (Some (AliasSlot n)) = [Some (AliasSlot n), Some (AliasSlot n)]"
| "undo_steps (Some (FuncSlot n)) = [Some (FuncSlot n), Some (FuncSlot n)]"
| "undo_steps t = [t]"

lemma concat_map_single: "concat (map (\<lambda>x. [f x]) xs) = map f xs"
  by (induction xs) auto

lemma deactivate_slots:
  "map slot_of (deactivate m) = concat (map undo_steps (map slot_of (activate m)))"
  unfolding deactivate_def activate_def
  by (simp add: map_concat comp_def concat_map_single activateAlias_def Let_def if_distrib [of slot_of])

end
