(* ===== verification/ActivationProperties.thy ===== *)
theory ActivationProperties
  imports ActivationFacts Samples
begin

text \<open>
  The properties of the activation planner (\<^verbatim>\<open>core/activate/diff.go\<close>).
\<close>

section \<open>Live patches\<close>

lemma valid_normalizes:
  "\<forall>s \<in> set ss. ValidateLiveIdentityState s = OK \<Longrightarrow> \<exists>ns. NormalizeLiveStates ss = Inr ns"
  by (simp add: NormalizeLiveStates_eq_Inr)

text \<open>
  C23: A live patch exists for any two lists of valid states, and both of its plans are
  exact: the forward operations, run one after the other, take the shell from what the first
  list binds to what the second binds, and the replacement reverse takes it back. Every
  list transition meets the value it says it starts from on the way.
\<close>

theorem live_patch_round_trip:
  assumes "list_all (\<lambda>s. ValidateLiveIdentityState s = OK) ss"
    and "list_all (\<lambda>s. ValidateLiveIdentityState s = OK) ts"
  shows "\<exists>p. BuildLivePatch ss ts = Inr p
    \<and> runLiveOps (lp_forward p) (live_map ss) = Some (live_map ts)
    \<and> runLiveOps (lp_replacement_reverse p) (live_map ts) = Some (live_map ss)"
proof -
  obtain b a where n: "NormalizeLiveStates ss = Inr b" "NormalizeLiveStates ts = Inr a"
    using assms valid_normalizes [of ss] valid_normalizes [of ts] by (auto simp: list_all_iff)
  obtain xs where xs: "liveChangesToOps (diffLiveStates b a) b a = Inr xs"
    "runLiveOps xs (live_map ss) = Some (live_map ts)"
    using live_ops_transform [OF n] by blast
  obtain ys where ys: "liveChangesToOps (diffLiveStates a b) a b = Inr ys"
    "runLiveOps ys (live_map ts) = Some (live_map ss)"
    using live_ops_transform [OF n(2,1)] by blast
  from n xs ys show ?thesis by (simp add: BuildLivePatch_def)
qed

definition search_path :: "string list \<Rightarrow> live_state" where
  "search_path dirs = \<lparr>ls_identity = Identity LivePath ''PATH'', ls_value = ListLiveValue dirs\<rparr>"

lemma search_path_valid:
  "ValidateLiveIdentityState (search_path [''/bin'']) = OK"
  "ValidateLiveIdentityState (search_path [''/usr/bin'', ''/bin'']) = OK"
  "ValidateLiveIdentityState (set_to foo ''bar'') = OK"
  by code_simp+

theorem live_patch_round_trip_witness:
  "\<exists>p. BuildLivePatch [search_path [''/bin''], set_to foo ''bar''] [search_path [''/usr/bin'', ''/bin'']] = Inr p
    \<and> runLiveOps (lp_forward p) (live_map [search_path [''/bin''], set_to foo ''bar''])
        = Some (live_map [search_path [''/usr/bin'', ''/bin'']])"
  using live_patch_round_trip [of "[search_path [''/bin''], set_to foo ''bar'']"
      "[search_path [''/usr/bin'', ''/bin'']]"]
  by (auto simp: search_path_valid)

text \<open>
  The activation package repeats the difference of the worktree package without calling
  it, and the two agree: on every pair of valid snapshots its traversal of the normalised
  states gives the changes of the worktree package, in the same order.
\<close>

theorem live_traversal_is_diff:
  assumes "ValidateSnapshot before = OK" "ValidateSnapshot after = OK"
  shows "bindR (NormalizeLiveStates (sn_states before)) (\<lambda>b.
      bindR (NormalizeLiveStates (sn_states after)) (\<lambda>a. Inr (diffLiveStates b a)))
    = DiffSnapshot before after"
proof -
  obtain b a where n: "NormalizeLiveStates (sn_states before) = Inr b"
    "NormalizeLiveStates (sn_states after) = Inr a"
    using valid_normalizes ValidateSnapshot_states [OF assms(1)] ValidateSnapshot_states [OF assms(2)]
    by blast
  then show ?thesis
    by (simp add: DiffSnapshot_refDiff [OF assms] diffLiveStates_refDiff [OF n])
qed

theorem live_traversal_is_diff_witness:
  "DiffSnapshot (snap [set_to foo ''bar'']) (snap []) =
     bindR (NormalizeLiveStates [set_to foo ''bar'']) (\<lambda>b.
       bindR (NormalizeLiveStates []) (\<lambda>a. Inr (diffLiveStates b a)))"
proof -
  have "ValidateSnapshot (snap [set_to foo ''bar'']) = OK" "ValidateSnapshot (snap []) = OK"
    by code_simp+
  from live_traversal_is_diff [OF this] show ?thesis by simp
qed

section \<open>Plans between manifests\<close>

text \<open>
  Switching between profiles never fails in the planner: a manifest made by the builder
  is in normal form, its lists and functions pass the checks, and the plan is the complete
  undoing of the active one followed by the complete activation of the target. What
  activating a manifest touches is what deactivating it undoes, slot by slot and in the same
  order.
\<close>

theorem built_manifests_plan:
  "Diff (Some (Build p)) (Some (Build q)) =
     Inr \<lparr>pn_deactivate = deactivate (Build p), pn_activate = activate (Build q)\<rparr>
   \<and> map slot_of (deactivate (Build p)) = concat (map undo_steps (map slot_of (activate (Build p))))"
proof -
  have "mf_schema (Build r) = SchemaV1" for r by (simp add: Build_def Let_def)
  then show ?thesis
    by (simp add: Diff_def Build_normal validateTarget_built deactivate_slots)
qed

end
