(* ===== verification/Base64.thy ===== *)
theory Base64
  imports Prelude
begin

text \<open>
  Standard base64 with padding, as the vault and the keychain transport of
  \<^verbatim>\<open>core/store/keychain.go\<close> use it (\<^verbatim>\<open>base64.StdEncoding\<close> of
  the Go library): three bytes become four symbols. Decoding skips carriage returns and
  newlines and does not look at the unused bits of the last symbol.
\<close>

section \<open>Symbols\<close>

definition b64_alphabet :: string where
  "b64_alphabet = ''ABCDEFGHIJKLMNOPQRSTUVWXYZabcdefghijklmnopqrstuvwxyz0123456789+/''"

definition b64_symbol :: "nat \<Rightarrow> char" where
  "b64_symbol i = b64_alphabet ! i"

definition b64_value :: "char \<Rightarrow> nat option" where
  "b64_value c =
     (if is_upper c then Some (of_char c - 65)
      else if is_lower c then Some (of_char c - 71)
      else if is_digit c then Some (of_char c + 4)
      else if c = CHR ''+'' then Some 62
      else if c = CHR 0x2F then Some 63
      else None)"

definition pad :: char where
  "pad = CHR 0x3D"

section \<open>Encoding and decoding\<close>

fun b64_encode :: "string \<Rightarrow> string" where
  "b64_encode [] = []"
| "b64_encode [x] =
     (let a = of_char x :: nat
      in [b64_symbol (a div 4), b64_symbol (a mod 4 * 16), pad, pad])"
| "b64_encode [x, y] =
     (let a = of_char x :: nat; b = of_char y :: nat
      in [b64_symbol (a div 4), b64_symbol (a mod 4 * 16 + b div 16), b64_symbol (b mod 16 * 4), pad])"
| "b64_encode (x # y # z # xs) =
     (let a = of_char x :: nat; b = of_char y :: nat; c = of_char z :: nat
      in b64_symbol (a div 4) # b64_symbol (a mod 4 * 16 + b div 16)
         # b64_symbol (b mod 16 * 4 + c div 64) # b64_symbol (c mod 64) # b64_encode xs)"

definition b64_first :: "nat \<Rightarrow> nat \<Rightarrow> char" where
  "b64_first p q = char_of (p * 4 + q div 16)"

definition b64_second :: "nat \<Rightarrow> nat \<Rightarrow> char" where
  "b64_second q r = char_of (q mod 16 * 16 + r div 4)"

definition b64_third :: "nat \<Rightarrow> nat \<Rightarrow> char" where
  "b64_third r s = char_of (r mod 4 * 64 + s)"

fun b64_decode_clean :: "string \<Rightarrow> string option" where
  "b64_decode_clean [] = Some []"
| "b64_decode_clean (u # v # w # x # xs) =
     (case (b64_value u, b64_value v) of
        (Some p, Some q) \<Rightarrow>
          (if w = pad then (if x = pad \<and> xs = [] then Some [b64_first p q] else None)
           else case b64_value w of
             None \<Rightarrow> None
           | Some r \<Rightarrow>
               (if x = pad then (if xs = [] then Some [b64_first p q, b64_second q r] else None)
                else case b64_value x of
                  None \<Rightarrow> None
                | Some s \<Rightarrow>
                    map_option (\<lambda>t. b64_first p q # b64_second q r # b64_third r s # t)
                      (b64_decode_clean xs)))
      | _ \<Rightarrow> None)"
| "b64_decode_clean xs = None"

definition is_line_break :: "char \<Rightarrow> bool" where
  "is_line_break c \<longleftrightarrow> c = CHR 0x0A \<or> c = CHR 0x0D"

definition b64_decode :: "string \<Rightarrow> string option" where
  "b64_decode s = b64_decode_clean (filter (\<lambda>c. \<not> is_line_break c) s)"

section \<open>Decoding inverts encoding\<close>

lemma b64_symbol_value: "i < 64 \<Longrightarrow> b64_value (b64_symbol i) = Some i"
proof -
  assume "i < 64"
  then have "i \<in> set [0..<64]" by simp
  moreover have "list_all (\<lambda>i. b64_value (b64_symbol i) = Some i) [0..<64]" by code_simp
  ultimately show ?thesis unfolding list_all_iff by blast
qed

lemma b64_symbol_plain: "i < 64 \<Longrightarrow> b64_symbol i \<noteq> pad \<and> \<not> is_line_break (b64_symbol i) \<and> b64_symbol i \<noteq> CHR ''=''"
proof -
  assume "i < 64"
  then have "i \<in> set [0..<64]" by simp
  moreover have "list_all (\<lambda>i. b64_symbol i \<noteq> pad \<and> \<not> is_line_break (b64_symbol i)
      \<and> b64_symbol i \<noteq> CHR ''='') [0..<64]" by code_simp
  ultimately show ?thesis unfolding list_all_iff by blast
qed

lemma byte_bound [simp]: "of_char (c :: char) < (256 :: nat)"
  using nat_of_char_less_256 by simp

lemma b64_parts:
  fixes a b c :: nat
  assumes "a < 256" "b < 256" "c < 256"
  shows "a div 4 < 64" "a mod 4 * 16 + b div 16 < 64" "b mod 16 * 4 + c div 64 < 64" "c mod 64 < 64"
    "a mod 4 * 16 < 64" "b mod 16 * 4 < 64"
    "a div 4 * 4 + (a mod 4 * 16 + b div 16) div 16 = a"
    "(a mod 4 * 16 + b div 16) mod 16 * 16 + (b mod 16 * 4 + c div 64) div 4 = b"
    "(b mod 16 * 4 + c div 64) mod 4 * 64 + c mod 64 = c"
    "a div 4 * 4 + (a mod 4 * 16) div 16 = a"
    "(a mod 4 * 16 + b div 16) mod 16 * 16 + (b mod 16 * 4) div 4 = b"
proof -
  have m: "a mod 4 < 4" "b mod 16 < 16" "c mod 64 < 64" by simp_all
  have d: "a div 4 < 64" "b div 16 < 16" "c div 64 < 4"
    using assms by (simp_all add: less_mult_imp_div_less)
  show "a div 4 < 64" "a mod 4 * 16 + b div 16 < 64" "b mod 16 * 4 + c div 64 < 64" "c mod 64 < 64"
    "a mod 4 * 16 < 64" "b mod 16 * 4 < 64"
    using m d by linarith+
  have q: "(a mod 4 * 16 + b div 16) div 16 = a mod 4" "(a mod 4 * 16 + b div 16) mod 16 = b div 16"
    "(b mod 16 * 4 + c div 64) div 4 = b mod 16" "(b mod 16 * 4 + c div 64) mod 4 = c div 64"
    using d by simp_all
  show "a div 4 * 4 + (a mod 4 * 16 + b div 16) div 16 = a"
    "(a mod 4 * 16 + b div 16) mod 16 * 16 + (b mod 16 * 4 + c div 64) div 4 = b"
    "(b mod 16 * 4 + c div 64) mod 4 * 64 + c mod 64 = c"
    unfolding q by simp_all
  show "a div 4 * 4 + (a mod 4 * 16) div 16 = a" by simp
  show "(a mod 4 * 16 + b div 16) mod 16 * 16 + (b mod 16 * 4) div 4 = b"
    unfolding q by simp
qed

lemma b64_decode_clean_encode: "b64_decode_clean (b64_encode xs) = Some xs"
proof (induction xs rule: b64_encode.induct)
  case 1
  then show ?case by simp
next
  case (2 x)
  note p = b64_parts [of "of_char x" 0 0, OF byte_bound]
  show ?case
    using p by (simp add: Let_def b64_symbol_value b64_symbol_plain b64_first_def)
next
  case (3 x y)
  note p = b64_parts [of "of_char x" "of_char y" 0, OF byte_bound byte_bound]
  show ?case
    using p by (simp add: Let_def b64_symbol_value b64_symbol_plain b64_first_def b64_second_def)
next
  case (4 x y z xs)
  note p = b64_parts [of "of_char x" "of_char y" "of_char z", OF byte_bound byte_bound byte_bound]
  show ?case
    using p 4 by (simp add: Let_def b64_symbol_value b64_symbol_plain b64_first_def b64_second_def
        b64_third_def)
qed

lemma b64_encode_plain: "c \<in> set (b64_encode xs) \<Longrightarrow> \<not> is_line_break c"
proof (induction xs rule: b64_encode.induct)
  case (4 x y z xs)
  note p = b64_parts [of "of_char x" "of_char y" "of_char z", OF byte_bound byte_bound byte_bound]
  show ?case using 4 p b64_symbol_plain by (auto simp: Let_def)
next
  case (3 x y)
  note p = b64_parts [of "of_char x" "of_char y" 0, OF byte_bound byte_bound]
  show ?case using 3 p b64_symbol_plain by (auto simp: Let_def is_line_break_def pad_def)
next
  case (2 x)
  note p = b64_parts [of "of_char x" 0 0, OF byte_bound]
  show ?case using 2 p b64_symbol_plain by (auto simp: Let_def is_line_break_def pad_def)
qed simp

lemma b64_round_trip: "b64_decode (b64_encode xs) = Some xs"
proof -
  have "filter (\<lambda>c. \<not> is_line_break c) (b64_encode xs) = b64_encode xs"
    using b64_encode_plain [of _ xs] by (auto simp: filter_id_conv)
  then show ?thesis by (simp add: b64_decode_def b64_decode_clean_encode)
qed

end
