(* ===== verification/Vault.thy ===== *)
theory Vault
  imports Base64 ProfileModel "HOL-Library.Multiset"
begin

text \<open>
  The secret backends of \<^verbatim>\<open>core/store/keychain.go\<close>: the contract the store
  relies on as a locale, the vault file that implements it, and the transport of the
  operating system's keychains, whose commands are external.
\<close>

section \<open>Drivers\<close>

text \<open>
  A driver works on a state that stands for the backend; reading leaves it alone. The four
  methods of \<^verbatim>\<open>KeychainDriver\<close>.
\<close>

record 's keychain_driver =
  kd_kind :: secret_ref_kind
  kd_store :: "string \<Rightarrow> string \<Rightarrow> 's \<Rightarrow> unit result \<times> 's"
  kd_retrieve :: "string \<Rightarrow> 's \<Rightarrow> string result"
  kd_delete :: "string \<Rightarrow> 's \<Rightarrow> unit result \<times> 's"

section \<open>The transport of the operating system's keychains\<close>

definition keychainTransportPrefix :: string where
  "keychainTransportPrefix = ''zsh-pro:v1:''"

definition encodeKeychainTransport :: "string \<Rightarrow> string" where
  "encodeKeychainTransport v = keychainTransportPrefix @ b64_encode v"

definition trimSuffix :: "char \<Rightarrow> string \<Rightarrow> string" where
  "trimSuffix c s = (if s \<noteq> [] \<and> last s = c then butlast s else s)"

definition decodeKeychainTransport :: "string \<Rightarrow> string result" where
  "decodeKeychainTransport output =
     (let transport = trimSuffix (CHR 0x0D) (trimSuffix (CHR 0x0A) output);
          n = length keychainTransportPrefix
      in if take n transport \<noteq> keychainTransportPrefix then Inl ErrKeychainTransport
         else case b64_decode (drop n transport) of
           None \<Rightarrow> Inl ErrKeychainTransport
         | Some v \<Rightarrow> Inr v)"

section \<open>Sorting keys\<close>

text \<open>The insertion sort of \<^verbatim>\<open>sortStrings\<close> in store.go, swapping neighbours.\<close>

fun sinkDown :: "string list \<Rightarrow> nat \<Rightarrow> string list" where
  "sinkDown s 0 = s"
| "sinkDown s (Suc j) =
     (if s ! j > s ! Suc j then sinkDown (s[j := s ! Suc j, Suc j := s ! j]) j else s)"

definition sortStrings :: "string list \<Rightarrow> string list" where
  "sortStrings s = fold (\<lambda>i s. sinkDown s i) [1..<length s] s"

section \<open>The vault file\<close>

text \<open>
  What reading the path gives, and what the next writes do: \<^verbatim>\<open>os.WriteFile\<close>
  truncates before it writes, so a failed write may leave anything.
\<close>

datatype vault_file = VaultMissing | VaultUnreadable | VaultContent string

datatype write_outcome = Written | WriteFailed vault_file

record vault_state =
  vf_file :: vault_file
  vf_writes :: "write_outcome list"

fun splitLines :: "string \<Rightarrow> string list" where
  "splitLines [] = [[]]"
| "splitLines (c # cs) =
     (if c = CHR 0x0A then [] # splitLines cs
      else case splitLines cs of [] \<Rightarrow> [[c]] | l # ls \<Rightarrow> (c # l) # ls)"

definition vaultLine :: "string \<Rightarrow> (string \<times> string) option" where
  "vaultLine line =
     (if line = [] then None
      else let k = takeWhile (\<lambda>c. c \<noteq> CHR ''='') line; rest = dropWhile (\<lambda>c. c \<noteq> CHR ''='') line
        in case rest of
             [] \<Rightarrow> None
           | _ # enc \<Rightarrow> map_option (Pair k) (b64_decode enc))"

definition decodeVault :: "string \<Rightarrow> (string \<times> string) list" where
  "decodeVault b =
     fold (\<lambda>line m. case vaultLine line of None \<Rightarrow> m | Some (k, v) \<Rightarrow> assoc_put k v m) (splitLines b) []"

definition vaultLoad :: "vault_state \<Rightarrow> (string \<times> string) list result" where
  "vaultLoad v =
     (case vf_file v of
        VaultMissing \<Rightarrow> Inr []
      | VaultUnreadable \<Rightarrow> Inl ErrSecretBackendUnavailable
      | VaultContent b \<Rightarrow> Inr (decodeVault b))"

definition encodeVault :: "(string \<times> string) list \<Rightarrow> string" where
  "encodeVault entries =
     concat (map (\<lambda>k. k @ ''='' @ b64_encode (the (map_of entries k)) @ [CHR 0x0A])
       (sortStrings (map fst entries)))"

definition vaultSave :: "(string \<times> string) list \<Rightarrow> vault_state \<Rightarrow> unit result \<times> vault_state" where
  "vaultSave entries v =
     (case vf_writes v of
        WriteFailed left # ws \<Rightarrow>
          (Inl ErrSecretBackendUnavailable, v\<lparr>vf_file := left, vf_writes := ws\<rparr>)
      | ws \<Rightarrow> (OK, v\<lparr>vf_file := VaultContent (encodeVault entries), vf_writes := tl ws\<rparr>))"

definition vaultStore :: "string \<Rightarrow> string \<Rightarrow> vault_state \<Rightarrow> unit result \<times> vault_state" where
  "vaultStore key value v =
     (case vaultLoad v of
        Inl e \<Rightarrow> (Inl e, v)
      | Inr entries \<Rightarrow> vaultSave (assoc_put key value entries) v)"

definition vaultRetrieve :: "string \<Rightarrow> vault_state \<Rightarrow> string result" where
  "vaultRetrieve key v =
     (case vaultLoad v of
        Inl e \<Rightarrow> Inl e
      | Inr entries \<Rightarrow> (case map_of entries key of None \<Rightarrow> Inl ErrSecretNotFound | Some x \<Rightarrow> Inr x))"

definition vaultDelete :: "string \<Rightarrow> vault_state \<Rightarrow> unit result \<times> vault_state" where
  "vaultDelete key v =
     (case vaultLoad v of
        Inl e \<Rightarrow> (Inl e, v)
      | Inr entries \<Rightarrow> vaultSave (filter (\<lambda>e. fst e \<noteq> key) entries) v)"

definition vaultDriver :: "vault_state keychain_driver" where
  "vaultDriver =
     \<lparr>kd_kind = SecretRefFile, kd_store = vaultStore, kd_retrieve = vaultRetrieve,
      kd_delete = vaultDelete\<rparr>"

text \<open>The read-only driver of a running shell's emission.\<close>

definition runtimeVaultRetrieve :: "string \<Rightarrow> vault_file \<Rightarrow> string result" where
  "runtimeVaultRetrieve key f =
     (case f of
        VaultMissing \<Rightarrow> Inl ErrSecretNotFound
      | VaultUnreadable \<Rightarrow> Inl ErrSecretBackendUnavailable
      | VaultContent b \<Rightarrow>
          (case map_of (decodeVault b) key of None \<Rightarrow> Inl ErrSecretNotFound | Some v \<Rightarrow> Inr v))"

definition runtimeVaultDriver :: "vault_file keychain_driver" where
  "runtimeVaultDriver =
     \<lparr>kd_kind = SecretRefFile, kd_store = (\<lambda>k v f. (Inl ErrSecretBackendUnavailable, f)),
      kd_retrieve = runtimeVaultRetrieve, kd_delete = (\<lambda>k f. (Inl ErrSecretBackendUnavailable, f))\<rparr>"

end
