(* ===== verification/VaultFacts.thy ===== *)
theory VaultFacts
  imports Vault
begin

text \<open>
  The contract of a secret backend and its implementation by the vault file: what is stored
  is found again, byte for byte, and the file's text is a canonical form of its map. The
  transport of the operating system's keychains survives the framing of command output.
\<close>

section \<open>The transport\<close>

lemma trimSuffix_snoc [simp]: "trimSuffix c (s @ [c]) = s"
  by (simp add: trimSuffix_def)

lemma trimSuffix_other: "c \<notin> set s \<Longrightarrow> trimSuffix c s = s"
  by (auto simp: trimSuffix_def)

lemma transport_plain: "x \<in> set (encodeKeychainTransport v) \<Longrightarrow> \<not> is_line_break x"
  using b64_encode_plain [of x v]
  by (auto simp: encodeKeychainTransport_def keychainTransportPrefix_def is_line_break_def)

lemma transport_framed:
  assumes "ending \<in> {[], [CHR 0x0A], [CHR 0x0D, CHR 0x0A]}"
  shows "trimSuffix (CHR 0x0D) (trimSuffix (CHR 0x0A) (encodeKeychainTransport v @ ending))
    = encodeKeychainTransport v"
proof -
  have "trimSuffix (CHR 0x0A) (encodeKeychainTransport v) = encodeKeychainTransport v"
    "trimSuffix (CHR 0x0D) (encodeKeychainTransport v) = encodeKeychainTransport v"
    using transport_plain by (auto intro!: trimSuffix_other simp: is_line_break_def)
  moreover have "trimSuffix (CHR 0x0A) (encodeKeychainTransport v @ [CHR 0x0D, CHR 0x0A])
      = encodeKeychainTransport v @ [CHR 0x0D]"
    using trimSuffix_snoc [of "CHR 0x0A" "encodeKeychainTransport v @ [CHR 0x0D]"] by simp
  ultimately show ?thesis using assms by auto
qed

lemma transport_round_trip:
  assumes "ending \<in> {[], [CHR 0x0A], [CHR 0x0D, CHR 0x0A]}"
  shows "decodeKeychainTransport (encodeKeychainTransport v @ ending) = Inr v"
  using transport_framed [OF assms, of v]
  by (simp add: decodeKeychainTransport_def Let_def)
     (simp add: encodeKeychainTransport_def b64_round_trip)

section \<open>Sorting\<close>

lemma sinkDown_insert:
  "sorted us \<Longrightarrow> \<exists>zs. sinkDown (us @ x # ys) (length us) = zs @ ys \<and> sorted zs \<and> mset zs = mset (x # us)"
proof (induction us arbitrary: ys rule: rev_induct)
  case Nil
  then show ?case by (intro exI [of _ "[x]"]) simp
next
  case (snoc u us)
  show ?case
  proof (cases "u > x")
    case True
    have swap: "((us @ [u]) @ x # ys)[length us := x, Suc (length us) := u] = us @ x # u # ys"
      by (simp add: list_update_append)
    obtain zs where zs: "sinkDown (us @ x # u # ys) (length us) = zs @ u # ys" "sorted zs"
      "mset zs = mset (x # us)"
      using snoc.IH [of "u # ys"] snoc.prems by (auto simp: sorted_append)
    have "set zs = insert x (set us)"
      using zs(3) mset_eq_setD [of zs "x # us"] by simp
    then have "sorted (zs @ [u])"
      using zs(2) snoc.prems True by (auto simp: sorted_append)
    moreover have "sinkDown ((us @ [u]) @ x # ys) (length (us @ [u])) = (zs @ [u]) @ ys"
      using True zs(1) swap by (simp add: nth_append)
    moreover have "mset (zs @ [u]) = mset (x # us @ [u])"
      using zs(3) by simp
    ultimately show ?thesis by blast
  next
    case False
    then have "sorted ((us @ [u]) @ [x])"
      using snoc.prems by (auto simp: sorted_append)
    moreover have "sinkDown ((us @ [u]) @ x # ys) (length (us @ [u])) = ((us @ [u]) @ [x]) @ ys"
      using False by (simp add: nth_append)
    moreover have "mset ((us @ [u]) @ [x]) = mset (x # us @ [u])"
      by simp
    ultimately show ?thesis by blast
  qed
qed

lemma sortStrings_prefix:
  "n \<le> length s \<Longrightarrow> 0 < n \<Longrightarrow>
     \<exists>zs. fold (\<lambda>i s. sinkDown s i) [1..<n] s = zs @ drop n s \<and> sorted zs \<and> mset zs = mset (take n s)
       \<and> length zs = n"
proof (induction n)
  case 0
  then show ?case by simp
next
  case (Suc n)
  show ?case
  proof (cases "n = 0")
    case True
    with Suc.prems show ?thesis
      by (cases s) (auto intro!: exI [of _ "[hd s]"])
  next
    case False
    with Suc obtain zs where zs: "fold (\<lambda>i s. sinkDown s i) [1..<n] s = zs @ drop n s" "sorted zs"
      "mset zs = mset (take n s)" "length zs = n"
      by auto
    have d: "drop n s = s ! n # drop (Suc n) s"
      using Suc.prems by (simp add: Cons_nth_drop_Suc)
    obtain ws where ws: "sinkDown (zs @ s ! n # drop (Suc n) s) n = ws @ drop (Suc n) s" "sorted ws"
      "mset ws = mset (s ! n # zs)"
      using sinkDown_insert [OF zs(2)] zs(4) by metis
    have "[1..<Suc n] = [1..<n] @ [n]" using False by simp
    then have "fold (\<lambda>i s. sinkDown s i) [1..<Suc n] s = ws @ drop (Suc n) s"
      using zs(1) ws(1) d by simp
    moreover have "mset ws = mset (take (Suc n) s)"
      using ws(3) zs(3) Suc.prems by (simp add: take_Suc_conv_app_nth)
    moreover have "length ws = Suc n"
      using ws(3) zs(4) by (metis length_Cons size_mset)
    ultimately show ?thesis using ws(2) by blast
  qed
qed

lemma sortStrings_sort: "sortStrings s = sort s"
proof (cases "s = []")
  case True
  then show ?thesis by (simp add: sortStrings_def)
next
  case False
  then obtain zs where "sortStrings s = zs" "sorted zs" "mset zs = mset s"
    using sortStrings_prefix [of "length s" s] by (auto simp: sortStrings_def)
  then show ?thesis using properties_for_sort by metis
qed

section \<open>The vault's text\<close>

text \<open>A name the line format can hold.\<close>

definition vault_key :: "string \<Rightarrow> bool" where
  "vault_key k \<longleftrightarrow> CHR ''='' \<notin> set k \<and> CHR 0x0A \<notin> set k"

lemma splitLines_line: "CHR 0x0A \<notin> set l \<Longrightarrow> splitLines (l @ CHR 0x0A # cs) = l # splitLines cs"
  by (induction l) auto

lemma vaultLine_encoded:
  assumes "vault_key k"
  shows "vaultLine (k @ ''='' @ b64_encode v) = Some (k, v)"
proof -
  have "CHR ''='' \<notin> set k" using assms by (simp add: vault_key_def)
  then have t: "takeWhile (\<lambda>c. c \<noteq> CHR ''='') (k @ CHR ''='' # b64_encode v) = k"
    "dropWhile (\<lambda>c. c \<noteq> CHR ''='') (k @ CHR ''='' # b64_encode v) = CHR ''='' # b64_encode v"
    by (induction k) auto
  then show ?thesis
    by (simp add: vaultLine_def Let_def b64_round_trip)
qed

lemma splitLines_encoded:
  assumes "\<forall>k \<in> set ks. vault_key k"
  shows "splitLines (concat (map (\<lambda>k. k @ ''='' @ b64_encode (f k) @ [CHR 0x0A]) ks))
    = map (\<lambda>k. k @ ''='' @ b64_encode (f k)) ks @ [[]]"
  using assms
proof (induction ks)
  case Nil
  then show ?case by simp
next
  case (Cons k ks)
  have "CHR 0x0A \<notin> set (k @ ''='' @ b64_encode (f k))"
    using Cons.prems b64_encode_plain [of "CHR 0x0A" "f k"] by (auto simp: vault_key_def is_line_break_def)
  from splitLines_line [OF this] Cons show ?case by simp
qed

lemma fold_put_map:
  "map_of (fold (\<lambda>k m. assoc_put k (f k) m) ks m) x = (if x \<in> set ks then Some (f x) else map_of m x)"
  by (induction ks arbitrary: m) auto

lemma fold_decode_lines:
  assumes "\<forall>k \<in> set ks. vault_key k"
  shows "fold (\<lambda>line m. case vaultLine line of None \<Rightarrow> m | Some (k, v) \<Rightarrow> assoc_put k v m)
      (map (\<lambda>k. k @ ''='' @ b64_encode (f k)) ks @ [[]]) m = fold (\<lambda>k m. assoc_put k (f k) m) ks m"
  using assms
proof (induction ks arbitrary: m)
  case Nil
  then show ?case by (simp add: vaultLine_def)
next
  case (Cons k ks)
  then show ?case using vaultLine_encoded [of k "f k"] by simp
qed

lemma decode_encodeVault:
  assumes "\<forall>k \<in> fst ` set entries. vault_key k"
  shows "map_of (decodeVault (encodeVault entries)) = map_of entries"
proof
  fix k
  have keys: "\<forall>k \<in> set (sortStrings (map fst entries)). vault_key k"
    using assms by (simp add: sortStrings_sort)
  have "map_of (decodeVault (encodeVault entries)) k =
      (if k \<in> set (sortStrings (map fst entries)) then Some (the (map_of entries k)) else None)"
    unfolding decodeVault_def encodeVault_def splitLines_encoded [OF keys] fold_decode_lines [OF keys]
      fold_put_map by simp
  also have "\<dots> = map_of entries k"
  proof (cases "map_of entries k")
    case None
    then have "k \<notin> fst ` set entries" by (simp add: map_of_eq_None_iff)
    with None show ?thesis by (simp add: sortStrings_sort)
  next
    case (Some v)
    then have "k \<in> fst ` set entries" by (force dest: map_of_SomeD)
    with Some show ?thesis by (simp add: sortStrings_sort)
  qed
  finally show "map_of (decodeVault (encodeVault entries)) k = map_of entries k" .
qed

section \<open>The contract of a backend\<close>

text \<open>
  What the store relies on: \<open>holds\<close> is the map a backend's state stands for. Nothing is
  promised about the other names when an operation fails.
\<close>

locale secret_backend =
  fixes kd :: "'s keychain_driver"
    and holds :: "'s \<Rightarrow> string \<Rightarrow> string option"
    and good :: "string \<Rightarrow> bool"
  assumes retrieve_found: "kd_retrieve kd k s = Inr v \<Longrightarrow> holds s k = Some v"
    and retrieve_missing: "kd_retrieve kd k s = Inl ErrSecretNotFound \<Longrightarrow> holds s k = None"
    and store_holds: "kd_store kd k v s = (OK, s') \<Longrightarrow> good k \<Longrightarrow> holds s' = (holds s)(k \<mapsto> v)"
    and delete_holds: "kd_delete kd k s = (OK, s') \<Longrightarrow> holds s' = (holds s)(k := None)"
    and delete_missing:
      "kd_delete kd k s = (Inl ErrSecretNotFound, s') \<Longrightarrow> holds s' = (holds s)(k := None)"

section \<open>The vault keeps it\<close>

definition vaultHolds :: "vault_state \<Rightarrow> string \<Rightarrow> string option" where
  "vaultHolds v k =
     (case vf_file v of VaultContent b \<Rightarrow> map_of (decodeVault b) k | _ \<Rightarrow> None)"

lemma splitLines_no_break: "l \<in> set (splitLines s) \<Longrightarrow> CHR 0x0A \<notin> set l"
  by (induction s arbitrary: l) (auto split: list.splits if_splits)

lemma vaultLine_key: "vaultLine l = Some (k, v) \<Longrightarrow> CHR 0x0A \<notin> set l \<Longrightarrow> vault_key k"
  by (auto simp: vaultLine_def Let_def vault_key_def dest: set_takeWhileD split: if_splits list.splits)

lemma decodeVault_keys: "\<forall>k \<in> fst ` set (decodeVault b). vault_key k"
proof -
  have "list_all (\<lambda>l. CHR 0x0A \<notin> set l) ls \<Longrightarrow> \<forall>k \<in> fst ` set m. vault_key k \<Longrightarrow>
      \<forall>k \<in> fst ` set (fold (\<lambda>line m. case vaultLine line of None \<Rightarrow> m | Some (k, v) \<Rightarrow> assoc_put k v m) ls m). vault_key k"
    for ls m
  proof (induction ls arbitrary: m)
    case (Cons l ls)
    show ?case
    proof (cases "vaultLine l")
      case None
      then show ?thesis using Cons.IH [of m] Cons.prems by simp
    next
      case (Some kv)
      obtain k v where kv: "kv = (k, v)" by (cases kv)
      have "\<forall>k' \<in> fst ` set (assoc_put k v m). vault_key k'"
        using Cons.prems vaultLine_key [of l k v] Some kv by (simp add: keys_assoc_put)
      then show ?thesis using Cons.IH [of "assoc_put k v m"] Cons.prems(1) by (simp add: Some kv)
    qed
  qed simp
  from this [of "splitLines b" "[]"] show ?thesis
    unfolding decodeVault_def using splitLines_no_break [of _ b] by (simp add: list_all_iff)
qed

lemma vaultLoad_keys: "vaultLoad v = Inr entries \<Longrightarrow> k \<in> fst ` set entries \<Longrightarrow> vault_key k"
  using decodeVault_keys by (auto simp: vaultLoad_def split: vault_file.splits)

lemma vaultLoad_holds: "vaultLoad v = Inr entries \<Longrightarrow> map_of entries = vaultHolds v"
  by (auto simp: vaultLoad_def vaultHolds_def fun_eq_iff split: vault_file.splits)

lemma vaultRetrieve_holds:
  assumes "vaultLoad v = Inr entries"
  shows "vaultRetrieve k v = (case vaultHolds v k of None \<Rightarrow> Inl ErrSecretNotFound | Some x \<Rightarrow> Inr x)"
  using vaultLoad_holds [OF assms] by (simp add: vaultRetrieve_def assms)

lemma vaultSave_OK:
  "vaultSave entries v = (OK, v') \<Longrightarrow> \<forall>k \<in> fst ` set entries. vault_key k \<Longrightarrow>
     vaultHolds v' = map_of entries"
  using decode_encodeVault [of entries]
  by (auto simp: vaultSave_def vaultHolds_def fun_eq_iff split: list.splits write_outcome.splits)

lemma vaultSave_error: "vaultSave entries v \<noteq> (Inl ErrSecretNotFound, v')"
  by (auto simp: vaultSave_def split: list.splits write_outcome.splits)

interpretation vault: secret_backend vaultDriver vaultHolds vault_key
proof unfold_locales
  fix k s v
  assume "kd_retrieve vaultDriver k s = Inr v"
  then show "vaultHolds s k = Some v"
    using vaultLoad_holds [of s]
    by (auto simp: vaultDriver_def vaultRetrieve_def split: sum.splits option.splits)
next
  fix k s
  assume "kd_retrieve vaultDriver k s = Inl ErrSecretNotFound"
  then show "vaultHolds s k = None"
    using vaultLoad_holds [of s]
    by (auto simp: vaultDriver_def vaultRetrieve_def vaultLoad_def split: sum.splits option.splits
        vault_file.splits)
next
  fix k v s s'
  assume store: "kd_store vaultDriver k v s = (OK, s')" and k: "vault_key k"
  then obtain entries where e: "vaultLoad s = Inr entries" "vaultSave (assoc_put k v entries) s = (OK, s')"
    by (auto simp: vaultDriver_def vaultStore_def split: sum.splits)
  have "\<forall>k' \<in> fst ` set (assoc_put k v entries). vault_key k'"
    using vaultLoad_keys [OF e(1)] k by (simp only: keys_assoc_put) auto
  from vaultSave_OK [OF e(2) this] show "vaultHolds s' = (vaultHolds s)(k \<mapsto> v)"
    by (simp add: vaultLoad_holds [OF e(1)])
next
  fix k s s'
  assume "kd_delete vaultDriver k s = (OK, s')"
  then obtain entries where e: "vaultLoad s = Inr entries"
    "vaultSave (filter (\<lambda>e. fst e \<noteq> k) entries) s = (OK, s')"
    by (auto simp: vaultDriver_def vaultDelete_def split: sum.splits)
  have "\<forall>k' \<in> fst ` set (filter (\<lambda>e. fst e \<noteq> k) entries). vault_key k'"
    using vaultLoad_keys [OF e(1)] by auto
  from vaultSave_OK [OF e(2) this]
  have "vaultHolds s' = map_of (filter (\<lambda>e. fst e \<noteq> k) entries)" .
  also have "\<dots> = (map_of entries)(k := None)"
    by (induction entries) (auto simp: fun_eq_iff)
  finally show "vaultHolds s' = (vaultHolds s)(k := None)"
    by (simp add: vaultLoad_holds [OF e(1)])
next
  fix k s s'
  assume "kd_delete vaultDriver k s = (Inl ErrSecretNotFound, s')"
  then show "vaultHolds s' = (vaultHolds s)(k := None)"
    using vaultSave_error
    by (auto simp: vaultDriver_def vaultDelete_def vaultLoad_def split: sum.splits vault_file.splits)
qed

text \<open>A shell's emission reads the same file and cannot write it.\<close>

lemma runtimeVault_agrees:
  "runtimeVaultRetrieve k (vf_file v) = vaultRetrieve k v"
  by (auto simp: runtimeVaultRetrieve_def vaultRetrieve_def vaultLoad_def split: vault_file.split)

end
