(* ===== verification/SecretStore.thy ===== *)
theory SecretStore
  imports VaultFacts
begin

text \<open>
  The exclusion of secrets from a committed profile (\<^verbatim>\<open>core/store/secret.go\<close>) and
  the writes to the backend that go with a commit (\<^verbatim>\<open>snapshotSecretPriors\<close>,
  \<^verbatim>\<open>restoreSecretPriors\<close> and \<^verbatim>\<open>applyPreparedSecrets\<close> of
  \<^verbatim>\<open>core/store/store.go\<close>).
\<close>

section \<open>Data\<close>

record withheld_secret =
  wh_name :: string
  wh_start_line :: int

text \<open>
  The pending writes are a slice with an index by key: a later value of a key overwrites the
  earlier one in its place.
\<close>

record prepared_secrets =
  pp_profile :: profile
  pp_report :: "withheld_secret list"
  pp_pending :: "(string \<times> string) list"

record secret_prior =
  sp_key :: string
  sp_value :: string
  sp_exists :: bool

section \<open>References\<close>

definition quote_char :: char where
  "quote_char = CHR 0x27"

definition secretRefValue :: "secret_ref \<Rightarrow> string" where
  "secretRefValue ref =
     quote_char # ''<zsh-pro secret '' @ secret_kind_string (sr_kind ref) @ '':'' @ sr_key ref @ ''>''
       @ [quote_char]"

definition isExcludableSecretShape :: "entry \<Rightarrow> bool" where
  "isExcludableSecretShape e \<longleftrightarrow>
     en_category e = CatSecrets \<and> en_kind e = KindAssignment \<and> length (en_names e) = 1"

text \<open>The text a redacted entry carries.\<close>

definition redactedText :: "bool \<Rightarrow> secret_ref \<Rightarrow> string" where
  "redactedText exported ref =
     (if exported then ''export '' else []) @ sr_key ref @ ''='' @ secretRefValue ref"

text \<open>The driver enters only by its kind; no driver is \<^term>\<open>None\<close>.\<close>

definition validatePersistedSecretRef :: "entry \<Rightarrow> secret_ref_kind option \<Rightarrow> unit result" where
  "validatePersistedSecretRef e keychain =
     (case en_secret e of
        None \<Rightarrow> Inl ErrUnsafeSecretShape
      | Some ref \<Rightarrow>
          (if en_category e \<noteq> CatSecrets \<or> en_kind e \<noteq> KindAssignment \<or> length (en_names e) \<noteq> 1
              \<or> hd (en_names e) = [] \<or> sr_key ref = [] \<or> sr_key ref \<noteq> hd (en_names e)
              \<or> (sr_kind ref \<noteq> SecretRefKeychain \<and> sr_kind ref \<noteq> SecretRefFile)
              \<or> en_append e \<or> en_array e \<or> en_indexed e \<or> en_dynamic e
              \<or> en_runtime_value e \<noteq> None \<or> en_value_mode e \<noteq> ValueModeUnsupported
           then Inl ErrUnsafeSecretShape
           else if en_text e \<noteq> redactedText (en_exported e) ref \<or> en_value e \<noteq> secretRefValue ref
           then Inl ErrUnsafeSecretShape
           else case keychain of
             None \<Rightarrow> Inl ErrSecretBackendUnavailable
           | Some kind \<Rightarrow> (if kind \<noteq> sr_kind ref then Inl ErrSecretBackendUnavailable else OK)))"

section \<open>Preparing a profile\<close>

definition redactEntry :: "secret_ref_kind \<Rightarrow> entry \<Rightarrow> entry" where
  "redactEntry kind e =
     (let ref = \<lparr>sr_kind = kind, sr_key = hd (en_names e)\<rparr>
      in e\<lparr>en_secret := Some ref, en_text := redactedText (en_exported e) ref,
           en_value := secretRefValue ref, en_runtime_value := None,
           en_value_mode := ValueModeUnsupported\<rparr>)"

definition captureEntry :: "secret_ref_kind option \<Rightarrow> entry \<Rightarrow> string \<Rightarrow> (entry \<times> string option) result" where
  "captureEntry kc e value =
     (case kc of
        None \<Rightarrow> Inl ErrSecretBackendUnavailable
      | Some kind \<Rightarrow> Inr (redactEntry kind e, Some value))"

text \<open>The body of the loop: the entry to commit, and the value to store if one was withheld.\<close>

definition prepareEntry :: "secret_ref_kind option \<Rightarrow> entry \<Rightarrow> (entry \<times> string option) result" where
  "prepareEntry kc e =
     (if en_secret e \<noteq> None then bindR (validatePersistedSecretRef e kc) (\<lambda>_. Inr (e, None))
      else if en_category e \<noteq> CatSecrets then Inr (e, None)
      else if \<not> isExcludableSecretShape e then Inl ErrUnsafeSecretShape
      else case en_value_mode e of
        ValueModeDynamic \<Rightarrow> (if \<not> en_dynamic e then Inl ErrUnsafeSecretShape else Inr (e, None))
      | ValueModeLiteral \<Rightarrow>
          (case en_runtime_value e of
             None \<Rightarrow> Inl ErrUnsafeSecretShape
           | Some v \<Rightarrow> captureEntry kc e v)
      | ValueModeLegacy \<Rightarrow>
          (if en_dynamic e \<or> en_value e = [] then Inl ErrUnsafeSecretShape
           else captureEntry kc e (en_value e))
      | _ \<Rightarrow> Inl ErrUnsafeSecretShape)"

fun prepareLoop ::
  "secret_ref_kind option \<Rightarrow> entry list \<Rightarrow> prepared_secrets \<Rightarrow> prepared_secrets result" where
  "prepareLoop kc [] r = Inr r"
| "prepareLoop kc (e # es) r =
     bindR (prepareEntry kc e) (\<lambda>(e', captured).
       prepareLoop kc es
         (case captured of
            None \<Rightarrow> r\<lparr>pp_profile := pp_profile r @ [e']\<rparr>
          | Some v \<Rightarrow>
              \<lparr>pp_profile = pp_profile r @ [e'],
               pp_report = pp_report r @ [\<lparr>wh_name = hd (en_names e), wh_start_line = en_start_line e\<rparr>],
               pp_pending = assoc_put (hd (en_names e)) v (pp_pending r)\<rparr>))"

definition prepared_empty :: prepared_secrets where
  "prepared_empty = \<lparr>pp_profile = [], pp_report = [], pp_pending = []\<rparr>"

definition prepareSecrets :: "profile \<Rightarrow> secret_ref_kind option \<Rightarrow> prepared_secrets result" where
  "prepareSecrets p kc = prepareLoop kc p prepared_empty"

section \<open>Writing to the backend\<close>

fun snapshotSecretPriors ::
  "(string \<times> string) list \<Rightarrow> 's keychain_driver \<Rightarrow> 's \<Rightarrow> secret_prior list result" where
  "snapshotSecretPriors [] kd s = Inr []"
| "snapshotSecretPriors ((k, v) # ms) kd s =
     (case kd_retrieve kd k s of
        Inr old \<Rightarrow>
          bindR (snapshotSecretPriors ms kd s) (\<lambda>ps.
            Inr (\<lparr>sp_key = k, sp_value = old, sp_exists = True\<rparr> # ps))
      | Inl e \<Rightarrow>
          (if e \<noteq> ErrSecretNotFound then Inl e
           else bindR (snapshotSecretPriors ms kd s) (\<lambda>ps.
             Inr (\<lparr>sp_key = k, sp_value = [], sp_exists = False\<rparr> # ps))))"

text \<open>One step back; a name that is already gone counts as deleted.\<close>

definition restorePrior :: "'s keychain_driver \<Rightarrow> secret_prior \<Rightarrow> bool \<times> 's \<Rightarrow> bool \<times> 's" where
  "restorePrior kd p fs =
     (let (failed, s) = fs;
          (r, s') = (if sp_exists p then kd_store kd (sp_key p) (sp_value p) s
                     else case kd_delete kd (sp_key p) s of
                       (Inl ErrSecretNotFound, s') \<Rightarrow> (OK, s')
                     | other \<Rightarrow> other)
      in (failed \<or> r \<noteq> OK, s'))"

definition restoreSecretPriors :: "'s keychain_driver \<Rightarrow> secret_prior list \<Rightarrow> 's \<Rightarrow> unit result \<times> 's" where
  "restoreSecretPriors kd priors s =
     (let (failed, s') = fold (restorePrior kd) (rev priors) (False, s)
      in (if failed then Inl ErrSecretRollback else OK, s'))"

fun storePending ::
  "'s keychain_driver \<Rightarrow> secret_prior list \<Rightarrow> (string \<times> string) list \<Rightarrow> 's
     \<Rightarrow> (secret_prior list \<times> go_error option) \<times> 's" where
  "storePending kd priors [] s = ((priors, None), s)"
| "storePending kd priors ((k, v) # ms) s =
     (case kd_store kd k v s of
        (Inr _, s') \<Rightarrow> storePending kd priors ms s'
      | (Inl e, s') \<Rightarrow>
          (case restoreSecretPriors kd priors s' of
             (Inl e', s'') \<Rightarrow> ((priors, Some e'), s'')
           | (Inr _, s'') \<Rightarrow> ((priors, Some e), s'')))"

definition applyPreparedSecrets ::
  "(string \<times> string) list \<Rightarrow> 's keychain_driver \<Rightarrow> 's \<Rightarrow> (secret_prior list \<times> go_error option) \<times> 's" where
  "applyPreparedSecrets pending kd s =
     (if pending = [] then (([], None), s)
      else case snapshotSecretPriors pending kd s of
        Inl e \<Rightarrow> (([], Some e), s)
      | Inr priors \<Rightarrow> storePending kd priors pending s)"

text \<open>The helper for direct callers stores without a way back.\<close>

fun storeAll :: "'s keychain_driver \<Rightarrow> (string \<times> string) list \<Rightarrow> 's \<Rightarrow> unit result \<times> 's" where
  "storeAll kd [] s = (OK, s)"
| "storeAll kd ((k, v) # ms) s =
     (case kd_store kd k v s of (Inl e, s') \<Rightarrow> (Inl e, s') | (Inr _, s') \<Rightarrow> storeAll kd ms s')"

definition excludeSecrets ::
  "profile \<Rightarrow> 's keychain_driver \<Rightarrow> 's \<Rightarrow> (profile \<times> withheld_secret list) result \<times> 's" where
  "excludeSecrets p kd s =
     (case prepareSecrets p (Some (kd_kind kd)) of
        Inl e \<Rightarrow> (Inl e, s)
      | Inr r \<Rightarrow>
          (case storeAll kd (pp_pending r) s of
             (Inl e, s') \<Rightarrow> (Inl e, s')
           | (Inr _, s') \<Rightarrow> (Inr (pp_profile r, pp_report r), s')))"

end
