(* ===== verification/CommittedDoc.thy ===== *)
theory CommittedDoc
  imports SecretStore StateModel
begin

text \<open>
  The committed document of \<^verbatim>\<open>core/store/dto.go\<close>: the transfer objects of a
  profile and of a committed worktree, their conversions, and the validation every document
  passes before it is written and after it is read. The JSON text is a parameter.
\<close>

section \<open>Transfer objects\<close>

definition structuralFidelityVersion :: int where
  "structuralFidelityVersion = 3"

record fidelity_dto =
  fd_version :: int
  fd_append :: "bool option"
  fd_array :: "bool option"
  fd_flagged :: "bool option"
  fd_indexed :: "bool option"
  fd_alias_assignment :: "bool option"
  fd_declaration_flags :: "string list option"
  fd_option_flags :: "string list option"

record list_segment_dto =
  gd_value :: string
  gd_source :: string
  gd_dynamic :: bool
  gd_self :: bool

record entry_dto =
  ed_text :: string
  ed_start_line :: int
  ed_category :: category
  ed_kind :: block_kind
  ed_cmd_name :: string
  ed_names :: "string list"
  ed_value :: string
  ed_exported :: bool
  ed_managed :: bool
  ed_override :: managed_override
  ed_dynamic :: bool
  ed_fidelity :: "fidelity_dto option"
  ed_secret :: "secret_ref option"
  ed_value_mode :: value_mode
  ed_runtime_value :: "string option"
  ed_function_body :: "string option"
  ed_list_value :: "list_segment_dto list option"

record live_value_dto =
  vd_present :: "bool option"
  vd_scalar :: "string option"
  vd_list :: "string list option option"
  vd_option :: "bool option"

record live_state_dto =
  id_identity :: identity
  id_value :: live_value_dto

text \<open>The wrappers keep an absent mandatory field apart from an empty one.\<close>

record projection_dto =
  jd_schema :: string
  jd_states :: "live_state_dto list option"
  jd_tombstones :: "identity list option"

record worktree_dto =
  wd_schema :: string
  wd_projection :: "projection_dto option"

record profile_dto =
  pd_entries :: "entry_dto list"
  pd_worktree :: "worktree_dto option"

section \<open>Entries\<close>

definition toListValueDTO :: "list_value option \<Rightarrow> list_segment_dto list option" where
  "toListValueDTO v =
     (case v of
        None \<Rightarrow> None
      | Some l \<Rightarrow>
          (if \<not> listValueValid l then None
           else Some (map (\<lambda>s. \<lparr>gd_value = sg_value s, gd_source = sg_source s,
             gd_dynamic = sg_dynamic s, gd_self = sg_self s\<rparr>) (lv_segments l))))"

definition fromListValueDTO :: "list_segment_dto list option \<Rightarrow> list_value option" where
  "fromListValueDTO d =
     (case d of
        None \<Rightarrow> None
      | Some ss \<Rightarrow>
          (let l = \<lparr>lv_segments = map (\<lambda>s. \<lparr>sg_value = gd_value s, sg_source = gd_source s,
             sg_dynamic = gd_dynamic s, sg_self = gd_self s\<rparr>) ss\<rparr>
           in if \<not> listValueValid l then None else Some l))"

definition toStructuralFidelityDTO :: "entry \<Rightarrow> fidelity_dto option" where
  "toStructuralFidelityDTO e =
     (if \<not> en_fidelity_known e then None
      else Some \<lparr>fd_version = structuralFidelityVersion, fd_append = Some (en_append e),
        fd_array = Some (en_array e), fd_flagged = Some (en_flagged e),
        fd_indexed = Some (en_indexed e), fd_alias_assignment = Some (en_alias_assignment e),
        fd_declaration_flags = Some (en_declaration_flags e),
        fd_option_flags = Some (en_option_flags e)\<rparr>)"

definition structuralFidelityKnown :: "fidelity_dto option \<Rightarrow> bool" where
  "structuralFidelityKnown d =
     (case d of
        None \<Rightarrow> False
      | Some f \<Rightarrow> fd_version f = structuralFidelityVersion \<and> fd_append f \<noteq> None \<and> fd_array f \<noteq> None
          \<and> fd_flagged f \<noteq> None \<and> fd_indexed f \<noteq> None \<and> fd_alias_assignment f \<noteq> None
          \<and> fd_declaration_flags f \<noteq> None \<and> fd_option_flags f \<noteq> None)"

definition structuralFidelityMarker ::
  "fidelity_dto option \<Rightarrow> (fidelity_dto \<Rightarrow> bool option) \<Rightarrow> bool" where
  "structuralFidelityMarker d marker =
     (if \<not> structuralFidelityKnown d then False else the (marker (the d)))"

definition structuralFidelityFlags :: "fidelity_dto option \<Rightarrow> string list" where
  "structuralFidelityFlags d =
     (if \<not> structuralFidelityKnown d then [] else the (fd_declaration_flags (the d)))"

definition structuralFidelityOptionFlags :: "fidelity_dto option \<Rightarrow> string list" where
  "structuralFidelityOptionFlags d =
     (if \<not> structuralFidelityKnown d then [] else the (fd_option_flags (the d)))"

definition toEntryDTO :: "entry \<Rightarrow> entry_dto" where
  "toEntryDTO e =
     \<lparr>ed_text = en_text e, ed_start_line = en_start_line e, ed_category = en_category e,
      ed_kind = en_kind e, ed_cmd_name = en_cmd_name e, ed_names = en_names e,
      ed_value = en_value e, ed_exported = en_exported e, ed_managed = en_managed e,
      ed_override = en_override e, ed_dynamic = en_dynamic e,
      ed_fidelity = toStructuralFidelityDTO e, ed_secret = en_secret e,
      ed_value_mode = en_value_mode e, ed_runtime_value = en_runtime_value e,
      ed_function_body = en_function_body e, ed_list_value = toListValueDTO (en_list_value e)\<rparr>"

definition fromEntryDTO :: "entry_dto \<Rightarrow> entry" where
  "fromEntryDTO d =
     \<lparr>en_text = ed_text d, en_start_line = ed_start_line d, en_category = ed_category d,
      en_kind = ed_kind d, en_cmd_name = ed_cmd_name d, en_names = ed_names d,
      en_value = ed_value d, en_exported = ed_exported d, en_managed = ed_managed d,
      en_override = ed_override d, en_dynamic = ed_dynamic d,
      en_fidelity_known = structuralFidelityKnown (ed_fidelity d),
      en_append = structuralFidelityMarker (ed_fidelity d) fd_append,
      en_array = structuralFidelityMarker (ed_fidelity d) fd_array,
      en_flagged = structuralFidelityMarker (ed_fidelity d) fd_flagged,
      en_indexed = structuralFidelityMarker (ed_fidelity d) fd_indexed,
      en_alias_assignment = structuralFidelityMarker (ed_fidelity d) fd_alias_assignment,
      en_declaration_flags = structuralFidelityFlags (ed_fidelity d),
      en_option_flags = structuralFidelityOptionFlags (ed_fidelity d),
      en_secret = ed_secret d, en_value_mode = ed_value_mode d,
      en_runtime_value = ed_runtime_value d, en_function_body = ed_function_body d,
      en_list_value = fromListValueDTO (ed_list_value d)\<rparr>"

section \<open>Live states\<close>

definition toLiveValueDTO :: "live_value \<Rightarrow> live_value_dto" where
  "toLiveValueDTO v =
     \<lparr>vd_present = Some (lv_present v), vd_scalar = lv_scalar v,
      vd_list = map_option Some (lv_list v), vd_option = lv_option v\<rparr>"

definition fromLiveValueDTO :: "live_value_dto \<Rightarrow> live_value" where
  "fromLiveValueDTO d =
     \<lparr>lv_present = (case vd_present d of None \<Rightarrow> False | Some b \<Rightarrow> b), lv_scalar = vd_scalar d,
      lv_list = (case vd_list d of None \<Rightarrow> None | Some values \<Rightarrow> values), lv_option = vd_option d\<rparr>"

definition toLiveIdentityStatesDTO :: "live_state list \<Rightarrow> live_state_dto list" where
  "toLiveIdentityStatesDTO ss =
     map (\<lambda>s. \<lparr>id_identity = ls_identity s, id_value = toLiveValueDTO (ls_value s)\<rparr>) ss"

definition fromLiveIdentityStatesDTO :: "live_state_dto list \<Rightarrow> live_state list" where
  "fromLiveIdentityStatesDTO ds =
     map (\<lambda>d. \<lparr>ls_identity = id_identity d, ls_value = fromLiveValueDTO (id_value d)\<rparr>) ds"

section \<open>Validation\<close>

definition validateSourceEntry :: "entry \<Rightarrow> unit result" where
  "validateSourceEntry e =
     (case en_secret e of
        None \<Rightarrow>
          (if en_category e \<noteq> CatSecrets then OK
           else if \<not> isExcludableSecretShape e \<or> en_value_mode e \<noteq> ValueModeDynamic
              \<or> \<not> en_dynamic e \<or> en_runtime_value e \<noteq> None
           then Inl (Errorf ''committed worktree source contains an unredacted secret'') else OK)
      | Some ref \<Rightarrow>
          (if en_category e \<noteq> CatSecrets \<or> en_kind e \<noteq> KindAssignment \<or> length (en_names e) \<noteq> 1
              \<or> hd (en_names e) = [] \<or> sr_key ref = [] \<or> sr_key ref \<noteq> hd (en_names e)
              \<or> (sr_kind ref \<noteq> SecretRefKeychain \<and> sr_kind ref \<noteq> SecretRefFile)
              \<or> en_append e \<or> en_array e \<or> en_indexed e \<or> en_dynamic e
              \<or> en_runtime_value e \<noteq> None \<or> en_value_mode e \<noteq> ValueModeUnsupported
           then Inl (Errorf ''committed worktree source contains an invalid SecretRef'')
           else if en_text e \<noteq> redactedText (en_exported e) ref \<or> en_value e \<noteq> secretRefValue ref
           then Inl (Errorf ''committed worktree source SecretRef is not redacted'') else OK))"

definition validateCommittedSourceSecrets :: "profile \<Rightarrow> unit result" where
  "validateCommittedSourceSecrets p = forE validateSourceEntry p"

definition committedSourceSecretIdentities :: "profile \<Rightarrow> identity set" where
  "committedSourceSecretIdentities p =
     (\<lambda>e. Identity LiveEnv (hd (en_names e)))
       ` set (filter (\<lambda>e. en_category e = CatSecrets \<and> en_kind e = KindAssignment
           \<and> length (en_names e) = 1) p)"

fun checkStoredTombstones :: "identity set \<Rightarrow> identity set \<Rightarrow> identity list \<Rightarrow> unit result" where
  "checkStoredTombstones pinned seen [] = OK"
| "checkStoredTombstones pinned seen (i # is) =
     bindR (orErr (ValidateIdentity i) (Errorf ''validate committed tombstone: %w'')) (\<lambda>_.
       if i \<in> seen
       then Inl (Errorf ''committed worktree projection has a duplicate or overlapping tombstone'')
       else if i \<in> pinned
       then Inl (Errorf ''committed worktree projection contains a pinned identity'')
       else checkStoredTombstones pinned (insert i seen) is)"

definition validateCommittedWorktreeDTO :: "committed_worktree \<Rightarrow> unit result" where
  "validateCommittedWorktreeDTO d =
     (if cw_schema d \<noteq> WorktreeSchemaV1 \<or> pr_schema (cw_projection d) \<noteq> WorktreeSchemaV1
      then Inl (Errorf ''committed worktree schema is unsupported'')
      else if MaxSnapshotRecords
          < length (pr_states (cw_projection d)) + length (pr_tombstones (cw_projection d))
      then Inl (Errorf ''committed worktree projection exceeds the record limit'')
      else bindR (validateCommittedSourceSecrets (cw_source d)) (\<lambda>_.
        let pinned = committedSourceSecretIdentities (cw_source d)
        in bindR (orErr (NormalizeLiveStates (pr_states (cw_projection d)))
             (Errorf ''validate committed projection: %w'')) (\<lambda>normalized.
           if length normalized \<noteq> length (pr_states (cw_projection d))
           then Inl (Errorf ''committed worktree projection has duplicate states'')
           else bindR (forE (\<lambda>s.
               if \<not> lv_present (ls_value s)
               then Inl (Errorf ''committed worktree projection contains an absent state'')
               else if ls_identity s \<in> pinned
               then Inl (Errorf ''committed worktree projection contains a pinned identity'')
               else OK) normalized) (\<lambda>_.
             checkStoredTombstones pinned (ls_identity ` set normalized)
               (pr_tombstones (cw_projection d))))))"

section \<open>Documents\<close>

text \<open>
  The encoder and the two ways the code decodes: \<^verbatim>\<open>json.Unmarshal\<close>, and a decoder
  that refuses unknown fields and gives the rest of the input, on which
  \<^verbatim>\<open>requireJSONEOF\<close> decodes a second time.
\<close>

datatype trailing_json = TrailingEOF | TrailingValue | TrailingError go_error

record json_codec =
  jc_encode :: "profile_dto \<Rightarrow> string"
  jc_unmarshal :: "string \<Rightarrow> profile_dto result"
  jc_decode :: "string \<Rightarrow> (profile_dto \<times> string) result"
  jc_trailing :: "string \<Rightarrow> trailing_json"

definition MarshalProfile :: "json_codec \<Rightarrow> profile \<Rightarrow> string result" where
  "MarshalProfile J p =
     Inr (jc_encode J \<lparr>pd_entries = map toEntryDTO p, pd_worktree = None\<rparr> @ [CHR 0x0A])"

definition UnmarshalProfile :: "json_codec \<Rightarrow> string \<Rightarrow> profile result" where
  "UnmarshalProfile J b = bindR (jc_unmarshal J b) (\<lambda>d. Inr (map fromEntryDTO (pd_entries d)))"

definition committedDTO :: "committed_worktree \<Rightarrow> profile_dto" where
  "committedDTO d =
     \<lparr>pd_entries = map toEntryDTO (cw_source d),
      pd_worktree = Some \<lparr>wd_schema = cw_schema d,
        wd_projection = Some \<lparr>jd_schema = pr_schema (cw_projection d),
          jd_states = Some (toLiveIdentityStatesDTO (pr_states (cw_projection d))),
          jd_tombstones = Some (pr_tombstones (cw_projection d))\<rparr>\<rparr>\<rparr>"

definition MarshalCommittedWorktree :: "json_codec \<Rightarrow> committed_worktree \<Rightarrow> string result" where
  "MarshalCommittedWorktree J d =
     bindR (validateCommittedWorktreeDTO d) (\<lambda>_. Inr (jc_encode J (committedDTO d) @ [CHR 0x0A]))"

definition requireJSONEOF :: "json_codec \<Rightarrow> string \<Rightarrow> unit result" where
  "requireJSONEOF J rest =
     (case jc_trailing J rest of
        TrailingEOF \<Rightarrow> OK
      | TrailingValue \<Rightarrow> Inl (Errorf ''committed worktree has trailing JSON data'')
      | TrailingError e \<Rightarrow> Inl e)"

definition profileFromDTOExact :: "entry_dto list \<Rightarrow> profile" where
  "profileFromDTOExact ds = map fromEntryDTO ds"

definition documentFromDTO :: "profile_dto \<Rightarrow> committed_worktree result" where
  "documentFromDTO dto =
     (case pd_worktree dto of
        None \<Rightarrow> Inl (Errorf ''committed worktree projection is incomplete'')
      | Some w \<Rightarrow>
          (case wd_projection w of
             None \<Rightarrow> Inl (Errorf ''committed worktree projection is incomplete'')
           | Some p \<Rightarrow>
               (case (jd_states p, jd_tombstones p) of
                  (Some states, Some tombstones) \<Rightarrow>
                    Inr \<lparr>cw_schema = wd_schema w, cw_source = profileFromDTOExact (pd_entries dto),
                      cw_projection = \<lparr>pr_schema = jd_schema p,
                        pr_states = fromLiveIdentityStatesDTO states, pr_tombstones = tombstones\<rparr>\<rparr>
                | _ \<Rightarrow> Inl (Errorf ''committed worktree projection is incomplete''))))"

definition UnmarshalCommittedWorktree :: "json_codec \<Rightarrow> string \<Rightarrow> committed_worktree result" where
  "UnmarshalCommittedWorktree J payload =
     bindR (jc_decode J payload) (\<lambda>(dto, rest).
     bindR (requireJSONEOF J rest) (\<lambda>_.
     bindR (documentFromDTO dto) (\<lambda>d.
     bindR (validateCommittedWorktreeDTO d) (\<lambda>_. Inr d))))"

end
