(* ===== verification/SecretFacts.thy ===== *)
theory SecretFacts
  imports SecretStore
begin

text \<open>
  Facts about the exclusion of secrets: the prepared profile does not depend on the withheld
  values, it is a fixed point, and the writes to a backend that keeps its contract can be
  taken back.
\<close>

section \<open>One entry at a time\<close>

text \<open>What a loop over the entries yields, entry by entry.\<close>

definition captured_of :: "entry \<Rightarrow> entry \<times> string option \<Rightarrow> (withheld_secret \<times> string \<times> string) option" where
  "captured_of e r =
     map_option (\<lambda>v. (\<lparr>wh_name = hd (en_names e), wh_start_line = en_start_line e\<rparr>, hd (en_names e), v))
       (snd r)"

definition prepared_from :: "entry list \<Rightarrow> (entry \<times> string option) list \<Rightarrow> prepared_secrets \<Rightarrow> prepared_secrets" where
  "prepared_from es rs r =
     (let cs = List.map_filter (\<lambda>(e, x). captured_of e x) (zip es rs)
      in \<lparr>pp_profile = pp_profile r @ map fst rs, pp_report = pp_report r @ map fst cs,
          pp_pending = fold (\<lambda>(w, k, v). assoc_put k v) cs (pp_pending r)\<rparr>)"

lemma mapR_length: "mapR f xs = Inr ys \<Longrightarrow> length ys = length xs"
  by (induction xs arbitrary: ys) (auto simp: bindR_eq_Inr)

lemma prepareLoop_mapR:
  "prepareLoop kc es r = bindR (mapR (prepareEntry kc) es) (\<lambda>rs. Inr (prepared_from es rs r))"
proof (induction es arbitrary: r)
  case Nil
  then show ?case by (simp add: prepared_from_def List.map_filter_simps)
next
  case (Cons e es)
  show ?case
  proof (cases "prepareEntry kc e")
    case (Inl x)
    then show ?thesis by simp
  next
    case (Inr x)
    obtain e' c where x: "x = (e', c)" by (cases x)
    show ?thesis
      by (cases c; cases "mapR (prepareEntry kc) es")
         (simp_all add: Inr x Cons.IH prepared_from_def captured_of_def List.map_filter_simps Let_def)
  qed
qed

lemma prepareSecrets_eq:
  "prepareSecrets p kc = bindR (mapR (prepareEntry kc) p) (\<lambda>rs. Inr (prepared_from p rs prepared_empty))"
  by (simp add: prepareSecrets_def prepareLoop_mapR)

text \<open>An entry passes unchanged, or is withheld.\<close>

definition withheld_value :: "entry \<Rightarrow> string option" where
  "withheld_value e =
     (if en_secret e \<noteq> None \<or> \<not> isExcludableSecretShape e then None
      else case en_value_mode e of
        ValueModeLiteral \<Rightarrow> en_runtime_value e
      | ValueModeLegacy \<Rightarrow> (if en_dynamic e \<or> en_value e = [] then None else Some (en_value e))
      | _ \<Rightarrow> None)"

lemma prepareEntry_withheld:
  "withheld_value e = Some v \<Longrightarrow> prepareEntry kc e = captureEntry kc e v"
  by (auto simp: withheld_value_def prepareEntry_def isExcludableSecretShape_def
      split: value_mode.splits if_splits)

lemma prepareEntry_kept:
  "withheld_value e = None \<Longrightarrow> prepareEntry kc e = Inr r \<Longrightarrow> r = (e, None)"
  by (auto simp: withheld_value_def prepareEntry_def bindR_eq_Inr
      split: value_mode.splits if_splits option.splits)

lemma withheld_shape:
  "withheld_value e = Some v \<Longrightarrow>
     en_secret e = None \<and> en_category e = CatSecrets \<and> en_kind e = KindAssignment \<and> length (en_names e) = 1"
  by (auto simp: withheld_value_def isExcludableSecretShape_def split: if_splits)

lemma prepareEntry_Inr:
  "prepareEntry kc e = Inr r \<Longrightarrow>
     (withheld_value e = None \<and> r = (e, None))
     \<or> (\<exists>v kind. withheld_value e = Some v \<and> kc = Some kind \<and> r = (redactEntry kind e, Some v))"
  by (cases "withheld_value e")
     (auto simp: prepareEntry_withheld captureEntry_def dest: prepareEntry_kept split: option.splits)

section \<open>Independence of the withheld values\<close>

text \<open>The fields of an entry that do not carry its value.\<close>

definition public_part :: "entry \<Rightarrow> entry" where
  "public_part e =
     e\<lparr>en_text := [], en_value := [], en_runtime_value := None, en_value_mode := ValueModeUnsupported\<rparr>"

definition same_public :: "entry \<Rightarrow> entry \<Rightarrow> bool" where
  "same_public e e' \<longleftrightarrow>
     e = e' \<or> withheld_value e \<noteq> None \<and> withheld_value e' \<noteq> None \<and> public_part e = public_part e'"

lemma redactEntry_public: "redactEntry kind e = redactEntry kind (public_part e)"
  by (cases e) (simp add: redactEntry_def public_part_def Let_def)

lemma public_names:
  "public_part e = public_part e' \<Longrightarrow> en_names e = en_names e' \<and> en_start_line e = en_start_line e'"
  by (cases e; cases e') (simp add: public_part_def)

text \<open>What an observer of the commit sees.\<close>

definition visible :: "prepared_secrets \<Rightarrow> profile \<times> withheld_secret list \<times> string list" where
  "visible r = (pp_profile r, pp_report r, map fst (pp_pending r))"

lemma keys_assoc_put_same:
  "map fst m = map fst m' \<Longrightarrow> map fst (assoc_put k v m) = map fst (assoc_put k v' m')"
proof (induction m arbitrary: m')
  case (Cons x m)
  then show ?case by (cases x; cases m') auto
qed simp

lemma keys_fold_put:
  "map fst m = map fst m' \<Longrightarrow> map (\<lambda>(w, k, v). k) cs = map (\<lambda>(w, k, v). k) cs' \<Longrightarrow>
     map fst (fold (\<lambda>(w, k, v). assoc_put k v) cs m) = map fst (fold (\<lambda>(w, k, v). assoc_put k v) cs' m')"
proof (induction cs arbitrary: cs' m m')
  case Nil
  then show ?case by simp
next
  case (Cons c cs)
  from Cons.prems obtain c' cs'' where cs': "cs' = c' # cs''" by (cases cs') auto
  with Cons.prems show ?case
    by (cases c; cases c') (auto intro!: Cons.IH keys_assoc_put_same)
qed

definition visible_entry :: "entry \<Rightarrow> entry \<times> string option \<Rightarrow> entry \<times> (withheld_secret \<times> string) option" where
  "visible_entry e r = (fst r, map_option (\<lambda>(w, k, v). (w, k)) (captured_of e r))"

lemma same_public_entry:
  assumes "same_public e e'"
  shows "map_sum id (visible_entry e) (prepareEntry kc e) = map_sum id (visible_entry e') (prepareEntry kc e')"
proof (cases "e = e'")
  case False
  with assms obtain v v' where v: "withheld_value e = Some v" "withheld_value e' = Some v'"
    and p: "public_part e = public_part e'"
    by (auto simp: same_public_def)
  have "redactEntry kind e = redactEntry kind e'" for kind
    using redactEntry_public [of kind e] redactEntry_public [of kind e'] p by simp
  then show ?thesis
    using public_names [OF p]
    by (cases kc) (simp_all add: prepareEntry_withheld [OF v(1)] prepareEntry_withheld [OF v(2)]
        captureEntry_def visible_entry_def captured_of_def)
qed simp

lemma same_public_mapR:
  assumes "list_all2 same_public es es'"
  shows "map_sum id (\<lambda>rs. map2 visible_entry es rs) (mapR (prepareEntry kc) es)
    = map_sum id (\<lambda>rs. map2 visible_entry es' rs) (mapR (prepareEntry kc) es')"
  using assms
proof (induction rule: list_all2_induct)
  case (Cons e es e' es')
  from same_public_entry [OF Cons.hyps(1), of kc] Cons.IH show ?case
    by (cases "prepareEntry kc e"; cases "prepareEntry kc e'"; cases "mapR (prepareEntry kc) es";
        cases "mapR (prepareEntry kc) es'") auto
qed simp

lemma visible_prepared:
  assumes "length rs = length es" "length rs' = length es'"
    and "map2 visible_entry es rs = map2 visible_entry es' rs'"
  shows "visible (prepared_from es rs prepared_empty) = visible (prepared_from es' rs' prepared_empty)"
proof -
  let ?cs = "\<lambda>es rs. List.map_filter (\<lambda>(e, x). captured_of e x) (zip es rs)"
  have "map fst rs = map fst (map2 visible_entry es rs)" if "length rs = length es" for es rs
    using that by (induction rs es rule: list_induct2) (auto simp: visible_entry_def)
  then have profile: "map fst rs = map fst rs'" using assms by metis
  have cs: "map (\<lambda>(w, k, v). (w, k)) (?cs es rs) = List.map_filter snd (map2 visible_entry es rs)"
    if "length rs = length es" for es rs
    using that
    by (induction rs es rule: list_induct2)
       (auto simp: visible_entry_def List.map_filter_simps split: option.splits)
  have same: "map (\<lambda>(w, k, v). (w, k)) (?cs es rs) = map (\<lambda>(w, k, v). (w, k)) (?cs es' rs')"
    using cs [OF assms(1)] cs [OF assms(2)] assms(3) by simp
  have fst: "map fst cs = map fst (map (\<lambda>(w, k, v). (w, k)) cs)"
    and snd: "map (\<lambda>(w, k, v). k) cs = map snd (map (\<lambda>(w, k, v). (w, k)) cs)"
    for cs :: "(withheld_secret \<times> string \<times> string) list"
    by (induction cs) auto
  have "map fst (?cs es rs) = map fst (?cs es' rs')"
    "map (\<lambda>(w, k, v). k) (?cs es rs) = map (\<lambda>(w, k, v). k) (?cs es' rs')"
    unfolding fst [of "?cs es rs"] fst [of "?cs es' rs'"] snd [of "?cs es rs"] snd [of "?cs es' rs'"] same
    by (rule refl)+
  then show ?thesis
    using profile keys_fold_put [of "[]" "[]" "?cs es rs" "?cs es' rs'"]
    by (simp add: visible_def prepared_from_def prepared_empty_def Let_def)
qed

lemma prepareSecrets_independent:
  assumes "list_all2 same_public p p'"
  shows "map_sum id visible (prepareSecrets p kc) = map_sum id visible (prepareSecrets p' kc)"
proof -
  have eq: "map_sum id (\<lambda>rs. map2 visible_entry p rs) (mapR (prepareEntry kc) p)
      = map_sum id (\<lambda>rs. map2 visible_entry p' rs) (mapR (prepareEntry kc) p')"
    by (rule same_public_mapR [OF assms])
  show ?thesis
  proof (cases "mapR (prepareEntry kc) p")
    case (Inl x)
    with eq show ?thesis
      by (cases "mapR (prepareEntry kc) p'") (simp_all add: prepareSecrets_eq)
  next
    case (Inr rs)
    with eq obtain rs' where rs': "mapR (prepareEntry kc) p' = Inr rs'"
      "map2 visible_entry p rs = map2 visible_entry p' rs'"
      by (cases "mapR (prepareEntry kc) p'") auto
    from visible_prepared [OF mapR_length [OF Inr] mapR_length [OF rs'(1)] rs'(2)] show ?thesis
      by (simp add: prepareSecrets_eq Inr rs'(1))
  qed
qed

section \<open>Preparing again\<close>

text \<open>
  The shape check does not look at four markers that a stored reference must not carry.
\<close>

definition plain_secret :: "entry \<Rightarrow> bool" where
  "plain_secret e \<longleftrightarrow>
     \<not> en_append e \<and> \<not> en_array e \<and> \<not> en_indexed e \<and> \<not> en_dynamic e \<and> hd (en_names e) \<noteq> []"

definition driver_kind :: "secret_ref_kind option \<Rightarrow> bool" where
  "driver_kind kc \<longleftrightarrow> kc \<in> {None, Some SecretRefKeychain, Some SecretRefFile}"

lemma redactEntry_sel [simp]:
  "en_secret (redactEntry kind e) = Some \<lparr>sr_kind = kind, sr_key = hd (en_names e)\<rparr>"
  "en_names (redactEntry kind e) = en_names e" "en_kind (redactEntry kind e) = en_kind e"
  "en_category (redactEntry kind e) = en_category e" "en_append (redactEntry kind e) = en_append e"
  "en_array (redactEntry kind e) = en_array e" "en_indexed (redactEntry kind e) = en_indexed e"
  "en_dynamic (redactEntry kind e) = en_dynamic e" "en_exported (redactEntry kind e) = en_exported e"
  "en_runtime_value (redactEntry kind e) = None"
  "en_value_mode (redactEntry kind e) = ValueModeUnsupported"
  "en_value (redactEntry kind e) = secretRefValue \<lparr>sr_kind = kind, sr_key = hd (en_names e)\<rparr>"
  "en_text (redactEntry kind e) =
     redactedText (en_exported e) \<lparr>sr_kind = kind, sr_key = hd (en_names e)\<rparr>"
  by (simp_all add: redactEntry_def Let_def)

lemma redacted_valid:
  assumes "withheld_value e = Some v" "kind \<in> {SecretRefKeychain, SecretRefFile}"
  shows "validatePersistedSecretRef (redactEntry kind e) (Some kind) = OK \<longleftrightarrow> plain_secret e"
  using assms withheld_shape [OF assms(1)] by (auto simp: validatePersistedSecretRef_def plain_secret_def)

lemma prepareEntry_again:
  assumes "prepareEntry kc e = Inr r" "driver_kind kc" "withheld_value e \<noteq> None \<longrightarrow> plain_secret e"
  shows "prepareEntry kc (fst r) = Inr (fst r, None)"
proof (cases "withheld_value e")
  case None
  then have "r = (e, None)" using assms(1) by (rule prepareEntry_kept)
  with assms(1) show ?thesis by simp
next
  case (Some v)
  then obtain kind where kind: "kc = Some kind" "r = (redactEntry kind e, Some v)"
    using prepareEntry_Inr [OF assms(1)] by auto
  then have "kind \<in> {SecretRefKeychain, SecretRefFile}" using assms(2) by (auto simp: driver_kind_def)
  then have "validatePersistedSecretRef (redactEntry kind e) (Some kind) = OK"
    using redacted_valid [OF Some] Some assms(3) by blast
  with kind show ?thesis by (simp add: prepareEntry_def)
qed

lemma prepared_nothing:
  "List.map_filter (\<lambda>(e, x). captured_of e x) (zip es (map (\<lambda>e. (e, None)) es)) = []"
  by (induction es) (simp_all add: List.map_filter_simps captured_of_def)

lemma prepareSecrets_profile:
  "prepareSecrets p kc = Inr r \<Longrightarrow> \<exists>rs. mapR (prepareEntry kc) p = Inr rs \<and> pp_profile r = map fst rs"
  by (auto simp: prepareSecrets_eq bindR_eq_Inr prepared_from_def prepared_empty_def Let_def)

lemma prepareSecrets_again:
  assumes "prepareSecrets p kc = Inr r" "driver_kind kc"
    and "\<forall>e \<in> set p. withheld_value e \<noteq> None \<longrightarrow> plain_secret e"
  shows "prepareSecrets (pp_profile r) kc = Inr \<lparr>pp_profile = pp_profile r, pp_report = [], pp_pending = []\<rparr>"
proof -
  obtain rs where rs: "mapR (prepareEntry kc) p = Inr rs" "pp_profile r = map fst rs"
    using prepareSecrets_profile [OF assms(1)] by blast
  have "mapR (prepareEntry kc) p = Inr rs \<Longrightarrow> \<forall>e \<in> set p. withheld_value e \<noteq> None \<longrightarrow> plain_secret e \<Longrightarrow>
      mapR (prepareEntry kc) (map fst rs) = Inr (map (\<lambda>e. (e, None)) (map fst rs))" for p rs
  proof (induction p arbitrary: rs)
    case (Cons e p)
    then obtain x xs where x: "prepareEntry kc e = Inr x" "mapR (prepareEntry kc) p = Inr xs" "rs = x # xs"
      by (auto simp: bindR_eq_Inr)
    with Cons prepareEntry_again [OF x(1) assms(2)] show ?case by simp
  qed simp
  from this [OF rs(1) assms(3)]
  have "mapR (prepareEntry kc) (pp_profile r) = Inr (map (\<lambda>e. (e, None)) (pp_profile r))"
    unfolding rs(2) .
  then show ?thesis
    by (simp add: prepareSecrets_eq prepared_from_def prepared_empty_def prepared_nothing comp_def)
qed

section \<open>The pending writes\<close>

lemma fold_put_distinct: "distinct (map fst m) \<Longrightarrow> distinct (map fst (fold (\<lambda>(w, k, v). assoc_put k v) cs m))"
  by (induction cs arbitrary: m) (auto simp: distinct_assoc_put)

lemma pending_distinct: "prepareSecrets p kc = Inr r \<Longrightarrow> distinct (map fst (pp_pending r))"
  using fold_put_distinct [of "[]"]
  by (auto simp: prepareSecrets_eq bindR_eq_Inr prepared_from_def prepared_empty_def Let_def)

lemma map_of_fold_put:
  "map_of (fold (\<lambda>(w, k, v). assoc_put k v) cs m) = map_of m ++ map_of (rev (map snd cs))"
  by (induction cs arbitrary: m) (auto simp: map_add_def fun_eq_iff split: option.splits)

section \<open>Backends that keep the contract\<close>

definition prior_value :: "secret_prior \<Rightarrow> string option" where
  "prior_value p = (if sp_exists p then Some (sp_value p) else None)"

lemma restorePrior_failed: "fst (restorePrior kd p (f, s)) \<longleftrightarrow> f \<or> fst (restorePrior kd p (False, s))"
  by (simp add: restorePrior_def split: prod.split)

lemma restorePrior_snd: "snd (restorePrior kd p (f, s)) = snd (restorePrior kd p (False, s))"
  by (simp add: restorePrior_def split: prod.split)

lemma fold_restore_failed: "fst (fold (restorePrior kd) ps (True, s))"
proof (induction ps arbitrary: s)
  case (Cons p ps)
  obtain f s' where "restorePrior kd p (True, s) = (f, s')" by fastforce
  moreover from this have f using restorePrior_failed [of kd p True s] by simp
  ultimately show ?case using Cons.IH [of s'] by simp
qed simp

context secret_backend
begin

lemma restorePrior_holds:
  assumes "restorePrior kd p (False, s) = (False, s')" "good (sp_key p)"
  shows "holds s' = (holds s)(sp_key p := prior_value p)"
proof (cases "sp_exists p")
  case True
  with assms show ?thesis
    using store_holds [of "sp_key p" "sp_value p" s s']
    by (auto simp: restorePrior_def prior_value_def split: prod.splits)
next
  case False
  obtain x y where xy: "kd_delete kd (sp_key p) s = (x, y)" by fastforce
  with False assms show ?thesis
    using delete_holds [of "sp_key p" s s'] delete_missing [of "sp_key p" s s']
    by (auto simp: restorePrior_def prior_value_def split: prod.splits sum.splits go_error.splits)
qed

lemma fold_restore_holds:
  assumes "fold (restorePrior kd) ps (False, s) = (False, s')" "distinct (map sp_key ps)"
    "\<forall>p \<in> set ps. good (sp_key p)"
  shows "holds s' k = (case map_of (map (\<lambda>p. (sp_key p, prior_value p)) ps) k of None \<Rightarrow> holds s k | Some x \<Rightarrow> x)"
  using assms
proof (induction ps arbitrary: s)
  case (Cons p ps)
  obtain f s1 where one: "restorePrior kd p (False, s) = (f, s1)" by fastforce
  with Cons.prems fold_restore_failed [of kd ps s1] have "\<not> f" by (cases f) auto
  with one have one: "restorePrior kd p (False, s) = (False, s1)" by simp
  have rest: "holds s' k = (case map_of (map (\<lambda>p. (sp_key p, prior_value p)) ps) k of None \<Rightarrow> holds s1 k | Some x \<Rightarrow> x)"
    using Cons.IH [of s1] Cons.prems one by simp
  have absent: "map_of (map (\<lambda>p. (sp_key p, prior_value p)) ps) (sp_key p) = None"
    using Cons.prems(2) by (auto simp: map_of_eq_None_iff image_image)
  show ?case
    using rest absent restorePrior_holds [OF one] Cons.prems(3) by (auto split: option.splits)
qed simp

lemma snapshot_holds:
  "snapshotSecretPriors ms kd s = Inr ps \<Longrightarrow>
     map sp_key ps = map fst ms \<and> (\<forall>p \<in> set ps. prior_value p = holds s (sp_key p))"
proof (induction ms arbitrary: ps)
  case (Cons m ms)
  obtain k v where m: "m = (k, v)" by (cases m)
  have "\<exists>p ps'. ps = p # ps' \<and> sp_key p = k \<and> prior_value p = holds s k
      \<and> snapshotSecretPriors ms kd s = Inr ps'"
  proof (cases "kd_retrieve kd k s")
    case (Inl e)
    with Cons.prems m have e: "e = ErrSecretNotFound" by (auto split: if_splits)
    with Inl Cons.prems m obtain ps' where "snapshotSecretPriors ms kd s = Inr ps'"
      "ps = \<lparr>sp_key = k, sp_value = [], sp_exists = False\<rparr> # ps'"
      by (auto simp: bindR_eq_Inr)
    with Inl e retrieve_missing [of k s] show ?thesis by (simp add: prior_value_def)
  next
    case (Inr old)
    with Cons.prems m obtain ps' where "snapshotSecretPriors ms kd s = Inr ps'"
      "ps = \<lparr>sp_key = k, sp_value = old, sp_exists = True\<rparr> # ps'"
      by (auto simp: bindR_eq_Inr)
    with retrieve_found [OF Inr] show ?thesis by (simp add: prior_value_def)
  qed
  with Cons.IH m show ?case by auto
qed simp

lemma restore_holds:
  assumes "restoreSecretPriors kd ps s' = (OK, s'')" "snapshotSecretPriors ms kd s = Inr ps"
    "distinct (map fst ms)" "\<forall>k \<in> fst ` set ms. good k"
  shows "holds s'' k = (if k \<in> fst ` set ms then holds s k else holds s' k)"
proof -
  note snap = snapshot_holds [OF assms(2)]
  have "fst ` set ms = sp_key ` set ps"
    using snap by (metis list.set_map)
  then have keys: "distinct (map sp_key (rev ps))" "\<forall>p \<in> set (rev ps). good (sp_key p)"
    using assms(3,4) snap by (auto simp flip: rev_map)
  obtain f t where ft: "fold (restorePrior kd) (rev ps) (False, s') = (f, t)" by fastforce
  with assms(1) have "fold (restorePrior kd) (rev ps) (False, s') = (False, s'')"
    by (auto simp: restoreSecretPriors_def split: if_splits)
  from fold_restore_holds [OF this keys]
  have after: "holds s'' k = (case map_of (map (\<lambda>p. (sp_key p, prior_value p)) (rev ps)) k of
      None \<Rightarrow> holds s' k | Some x \<Rightarrow> x)" .
  show ?thesis
  proof (cases "k \<in> fst ` set ms")
    case True
    then obtain p where p: "p \<in> set ps" "sp_key p = k"
      using \<open>fst ` set ms = sp_key ` set ps\<close> by auto
    have "map_of (map (\<lambda>p. (sp_key p, prior_value p)) (rev ps)) k = Some (prior_value p)"
      using keys(1) p by (intro map_of_is_SomeI) (auto simp: comp_def)
    with after snap p True show ?thesis by simp
  next
    case False
    then have "map_of (map (\<lambda>p. (sp_key p, prior_value p)) (rev ps)) k = None"
      using \<open>fst ` set ms = sp_key ` set ps\<close> by (auto simp: map_of_eq_None_iff)
    with after False show ?thesis by simp
  qed
qed

lemma storePending_success:
  assumes "storePending kd priors ms s = ((ps, None), s')" "\<forall>k \<in> fst ` set ms. good k"
  shows "holds s' = holds s ++ map_of (rev ms)"
  using assms
proof (induction ms arbitrary: s)
  case (Cons m ms)
  obtain k v where m: "m = (k, v)" by (cases m)
  obtain r s1 where r: "kd_store kd k v s = (r, s1)" by fastforce
  show ?case
  proof (cases r)
    case (Inl e)
    then show ?thesis using Cons.prems(1) r m by (auto split: prod.splits sum.splits)
  next
    case (Inr u)
    then have "holds s1 = (holds s)(k \<mapsto> v)"
      using store_holds [of k v s s1] r m Cons.prems(2) by simp
    moreover have "holds s' = holds s1 ++ map_of (rev ms)"
      using Cons.IH [of s1] Cons.prems r m Inr by simp
    ultimately show ?thesis using m by (simp add: fun_upd_def map_add_def fun_eq_iff split: option.split)
  qed
qed simp

lemma storePending_failure:
  assumes "storePending kd priors ms s = ((ps, Some e), s')" "e \<noteq> ErrSecretRollback"
  shows "\<exists>t. restoreSecretPriors kd priors t = (OK, s')"
  using assms
proof (induction ms arbitrary: s)
  case (Cons m ms)
  obtain k v where m: "m = (k, v)" by (cases m)
  obtain r s1 where r: "kd_store kd k v s = (r, s1)" by fastforce
  show ?case
  proof (cases r)
    case (Inl x)
    obtain f t where ft: "restoreSecretPriors kd priors s1 = (f, t)" by fastforce
    have "f = Inl y \<Longrightarrow> y = ErrSecretRollback" for y
      using ft by (auto simp: restoreSecretPriors_def split: prod.splits if_splits)
    with Cons.prems r m Inl ft show ?thesis by (cases f) auto
  next
    case (Inr u)
    with Cons r m show ?thesis by auto
  qed
qed simp

text \<open>The writes of a commit take effect, or their names hold what they held before.\<close>

lemma apply_atomic:
  assumes "applyPreparedSecrets ms kd s = ((ps, err), s')"
    and "distinct (map fst ms)" "\<forall>k \<in> fst ` set ms. good k"
  shows "err = None \<Longrightarrow> holds s' = holds s ++ map_of ms"
    and "err \<noteq> None \<Longrightarrow> err \<noteq> Some ErrSecretRollback \<Longrightarrow> k \<in> fst ` set ms \<Longrightarrow> holds s' k = holds s k"
proof -
  show "holds s' = holds s ++ map_of ms" if "err = None"
  proof (cases "ms = []")
    case False
    with assms(1) that obtain priors where "storePending kd priors ms s = ((ps, None), s')"
      by (auto simp: applyPreparedSecrets_def split: sum.splits)
    from storePending_success [OF this assms(3)] show ?thesis
      by (simp add: map_of_rev_distinct [OF assms(2)])
  qed (use assms(1) in \<open>simp add: applyPreparedSecrets_def\<close>)
  show "holds s' k = holds s k" if err: "err \<noteq> None" "err \<noteq> Some ErrSecretRollback" and k: "k \<in> fst ` set ms"
  proof (cases "snapshotSecretPriors ms kd s")
    case (Inl x)
    with assms(1) show ?thesis by (auto simp: applyPreparedSecrets_def split: if_splits)
  next
    case (Inr priors)
    with assms(1) err obtain e where "storePending kd priors ms s = ((ps, Some e), s')" "e \<noteq> ErrSecretRollback"
      by (auto simp: applyPreparedSecrets_def split: if_splits)
    from storePending_failure [OF this] obtain t where "restoreSecretPriors kd priors t = (OK, s')" by blast
    from restore_holds [OF this Inr assms(2,3)] k show ?thesis by simp
  qed
qed

end

end
