(* ===== verification/CommittedFacts.thy ===== *)
theory CommittedFacts
  imports CommittedDoc SecretFacts ValidState
begin

text \<open>
  Facts about committed documents: what survives a round trip through the transfer objects,
  what the store's validation says, and that prepared profiles pass it.
\<close>

section \<open>Round trips\<close>

text \<open>
  The form an entry has in the store: the structural markers are kept only when all of them
  are known, and a list value only when it is valid.
\<close>

definition stored_entry :: "entry \<Rightarrow> entry" where
  "stored_entry e =
     (let e' = e\<lparr>en_list_value := (case en_list_value e of None \<Rightarrow> None
           | Some l \<Rightarrow> if listValueValid l then Some l else None)\<rparr>
      in if en_fidelity_known e then e'
         else e'\<lparr>en_append := False, en_array := False, en_flagged := False, en_indexed := False,
           en_alias_assignment := False, en_declaration_flags := [], en_option_flags := []\<rparr>)"

lemma fromListValueDTO_to:
  "fromListValueDTO (toListValueDTO v) =
     (case v of None \<Rightarrow> None | Some l \<Rightarrow> if listValueValid l then Some l else None)"
proof (cases v)
  case (Some l)
  have "map (\<lambda>s. \<lparr>sg_value = gd_value s, sg_source = gd_source s, sg_dynamic = gd_dynamic s,
        sg_self = gd_self s\<rparr>) (map (\<lambda>s. \<lparr>gd_value = sg_value s, gd_source = sg_source s,
        gd_dynamic = sg_dynamic s, gd_self = sg_self s\<rparr>) ss) = ss" for ss :: "list_segment list"
    by (induction ss) auto
  then have "\<lparr>lv_segments = map (\<lambda>s. \<lparr>sg_value = gd_value s, sg_source = gd_source s,
        sg_dynamic = gd_dynamic s, sg_self = gd_self s\<rparr>) (map (\<lambda>s. \<lparr>gd_value = sg_value s,
        gd_source = sg_source s, gd_dynamic = sg_dynamic s, gd_self = sg_self s\<rparr>) (lv_segments l))\<rparr> = l"
    by simp
  with Some show ?thesis
    by (simp add: toListValueDTO_def fromListValueDTO_def Let_def)
qed (simp add: toListValueDTO_def fromListValueDTO_def)

lemma fromEntryDTO_to: "fromEntryDTO (toEntryDTO e) = stored_entry e"
  by (cases e) (auto simp: fromEntryDTO_def toEntryDTO_def stored_entry_def fromListValueDTO_to
      toStructuralFidelityDTO_def structuralFidelityKnown_def structuralFidelityMarker_def
      structuralFidelityFlags_def structuralFidelityOptionFlags_def Let_def)

lemma stored_entry_idem: "stored_entry (stored_entry e) = stored_entry e"
  by (cases e) (auto simp: stored_entry_def Let_def split: option.split)

lemma fromLiveValueDTO_to: "fromLiveValueDTO (toLiveValueDTO v) = v"
  by (cases v) (auto simp: fromLiveValueDTO_def toLiveValueDTO_def split: option.split)

lemma fromLiveStatesDTO_to: "fromLiveIdentityStatesDTO (toLiveIdentityStatesDTO ss) = ss"
  by (simp add: fromLiveIdentityStatesDTO_def toLiveIdentityStatesDTO_def comp_def fromLiveValueDTO_to
      map_idI)

definition stored_document :: "committed_worktree \<Rightarrow> committed_worktree" where
  "stored_document d = d\<lparr>cw_source := map stored_entry (cw_source d)\<rparr>"

lemma documentFromDTO_to: "documentFromDTO (committedDTO d) = Inr (stored_document d)"
  by (cases d; cases "cw_projection d")
     (simp add: documentFromDTO_def committedDTO_def profileFromDTOExact_def fromEntryDTO_to
       stored_document_def fromLiveStatesDTO_to comp_def)

section \<open>Validation\<close>

lemma validateSourceEntry_stored:
  "validateSourceEntry e = OK \<Longrightarrow> validateSourceEntry (stored_entry e) = OK"
  by (auto simp: validateSourceEntry_def stored_entry_def Let_def isExcludableSecretShape_def
      split: option.splits if_splits)

lemma stored_entry_sel [simp]:
  "en_category (stored_entry e) = en_category e" "en_kind (stored_entry e) = en_kind e"
  "en_names (stored_entry e) = en_names e" "en_secret (stored_entry e) = en_secret e"
  "en_exported (stored_entry e) = en_exported e"
  by (simp_all add: stored_entry_def Let_def)

lemma pinned_stored:
  "committedSourceSecretIdentities (map stored_entry p) = committedSourceSecretIdentities p"
  by (simp add: committedSourceSecretIdentities_def filter_map comp_def image_image)

lemma checkStoredTombstones_OK:
  "checkStoredTombstones pinned seen is = OK \<longleftrightarrow>
     distinct is \<and> set is \<inter> (seen \<union> pinned) = {} \<and> (\<forall>i \<in> set is. ValidateIdentity i = OK)"
  by (induction "is" arbitrary: seen) (auto simp: bindR_eq_Inr orErr_eq_Inr if_Inl_eq_Inr)

lemma validateCommittedWorktreeDTO_OK:
  "validateCommittedWorktreeDTO d = OK \<longleftrightarrow>
     cw_schema d = WorktreeSchemaV1 \<and> pr_schema (cw_projection d) = WorktreeSchemaV1
     \<and> length (pr_states (cw_projection d)) + length (pr_tombstones (cw_projection d)) \<le> MaxSnapshotRecords
     \<and> validateCommittedSourceSecrets (cw_source d) = OK
     \<and> good_states (pr_states (cw_projection d))
     \<and> distinct (pr_tombstones (cw_projection d))
     \<and> (\<forall>i \<in> set (pr_tombstones (cw_projection d)). ValidateIdentity i = OK)
     \<and> set (pr_tombstones (cw_projection d)) \<inter> ls_identity ` set (pr_states (cw_projection d)) = {}
     \<and> (ls_identity ` set (pr_states (cw_projection d)) \<union> set (pr_tombstones (cw_projection d)))
         \<inter> committedSourceSecretIdentities (cw_source d) = {}"
proof -
  let ?ss = "pr_states (cw_projection d)"
  show ?thesis
  proof (cases "\<forall>s \<in> set ?ss. ValidateLiveIdentityState s = OK")
    case False
    then have "NormalizeLiveStates ?ss \<noteq> Inr ns" for ns by (simp add: NormalizeLiveStates_eq_Inr)
    with False show ?thesis
      by (auto simp: validateCommittedWorktreeDTO_def bindR_eq_Inr orErr_eq_Inr if_Inl_eq_Inr Let_def
          good_states_def)
  next
    case True
    then have n: "NormalizeLiveStates ?ss = Inr (map CloneLiveState (keep_last ls_identity ?ss))"
      by (simp add: NormalizeLiveStates_eq_Inr)
    have len: "length (map CloneLiveState (keep_last ls_identity ?ss)) = length ?ss
        \<longleftrightarrow> distinct (map ls_identity ?ss)"
      by (simp add: keep_last_length_eq)
    have ids: "ls_identity ` set (map CloneLiveState ?ss) = ls_identity ` set ?ss"
      by (simp add: image_image)
    show ?thesis
    proof (cases "distinct (map ls_identity ?ss)")
      case False
      with n len show ?thesis
        by (auto simp: validateCommittedWorktreeDTO_def bindR_eq_Inr if_Inl_eq_Inr Let_def good_states_def)
    next
      case d: True
      with n have "NormalizeLiveStates ?ss = Inr (map CloneLiveState ?ss)" by (simp add: keep_last_id)
      with True d ids show ?thesis
        by (auto simp: validateCommittedWorktreeDTO_def bindR_eq_Inr if_Inl_eq_Inr Let_def good_states_def
            forE_eq_OK checkStoredTombstones_OK)
    qed
  qed
qed

lemma stored_document_valid:
  "validateCommittedWorktreeDTO d = OK \<Longrightarrow> validateCommittedWorktreeDTO (stored_document d) = OK"
  by (auto simp: validateCommittedWorktreeDTO_OK stored_document_def pinned_stored
      validateCommittedSourceSecrets_def forE_eq_OK validateSourceEntry_stored)

lemma committed_round_trip:
  assumes "MarshalCommittedWorktree J d = Inr payload"
    and "jc_decode J (jc_encode J (committedDTO d) @ [CHR 0x0A]) = Inr (committedDTO d, rest)"
    and "jc_trailing J rest = TrailingEOF"
  shows "UnmarshalCommittedWorktree J payload = Inr (stored_document d)"
proof -
  have v: "validateCommittedWorktreeDTO d = OK" and p: "payload = jc_encode J (committedDTO d) @ [CHR 0x0A]"
    using assms(1) by (auto simp: MarshalCommittedWorktree_def bindR_eq_Inr)
  show ?thesis
    by (simp add: UnmarshalCommittedWorktree_def p assms(2,3) requireJSONEOF_def documentFromDTO_to
        stored_document_valid [OF v])
qed

text \<open>What the store accepts, the shared state accepts.\<close>

lemma store_accepts_service:
  assumes "validateCommittedWorktreeDTO d = OK"
  shows "validateCommitted d = OK"
  using assms by (auto simp: validateCommittedWorktreeDTO_OK validateCommitted_eq_OK
      validatePresentStates_eq_OK validateTombstones_eq_OK)

section \<open>Prepared profiles\<close>

text \<open>A late-bound secret the commit keeps must not carry an observed value.\<close>

definition storable_secret :: "entry \<Rightarrow> bool" where
  "storable_secret e \<longleftrightarrow>
     (if withheld_value e \<noteq> None then plain_secret e
      else en_secret e = None \<and> en_category e = CatSecrets \<longrightarrow> en_runtime_value e = None)"

lemma persisted_accepted:
  assumes "en_secret e \<noteq> None" "validatePersistedSecretRef e kc = OK"
  shows "validateSourceEntry e = OK"
  using assms
  by (auto simp: validatePersistedSecretRef_def validateSourceEntry_def split: option.splits if_splits)

lemma prepared_entry_accepted:
  assumes "prepareEntry kc e = Inr r" "driver_kind kc"
  shows "validateSourceEntry (fst r) = OK \<longleftrightarrow> storable_secret e"
proof (cases "withheld_value e")
  case (Some v)
  then obtain kind where kind: "kc = Some kind" "r = (redactEntry kind e, Some v)"
    using prepareEntry_Inr [OF assms(1)] by auto
  have "kind \<in> {SecretRefKeychain, SecretRefFile}" using assms(2) kind by (auto simp: driver_kind_def)
  with withheld_shape [OF Some] kind Some show ?thesis
    by (auto simp: validateSourceEntry_def storable_secret_def plain_secret_def)
next
  case None
  then have r: "r = (e, None)" using assms(1) by (rule prepareEntry_kept)
  show ?thesis
  proof (cases "en_secret e = None \<and> en_category e = CatSecrets")
    case True
    with assms(1) None r have "isExcludableSecretShape e" "en_value_mode e = ValueModeDynamic" "en_dynamic e"
      by (auto simp: prepareEntry_def captureEntry_def split: value_mode.splits if_splits option.splits)
    with True None r show ?thesis by (simp add: validateSourceEntry_def storable_secret_def)
  next
    case False
    then have "validateSourceEntry e = OK"
      using persisted_accepted [of e kc] assms(1)
      by (cases "en_secret e") (auto simp: prepareEntry_def bindR_eq_Inr validateSourceEntry_def)
    with False None r show ?thesis by (auto simp: storable_secret_def)
  qed
qed

lemma prepared_accepted:
  assumes "prepareSecrets p kc = Inr r" "driver_kind kc"
  shows "validateCommittedSourceSecrets (pp_profile r) = OK \<longleftrightarrow> (\<forall>e \<in> set p. storable_secret e)"
proof -
  obtain rs where rs: "mapR (prepareEntry kc) p = Inr rs" "pp_profile r = map fst rs"
    using prepareSecrets_profile [OF assms(1)] by blast
  have "mapR (prepareEntry kc) p = Inr rs \<Longrightarrow>
      (\<forall>x \<in> set rs. validateSourceEntry (fst x) = OK) \<longleftrightarrow> (\<forall>e \<in> set p. storable_secret e)" for p rs
  proof (induction p arbitrary: rs)
    case (Cons e p)
    then obtain x xs where "prepareEntry kc e = Inr x" "mapR (prepareEntry kc) p = Inr xs" "rs = x # xs"
      by (auto simp: bindR_eq_Inr)
    with Cons.IH prepared_entry_accepted [OF _ assms(2), of e x] show ?case by simp
  qed simp
  from this [OF rs(1)] show ?thesis
    by (simp add: validateCommittedSourceSecrets_def forE_eq_OK rs(2))
qed

end
