(* ===== verification/SecretProperties.thy ===== *)
theory SecretProperties
  imports CommittedFacts Samples
begin

text \<open>
  The properties of the exclusion of secrets (\<^verbatim>\<open>core/store/secret.go\<close>), of the
  vault (\<^verbatim>\<open>core/store/keychain.go\<close>) and of the committed document
  (\<^verbatim>\<open>core/store/dto.go\<close>).
\<close>

section \<open>What a commit shows\<close>

text \<open>
  C24: A commit says nothing about the values it withholds. If two profiles differ only in
  the text, value and decoded value of secrets that are withheld, preparing them fails with
  the same error or gives the same profile, the same report and writes to the same names:
  the prepared profile is a function of the public part.
\<close>

theorem commit_hides_secrets:
  assumes "list_all2 same_public p p'"
  shows "map_sum id visible (prepareSecrets p kc) = map_sum id visible (prepareSecrets p' kc)"
  using assms by (rule prepareSecrets_independent)

definition api_token :: "string \<Rightarrow> entry" where
  "api_token v = (env_entry ''API_TOKEN'' v)\<lparr>en_category := CatSecrets, en_text := ''export API_TOKEN='' @ v\<rparr>"

lemma api_token_withheld: "withheld_value (api_token v) = Some v"
  by (simp add: api_token_def env_entry_def withheld_value_def isExcludableSecretShape_def)

theorem commit_hides_secrets_witness:
  "map_sum id visible (prepareSecrets [env_entry ''FOO'' ''bar'', api_token ''hunter2''] (Some SecretRefFile))
     = map_sum id visible (prepareSecrets [env_entry ''FOO'' ''bar'', api_token ''correct horse''] (Some SecretRefFile))
   \<and> api_token ''hunter2'' \<noteq> api_token ''correct horse''"
proof
  have "same_public (api_token ''hunter2'') (api_token ''correct horse'')"
    by (simp add: same_public_def api_token_withheld)
       (simp add: api_token_def env_entry_def public_part_def)
  then have "list_all2 same_public [env_entry ''FOO'' ''bar'', api_token ''hunter2'']
      [env_entry ''FOO'' ''bar'', api_token ''correct horse'']"
    by (simp add: same_public_def)
  from commit_hides_secrets [OF this]
  show "map_sum id visible (prepareSecrets [env_entry ''FOO'' ''bar'', api_token ''hunter2''] (Some SecretRefFile))
     = map_sum id visible (prepareSecrets [env_entry ''FOO'' ''bar'', api_token ''correct horse''] (Some SecretRefFile))" .
qed (simp add: api_token_def env_entry_def)

text \<open>
  C25: A prepared profile is final. The document validation accepts it exactly when every
  withheld entry was a plain assignment (no append, array, subscript or dynamic marker) and
  every late-bound secret came without an observed value; and then preparing it once more
  changes nothing, reports nothing and writes nothing.
\<close>

theorem prepared_profile_final:
  assumes "prepareSecrets p kc = Inr r" "driver_kind kc"
  shows "(validateCommittedSourceSecrets (pp_profile r) = OK \<longleftrightarrow> list_all storable_secret p)
    \<and> (list_all storable_secret p \<longrightarrow>
         prepareSecrets (pp_profile r) kc = Inr \<lparr>pp_profile = pp_profile r, pp_report = [], pp_pending = []\<rparr>)"
proof -
  have "\<forall>e \<in> set p. withheld_value e \<noteq> None \<longrightarrow> plain_secret e" if "list_all storable_secret p"
    using that by (auto simp: list_all_iff storable_secret_def split: if_splits)
  with prepared_accepted [OF assms] prepareSecrets_again [OF assms] show ?thesis
    by (auto simp: list_all_iff)
qed

lemma api_token_prepared:
  "\<exists>r. prepareSecrets [api_token ''hunter2''] (Some SecretRefFile) = Inr r
     \<and> pp_pending r = [(''API_TOKEN'', ''hunter2'')]"
  by (simp add: prepareSecrets_def prepareEntry_withheld [OF api_token_withheld] captureEntry_def
      prepared_empty_def) (simp add: api_token_def env_entry_def)

theorem prepared_profile_final_witness:
  "\<exists>r. prepareSecrets [api_token ''hunter2''] (Some SecretRefFile) = Inr r
     \<and> validateCommittedSourceSecrets (pp_profile r) = OK
     \<and> prepareSecrets (pp_profile r) (Some SecretRefFile) = Inr \<lparr>pp_profile = pp_profile r, pp_report = [], pp_pending = []\<rparr>"
proof -
  obtain r where r: "prepareSecrets [api_token ''hunter2''] (Some SecretRefFile) = Inr r"
    using api_token_prepared by blast
  have "driver_kind (Some SecretRefFile)" by (simp add: driver_kind_def)
  moreover have "list_all storable_secret [api_token ''hunter2'']"
    by (simp add: storable_secret_def api_token_withheld)
       (simp add: api_token_def env_entry_def plain_secret_def)
  ultimately show ?thesis using prepared_profile_final [OF r] r by blast
qed

text \<open>The shape check lets an appending assignment pass, and the document refuses the result.\<close>

lemma append_is_captured:
  "\<exists>r. prepareSecrets [(api_token ''suffix'')\<lparr>en_append := True\<rparr>] (Some SecretRefFile) = Inr r
     \<and> validateCommittedSourceSecrets (pp_profile r) \<noteq> OK"
proof -
  let ?e = "(api_token ''suffix'')\<lparr>en_append := True\<rparr>"
  have w: "withheld_value ?e = Some ''suffix''"
    by (simp add: api_token_def env_entry_def withheld_value_def isExcludableSecretShape_def)
  obtain r where r: "prepareSecrets [?e] (Some SecretRefFile) = Inr r"
    by (simp add: prepareSecrets_def prepareEntry_withheld [OF w] captureEntry_def)
  have "\<not> (\<forall>e \<in> set [?e]. storable_secret e)"
    by (simp add: storable_secret_def w plain_secret_def)
  with r prepared_accepted [OF r] show ?thesis by (simp add: driver_kind_def)
qed

section \<open>Writing to the vault\<close>

text \<open>
  The writes of a commit are all or nothing on the names they touch. When they succeed
  the vault holds the new values and everything it held before under other names; when one
  fails and the way back did not fail, every touched name holds what it held before.
\<close>

theorem secret_writes_atomic:
  assumes "applyPreparedSecrets ms vaultDriver s = ((ps, err), s')"
    and "distinct (map fst ms)" "list_all (\<lambda>(k, v). vault_key k) ms"
  shows "(err = None \<longrightarrow> vaultHolds s' = vaultHolds s ++ map_of ms)
    \<and> (err \<noteq> None \<and> err \<noteq> Some ErrSecretRollback \<longrightarrow> (\<forall>k \<in> fst ` set ms. vaultHolds s' k = vaultHolds s k))"
proof -
  have "\<forall>k \<in> fst ` set ms. vault_key k" using assms(3) by (auto simp: list_all_iff)
  from vault.apply_atomic [OF assms(1,2) this] show ?thesis by blast
qed

definition small_vault :: "write_outcome list \<Rightarrow> vault_state" where
  "small_vault ws = \<lparr>vf_file = VaultContent (''OLD=eA=='' @ [CHR 0x0A]), vf_writes = ws\<rparr>"

definition new_secret :: "(string \<times> string) list" where
  "new_secret = [(''API_TOKEN'', ''hunter2'')]"

theorem secret_writes_atomic_witness:
  "vaultHolds (snd (applyPreparedSecrets new_secret vaultDriver (small_vault [WriteFailed VaultMissing, Written]))) ''API_TOKEN''
     = vaultHolds (small_vault [WriteFailed VaultMissing, Written]) ''API_TOKEN''"
proof -
  let ?s = "small_vault [WriteFailed VaultMissing, Written]"
  have err: "snd (fst (applyPreparedSecrets new_secret vaultDriver ?s)) = Some ErrSecretBackendUnavailable"
    by code_simp
  have run: "applyPreparedSecrets new_secret vaultDriver ?s =
      ((fst (fst (applyPreparedSecrets new_secret vaultDriver ?s)),
        snd (fst (applyPreparedSecrets new_secret vaultDriver ?s))),
       snd (applyPreparedSecrets new_secret vaultDriver ?s))"
    by simp
  have "distinct (map fst new_secret)" "list_all (\<lambda>(k, v). vault_key k) new_secret"
    "''API_TOKEN'' \<in> fst ` set new_secret"
    by (simp_all add: new_secret_def vault_key_def)
  with secret_writes_atomic [OF run] have
    "\<forall>k \<in> fst ` set new_secret. vaultHolds (snd (applyPreparedSecrets new_secret vaultDriver ?s)) k = vaultHolds ?s k"
    unfolding err by blast
  then show ?thesis using \<open>''API_TOKEN'' \<in> fst ` set new_secret\<close> by (rule bspec)
qed

text \<open>
  Other names are not safe: the file is truncated before it is written, so a failed write can
  lose them although the way back succeeds and the commit only reports that nothing happened.
\<close>

lemma failed_write_loses_others:
  "snd (fst (applyPreparedSecrets new_secret vaultDriver (small_vault [WriteFailed (VaultContent []), Written])))
     = Some ErrSecretBackendUnavailable
   \<and> vaultHolds (small_vault [WriteFailed (VaultContent []), Written]) ''OLD'' = Some ''x''
   \<and> vaultHolds (snd (applyPreparedSecrets new_secret vaultDriver (small_vault [WriteFailed (VaultContent []), Written]))) ''OLD'' = None"
  by (intro conjI) code_simp+

text \<open>
  C26: The vault gives back what was stored, byte for byte, whatever bytes the value has, and
  a successful write leaves every other name readable with its value.
\<close>

theorem vault_round_trip:
  assumes "vaultStore k v s = (OK, s')" "vault_key k"
  shows "vaultRetrieve k' s' = (if k' = k then Inr v else vaultRetrieve k' s)"
proof -
  obtain entries where e: "vaultLoad s = Inr entries" "vaultSave (assoc_put k v entries) s = (OK, s')"
    using assms(1) by (auto simp: vaultStore_def split: sum.splits)
  have "\<exists>entries'. vaultLoad s' = Inr entries'"
    using e(2) by (auto simp: vaultSave_def vaultLoad_def split: list.splits write_outcome.splits)
  then obtain entries' where "vaultLoad s' = Inr entries'" by blast
  moreover have "vaultHolds s' = (vaultHolds s)(k \<mapsto> v)"
    using vault.store_holds [of k v s s'] assms by (simp add: vaultDriver_def)
  ultimately show ?thesis
    by (simp add: vaultRetrieve_holds [OF e(1)] vaultRetrieve_holds)
qed

theorem vault_round_trip_witness:
  "vaultRetrieve ''OLD'' (snd (vaultStore ''PEM_KEY'' [CHR 0x0A, CHR ''='', CHR 0xFF] (small_vault []))) = Inr ''x''
   \<and> vaultRetrieve ''PEM_KEY'' (snd (vaultStore ''PEM_KEY'' [CHR 0x0A, CHR ''='', CHR 0xFF] (small_vault [])))
       = Inr [CHR 0x0A, CHR ''='', CHR 0xFF]"
proof -
  let ?r = "vaultStore ''PEM_KEY'' [CHR 0x0A, CHR ''='', CHR 0xFF] (small_vault [])"
  have "fst ?r = OK" by code_simp
  then have r: "?r = (OK, snd ?r)" by (metis prod.collapse)
  have old: "vaultRetrieve ''OLD'' (small_vault []) = Inr ''x''" by code_simp
  have key: "vault_key ''PEM_KEY''" by (simp add: vault_key_def)
  show ?thesis
    using vault_round_trip [OF r key, of "''OLD''"] vault_round_trip [OF r key, of "''PEM_KEY''"] old by simp
qed

section \<open>The committed document\<close>

text \<open>
  A document the store writes is read back: with a JSON library that decodes what it
  encodes, reading the written payload succeeds and gives the document, its entries in
  stored form (structural markers only where they are known, list values only where they are
  valid). The stored form is accepted again.
\<close>

theorem committed_document_round_trip:
  assumes "MarshalCommittedWorktree J d = Inr payload"
    and "jc_decode J (jc_encode J (committedDTO d) @ [CHR 0x0A]) = Inr (committedDTO d, rest)"
    and "jc_trailing J rest = TrailingEOF"
  shows "UnmarshalCommittedWorktree J payload = Inr (stored_document d)
    \<and> validateCommittedWorktreeDTO (stored_document d) = OK"
proof -
  have "validateCommittedWorktreeDTO d = OK"
    using assms(1) by (auto simp: MarshalCommittedWorktree_def bindR_eq_Inr)
  with committed_round_trip [OF assms] stored_document_valid show ?thesis by blast
qed

definition sample_codec :: json_codec where
  "sample_codec =
     \<lparr>jc_encode = (\<lambda>d. ''{}''), jc_unmarshal = (\<lambda>b. Inr (committedDTO sample_committed)),
      jc_decode = (\<lambda>b. Inr (committedDTO sample_committed, [])), jc_trailing = (\<lambda>b. TrailingEOF)\<rparr>"

theorem committed_document_round_trip_witness:
  "UnmarshalCommittedWorktree sample_codec (''{}'' @ [CHR 0x0A]) = Inr (stored_document sample_committed)"
proof -
  have "validateCommittedWorktreeDTO sample_committed = OK" by code_simp
  then have "MarshalCommittedWorktree sample_codec sample_committed = Inr (''{}'' @ [CHR 0x0A])"
    by (simp add: MarshalCommittedWorktree_def sample_codec_def)
  from committed_document_round_trip [OF this, of "[]"] show ?thesis by (simp add: sample_codec_def)
qed

end
