(* ===== verification/Classifier.thy ===== *)
theory Classifier
  imports Registry
begin

text \<open>
  The zsh classifier of \<^verbatim>\<open>core/shell/zsh/classify.go\<close>: the category and
  confidence of a parsed block, the name pattern of secrets, and the live secret policy the
  registry is created with.
\<close>

section \<open>Case folding, as far as an ASCII search can see\<close>

text \<open>
  \<^verbatim>\<open>strings.ToLower\<close> maps runes. Two runes outside ASCII map to ASCII letters,
  the Kelvin sign (E2 84 AA in UTF-8) to k and the dotted capital I (C4 B0) to i; no other
  rune can take part in a match of an ASCII word, so their bytes are kept as they are. A
  case-insensitive regular expression equates k with the Kelvin sign and s with the long s
  (C5 BF).
\<close>

definition lower_char :: "char \<Rightarrow> char" where
  "lower_char c = (if is_upper c then char_of (of_char c + 32 :: nat) else c)"

fun lower_text :: "string \<Rightarrow> string" where
  "lower_text (a # b # cs) =
     (if a = CHR 0xC4 \<and> b = CHR 0xB0 then CHR ''i'' # lower_text cs
      else if a = CHR 0xE2 \<and> b = CHR 0x84 \<and> take 1 cs = [CHR 0xAA] then CHR ''k'' # lower_text (drop 1 cs)
      else lower_char a # lower_text (b # cs))"
| "lower_text cs = map lower_char cs"

fun fold_text :: "string \<Rightarrow> string" where
  "fold_text (a # b # cs) =
     (if a = CHR 0xC5 \<and> b = CHR 0xBF then CHR ''s'' # fold_text cs
      else if a = CHR 0xE2 \<and> b = CHR 0x84 \<and> take 1 cs = [CHR 0xAA] then CHR ''k'' # fold_text (drop 1 cs)
      else lower_char a # fold_text (b # cs))"
| "fold_text cs = map lower_char cs"

section \<open>Patterns\<close>

text \<open>A pair of words with \<^verbatim>\<open>[_-]?\<close> between them.\<close>

definition joined :: "string \<Rightarrow> string \<Rightarrow> string list" where
  "joined p q = [p @ q, p @ ''_'' @ q, p @ ''-'' @ q]"

definition secret_words :: "string list" where
  "secret_words =
     [''secret'', ''token'', ''passwd'', ''password''] @ joined ''api'' ''key''
     @ joined ''access'' ''key'' @ joined ''private'' ''key'' @ joined ''client'' ''secret''
     @ joined ''auth'' ''token'' @ [''apikey'']"

definition secretRe :: "string \<Rightarrow> bool" where
  "secretRe n = (let folded = fold_text n in list_ex (\<lambda>w. containsSub w folded) secret_words)"

definition pluginHints :: "string list" where
  "pluginHints =
     [''oh-my-zsh'', ''ohmyzsh'', ''zinit'', ''antigen'', ''zplug'', ''zgen'',
      ''antibody'', ''sheldon'', ''zcomet'', ''starship'', ''zoxide'', ''pyenv'', ''nvm'']"

text \<open>
  The code compares the upper-cased name with four list names or looks for
  \<^verbatim>\<open>PATH\<close> inside it. No rune outside ASCII has one of these letters as its
  upper case, so mapping bytes is enough.
\<close>

definition path_name :: "string \<Rightarrow> bool" where
  "path_name n =
     (let u = map upper_char n
      in u = ''PATH'' \<or> u = ''FPATH'' \<or> u = ''MANPATH'' \<or> u = ''CDPATH'' \<or> containsSub ''PATH'' u)"

definition option_commands :: "string list" where
  "option_commands =
     [''setopt'', ''unsetopt'', ''zstyle'', ''autoload'', ''compinit'', ''compdef'', ''zmodload'']"

definition has_any :: "string list \<Rightarrow> string \<Rightarrow> bool" where
  "has_any words text = list_ex (\<lambda>w. containsSub w text) words"

definition host_words :: "string list" where
  "host_words = [''ostype'', ''uname'', ''darwin'', ''linux'', CHR 0x24 # ''host'', ''hostname'']"

section \<open>Classification\<close>

definition Classify :: "block \<Rightarrow> category \<times> confidence" where
  "Classify b =
     (if bk_opaque b then (CatMisc, ConfLow)
      else let text = lower_text (bk_text b)
      in case bk_kind b of
           KindAlias \<Rightarrow> (CatAliases, ConfHigh)
         | KindFuncDecl \<Rightarrow> (CatFunctions, ConfHigh)
         | KindAssignment \<Rightarrow>
             (if list_ex secretRe (bk_names b) then (CatSecrets, ConfHigh)
              else if list_ex path_name (bk_names b) then (CatPath, ConfMedium)
              else (CatEnvironment, ConfHigh))
         | KindCommand \<Rightarrow>
             (if bk_cmd_name b \<in> set option_commands then (CatOptions, ConfHigh)
              else if bk_cmd_name b = ''bindkey'' then (CatKeybindings, ConfHigh)
              else if bk_cmd_name b = ''source'' \<or> bk_cmd_name b = ''.'' then (CatPlugins, ConfMedium)
              else if bk_cmd_name b = ''eval'' then
                (if containsSub ''init'' text \<or> containsSub ''hook'' text \<or> containsSub ''shellenv'' text
                 then (CatPlugins, ConfMedium) else (CatMisc, ConfLow))
              else if has_any pluginHints text then (CatPlugins, ConfMedium)
              else (CatMisc, ConfLow))
         | KindCompound \<Rightarrow>
             (if has_any host_words text then (CatLocal, ConfMedium) else (CatMisc, ConfLow))
         | _ \<Rightarrow>
             (if has_any pluginHints text then (CatPlugins, ConfLow) else (CatMisc, ConfLow)))"

text \<open>The block literal of \<^verbatim>\<open>IsLiveSecretIdentity\<close>; its other fields are zero.\<close>

definition live_block :: "block_kind \<Rightarrow> string \<Rightarrow> string \<Rightarrow> string \<Rightarrow> block" where
  "live_block kind text command name =
     \<lparr>bk_text = text, bk_start_line = 0, bk_kind = kind, bk_cmd_name = command, bk_names = [name],
      bk_exported = False, bk_opaque = False, bk_category = CatOther [], bk_conf = ConfLow,
      bk_value = [], bk_dynamic = False, bk_append = False, bk_flagged = False, bk_array = False,
      bk_indexed = False, bk_alias_assignment = False, bk_declaration_flags = [],
      bk_option_flags = [], bk_value_mode = ValueModeLegacy, bk_runtime_value = None,
      bk_function_body = None, bk_list_value = None\<rparr>"

definition IsLiveSecretIdentity :: "identity \<Rightarrow> bool" where
  "IsLiveSecretIdentity i =
     (if ValidateIdentity i \<noteq> OK then False
      else let name = id_name i;
               secret = (\<lambda>b. fst (Classify b) = CatSecrets)
        in case id_kind i of
             LiveEnv \<Rightarrow> secret (live_block KindAssignment (name @ ''='') [] name)
           | LivePath \<Rightarrow> secret (live_block KindAssignment (name @ ''='') [] name)
           | LiveFPath \<Rightarrow> secret (live_block KindAssignment (name @ ''='') [] name)
           | LiveAlias \<Rightarrow> secret (live_block KindAlias [] ''alias'' name)
           | LiveFunction \<Rightarrow> secret (live_block KindFuncDecl [] [] name)
           | LiveOption \<Rightarrow> secret (live_block KindCommand (''setopt '' @ name) ''setopt'' name)
           | LiveOther _ \<Rightarrow> False)"

section \<open>Facts\<close>

text \<open>A block is a secret exactly when it is an understood assignment of a secret name.\<close>

lemma Classify_secret:
  "fst (Classify b) = CatSecrets \<longleftrightarrow>
     \<not> bk_opaque b \<and> bk_kind b = KindAssignment \<and> (\<exists>n \<in> set (bk_names b). secretRe n)"
  by (cases "bk_kind b") (auto simp: Classify_def Let_def list_ex_iff)

lemma Classify_assignment:
  "bk_kind b = KindAssignment \<Longrightarrow> \<not> bk_opaque b \<Longrightarrow>
     fst (Classify b) \<in> {CatSecrets, CatPath, CatEnvironment}"
  by (simp add: Classify_def Let_def)

lemma live_block_sel [simp]:
  "bk_kind (live_block k t c n) = k" "bk_names (live_block k t c n) = [n]"
  "bk_opaque (live_block k t c n) = False" "bk_cmd_name (live_block k t c n) = c"
  by (simp_all add: live_block_def)

lemma search_names_plain: "\<not> secretRe ''PATH''" "\<not> secretRe ''FPATH''"
  by code_simp+

lemma IsLiveSecretIdentity_iff:
  "IsLiveSecretIdentity i \<longleftrightarrow> ValidateIdentity i = OK \<and> id_kind i = LiveEnv \<and> secretRe (id_name i)"
proof -
  have "id_name i = ''PATH''" if "ValidateIdentity i = OK" "id_kind i = LivePath"
    using that by (auto simp: ValidateIdentity_def split: if_splits)
  moreover have "id_name i = ''FPATH''" if "ValidateIdentity i = OK" "id_kind i = LiveFPath"
    using that by (auto simp: ValidateIdentity_def split: if_splits)
  ultimately show ?thesis
    using search_names_plain
    by (cases "id_kind i") (auto simp: IsLiveSecretIdentity_def Classify_secret Let_def)
qed

end
