(* ===== verification/ProfileIR.thy ===== *)
theory ProfileIR
  imports Classifier
begin

text \<open>
  The profile intermediate representation of \<^verbatim>\<open>core/ir\<close>: building one entry
  per parsed block (build.go), the gate between managed and verbatim entries (route.go),
  emitting a profile again (regen.go), and the zsh templates it is emitted with
  (\<^verbatim>\<open>Provider.Regenerate\<close> in core/shell/zsh/regen.go). The classifier and the
  regenerator are parameters of the agnostic functions, as in the code.
\<close>

section \<open>Routing\<close>

definition routeManaged :: "block \<Rightarrow> category \<Rightarrow> bool" where
  "routeManaged b cat =
     (if bk_opaque b then False
      else case bk_kind b of
        KindAlias \<Rightarrow> length (bk_names b) = 1 \<and> \<not> bk_flagged b
      | KindFuncDecl \<Rightarrow> True
      | KindAssignment \<Rightarrow>
          (if length (bk_names b) \<noteq> 1 \<or> bk_append b then False
           else if bk_cmd_name b \<in> set declaration_commands then False
           else if bk_array b then False
           else cat = CatEnvironment \<or> cat = CatPath \<or> cat = CatSecrets)
      | KindCommand \<Rightarrow>
          cat = CatOptions \<and> (bk_cmd_name b = ''setopt'' \<or> bk_cmd_name b = ''unsetopt'')
          \<and> 0 < length (bk_names b)
      | _ \<Rightarrow> False)"

section \<open>Building\<close>

definition cloneListValue :: "list_value option \<Rightarrow> list_value option" where
  "cloneListValue v =
     (case v of
        None \<Rightarrow> None
      | Some l \<Rightarrow> (if \<not> listValueValid l then None else Some \<lparr>lv_segments = lv_segments l\<rparr>))"

text \<open>The entry literal of the loop body. A list stands for a nil and for an empty slice.\<close>

definition buildProfileEntry :: "(block \<Rightarrow> category \<times> confidence) \<Rightarrow> block \<Rightarrow> entry" where
  "buildProfileEntry classify b =
     (let cat = fst (classify b)
      in \<lparr>en_text = bk_text b, en_start_line = bk_start_line b, en_category = cat,
          en_kind = bk_kind b, en_cmd_name = bk_cmd_name b, en_names = bk_names b,
          en_value = bk_value b, en_exported = bk_exported b, en_managed = routeManaged b cat,
          en_override = OverrideAuto, en_dynamic = bk_dynamic b,
          en_fidelity_known = (\<not> bk_opaque b), en_append = bk_append b, en_array = bk_array b,
          en_flagged = bk_flagged b, en_indexed = bk_indexed b,
          en_alias_assignment = bk_alias_assignment b,
          en_declaration_flags = bk_declaration_flags b, en_option_flags = bk_option_flags b,
          en_secret = None, en_value_mode = bk_value_mode b, en_runtime_value = bk_runtime_value b,
          en_function_body = bk_function_body b, en_list_value = cloneListValue (bk_list_value b)\<rparr>)"

definition buildProfile :: "block list \<Rightarrow> (block \<Rightarrow> category \<times> confidence) \<Rightarrow> profile" where
  "buildProfile blocks classify = map (buildProfileEntry classify) blocks"

section \<open>Emitting\<close>

definition newline :: string where
  "newline = [CHR 0x0A]"

definition regenerateProfile :: "profile \<Rightarrow> (entry \<Rightarrow> string) \<Rightarrow> string" where
  "regenerateProfile p regenerate =
     concat (map (\<lambda>e. (if EffectiveManaged e \<and> Representable e then regenerate e else en_text e)
       @ newline) p)"

fun joinWith :: "string \<Rightarrow> string list \<Rightarrow> string" where
  "joinWith sep [] = []"
| "joinWith sep [x] = x"
| "joinWith sep (x # y # xs) = x @ sep @ joinWith sep (y # xs)"

text \<open>The zsh provider's templates.\<close>

definition regenerateEntry :: "entry \<Rightarrow> string" where
  "regenerateEntry e =
     (if en_fidelity_known e \<and> \<not> Representable e then en_text e
      else case en_kind e of
        KindAssignment \<Rightarrow>
          (if en_names e = [] then en_text e
           else if en_value e = [] then en_text e
           else if en_exported e then ''export '' @ hd (en_names e) @ ''='' @ en_value e
           else hd (en_names e) @ ''='' @ en_value e)
      | KindAlias \<Rightarrow>
          (if en_names e = [] then en_text e else ''alias '' @ hd (en_names e) @ ''='' @ en_value e)
      | KindFuncDecl \<Rightarrow> en_value e
      | KindCommand \<Rightarrow>
          (if en_cmd_name e = ''setopt'' \<or> en_cmd_name e = ''unsetopt'' then
             (if en_names e = [] then en_text e
              else en_cmd_name e @ '' '' @ joinWith '' '' (en_names e))
           else en_text e)
      | _ \<Rightarrow> en_text e)"

section \<open>Facts\<close>

lemma buildProfileEntry_sel [simp]:
  "en_text (buildProfileEntry c b) = bk_text b" "en_kind (buildProfileEntry c b) = bk_kind b"
  "en_names (buildProfileEntry c b) = bk_names b" "en_value (buildProfileEntry c b) = bk_value b"
  "en_cmd_name (buildProfileEntry c b) = bk_cmd_name b"
  "en_category (buildProfileEntry c b) = fst (c b)" "en_secret (buildProfileEntry c b) = None"
  "en_exported (buildProfileEntry c b) = bk_exported b"
  "en_fidelity_known (buildProfileEntry c b) = (\<not> bk_opaque b)"
  "en_append (buildProfileEntry c b) = bk_append b" "en_array (buildProfileEntry c b) = bk_array b"
  "en_flagged (buildProfileEntry c b) = bk_flagged b" "en_indexed (buildProfileEntry c b) = bk_indexed b"
  "en_alias_assignment (buildProfileEntry c b) = bk_alias_assignment b"
  "en_declaration_flags (buildProfileEntry c b) = bk_declaration_flags b"
  "en_option_flags (buildProfileEntry c b) = bk_option_flags b"
  "en_dynamic (buildProfileEntry c b) = bk_dynamic b"
  "en_value_mode (buildProfileEntry c b) = bk_value_mode b"
  "en_runtime_value (buildProfileEntry c b) = bk_runtime_value b"
  "EffectiveManaged (buildProfileEntry c b) = routeManaged b (fst (c b))"
  by (simp_all add: buildProfileEntry_def EffectiveManaged_def Let_def)

text \<open>What is left to check once the router manages a block.\<close>

definition block_representable :: "block \<Rightarrow> bool" where
  "block_representable b =
     (\<not> bk_indexed b \<and> bk_declaration_flags b = []
      \<and> (bk_kind b = KindAlias \<longrightarrow> bk_alias_assignment b)
      \<and> (bk_kind b = KindCommand \<longrightarrow> optionSyntaxRepresentable (bk_option_flags b)))"

lemma managed_representable:
  assumes "routeManaged b (fst (c b))"
  shows "Representable (buildProfileEntry c b) \<longleftrightarrow> block_representable b"
  using assms
  by (cases "bk_kind b")
     (auto simp: routeManaged_def Representable_def DeclarationRepresentable_def block_representable_def
       split: if_splits)

text \<open>The canonical spelling of a managed statement, from the fields of its block.\<close>

definition canonical_text :: "block \<Rightarrow> string" where
  "canonical_text b =
     (case bk_kind b of
        KindAssignment \<Rightarrow>
          (if bk_value b = [] then bk_text b
           else (if bk_exported b then ''export '' else []) @ hd (bk_names b) @ ''='' @ bk_value b)
      | KindAlias \<Rightarrow> ''alias '' @ hd (bk_names b) @ ''='' @ bk_value b
      | KindFuncDecl \<Rightarrow> bk_value b
      | _ \<Rightarrow> bk_cmd_name b @ '' '' @ joinWith '' '' (bk_names b))"

definition templated :: "(block \<Rightarrow> category \<times> confidence) \<Rightarrow> block \<Rightarrow> bool" where
  "templated c b \<longleftrightarrow> routeManaged b (fst (c b)) \<and> block_representable b"

lemma templated_entry:
  "EffectiveManaged (buildProfileEntry c b) \<and> Representable (buildProfileEntry c b) \<longleftrightarrow> templated c b"
  using managed_representable [of b c] by (auto simp: templated_def)

lemma regenerateEntry_templated:
  assumes "templated c b"
  shows "regenerateEntry (buildProfileEntry c b) = canonical_text b"
proof -
  have r: "Representable (buildProfileEntry c b)" and m: "routeManaged b (fst (c b))"
    using assms templated_entry [of c b] by (auto simp: templated_def)
  show ?thesis
    using m by (cases "bk_kind b")
      (auto simp: regenerateEntry_def canonical_text_def routeManaged_def r split: if_splits)
qed

lemma regenerate_built:
  "regenerateProfile (buildProfile bs c) regenerateEntry =
     concat (map (\<lambda>b. (if templated c b then canonical_text b else bk_text b) @ newline) bs)"
proof -
  have line: "(if EffectiveManaged (buildProfileEntry c b) \<and> Representable (buildProfileEntry c b)
      then regenerateEntry (buildProfileEntry c b) else en_text (buildProfileEntry c b)) =
      (if templated c b then canonical_text b else bk_text b)" for b
    unfolding templated_entry using regenerateEntry_templated [of c b] by auto
  show ?thesis
    unfolding regenerateProfile_def buildProfile_def map_map comp_def line ..
qed

end
