(* ===== verification/SourceProperties.thy ===== *)
theory SourceProperties
  imports ProfileIR CommittedFacts RepoSamples
begin

text \<open>
  The properties of the way from parsed source to a profile: the classifier
  (\<^verbatim>\<open>core/shell/zsh/classify.go\<close>), the profile IR (\<^verbatim>\<open>core/ir\<close>) and
  what a late-bound secret in the source means for later commits.
\<close>

section \<open>Secret names\<close>



section \<open>Emitting a profile\<close>


definition export_block :: "string \<Rightarrow> string \<Rightarrow> block" where
  "export_block n v =
     (live_block KindAssignment (''export '' @ n @ ''='' @ v) ''export'' n)\<lparr>bk_exported := True, bk_value := v\<rparr>"


text \<open>
  The router manages more than the templates can reproduce: a subscripted assignment, an alias
  query and an attribute declaration are managed, and only the second gate keeps them verbatim.
\<close>

lemma managed_not_representable:
  "routeManaged ((export_block ''ARR'' ''x'')\<lparr>bk_indexed := True\<rparr>) CatEnvironment
   \<and> \<not> Representable (buildProfileEntry (\<lambda>b. (CatEnvironment, ConfHigh)) ((export_block ''ARR'' ''x'')\<lparr>bk_indexed := True\<rparr>))"
  by code_simp

section \<open>Late-bound secrets and commits\<close>

lemma fold_put_keeps:
  "map_of m i \<noteq> None \<Longrightarrow> map_of (fold (\<lambda>x. assoc_put (f x) (g x)) xs m) i \<noteq> None"
  by (induction xs arbitrary: m) auto

lemma fold_put_binds:
  "x \<in> set xs \<Longrightarrow> map_of (fold (\<lambda>x. assoc_put (f x) (g x)) xs m) (f x) \<noteq> None"
proof (induction xs arbitrary: m)
  case (Cons y xs)
  then show ?case
    using fold_put_keeps [of "assoc_put (f y) (g y) m" "f x" f g xs] by (cases "x = y") auto
qed simp

lemma manifestValues_env:
  assumes "s \<in> set (mf_env m)"
  shows "map_of (manifestValues m) (Identity LiveEnv (mv_name s)) \<noteq> None"
proof -
  let ?i = "Identity LiveEnv (mv_name s)"
  have keep: "map_of vs ?i \<noteq> None \<Longrightarrow> map_of (fold (\<lambda>name vs. case map_of bodies name of
      None \<Rightarrow> vs | Some body \<Rightarrow> assoc_put (Identity LiveFunction name) (ScalarLiveValue body) vs) ns vs) ?i \<noteq> None"
    for bodies ns vs
    by (induction ns arbitrary: vs) (auto split: option.split)
  have "map_of (fold (\<lambda>s. assoc_put (Identity LiveEnv (mv_name s)) (ScalarLiveValue (mv_applied s))) (mf_env m) []) ?i \<noteq> None"
    using fold_put_binds [OF assms, of "\<lambda>s. Identity LiveEnv (mv_name s)" "\<lambda>s. ScalarLiveValue (mv_applied s)"] by simp
  then have "map_of (fold (\<lambda>(name, body). assoc_put (Identity LiveAlias name) (ScalarLiveValue body))
      (al_added (mf_aliases m)) (fold (\<lambda>s. assoc_put (Identity LiveEnv (mv_name s)) (ScalarLiveValue (mv_applied s))) (mf_env m) [])) ?i \<noteq> None"
    using fold_put_keeps [of _ ?i "\<lambda>a. Identity LiveAlias (fst a)" "\<lambda>a. ScalarLiveValue (snd a)"]
    by (simp add: case_prod_beta')
  then show ?thesis
    unfolding manifestValues_def Let_def by (intro fold_put_keeps keep)
qed

lemma fold_put_all:
  "\<forall>y \<in> set m. P (snd y) \<Longrightarrow> (\<And>x. P (g x)) \<Longrightarrow> \<forall>y \<in> set (fold (\<lambda>x. assoc_put (f x) (g x)) xs m). P (snd y)"
proof (induction xs arbitrary: m)
  case (Cons x xs)
  have "\<forall>y \<in> set (assoc_put (f x) (g x) m). P (snd y)"
    using Cons.prems set_assoc_put_subset [of "f x" "g x" m] by auto
  with Cons.IH Cons.prems(2) show ?case by simp
qed simp

lemma present_values:
  "lv_present (ScalarLiveValue v)" "lv_present (ListLiveValue xs)" "lv_present (OptionLiveValue b)"
  by (simp_all add: ScalarLiveValue_def ListLiveValue_def OptionLiveValue_def)

lemma manifestValues_present:
  assumes "map_of (manifestValues m) i = Some w"
  shows "lv_present w"
proof -
  let ?P = "\<lambda>vs :: (identity \<times> live_value) list. \<forall>y \<in> set vs. lv_present (snd y)"
  have bodies: "?P vs \<Longrightarrow> ?P (fold (\<lambda>name vs. case map_of bodies name of
      None \<Rightarrow> vs | Some body \<Rightarrow> assoc_put (Identity LiveFunction name) (ScalarLiveValue body) vs) ns vs)"
    for bodies ns vs
  proof (induction ns arbitrary: vs)
    case (Cons n ns)
    have "?P (assoc_put (Identity LiveFunction n) (ScalarLiveValue b) vs)" for b
      using Cons.prems set_assoc_put_subset [of "Identity LiveFunction n" "ScalarLiveValue b" vs]
      by (auto simp: present_values)
    from Cons.IH [OF this] Cons.IH [OF Cons.prems] show ?case
      by (cases "map_of bodies n") simp_all
  qed simp
  have aliases: "?P vs \<Longrightarrow> ?P (fold (\<lambda>(name, body). assoc_put (Identity LiveAlias name) (ScalarLiveValue body)) as vs)"
    for as vs
    using fold_put_all [of vs lv_present "\<lambda>a. ScalarLiveValue (snd a)" "\<lambda>a. Identity LiveAlias (fst a)" as]
    by (simp add: case_prod_beta' present_values)
  have "?P (manifestValues m)"
    unfolding manifestValues_def Let_def
    by (intro fold_put_all bodies aliases) (simp_all add: present_values)
  with map_of_SomeD [OF assms] show ?thesis by auto
qed

lemma contributed_is_live:
  assumes "e \<in> set p" "envContribution e = Some (n, v, d, x)"
  shows "live_map (liveStatesFromManifest p (Build p)) (Identity LiveEnv n) \<noteq> None"
proof -
  let ?cs = "List.map_filter envContribution p" and ?i = "Identity LiveEnv n"
  let ?m = "Build p"
  have "n \<in> fst ` set ?cs" using assms by (force simp: in_map_filter)
  then have "n \<in> fst ` set (keep_last fst ?cs)" by simp
  then obtain c where "c \<in> set (keep_last fst ?cs)" "fst c = n" by (auto simp del: key_keep_last)
  then have "envScalar ?cs c \<in> set (mf_env ?m)"
    unfolding Build_env Let_def set_map by (intro imageI)
  moreover have "mv_name (envScalar ?cs c) = n"
    using \<open>fst c = n\<close> by (simp add: envScalar_def)
  ultimately obtain s where s: "s \<in> set (mf_env ?m)" "mv_name s = n" by blast
  then obtain w where w: "map_of (manifestValues ?m) ?i = Some w"
    using manifestValues_env [of s ?m] by auto
  have "?i \<in> ls_identity ` set (liveStatesFromManifest p ?m)"
    unfolding liveStatesFromManifest_def Let_def
    by (rule appendStates_complete [OF _ _ w]) (use s in auto)
  then obtain t where t: "t \<in> set (liveStatesFromManifest p ?m)" "ls_identity t = ?i" by auto
  have "lv_present (ls_value t)"
  proof -
    have "ls_value t = CloneLiveValue w"
      using appendStates_members [of t "manifestValues ?m" "{}"] t w
      by (auto simp: liveStatesFromManifest_def Let_def)
    moreover have "lv_present w"
      using manifestValues_present [OF w] .
    ultimately show ?thesis by simp
  qed
  with t live_map_distinct [OF liveStatesFromManifest_distinct, of p ?m ?i] show ?thesis by auto
qed

lemma valid_late_bound_secret:
  assumes "validateCommittedWorktreeDTO d = OK" "e \<in> set (cw_source d)"
    and "en_category e = CatSecrets" "en_secret e = None"
  shows "\<exists>n. en_names e = [n] \<and> en_kind e = KindAssignment \<and> activationValue e = Some (en_value e, True)
    \<and> live_map (pr_states (cw_projection d)) (Identity LiveEnv n) = None"
proof -
  have ok: "validateSourceEntry e = OK"
    and pins: "ls_identity ` set (pr_states (cw_projection d)) \<inter> committedSourceSecretIdentities (cw_source d) = {}"
    using assms(1,2)
    by (auto simp: validateCommittedWorktreeDTO_OK validateCommittedSourceSecrets_def forE_eq_OK)
  have shape: "isExcludableSecretShape e" "en_value_mode e = ValueModeDynamic" "en_dynamic e"
    using ok assms(3,4) by (auto simp: validateSourceEntry_def split: if_splits)
  then obtain n where n: "en_names e = [n]" "en_kind e = KindAssignment"
    by (auto simp: isExcludableSecretShape_def length_Suc_conv)
  have "Identity LiveEnv n \<in> committedSourceSecretIdentities (cw_source d)"
    using assms(2,3) n by (force simp: committedSourceSecretIdentities_def)
  with pins have "Identity LiveEnv n \<notin> ls_identity ` set (pr_states (cw_projection d))" by blast
  then have "live_map (pr_states (cw_projection d)) (Identity LiveEnv n) = None"
    using dom_live_map_subset by blast
  with n shape show ?thesis by (simp add: activationValue_def)
qed

text \<open>
  C36: A profile with a managed late-bound secret (TOKEN exported from a command
  substitution, which the store accepts and commits verbatim) takes no commit from a shell: the document rebuilt
  from the source gives the secret a live state, which the shared state of a valid document
  never has, so every commit of any change fails without asking the repository.
\<close>

theorem late_bound_secret_blocks_commit:
  assumes "wt_inv st" "validateCommittedWorktreeDTO (st_committed st) = OK"
    and "workflowChanges st = Inr changes" "changes \<noteq> []"
    and "x \<in> set (cw_source (st_committed st))" "EffectiveManaged x" "Representable x"
      "en_category x = CatSecrets" "en_secret x = None"
    and "shared_map st (Identity LiveEnv (hd (en_names x))) = None"
  shows "\<exists>err. commitTx R message e st = (Inl err, e)"
proof -
  obtain n where n: "en_names x = [n]" "en_kind x = KindAssignment" "activationValue x = Some (en_value x, True)"
    "committed_map st (Identity LiveEnv n) = None"
    using valid_late_bound_secret [OF assms(2,5,8,9)] by blast
  have "envContribution x = Some (n, en_value x, True, en_exported x)"
    using n assms(6,7,8) by (simp add: envContribution_def)
  from contributed_is_live [OF assms(5) this] n(1,4) assms(10)
  have "committed_map st (Identity LiveEnv n) = shared_map st (Identity LiveEnv n)"
    "live_map (liveStatesFromManifest (cw_source (st_committed st)) (Build (cw_source (st_committed st))))
       (Identity LiveEnv n) \<noteq> shared_map st (Identity LiveEnv n)"
    by auto
  from commitTx_stale [OF assms(1,3,4) this] show ?thesis .
qed

definition late_bound_token :: entry where
  "late_bound_token = (env_entry ''API_TOKEN'' [CHR 0x24, CHR ''T''])\<lparr>en_category := CatSecrets,
     en_dynamic := True, en_value_mode := ValueModeDynamic, en_runtime_value := None\<rparr>"

definition token_committed :: committed_worktree where
  "token_committed = NewCommittedWorktree (sample_source @ [late_bound_token])
     \<lparr>pr_schema = WorktreeSchemaV1, pr_states = [set_to foo ''bar''], pr_tombstones = []\<rparr>"

definition token_state :: wt_state where
  "token_state = adoptObject sample_oid token_committed published_state"

lemma token_valid: "validateCommitted token_committed = OK" "validateCommittedWorktreeDTO token_committed = OK"
  by code_simp+

lemma token_inv: "wt_inv token_state"
  unfolding token_state_def using published_inv oids(2) token_valid(1) by (rule adoptObject_inv)

lemma token_state_sel:
  "st_committed token_state = token_committed" "st_shared token_state = st_shared published_state"
  by (simp_all add: token_state_def adoptObject_def token_committed_def)

lemma token_dirty: "workflowChanges token_state = Inr alice_delta"
  using published_dirty
  by (simp add: workflowChanges_def token_state_sel) (simp add: token_committed_def CloneLiveStates_def alice_pieces)

theorem late_bound_secret_blocks_commit_witness:
  "\<exists>err. commitTx sample_repo ''more'' sample_env token_state = (Inl err, sample_env)"
proof (rule late_bound_secret_blocks_commit [OF token_inv _ token_dirty, of late_bound_token])
  show "validateCommittedWorktreeDTO (st_committed token_state) = OK"
    by (simp add: token_state_sel token_valid)
  show "late_bound_token \<in> set (cw_source (st_committed token_state))"
    by (simp add: token_state_sel token_committed_def)
  show "EffectiveManaged late_bound_token" "Representable late_bound_token"
    "en_category late_bound_token = CatSecrets" "en_secret late_bound_token = None"
    by code_simp+
  show "shared_map token_state (Identity LiveEnv (hd (en_names late_bound_token))) = None"
    unfolding token_state_sel by code_simp
qed (simp add: alice_delta_sel)

end
