(* ===== verification/LiveEmit.thy ===== *)
theory LiveEmit
  imports WorkflowService Activation ProfileIR CommittedDoc
begin

text \<open>
  The shell text of live states, patches and committed documents: the quoting and the live
  half of \<^verbatim>\<open>core/shell/zsh/emit.go\<close> and \<^verbatim>\<open>RegenerateWorktree\<close> of
  \<^verbatim>\<open>core/shell/zsh/regen.go\<close>. A byte slice is a string.
\<close>

section \<open>Quoting and names\<close>

definition replaceChar :: "char \<Rightarrow> string \<Rightarrow> string \<Rightarrow> string" where
  "replaceChar c r s = concat (map (\<lambda>x. if x = c then r else [x]) s)"

definition zquote :: "string \<Rightarrow> string" where
  "zquote s = [quote_char] @ replaceChar quote_char [quote_char, CHR 0x5C, quote_char, quote_char] s @ [quote_char]"

definition quoteFunctionBody :: "string \<Rightarrow> string" where
  "quoteFunctionBody s =
     (let s = replaceChar (CHR 0x5C) [CHR 0x5C, CHR 0x5C] s;
          s = replaceChar (CHR 0x22) [CHR 0x5C, CHR 0x22] s;
          s = replaceChar (CHR 0x24) [CHR 0x5C, CHR 0x24] s;
          s = replaceChar (CHR 0x60) [CHR 0x5C, CHR 0x60] s
      in [CHR 0x22] @ s @ [CHR 0x22])"

definition safeEnvName :: "string \<Rightarrow> bool" where
  "safeEnvName = match_first_rest (\<lambda>c. is_alpha c \<or> c = CHR ''_'') (\<lambda>c. is_alnum c \<or> c = CHR ''_'')"

definition safeOptionName :: "string \<Rightarrow> bool" where
  "safeOptionName = match_first_rest (\<lambda>c. is_alpha c \<or> c = CHR ''_'') (\<lambda>c. is_alnum c \<or> c = CHR ''_'')"

definition safeAliasFuncName :: "string \<Rightarrow> bool" where
  "safeAliasFuncName =
     match_first_rest (\<lambda>c. is_alnum c \<or> c = CHR ''_'') (\<lambda>c. is_alnum c \<or> c \<in> set ''_.-'')"

text \<open>
  \<^verbatim>\<open>strings.ToUpper\<close> can turn no character outside ASCII into a letter of the
  reserved prefix, so upper-casing bytes is enough.
\<close>

definition reservedWorktreeReplyName :: "string \<Rightarrow> bool" where
  "reservedWorktreeReplyName name = has_prefix ''ZP_WORKTREE_REPLY_'' (map upper_char name)"

definition safeRuntimeLiveFunctionName :: "string \<Rightarrow> bool" where
  "safeRuntimeLiveFunctionName name \<longleftrightarrow> safeAliasFuncName name \<and> \<not> reservedWorktreeReplyName name"

section \<open>One state and one removal\<close>

definition emitLiveIdentityState :: "live_state \<Rightarrow> bool \<Rightarrow> string result" where
  "emitLiveIdentityState s exported =
     (let n = id_name (ls_identity s); v = ls_value s
      in bindR (ValidateLiveIdentityState s) (\<lambda>_.
        if \<not> lv_present v then Inl (Errorf ''live identity %s/%s has no value'')
        else case id_kind (ls_identity s) of
          LiveEnv \<Rightarrow>
            (if \<not> safeEnvName n \<or> lv_scalar v = None
             then Inl (Errorf ''live environment identity is invalid'')
             else if exported then Inr (''export '' @ n @ ''='' @ zquote (the (lv_scalar v)) @ newline)
             else Inr (''typeset -g '' @ n @ ''='' @ zquote (the (lv_scalar v)) @ newline))
        | LiveAlias \<Rightarrow>
            (if \<not> safeAliasFuncName n \<or> lv_scalar v = None
             then Inl (Errorf ''live alias identity is invalid'')
             else Inr (''alias '' @ n @ ''='' @ zquote (the (lv_scalar v)) @ newline))
        | LiveFunction \<Rightarrow>
            (if \<not> safeAliasFuncName n \<or> lv_scalar v = None
             then Inl (Errorf ''live function identity is invalid'')
             else Inr (''functions['' @ n @ '']='' @ quoteFunctionBody (the (lv_scalar v)) @ newline))
        | LivePath \<Rightarrow>
            Inr (''path'' @ ''=('' @ joinWith '' '' (map zquote (list_elements v)) @ '')'' @ newline)
        | LiveFPath \<Rightarrow>
            Inr (''fpath'' @ ''=('' @ joinWith '' '' (map zquote (list_elements v)) @ '')'' @ newline)
        | LiveOption \<Rightarrow>
            (if \<not> safeOptionName n \<or> lv_option v = None
             then Inl (Errorf ''live option identity is invalid'')
             else if the (lv_option v) then Inr (''setopt '' @ n @ newline)
             else Inr (''unsetopt '' @ n @ newline))
        | LiveOther _ \<Rightarrow> Inl (Errorf ''live identity kind %q is unsupported'')))"

definition emitLiveIdentityTombstone :: "identity \<Rightarrow> string result" where
  "emitLiveIdentityTombstone i =
     (let n = id_name i
      in bindR (ValidateIdentity i) (\<lambda>_.
        case id_kind i of
          LiveEnv \<Rightarrow>
            (if \<not> safeEnvName n then Inl (Errorf ''live environment identity is invalid'')
             else Inr (''unset '' @ n @ newline))
        | LiveAlias \<Rightarrow>
            (if \<not> safeAliasFuncName n then Inl (Errorf ''live alias identity is invalid'')
             else Inr (''unalias '' @ n @ '' 2>/dev/null || :'' @ newline))
        | LiveFunction \<Rightarrow>
            (if \<not> safeAliasFuncName n then Inl (Errorf ''live function identity is invalid'')
             else Inr (''unset -f '' @ n @ '' 2>/dev/null || :'' @ newline))
        | LivePath \<Rightarrow> Inr (''unset PATH path'' @ newline)
        | LiveFPath \<Rightarrow> Inr (''unset FPATH fpath'' @ newline)
        | LiveOption \<Rightarrow>
            (if \<not> safeOptionName n then Inl (Errorf ''live option identity is invalid'')
             else Inr (''unsetopt '' @ n @ newline))
        | LiveOther _ \<Rightarrow> Inl (Errorf ''live identity kind %q is unsupported'')))"

section \<open>Operations of a patch\<close>

text \<open>
  A removed side must be nil in the code and is empty here; the planner leaves a side that is
  not present nil.
\<close>

definition validateLiveListSide :: "live_kind \<Rightarrow> bool \<Rightarrow> string list \<Rightarrow> unit result" where
  "validateLiveListSide kind present elements =
     (if present then ValidateLiveValue kind (ListLiveValue elements)
      else if elements \<noteq> [] then Inl (Errorf ''removed live list carries elements'')
      else ValidateLiveValue kind RemovedLiveValue)"

definition scalar_kind :: "live_kind \<Rightarrow> bool" where
  "scalar_kind k \<longleftrightarrow> k = LiveEnv \<or> k = LiveAlias \<or> k = LiveFunction"

definition emitLiveOperation :: "op \<Rightarrow> string result" where
  "emitLiveOperation operation =
     (case operation of
        SetLiveScalar i v \<Rightarrow>
          (if \<not> scalar_kind (id_kind i) then Inl (Errorf ''set-live-scalar kind %q is unsupported'')
           else emitLiveIdentityState \<lparr>ls_identity = i, ls_value = ScalarLiveValue v\<rparr> True)
      | RemoveLiveScalar i \<Rightarrow>
          (if \<not> scalar_kind (id_kind i) then Inl (Errorf ''remove-live-scalar kind %q is unsupported'')
           else emitLiveIdentityTombstone i)
      | TransitionLiveList i before_present after_present before after \<Rightarrow>
          (if id_kind i \<noteq> LivePath \<and> id_kind i \<noteq> LiveFPath
           then Inl (Errorf ''live-list-transition kind %q is unsupported'')
           else bindR (validateLiveListSide (id_kind i) before_present before) (\<lambda>_.
             bindR (validateLiveListSide (id_kind i) after_present after) (\<lambda>_.
               if \<not> after_present then emitLiveIdentityTombstone i
               else emitLiveIdentityState \<lparr>ls_identity = i, ls_value = ListLiveValue after\<rparr> True)))
      | SetLiveOptionState i enabled \<Rightarrow>
          (if id_kind i \<noteq> LiveOption then Inl (Errorf ''set-live-option kind %q is unsupported'')
           else emitLiveIdentityState \<lparr>ls_identity = i, ls_value = OptionLiveValue enabled\<rparr> True)
      | RemoveLiveOptionState i \<Rightarrow>
          (if id_kind i \<noteq> LiveOption then Inl (Errorf ''remove-live-option kind %q is unsupported'')
           else emitLiveIdentityTombstone i)
      | _ \<Rightarrow> Inl (Errorf ''live patch: unsupported operation %T''))"

definition status_lines :: string where
  "status_lines =
     ''  typeset -i __zp_live_operation_status=$?'' @ newline
     @ ''  (( __zp_live_operation_status == 0 )) || return \"$__zp_live_operation_status\"'' @ newline"

definition emitCheckedLiveOperation :: "op \<Rightarrow> string result" where
  "emitCheckedLiveOperation operation =
     bindR (emitLiveOperation operation) (\<lambda>source. Inr (source @ status_lines))"

definition liveOperationIdentity :: "op \<Rightarrow> identity result" where
  "liveOperationIdentity operation =
     (case operation of
        SetLiveScalar i v \<Rightarrow> Inr i
      | RemoveLiveScalar i \<Rightarrow> Inr i
      | TransitionLiveList i bp ap b a \<Rightarrow> Inr i
      | SetLiveOptionState i b \<Rightarrow> Inr i
      | RemoveLiveOptionState i \<Rightarrow> Inr i
      | _ \<Rightarrow> Inl (Errorf ''live patch: unsupported operation %T''))"

definition validateAndEmitLiveOperations :: "op list \<Rightarrow> string list result" where
  "validateAndEmitLiveOperations operations =
     mapR (\<lambda>operation.
       bindR (liveOperationIdentity operation) (\<lambda>i.
         if reservedWorktreeReplyName (id_name i)
         then Inl (Errorf ''live identity %q uses the reserved acknowledgement namespace'')
         else emitCheckedLiveOperation operation)) operations"

definition EmitLivePatch :: "op list \<Rightarrow> op list \<Rightarrow> string \<Rightarrow> string \<Rightarrow> string result" where
  "EmitLivePatch forward reverse applyName reverseName =
     (if \<not> safeRuntimeLiveFunctionName applyName \<or> \<not> safeRuntimeLiveFunctionName reverseName
         \<or> applyName = reverseName
      then Inl (Errorf ''live patch requires distinct safe function names'')
      else bindR (validateAndEmitLiveOperations forward) (\<lambda>forwardSource.
        bindR (validateAndEmitLiveOperations reverse) (\<lambda>reverseSource.
          Inr (applyName @ ''() {'' @ newline @ concat forwardSource @ ''}'' @ newline
             @ reverseName @ ''() {'' @ newline @ concat reverseSource @ ''}'' @ newline))))"

definition runtimeReplyFingerprint :: "string \<Rightarrow> bool" where
  "runtimeReplyFingerprint s \<longleftrightarrow>
     length s = 64 \<and> list_all (\<lambda>c. is_digit c \<or> CHR ''a'' \<le> c \<and> c \<le> CHR ''f'') s"

definition reply_line :: "string \<Rightarrow> string \<Rightarrow> string" where
  "reply_line field value = ''typeset -g ZP_WORKTREE_REPLY_'' @ field @ ''='' @ zquote value @ newline"

definition EmitRuntimeTransition ::
  "op list \<Rightarrow> op list \<Rightarrow> string \<Rightarrow> string \<Rightarrow> u64 \<Rightarrow> u64 \<Rightarrow> string \<Rightarrow> string result" where
  "EmitRuntimeTransition forward reverse applyName reverseName revision token fingerprint =
     (if revision = 0 \<or> token = 0
      then Inl (Errorf ''runtime transition revision and token must be non-zero'')
      else if \<not> runtimeReplyFingerprint fingerprint
      then Inl (Errorf ''runtime transition fingerprint must be 64 lowercase hexadecimal bytes'')
      else if \<not> safeRuntimeLiveFunctionName applyName \<or> \<not> safeRuntimeLiveFunctionName reverseName
         \<or> applyName = reverseName
      then Inl (Errorf ''runtime transition requires distinct safe function names'')
      else bindR
        (if forward \<noteq> [] \<or> reverse \<noteq> [] then EmitLivePatch forward reverse applyName reverseName
         else bindR (validateAndEmitLiveOperations forward) (\<lambda>_. Inr [])) (\<lambda>patch.
          Inr (patch @ reply_line ''PROTOCOL'' ''1'' @ reply_line ''REVISION'' (decimal (unat revision))
             @ reply_line ''TOKEN'' (decimal (unat token)) @ reply_line ''FINGERPRINT'' fingerprint
             @ reply_line ''COMPLETE'' ''1'')))"

section \<open>Committed documents\<close>

definition committedPinnedIdentities :: "profile \<Rightarrow> identity set" where
  "committedPinnedIdentities p =
     (\<lambda>e. Identity LiveEnv (hd (en_names e)))
       ` set (filter (\<lambda>e. en_secret e \<noteq> None \<and> length (en_names e) = 1 \<and> en_kind e = KindAssignment) p)"

definition exports_name :: "entry \<Rightarrow> bool" where
  "exports_name e \<longleftrightarrow>
     en_secret e = None \<and> EffectiveManaged e \<and> Representable e \<and> en_kind e = KindAssignment
     \<and> length (en_names e) = 1 \<and> (en_category e = CatEnvironment \<or> en_category e = CatSecrets)"

text \<open>The two maps of the code: which names are exported, and for which this is known.\<close>

definition committedExportState :: "profile \<Rightarrow> (string \<Rightarrow> bool) \<times> (string \<Rightarrow> bool)" where
  "committedExportState p =
     fold (\<lambda>e (exported, known).
       if \<not> exports_name e then (exported, known)
       else let n = hd (en_names e)
         in (exported(n := exported n \<or> en_exported e), known(n := True)))
       p (\<lambda>_. False, \<lambda>_. False)"

fun checkRegenTombstones :: "identity set \<Rightarrow> identity set \<Rightarrow> identity list \<Rightarrow> unit result" where
  "checkRegenTombstones pinned seen [] = OK"
| "checkRegenTombstones pinned seen (i # is) =
     bindR (ValidateIdentity i) (\<lambda>_.
       if i \<in> seen then Inl (Errorf ''live projection identity %s/%s is both present and removed'')
       else if i \<in> pinned then Inl (Errorf ''live projection contains pinned identity %s/%s'')
       else checkRegenTombstones pinned (insert i seen) is)"

definition validateCommittedWorktree :: "committed_worktree \<Rightarrow> unit result" where
  "validateCommittedWorktree d =
     (if cw_schema d \<noteq> WorktreeSchemaV1 then Inl (Errorf ''committed worktree schema %q unsupported'')
      else if pr_schema (cw_projection d) \<noteq> WorktreeSchemaV1
      then Inl (Errorf ''live projection schema %q unsupported'')
      else bindR (NormalizeLiveStates (pr_states (cw_projection d))) (\<lambda>normalized.
        if length normalized \<noteq> length (pr_states (cw_projection d))
        then Inl (Errorf ''live projection contains duplicate identities'')
        else let pinned = committedPinnedIdentities (cw_source d)
          in bindR (forE (\<lambda>s.
               if \<not> lv_present (ls_value s) then Inl (Errorf ''live projection state %s/%s is not present'')
               else if ls_identity s \<in> pinned then Inl (Errorf ''live projection contains pinned identity %s/%s'')
               else OK) normalized) (\<lambda>_.
             checkRegenTombstones pinned (ls_identity ` set normalized) (pr_tombstones (cw_projection d)))))"

definition regeneratedExport :: "profile \<Rightarrow> identity \<Rightarrow> bool" where
  "regeneratedExport p i =
     (let (exported, known) = committedExportState p
      in if id_kind i = LiveEnv \<and> known (id_name i) then exported (id_name i) else True)"

definition RegenerateWorktree :: "committed_worktree \<Rightarrow> string result" where
  "RegenerateWorktree d =
     bindR (validateCommittedWorktree d) (\<lambda>_.
     bindR (mapR (\<lambda>s. emitLiveIdentityState s (regeneratedExport (cw_source d) (ls_identity s)))
       (pr_states (cw_projection d))) (\<lambda>states.
     bindR (mapR emitLiveIdentityTombstone (pr_tombstones (cw_projection d))) (\<lambda>tombstones.
       Inr (concat states @ concat tombstones))))"

end
