(* ===== verification/ShellReader.thy ===== *)
theory ShellReader
  imports LiveEmit
begin

text \<open>
  A reference reader of shell quoting, against which emitted text is judged: it splits a text
  into words and marks and keeps for every character of a word whether it was quoted. Single
  quotes take everything as it is, a backslash quotes the next character, double quotes leave
  dollar sign and backquote active unless a backslash precedes them. It reads one character at
  a time, so reading a text is a fold and texts may be read piecewise.
\<close>

section \<open>The reader\<close>

datatype shell_token = Word "(bool \<times> char) list" | Mark char

datatype quote_mode = Bare | Single | Double | BareEscape | DoubleEscape

record reader =
  rd_mode :: quote_mode
  rd_word :: "(bool \<times> char) list option"
  rd_tokens :: "shell_token list"

definition push_char :: "bool \<Rightarrow> char \<Rightarrow> reader \<Rightarrow> reader" where
  "push_char quoted c r =
     r\<lparr>rd_word := Some ((case rd_word r of None \<Rightarrow> [] | Some w \<Rightarrow> w) @ [(quoted, c)])\<rparr>"

definition open_word :: "quote_mode \<Rightarrow> reader \<Rightarrow> reader" where
  "open_word m r = r\<lparr>rd_mode := m, rd_word := Some (case rd_word r of None \<Rightarrow> [] | Some w \<Rightarrow> w)\<rparr>"

definition close_word :: "reader \<Rightarrow> reader" where
  "close_word r =
     (case rd_word r of None \<Rightarrow> r | Some w \<Rightarrow> r\<lparr>rd_word := None, rd_tokens := rd_tokens r @ [Word w]\<rparr>)"

definition marks :: "char set" where
  "marks = {CHR 0x0A, CHR '';'', CHR ''|'', CHR ''&'', CHR ''<'', CHR ''>'', CHR ''('', CHR '')''}"

definition active_in_quotes :: "char set" where
  "active_in_quotes = {CHR 0x24, CHR 0x60}"

definition read_bare :: "char \<Rightarrow> reader \<Rightarrow> reader" where
  "read_bare c r =
     (if c = quote_char then open_word Single r
      else if c = CHR 0x22 then open_word Double r
      else if c = CHR 0x5C then r\<lparr>rd_mode := BareEscape\<rparr>
      else if c = CHR '' '' \<or> c = CHR 0x09 then close_word r
      else if c \<in> marks then (let r = close_word r in r\<lparr>rd_tokens := rd_tokens r @ [Mark c]\<rparr>)
      else push_char False c r)"

definition read_char :: "char \<Rightarrow> reader \<Rightarrow> reader" where
  "read_char c r =
     (case rd_mode r of
        Bare \<Rightarrow> read_bare c r
      | Single \<Rightarrow> (if c = quote_char then r\<lparr>rd_mode := Bare\<rparr> else push_char True c r)
      | Double \<Rightarrow>
          (if c = CHR 0x22 then r\<lparr>rd_mode := Bare\<rparr>
           else if c = CHR 0x5C then r\<lparr>rd_mode := DoubleEscape\<rparr>
           else push_char (c \<notin> active_in_quotes) c r)
      | BareEscape \<Rightarrow>
          (if c = CHR 0x0A then r\<lparr>rd_mode := Bare\<rparr> else (push_char True c r)\<lparr>rd_mode := Bare\<rparr>)
      | DoubleEscape \<Rightarrow>
          (if c = CHR 0x0A then r\<lparr>rd_mode := Double\<rparr>
           else if c = CHR 0x22 \<or> c = CHR 0x5C \<or> c \<in> active_in_quotes
           then (push_char True c r)\<lparr>rd_mode := Double\<rparr>
           else (push_char True c (push_char True (CHR 0x5C) r))\<lparr>rd_mode := Double\<rparr>))"

definition read_text :: "string \<Rightarrow> reader \<Rightarrow> reader" where
  "read_text s = fold read_char s"

text \<open>Where a line begins, after the given tokens.\<close>

definition line_start :: "shell_token list \<Rightarrow> reader" where
  "line_start ts = \<lparr>rd_mode = Bare, rd_word = None, rd_tokens = ts\<rparr>"

text \<open>In the middle of a word, outside quotes.\<close>

definition in_word :: "(bool \<times> char) list \<Rightarrow> shell_token list \<Rightarrow> reader" where
  "in_word w ts = \<lparr>rd_mode = Bare, rd_word = Some w, rd_tokens = ts\<rparr>"

definition bare :: "string \<Rightarrow> (bool \<times> char) list" where
  "bare s = map (Pair False) s"

definition quoted :: "string \<Rightarrow> (bool \<times> char) list" where
  "quoted s = map (Pair True) s"

section \<open>Reading piecewise\<close>

lemma read_text_Nil [simp]: "read_text [] r = r"
  by (simp add: read_text_def)

lemma read_text_append [simp]: "read_text (s @ t) r = read_text t (read_text s r)"
  by (simp add: read_text_def)

lemma read_text_Cons: "read_text (c # s) r = read_text s (read_char c r)"
  by (simp add: read_text_def)

text \<open>Characters that mean nothing to the reader.\<close>

definition plain_char :: "char \<Rightarrow> bool" where
  "plain_char c \<longleftrightarrow> c \<noteq> quote_char \<and> c \<noteq> CHR 0x22 \<and> c \<noteq> CHR 0x5C \<and> c \<noteq> CHR '' '' \<and> c \<noteq> CHR 0x09
     \<and> c \<notin> marks"

lemma read_plain_char:
  assumes "plain_char c"
  shows "read_char c (line_start ts) = in_word [(False, c)] ts"
    and "read_char c (in_word w ts) = in_word (w @ [(False, c)]) ts"
  using assms
  by (simp_all add: read_char_def read_bare_def push_char_def line_start_def in_word_def plain_char_def)

lemma read_plain_more:
  "list_all plain_char s \<Longrightarrow> read_text s (in_word w ts) = in_word (w @ bare s) ts"
  by (induction s arbitrary: w) (simp_all add: read_text_Cons read_plain_char bare_def)

lemma read_plain:
  "list_all plain_char s \<Longrightarrow> s \<noteq> [] \<Longrightarrow> read_text s (line_start ts) = in_word (bare s) ts"
  by (cases s) (simp_all add: read_text_Cons read_plain_char read_plain_more bare_def)

lemma read_space:
  "read_char (CHR '' '') (in_word w ts) = line_start (ts @ [Word w])"
  "read_char (CHR '' '') (line_start ts) = line_start ts"
  by (simp_all add: read_char_def read_bare_def close_word_def line_start_def in_word_def quote_char_def)

lemma read_mark:
  assumes "c \<in> marks"
  shows "read_char c (in_word w ts) = line_start (ts @ [Word w, Mark c])"
    and "read_char c (line_start ts) = line_start (ts @ [Mark c])"
proof -
  have "c \<noteq> quote_char \<and> c \<noteq> CHR 0x22 \<and> c \<noteq> CHR 0x5C \<and> c \<noteq> CHR '' '' \<and> c \<noteq> CHR 0x09"
    using assms by (auto simp: marks_def quote_char_def)
  with assms show "read_char c (in_word w ts) = line_start (ts @ [Word w, Mark c])"
    "read_char c (line_start ts) = line_start (ts @ [Mark c])"
    by (simp_all add: read_char_def read_bare_def close_word_def line_start_def in_word_def Let_def)
qed

lemma read_newline:
  "read_text newline (in_word w ts) = line_start (ts @ [Word w, Mark (CHR 0x0A)])"
  "read_text newline (line_start ts) = line_start (ts @ [Mark (CHR 0x0A)])"
  by (simp_all add: newline_def read_text_Cons read_mark marks_def)

section \<open>Reading quoted data\<close>

definition in_quotes :: "quote_mode \<Rightarrow> (bool \<times> char) list \<Rightarrow> shell_token list \<Rightarrow> reader" where
  "in_quotes m w ts = \<lparr>rd_mode = m, rd_word = Some w, rd_tokens = ts\<rparr>"

lemma read_single:
  "read_text (replaceChar quote_char [quote_char, CHR 0x5C, quote_char, quote_char] s) (in_quotes Single w ts)
     = in_quotes Single (w @ quoted s) ts"
proof (induction s arbitrary: w)
  case (Cons c s)
  have "read_text (if c = quote_char then [quote_char, CHR 0x5C, quote_char, quote_char] else [c]) (in_quotes Single w ts)
      = in_quotes Single (w @ [(True, c)]) ts"
    by (simp add: read_text_Cons read_char_def read_bare_def in_quotes_def push_char_def open_word_def quote_char_def)
  with Cons.IH [of "w @ [(True, c)]"] show ?case
    by (simp add: replaceChar_def quoted_def)
qed (simp add: replaceChar_def quoted_def)

lemma read_zquote:
  "read_text (zquote s) (in_word w ts) = in_word (w @ quoted s) ts"
  "read_text (zquote s) (line_start ts) = in_word (quoted s) ts"
proof -
  have op: "read_char quote_char (in_word w ts) = in_quotes Single w ts"
    "read_char quote_char (line_start ts) = in_quotes Single [] ts"
    by (simp_all add: read_char_def read_bare_def open_word_def in_word_def line_start_def in_quotes_def)
  have cl: "read_char quote_char (in_quotes Single w ts) = in_word w ts" for w
    by (simp add: read_char_def in_word_def in_quotes_def)
  show "read_text (zquote s) (in_word w ts) = in_word (w @ quoted s) ts"
    "read_text (zquote s) (line_start ts) = in_word (quoted s) ts"
    by (simp_all add: zquote_def read_text_Cons op read_single cl)
qed

text \<open>The four passes over a function body escape every character on its own.\<close>

definition escape_char :: "char \<Rightarrow> string" where
  "escape_char c = (if c = CHR 0x5C \<or> c = CHR 0x22 \<or> c \<in> active_in_quotes then [CHR 0x5C, c] else [c])"

lemma replaceChar_Cons [simp]:
  "replaceChar c r (x # s) = (if x = c then r else [x]) @ replaceChar c r s"
  "replaceChar c r [] = []"
  by (simp_all add: replaceChar_def)

lemma replaceChar_append [simp]: "replaceChar c r (s @ t) = replaceChar c r s @ replaceChar c r t"
  by (simp add: replaceChar_def)

lemma quoteFunctionBody_escape:
  "quoteFunctionBody s = [CHR 0x22] @ concat (map escape_char s) @ [CHR 0x22]"
proof -
  let ?e = "\<lambda>s. replaceChar (CHR 0x60) [CHR 0x5C, CHR 0x60] (replaceChar (CHR 0x24) [CHR 0x5C, CHR 0x24]
    (replaceChar (CHR 0x22) [CHR 0x5C, CHR 0x22] (replaceChar (CHR 0x5C) [CHR 0x5C, CHR 0x5C] s)))"
  have "?e s = concat (map escape_char s)"
    by (induction s) (simp_all add: escape_char_def active_in_quotes_def)
  then show ?thesis by (simp add: quoteFunctionBody_def Let_def)
qed

lemma read_double:
  "read_text (concat (map escape_char s)) (in_quotes Double w ts) = in_quotes Double (w @ quoted s) ts"
proof (induction s arbitrary: w)
  case (Cons c s)
  have "read_text (escape_char c) (in_quotes Double w ts) = in_quotes Double (w @ [(True, c)]) ts"
    by (auto simp: escape_char_def read_text_Cons read_char_def in_quotes_def push_char_def active_in_quotes_def)
  with Cons.IH [of "w @ [(True, c)]"] show ?case by (simp add: quoted_def)
qed (simp add: quoted_def)

lemma read_body:
  "read_text (quoteFunctionBody s) (in_word w ts) = in_word (w @ quoted s) ts"
proof -
  have "read_char (CHR 0x22) (in_word w ts) = in_quotes Double w ts"
    by (simp add: read_char_def read_bare_def open_word_def in_word_def in_quotes_def quote_char_def)
  moreover have "read_char (CHR 0x22) (in_quotes Double w ts) = in_word w ts" for w
    by (simp add: read_char_def in_word_def in_quotes_def)
  ultimately show ?thesis
    by (simp add: quoteFunctionBody_escape read_text_Cons read_double)
qed

section \<open>Names\<close>

lemma plain_name_char: "is_alnum c \<or> c = CHR ''_'' \<or> c = CHR ''.'' \<or> c = CHR ''-'' \<Longrightarrow> plain_char c"
  by (auto simp: char_class_defs plain_char_def marks_def quote_char_def less_eq_char_def)

lemma plain_name:
  assumes "safeEnvName n \<or> safeAliasFuncName n \<or> safeOptionName n"
  shows "list_all plain_char n" "n \<noteq> []"
proof -
  have "(\<forall>c \<in> set n. is_alnum c \<or> c = CHR ''_'' \<or> c = CHR ''.'' \<or> c = CHR ''-'') \<and> n \<noteq> []"
    using assms
    by (cases n) (auto simp: safeEnvName_def safeAliasFuncName_def safeOptionName_def list_all_iff is_alnum_def)
  then show "list_all plain_char n" "n \<noteq> []" by (auto simp: list_all_iff plain_name_char)
qed

end
