(* ===== verification/EmitFacts.thy ===== *)
theory EmitFacts
  imports ShellReader ActivationFacts CommittedFacts
begin

text \<open>
  What the emitted text of states, removals, patches and documents is, when there is one, and
  how the reference reader reads it.
\<close>

section \<open>When a state can be emitted\<close>

lemma safe_names_valid:
  "liveEnvNameRE = safeEnvName" "liveEnvNameRE = safeOptionName" "liveSymbolNameRE = safeAliasFuncName"
  by (auto simp: liveEnvNameRE_def safeEnvName_def safeOptionName_def liveSymbolNameRE_def
      safeAliasFuncName_def env_first_def env_rest_def symbol_rest_def fun_eq_iff
      intro!: arg_cong2 [where f = "\<lambda>p q. match_first_rest p q _"])

lemma valid_name:
  assumes "ValidateIdentity i = OK"
  shows "id_kind i = LiveEnv \<Longrightarrow> safeEnvName (id_name i)"
    and "id_kind i = LiveAlias \<or> id_kind i = LiveFunction \<Longrightarrow> safeAliasFuncName (id_name i)"
    and "id_kind i = LiveOption \<Longrightarrow> safeOptionName (id_name i)"
    and "id_kind i \<noteq> LiveOther k"
  using assms
  by (auto simp: ValidateIdentity_def safe_names_valid [symmetric] split: if_splits live_kind.splits)

definition state_text :: "live_state \<Rightarrow> bool \<Rightarrow> string" where
  "state_text s exported =
     (let n = id_name (ls_identity s); v = ls_value s
      in case id_kind (ls_identity s) of
        LiveEnv \<Rightarrow> (if exported then ''export '' else ''typeset -g '') @ n @ ''='' @ zquote (the (lv_scalar v)) @ newline
      | LiveAlias \<Rightarrow> ''alias '' @ n @ ''='' @ zquote (the (lv_scalar v)) @ newline
      | LiveFunction \<Rightarrow> ''functions['' @ n @ '']='' @ quoteFunctionBody (the (lv_scalar v)) @ newline
      | LivePath \<Rightarrow> ''path=('' @ joinWith '' '' (map zquote (list_elements v)) @ '')'' @ newline
      | LiveFPath \<Rightarrow> ''fpath=('' @ joinWith '' '' (map zquote (list_elements v)) @ '')'' @ newline
      | _ \<Rightarrow> (if the (lv_option v) then ''setopt '' else ''unsetopt '') @ n @ newline)"

lemma emit_state:
  "emitLiveIdentityState s exported = Inr src \<longleftrightarrow>
     ValidateLiveIdentityState s = OK \<and> lv_present (ls_value s) \<and> src = state_text s exported"
proof (cases "ValidateLiveIdentityState s = OK \<and> lv_present (ls_value s)")
  case True
  then have v: "ValidateIdentity (ls_identity s) = OK" "ValidateLiveValue (id_kind (ls_identity s)) (ls_value s) = OK"
    by (auto simp: ValidateLiveIdentityState_def bindR_eq_Inr)
  have "\<exists>x. lv_scalar (ls_value s) = Some x" if "id_kind (ls_identity s) \<in> {LiveEnv, LiveAlias, LiveFunction}"
    using v(2) that True by (auto simp: ValidateLiveValue_def split: if_splits)
  moreover have "\<exists>b. lv_option (ls_value s) = Some b" if "id_kind (ls_identity s) = LiveOption"
    using v(2) that True by (auto simp: ValidateLiveValue_def split: if_splits)
  ultimately show ?thesis
    using True valid_name [OF v(1)]
    by (cases "id_kind (ls_identity s)") (auto simp: emitLiveIdentityState_def state_text_def Let_def)
next
  case False
  then show ?thesis by (auto simp: emitLiveIdentityState_def Let_def bindR_eq_Inr split: if_splits)
qed

definition removal_text :: "identity \<Rightarrow> string" where
  "removal_text i =
     (let n = id_name i
      in case id_kind i of
        LiveEnv \<Rightarrow> ''unset '' @ n @ newline
      | LiveAlias \<Rightarrow> ''unalias '' @ n @ '' 2>/dev/null || :'' @ newline
      | LiveFunction \<Rightarrow> ''unset -f '' @ n @ '' 2>/dev/null || :'' @ newline
      | LivePath \<Rightarrow> ''unset PATH path'' @ newline
      | LiveFPath \<Rightarrow> ''unset FPATH fpath'' @ newline
      | _ \<Rightarrow> ''unsetopt '' @ n @ newline)"

lemma emit_removal:
  "emitLiveIdentityTombstone i = Inr src \<longleftrightarrow> ValidateIdentity i = OK \<and> src = removal_text i"
proof (cases "ValidateIdentity i = OK")
  case True
  with valid_name [OF True] show ?thesis
    by (cases "id_kind i") (auto simp: emitLiveIdentityTombstone_def removal_text_def Let_def)
qed (auto simp: emitLiveIdentityTombstone_def Let_def bindR_eq_Inr)

section \<open>How a line is read\<close>

abbreviation eol :: shell_token where "eol \<equiv> Mark (CHR 0x0A)"

definition words :: "string list \<Rightarrow> shell_token list" where
  "words ws = map (\<lambda>w. Word (bare w)) ws"

definition no_error :: "shell_token list" where
  "no_error = words [''2''] @ [Mark (CHR ''>'')] @ words [''/dev/null'']
     @ [Mark (CHR ''|''), Mark (CHR ''|'')] @ words ['':'']"

text \<open>
  The words of a line: the data of a state occurs in quoted characters only, and everything
  else is bare.
\<close>

definition state_line :: "live_state \<Rightarrow> bool \<Rightarrow> shell_token list" where
  "state_line s exported =
     (let n = id_name (ls_identity s); v = ls_value s
      in case id_kind (ls_identity s) of
        LiveEnv \<Rightarrow> words (if exported then [''export''] else [''typeset'', ''-g''])
          @ [Word (bare (n @ ''='') @ quoted (the (lv_scalar v))), eol]
      | LiveAlias \<Rightarrow> words [''alias''] @ [Word (bare (n @ ''='') @ quoted (the (lv_scalar v))), eol]
      | LiveFunction \<Rightarrow> [Word (bare (''functions['' @ n @ '']='') @ quoted (the (lv_scalar v))), eol]
      | LivePath \<Rightarrow> words [''path=''] @ [Mark (CHR ''('')]
          @ map (\<lambda>x. Word (quoted x)) (list_elements v) @ [Mark (CHR '')''), eol]
      | LiveFPath \<Rightarrow> words [''fpath=''] @ [Mark (CHR ''('')]
          @ map (\<lambda>x. Word (quoted x)) (list_elements v) @ [Mark (CHR '')''), eol]
      | _ \<Rightarrow> words [if the (lv_option v) then ''setopt'' else ''unsetopt'', n] @ [eol])"

definition removal_line :: "identity \<Rightarrow> shell_token list" where
  "removal_line i =
     (let n = id_name i
      in case id_kind i of
        LiveEnv \<Rightarrow> words [''unset'', n] @ [eol]
      | LiveAlias \<Rightarrow> words [''unalias'', n] @ no_error @ [eol]
      | LiveFunction \<Rightarrow> words [''unset'', ''-f'', n] @ no_error @ [eol]
      | LivePath \<Rightarrow> words [''unset'', ''PATH'', ''path''] @ [eol]
      | LiveFPath \<Rightarrow> words [''unset'', ''FPATH'', ''fpath''] @ [eol]
      | _ \<Rightarrow> words [''unsetopt'', n] @ [eol])"

lemmas read_step =
  read_text_Cons read_plain_char read_space read_mark [simplified marks_def]

lemmas plain_defs = plain_char_def marks_def quote_char_def

lemma read_elements:
  "read_text (joinWith '' '' (map zquote xs) @ '')'') (line_start ts)
     = line_start (ts @ map (\<lambda>x. Word (quoted x)) xs @ [Mark (CHR '')'')])"
proof (induction xs arbitrary: ts)
  case Nil
  then show ?case by (simp add: read_step)
next
  case (Cons x xs)
  then show ?case by (cases xs) (simp_all add: read_step read_zquote)
qed

lemma bare_append: "bare (s @ t) = bare s @ bare t" "bare [] = []" "bare (c # s) = (False, c) # bare s"
  by (simp_all add: bare_def)

lemma read_name:
  assumes "safeEnvName n \<or> safeAliasFuncName n \<or> safeOptionName n"
  shows "read_text n (line_start ts) = in_word (bare n) ts" "read_text n (in_word w ts) = in_word (w @ bare n) ts"
  using plain_name [OF assms] by (simp_all add: read_plain read_plain_more)

lemma read_elements_after:
  "read_char (CHR '')'') (read_text (joinWith '' '' (map zquote xs)) (line_start ts))
     = line_start (ts @ map (\<lambda>x. Word (quoted x)) xs @ [Mark (CHR '')'')])"
  using read_elements by (simp add: read_text_Cons)

lemma read_state:
  assumes "ValidateLiveIdentityState s = OK" "lv_present (ls_value s)"
  shows "read_text (state_text s exported) (line_start ts) = line_start (ts @ state_line s exported)"
proof -
  have "ValidateIdentity (ls_identity s) = OK"
    using assms(1) by (auto simp: ValidateLiveIdentityState_def bindR_eq_Inr)
  note name = valid_name [OF this]
  show ?thesis
  proof (cases "id_kind (ls_identity s)")
    case (LiveOther k)
    with name(4) [of k] show ?thesis by simp
  qed (use name in \<open>simp_all add: state_text_def state_line_def Let_def read_step plain_defs read_name
      read_zquote read_body read_newline read_elements_after words_def bare_append\<close>)
qed

lemma read_removal:
  assumes "ValidateIdentity i = OK"
  shows "read_text (removal_text i) (line_start ts) = line_start (ts @ removal_line i)"
proof -
  note name = valid_name [OF assms]
  show ?thesis
  proof (cases "id_kind i")
    case (LiveOther k)
    with name(4) [of k] show ?thesis by simp
  qed (use name in \<open>simp_all add: removal_text_def removal_line_def Let_def read_step plain_defs read_name
      read_newline words_def bare_append no_error_def\<close>)
qed

section \<open>Operations\<close>

text \<open>What an operation that can be emitted leaves on its line.\<close>

fun op_line :: "op \<Rightarrow> shell_token list" where
  "op_line (SetLiveScalar i v) = state_line \<lparr>ls_identity = i, ls_value = ScalarLiveValue v\<rparr> True"
| "op_line (TransitionLiveList i bp ap b a) =
     (if ap then state_line \<lparr>ls_identity = i, ls_value = ListLiveValue a\<rparr> True else removal_line i)"
| "op_line (SetLiveOptionState i b) = state_line \<lparr>ls_identity = i, ls_value = OptionLiveValue b\<rparr> True"
| "op_line (RemoveLiveScalar i) = removal_line i"
| "op_line (RemoveLiveOptionState i) = removal_line i"
| "op_line _ = []"

lemma read_emitted_state:
  "emitLiveIdentityState s exported = Inr src \<Longrightarrow> read_text src (line_start ts) = line_start (ts @ state_line s exported)"
  by (auto simp: emit_state read_state)

lemma read_emitted_removal:
  "emitLiveIdentityTombstone i = Inr src \<Longrightarrow> read_text src (line_start ts) = line_start (ts @ removal_line i)"
  by (auto simp: emit_removal read_removal)

lemma read_operation:
  "emitLiveOperation x = Inr src \<Longrightarrow> read_text src (line_start ts) = line_start (ts @ op_line x)"
  by (cases x)
     (auto simp: emitLiveOperation_def bindR_eq_Inr read_emitted_state read_emitted_removal split: if_splits)

text \<open>The two constant lines that check the status.\<close>

definition after_tokens :: "shell_token list \<Rightarrow> reader \<Rightarrow> reader" where
  "after_tokens ts r = r\<lparr>rd_tokens := ts @ rd_tokens r\<rparr>"

lemma after_tokens_sel [simp]:
  "rd_mode (after_tokens ts r) = rd_mode r" "rd_word (after_tokens ts r) = rd_word r"
  by (simp_all add: after_tokens_def)

lemma read_char_after: "read_char c (after_tokens ts r) = after_tokens ts (read_char c r)"
proof -
  have push: "push_char q c (after_tokens ts r) = after_tokens ts (push_char q c r)" for q c r
    by (simp add: push_char_def after_tokens_def)
  have mode: "(after_tokens ts r)\<lparr>rd_mode := m\<rparr> = after_tokens ts (r\<lparr>rd_mode := m\<rparr>)" for m r
    by (simp add: after_tokens_def)
  have close: "close_word (after_tokens ts r) = after_tokens ts (close_word r)" for r
    by (cases "rd_word r") (simp_all add: close_word_def after_tokens_def)
  have op: "open_word m (after_tokens ts r) = after_tokens ts (open_word m r)" for m r
    by (simp add: open_word_def after_tokens_def)
  have mark: "(after_tokens ts r)\<lparr>rd_tokens := rd_tokens (after_tokens ts r) @ [Mark c]\<rparr>
      = after_tokens ts (r\<lparr>rd_tokens := rd_tokens r @ [Mark c]\<rparr>)" for r
    by (simp add: after_tokens_def)
  show ?thesis
    by (cases "rd_mode r") (simp_all add: read_char_def read_bare_def push mode close op mark Let_def)
qed

lemma read_text_after: "read_text s (after_tokens ts r) = after_tokens ts (read_text s r)"
  by (induction s arbitrary: r) (simp_all add: read_text_Cons read_char_after)

definition status_tokens :: "shell_token list" where
  "status_tokens = rd_tokens (read_text status_lines (line_start []))"

lemma read_status: "read_text status_lines (line_start ts) = line_start (ts @ status_tokens)"
proof -
  let ?r = "read_text status_lines (line_start [])"
  have "rd_mode ?r = Bare" "rd_word ?r = None" by code_simp+
  then have "?r = line_start status_tokens" by (simp add: line_start_def status_tokens_def)
  then show ?thesis
    using read_text_after [of status_lines ts "line_start []"] by (simp add: after_tokens_def line_start_def)
qed

lemma read_checked:
  assumes "validateAndEmitLiveOperations xs = Inr sources"
  shows "read_text (concat sources) (line_start ts) = line_start (ts @ concat (map (\<lambda>x. op_line x @ status_tokens) xs))"
  using assms
proof (induction xs arbitrary: sources ts)
  case Nil
  then show ?case by (simp add: validateAndEmitLiveOperations_def)
next
  case (Cons x xs)
  from Cons.prems obtain i src rest where x: "emitLiveOperation x = Inr src"
    and rest: "validateAndEmitLiveOperations xs = Inr rest" "sources = (src @ status_lines) # rest"
    by (auto simp: validateAndEmitLiveOperations_def emitCheckedLiveOperation_def bindR_eq_Inr split: if_splits)
  then show ?case
    using Cons.IH [OF rest(1)] by (simp add: read_operation read_status)
qed

definition function_tokens :: "string \<Rightarrow> shell_token list \<Rightarrow> shell_token list" where
  "function_tokens name body =
     words [name] @ [Mark (CHR ''(''), Mark (CHR '')'')] @ words [''{''] @ [eol] @ body @ words [''}''] @ [eol]"

lemma read_function:
  assumes "safeAliasFuncName name" "\<And>ts. read_text body (line_start ts) = line_start (ts @ tokens)"
  shows "read_text (name @ ''() {'' @ newline @ body @ ''}'' @ newline) (line_start ts)
     = line_start (ts @ function_tokens name tokens)"
  using assms
  by (simp add: read_name read_step plain_defs read_newline function_tokens_def words_def bare_append)

lemma read_patch:
  assumes "EmitLivePatch forward reverse go undo = Inr src"
  shows "read_text src (line_start ts) = line_start (ts
     @ function_tokens go (concat (map (\<lambda>x. op_line x @ status_tokens) forward))
     @ function_tokens undo (concat (map (\<lambda>x. op_line x @ status_tokens) reverse)))"
proof -
  obtain f r where names: "safeAliasFuncName go" "safeAliasFuncName undo"
    and fr: "validateAndEmitLiveOperations forward = Inr f" "validateAndEmitLiveOperations reverse = Inr r"
    and src: "src = (go @ ''() {'' @ newline @ concat f @ ''}'' @ newline)
      @ (undo @ ''() {'' @ newline @ concat r @ ''}'' @ newline)"
    using assms
    by (auto simp: EmitLivePatch_def bindR_eq_Inr safeRuntimeLiveFunctionName_def split: if_splits)
  show ?thesis
    unfolding src read_text_append [of "go @ ''() {'' @ newline @ concat f @ ''}'' @ newline"]
      read_function [OF names(1) read_checked [OF fr(1)]] read_function [OF names(2) read_checked [OF fr(2)]]
    by simp
qed

section \<open>When a patch can be emitted\<close>

lemma mapR_Inr_iff: "(\<exists>ys. mapR f xs = Inr ys) \<longleftrightarrow> (\<forall>x \<in> set xs. \<exists>y. f x = Inr y)"
  by (induction xs) (auto simp: bindR_eq_Inr)

text \<open>Every change between two valid lists becomes an operation that can be emitted.\<close>

lemma changeToOp_emits:
  assumes norm: "NormalizeLiveStates ss = Inr b" "NormalizeLiveStates ts = Inr a"
    and c: "refChange (live_map ss) (live_map ts) (ch_identity c) = Some c"
    and x: "changeToOp (liveStateValues b) (liveStateValues a) c = Inr x"
  shows "liveOperationIdentity x = Inr (ch_identity c) \<and> (\<exists>src. emitLiveOperation x = Inr src)"
proof -
  let ?i = "ch_identity c" and ?k = "id_kind (ch_identity c)"
  have valid: "\<forall>s \<in> set us. ValidateLiveIdentityState s = OK" if "us = ss \<or> us = ts" for us
    using norm that by (auto simp: NormalizeLiveStates_eq_Inr)
  have maps: "map_of (liveStateValues b) = live_map ss" "map_of (liveStateValues a) = live_map ts"
    using norm by (simp_all add: liveStateValues_normalized map_of_presentStateMap)
  have kind: "ch_kind c = LiveRemove \<longleftrightarrow> live_map ts ?i = None"
    "live_map ts ?i = Some v \<Longrightarrow> ch_value c = v" for v
    using c by (auto simp: refChange_eq_Some)
  have bound: "ValidateLiveValue ?k v = OK" "lv_present v" "CloneLiveValue v = v" "ValidateIdentity ?i = OK"
    if "us = ss \<or> us = ts" "live_map us ?i = Some v" for us v
    using live_map_valid [of us ?i v] live_map_Some_present [of us ?i v] live_map_Some_clone [of us ?i v]
      valid [OF that(1)] that(2) by auto
  have ident: "ValidateIdentity ?i = OK"
    using c bound(4) by (cases "live_map ss ?i"; cases "live_map ts ?i") (auto simp: refChange_eq_Some)
  have state: "\<exists>src. emitLiveIdentityState \<lparr>ls_identity = ?i, ls_value = v\<rparr> True = Inr src"
    if "live_map ts ?i = Some v" for v
    using bound [OF _ that] by (auto simp: emit_state ValidateLiveIdentityState_def)
  have removal: "\<exists>src. emitLiveIdentityTombstone ?i = Inr src"
    using ident by (auto simp: emit_removal)
  consider (scalar) "?k \<in> {LiveEnv, LiveAlias, LiveFunction}" | (list) "?k \<in> {LivePath, LiveFPath}"
    | (opt) "?k = LiveOption"
    using valid_name(4) [OF ident] by (cases ?k) auto
  then show ?thesis
  proof cases
    case scalar
    show ?thesis
    proof (cases "live_map ts ?i")
      case None
      then show ?thesis
        using x scalar kind removal by (auto simp: changeToOp_def Let_def emitLiveOperation_def
            liveOperationIdentity_def scalar_kind_def)
    next
      case (Some v)
      then obtain s where "v = ScalarLiveValue s"
        using live_value_shapes(1) [of ?k v] bound [OF _ Some] scalar by auto
      then show ?thesis
        using x scalar kind Some state [OF Some]
        by (auto simp: changeToOp_def Let_def emitLiveOperation_def liveOperationIdentity_def
            scalar_kind_def ScalarLiveValue_def)
    qed
  next
    case list
    have shape: "v = ListLiveValue (list_elements v)" if "us = ss \<or> us = ts" "live_map us ?i = Some v" for us v
      using live_value_shapes(2) [of ?k v] bound [OF that] list by blast
    have side: "validateLiveListSide ?k (live_map us ?i \<noteq> None)
        (case live_map us ?i of None \<Rightarrow> [] | Some v \<Rightarrow> list_elements v) = OK" if "us = ss \<or> us = ts" for us
      using bound(1) [OF that] shape [OF that]
      by (auto simp: validateLiveListSide_def ValidateLiveValue_def RemovedLiveValue_def split: option.split)
    have "x = TransitionLiveList ?i (live_map ss ?i \<noteq> None) (live_map ts ?i \<noteq> None)
        (case live_map ss ?i of None \<Rightarrow> [] | Some v \<Rightarrow> list_elements v)
        (case live_map ts ?i of None \<Rightarrow> [] | Some v \<Rightarrow> list_elements v)"
      using x list by (auto simp: changeToOp_def Let_def maps)
    moreover have "\<exists>src. emitLiveIdentityState \<lparr>ls_identity = ?i, ls_value = ListLiveValue (list_elements v)\<rparr> True = Inr src"
      if "live_map ts ?i = Some v" for v
      using state [OF that] shape [OF _ that] by simp
    ultimately show ?thesis
      using list side [of ss] side [of ts] removal
      by (cases "live_map ts ?i") (auto simp: emitLiveOperation_def liveOperationIdentity_def)
  next
    case opt
    show ?thesis
    proof (cases "live_map ts ?i")
      case None
      then show ?thesis
        using x opt kind removal by (auto simp: changeToOp_def Let_def emitLiveOperation_def liveOperationIdentity_def)
    next
      case (Some v)
      then obtain s where "v = OptionLiveValue s"
        using live_value_shapes(3) [of ?k v] bound [OF _ Some] opt by auto
      then show ?thesis
        using x opt kind Some state [OF Some]
        by (auto simp: changeToOp_def Let_def emitLiveOperation_def liveOperationIdentity_def OptionLiveValue_def)
    qed
  qed
qed

lemma BuildLivePatch_ops:
  assumes "BuildLivePatch ss ts = Inr p"
  obtains b a where "NormalizeLiveStates ss = Inr b" "NormalizeLiveStates ts = Inr a"
    and "liveChangesToOps (refDiff (live_map ss) (live_map ts)) b a = Inr (lp_forward p)"
    and "liveChangesToOps (refDiff (live_map ts) (live_map ss)) a b = Inr (lp_replacement_reverse p)"
proof -
  obtain b a where n: "NormalizeLiveStates ss = Inr b" "NormalizeLiveStates ts = Inr a"
    and p: "liveChangesToOps (diffLiveStates b a) b a = Inr (lp_forward p)"
      "liveChangesToOps (diffLiveStates a b) a b = Inr (lp_replacement_reverse p)"
    using assms by (auto simp: BuildLivePatch_def bindR_eq_Inr)
  show ?thesis
    by (rule that [OF n]) (use p in \<open>simp_all add: diffLiveStates_refDiff [OF n] diffLiveStates_refDiff [OF n(2,1)]\<close>)
qed

lemma mapR_image: "mapR f xs = Inr ys \<Longrightarrow> Inr ` set ys = f ` set xs"
proof (induction xs arbitrary: ys)
  case (Cons x xs)
  then obtain y zs where "f x = Inr y" "mapR f xs = Inr zs" "ys = y # zs" by (auto simp: bindR_eq_Inr)
  with Cons.IH [of zs] show ?case by simp
qed simp

lemma refDiff_changes:
  assumes "finite (dom ma)" "finite (dom mb)"
  shows "ch_identity ` set (refDiff ma mb) = {i. ma i \<noteq> mb i}"
proof -
  have "ch_identity ` set (refDiff ma mb) = {i \<in> dom ma \<union> dom mb. refChange ma mb i \<noteq> None}"
    using arg_cong [OF refDiff_identities [of ma mb], of set] assms by (simp add: Collect_conj_eq)
  then show ?thesis by (auto simp: refChange_None)
qed

lemma emit_changes:
  assumes n: "NormalizeLiveStates ss = Inr b" "NormalizeLiveStates ts = Inr a"
    and xs: "liveChangesToOps (refDiff (live_map ss) (live_map ts)) b a = Inr xs"
  shows "(\<exists>sources. validateAndEmitLiveOperations xs = Inr sources) \<longleftrightarrow>
    (\<forall>i. live_map ss i \<noteq> live_map ts i \<longrightarrow> \<not> reservedWorktreeReplyName (id_name i))"
proof -
  let ?cs = "refDiff (live_map ss) (live_map ts)"
  let ?f = "changeToOp (liveStateValues b) (liveStateValues a)"
  have ops: "Inr ` set xs = ?f ` set ?cs"
    using xs unfolding liveChangesToOps_def by (rule mapR_image)
  have emits: "liveOperationIdentity x = Inr (ch_identity c) \<and> (\<exists>src. emitLiveOperation x = Inr src)"
    if "c \<in> set ?cs" "?f c = Inr x" for c x
  proof (rule changeToOp_emits [OF n _ that(2)])
    show "refChange (live_map ss) (live_map ts) (ch_identity c) = Some c"
      using that(1) by (simp add: set_refDiff)
  qed
  have one: "(\<exists>y. bindR (liveOperationIdentity x) (\<lambda>i.
         if reservedWorktreeReplyName (id_name i)
         then Inl (Errorf ''live identity %q uses the reserved acknowledgement namespace'')
         else emitCheckedLiveOperation x) = Inr y) \<longleftrightarrow> \<not> reservedWorktreeReplyName (id_name (ch_identity c))"
    if "c \<in> set ?cs" "?f c = Inr x" for c x
    using emits [OF that] by (auto simp: emitCheckedLiveOperation_def)
  have "(\<forall>x \<in> set xs. \<exists>y. bindR (liveOperationIdentity x) (\<lambda>i.
         if reservedWorktreeReplyName (id_name i)
         then Inl (Errorf ''live identity %q uses the reserved acknowledgement namespace'')
         else emitCheckedLiveOperation x) = Inr y)
      \<longleftrightarrow> (\<forall>i \<in> ch_identity ` set ?cs. \<not> reservedWorktreeReplyName (id_name i))" (is "?l \<longleftrightarrow> ?r")
  proof
    assume l: ?l
    show ?r
    proof
      fix i assume "i \<in> ch_identity ` set ?cs"
      then obtain c where c: "c \<in> set ?cs" "i = ch_identity c" by blast
      then have "?f c \<in> Inr ` set xs" using ops by blast
      then obtain x where "x \<in> set xs" "?f c = Inr x" by auto
      with one [OF c(1)] l c(2) show "\<not> reservedWorktreeReplyName (id_name i)" by blast
    qed
  next
    assume r: ?r
    show ?l
    proof
      fix x assume "x \<in> set xs"
      then have "Inr x \<in> ?f ` set ?cs" using ops by blast
      then obtain c where c: "c \<in> set ?cs" "?f c = Inr x" by (metis imageE)
      with one [OF c] r show "\<exists>y. bindR (liveOperationIdentity x) (\<lambda>i.
         if reservedWorktreeReplyName (id_name i)
         then Inl (Errorf ''live identity %q uses the reserved acknowledgement namespace'')
         else emitCheckedLiveOperation x) = Inr y" by blast
    qed
  qed
  then show ?thesis
    unfolding validateAndEmitLiveOperations_def mapR_Inr_iff by (auto simp: refDiff_changes)
qed

section \<open>Committed documents\<close>

lemma committedExportState_eq:
  "fst (committedExportState p) n \<longleftrightarrow> (\<exists>e \<in> set p. exports_name e \<and> hd (en_names e) = n \<and> en_exported e)"
  "snd (committedExportState p) n \<longleftrightarrow> (\<exists>e \<in> set p. exports_name e \<and> hd (en_names e) = n)"
proof -
  let ?step = "\<lambda>e (exported, known). if \<not> exports_name e then (exported, known)
     else let n = hd (en_names e) in (exported(n := exported n \<or> en_exported e), known(n := True))"
  have "fst (fold ?step p (x, k)) n = (x n \<or> (\<exists>e \<in> set p. exports_name e \<and> hd (en_names e) = n \<and> en_exported e))
     \<and> snd (fold ?step p (x, k)) n = (k n \<or> (\<exists>e \<in> set p. exports_name e \<and> hd (en_names e) = n))" for x k
    by (induction p arbitrary: x k) (auto simp: Let_def)
  from this [of "\<lambda>_. False" "\<lambda>_. False"] show
    "fst (committedExportState p) n \<longleftrightarrow> (\<exists>e \<in> set p. exports_name e \<and> hd (en_names e) = n \<and> en_exported e)"
    "snd (committedExportState p) n \<longleftrightarrow> (\<exists>e \<in> set p. exports_name e \<and> hd (en_names e) = n)"
    by (simp_all add: committedExportState_def)
qed

lemma regeneratedExport_eq:
  "regeneratedExport p i \<longleftrightarrow>
     id_kind i = LiveEnv \<and> (\<exists>e \<in> set p. exports_name e \<and> hd (en_names e) = id_name i) \<longrightarrow>
       (\<exists>e \<in> set p. exports_name e \<and> hd (en_names e) = id_name i \<and> en_exported e)"
  using committedExportState_eq [of p "id_name i"]
  by (cases "committedExportState p") (auto simp: regeneratedExport_def)

lemma checkRegenTombstones_OK:
  "checkRegenTombstones pinned seen is = OK \<longleftrightarrow>
     distinct is \<and> set is \<inter> (seen \<union> pinned) = {} \<and> (\<forall>i \<in> set is. ValidateIdentity i = OK)"
  by (induction "is" arbitrary: seen) (auto simp: bindR_eq_Inr if_Inl_eq_Inr)

lemma pinned_by_source:
  assumes "validateCommittedSourceSecrets p = OK"
  shows "committedPinnedIdentities p \<subseteq> committedSourceSecretIdentities p"
proof -
  have "en_category e = CatSecrets" if "e \<in> set p" "en_secret e \<noteq> None" for e
  proof -
    have "validateSourceEntry e = OK"
      using assms that(1) by (simp add: validateCommittedSourceSecrets_def forE_eq_OK)
    with that(2) show ?thesis by (auto simp: validateSourceEntry_def split: if_splits)
  qed
  then show ?thesis
    unfolding committedPinnedIdentities_def committedSourceSecretIdentities_def by (intro image_mono) auto
qed

lemma store_accepts_regenerator:
  assumes "validateCommittedWorktreeDTO d = OK"
  shows "validateCommittedWorktree d = OK"
proof -
  let ?ss = "pr_states (cw_projection d)"
  have d: "cw_schema d = WorktreeSchemaV1" "pr_schema (cw_projection d) = WorktreeSchemaV1" "good_states ?ss"
    and tombs: "distinct (pr_tombstones (cw_projection d))"
      "\<forall>i \<in> set (pr_tombstones (cw_projection d)). ValidateIdentity i = OK"
      "set (pr_tombstones (cw_projection d)) \<inter> ls_identity ` set ?ss = {}"
    and pins: "(ls_identity ` set ?ss \<union> set (pr_tombstones (cw_projection d))) \<inter> committedPinnedIdentities (cw_source d) = {}"
    using assms pinned_by_source [of "cw_source d"] by (auto simp: validateCommittedWorktreeDTO_OK)
  then have n: "NormalizeLiveStates ?ss = Inr (map CloneLiveState ?ss)"
    by (simp add: NormalizeLiveStates_eq_Inr good_states_def keep_last_id)
  have ids: "ls_identity ` set (map CloneLiveState ?ss) = ls_identity ` set ?ss"
    by (simp add: image_image)
  show ?thesis
    using d tombs pins
    by (auto simp: validateCommittedWorktree_def n Let_def forE_eq_OK bindR_eq_Inr checkRegenTombstones_OK
        ids good_states_def)
qed

lemma read_lines:
  assumes "\<And>x src ts. x \<in> set xs \<Longrightarrow> f x = Inr src \<Longrightarrow> read_text src (line_start ts) = line_start (ts @ g x)"
    and "mapR f xs = Inr sources"
  shows "read_text (concat sources) (line_start ts) = line_start (ts @ concat (map g xs))"
  using assms
proof (induction xs arbitrary: sources ts)
  case (Cons x xs)
  from Cons.prems(2) obtain src rest where "f x = Inr src" "mapR f xs = Inr rest" "sources = src # rest"
    by (auto simp: bindR_eq_Inr)
  moreover from this have "read_text src (line_start ts) = line_start (ts @ g x)" for ts
    by (intro Cons.prems(1)) simp_all
  moreover have "read_text (concat rest) (line_start ts) = line_start (ts @ concat (map g xs))" for ts
    by (rule Cons.IH [OF Cons.prems(1)]) (use \<open>mapR f xs = Inr rest\<close> in simp_all)
  ultimately show ?case by simp
qed simp

end
