(* ===== verification/PlanEmit.thy ===== *)
theory PlanEmit
  imports LiveEmit
begin

text \<open>
  The shell text of an activation plan: the other half of
  \<^verbatim>\<open>core/shell/zsh/emit.go\<close>. A function that writes to a builder returns what
  it writes.
\<close>

section \<open>Segments and slots\<close>

definition has_any_char :: "string \<Rightarrow> string \<Rightarrow> bool" where
  "has_any_char cs s \<longleftrightarrow> list_ex (\<lambda>c. c \<in> set cs) s"

definition space_chars :: string where
  "space_chars = [CHR '' '', CHR 0x09, CHR 0x0A, CHR 0x0B, CHR 0x0C, CHR 0x0D]"

text \<open>A dollar sign and a name, and then nothing or a slash and no semicolon or space.\<close>

definition variable_reference :: "string \<Rightarrow> bool" where
  "variable_reference s =
     (case s of
        [] \<Rightarrow> False
      | d # cs \<Rightarrow>
          (let n = takeWhile (\<lambda>c. is_alnum c \<or> c = CHR ''_'') cs;
               rest = dropWhile (\<lambda>c. is_alnum c \<or> c = CHR ''_'') cs
           in d = CHR 0x24 \<and> safeEnvName n
              \<and> (rest = [] \<or> hd rest = CHR ''/'' \<and> \<not> has_any_char (CHR '';'' # space_chars) (tl rest))))"

definition dynamicSegment :: "string \<Rightarrow> bool" where
  "dynamicSegment s =
     (if \<not> has_any_char [CHR 0x24, CHR 0x60] s
         \<or> has_any_char ('' ;|&<>'' @ [CHR 0x0A, CHR 0x0D, CHR 0x09]) s then False
      else if has_prefix (CHR 0x24 # ''HOME/'') s \<or> has_prefix (CHR 0x24 # ''PATH'') s
         \<or> has_prefix (CHR 0x24 # ''path'') s \<or> has_prefix [CHR 0x24, CHR ''{''] s
      then \<not> containsSub [CHR 0x24, CHR ''(''] s \<and> \<not> has_any_char [CHR 0x60] s
      else variable_reference s)"

definition renderValue :: "string \<Rightarrow> bool \<Rightarrow> string" where
  "renderValue applied dynamic = (if dynamic then applied else zquote applied)"

definition encodeSlot :: "string \<Rightarrow> string \<Rightarrow> string" where
  "encodeSlot class name = ''ZP_'' @ class @ ''_'' @ hexEncode name"

text \<open>\<^verbatim>\<open>strings.EqualFold\<close> with a word no letter of which folds outside ASCII.\<close>

definition equal_fold :: "string \<Rightarrow> string \<Rightarrow> bool" where
  "equal_fold s word \<longleftrightarrow> map upper_char s = word"

definition dollar :: "string \<Rightarrow> string" where
  "dollar s = CHR 0x24 # s"

definition renderList :: "string \<Rightarrow> string list \<Rightarrow> string" where
  "renderList name additions =
     (let base = (if equal_fold name ''PATH'' then ''ZP_BASE_PATH''
                  else if equal_fold name ''FPATH'' then ''ZP_BASE_FPATH'' else encodeSlot ''BASE'' name);
          array = (if \<not> equal_fold name ''PATH'' \<and> equal_fold name ''FPATH'' then ''fpath'' else ''path'')
      in name @ ''=\"'' @ dollar base @ ''\"; '' @ array @ ''=(''
           @ joinWith '' '' (map (\<lambda>a. renderValue a (dynamicSegment a)) additions)
           @ '' '' @ dollar array @ '')'')"

fun delta_parts :: "string \<Rightarrow> int \<Rightarrow> int \<Rightarrow> (string \<times> bool) list \<Rightarrow> string list" where
  "delta_parts base idx i [] = (if i = idx then [dollar base] else [])"
| "delta_parts base idx i ((a, d) # rest) =
     (if i = idx then [dollar base] else []) @ renderValue a d # delta_parts base idx (i + 1) rest"

definition renderListDelta :: "string \<Rightarrow> string list \<Rightarrow> int option \<Rightarrow> bool list \<Rightarrow> string" where
  "renderListDelta name additions bi dynamic =
     (case bi of
        None \<Rightarrow> renderList name additions
      | Some idx \<Rightarrow>
          (if length dynamic \<noteq> length additions then renderList name additions
           else let base = (if equal_fold name ''FPATH'' then ''ZP_BASE_FPATH'' else ''ZP_BASE_PATH'')
             in name @ ''='' @ joinWith '':'' (delta_parts base idx 0 (zip additions dynamic))))"

section \<open>Names of helpers\<close>

record emit_names =
  nm_apply :: string
  nm_deactivate :: string
  nm_capture_scalar :: string
  nm_preflight_scalar :: string
  nm_restore_scalar :: string
  nm_preflight_undo_slots :: string
  nm_commit_scalar :: string
  nm_commit_undo_slots :: string
  nm_capture_applied :: bool

definition runtimeHelpers :: string where
  "runtimeHelpers = joinWith newline
    [[],
     ''# These helpers intentionally remain plain functions: option changes made by'',
     ''# the apply loader must persist after the function returns.'',
     ''zp_capture_scalar() {'',
     ''  local var=\"$1\" originalSlot=\"$2\" presenceSlot=\"$3\" exportSlot=\"$4\"'',
     ''  if [[ \"${(P)+presenceSlot}\" == 1 ]]; then return 0; fi'',
     ''  if [[ \"${(P)+var}\" == 1 ]]; then'',
     ''    typeset -g \"$presenceSlot=1\"'',
     ''    typeset -g \"$originalSlot=${(P)var}\"'',
     ''    if [[ \"${parameters[$var]}\" == *export* ]]; then typeset -g \"$exportSlot=1\"'',
     ''    else typeset -g \"$exportSlot=0\"; fi'',
     ''  else'',
     ''    typeset -g \"$presenceSlot=0\"'',
     ''    typeset -g \"$exportSlot=0\"'',
     ''  fi'',
     ''}'',
     ''zp_preflight_undo_slots() {'',
     ''  local slot'',
     ''  for slot in \"$@\"; do'',
     ''    if [[ -n \"$slot\" && \"${(P)+slot}\" == 1 && \"${parameters[$slot]}\" == *readonly* ]]; then'',
     ''      return 1'',
     ''    fi'',
     ''  done'',
     ''  return 0'',
     ''}'',
     ''zp_preflight_restore_scalar() {'',
     ''  local var=\"$1\" applied=\"$2\" originalSlot=\"$3\" presenceSlot=\"$4\" exportSlot=\"$5\" appliedSlot=\"${6-}\"'',
     ''  if [[ -n \"$appliedSlot\" && \"${(P)+appliedSlot}\" == 1 ]]; then applied=\"${(P)appliedSlot}\"; fi'',
     ''  # Commit clears these slots even when a user has changed the target since'',
     ''  # activation, so validate them before returning for drift.'',
     ''  zp_preflight_undo_slots \"$originalSlot\" \"$presenceSlot\" \"$exportSlot\" \"$appliedSlot\" || return $?'',
     ''  if [[ \"${(P)+var}\" != 1 || \"${(P)var}\" != \"$applied\" ]]; then return 0; fi'',
     ''  if [[ \"${parameters[$var]}\" == *readonly* ]]; then return 1; fi'',
     ''  if [[ \"${(P)+presenceSlot}\" != 1 ]]; then return 1; fi'',
     ''  if [[ \"${(P)presenceSlot}\" == 1 && ( \"${(P)+originalSlot}\" != 1 || \"${(P)+exportSlot}\" != 1 ) ]]; then'',
     ''    return 1'',
     ''  fi'',
     ''  return 0'',
     ''}'',
     ''zp_restore_scalar() {'',
     ''  local var=\"$1\" applied=\"$2\" originalSlot=\"$3\" presenceSlot=\"$4\" exportSlot=\"$5\" appliedSlot=\"${6-}\" rc=0'',
     ''  if [[ \"${(P)+appliedSlot}\" == 1 ]]; then applied=\"${(P)appliedSlot}\"; fi'',
     ''  if [[ \"${(P)+var}\" != 1 || \"${(P)var}\" != \"$applied\" ]]; then return 0; fi'',
     ''  if [[ \"${(P)presenceSlot}\" == 1 ]]; then'',
     ''    if typeset -g \"$var=${(P)originalSlot}\"; then :; else return $?; fi'',
     ''    if [[ \"${(P)exportSlot}\" == 1 ]]; then export \"$var\"; else typeset +x \"$var\"; fi'',
     ''    rc=$?'',
     ''    if (( rc != 0 )); then return \"$rc\"; fi'',
     ''  elif unset \"$var\"; then :; else return $?; fi'',
     ''  return 0'',
     ''}'',
     ''zp_commit_restore_scalar() {'',
     ''  local originalSlot=\"$1\" presenceSlot=\"$2\" exportSlot=\"$3\" appliedSlot=\"${4-}\"'',
     ''  if [[ -n \"$appliedSlot\" ]]; then'',
     ''    if unset \"$originalSlot\" \"$presenceSlot\" \"$exportSlot\" \"$appliedSlot\"; then return 0; else return $?; fi'',
     ''  fi'',
     ''  if unset \"$originalSlot\" \"$presenceSlot\" \"$exportSlot\"; then return 0; else return $?; fi'',
     ''}'',
     ''zp_commit_undo_slots() {'',
     ''  if unset \"$@\"; then return 0; else return $?; fi'',
     ''}'',
     []]"

section \<open>Activation\<close>

definition unsupported :: "string \<Rightarrow> 'a result" where
  "unsupported phase = Inl (Errorf (phase @ '': unsupported operation %T''))"

text \<open>The line of a helper call that ends the function when it fails.\<close>

definition call_line :: "string list \<Rightarrow> string" where
  "call_line args = ''  '' @ joinWith '' '' args @ '' || return '' @ dollar ''?'' @ newline"

definition is_set :: "string \<Rightarrow> string" where
  "is_set slot = dollar ''{+'' @ slot @ ''}''"

definition emitActivate :: "op \<Rightarrow> emit_names \<Rightarrow> string result" where
  "emitActivate operation names =
     (case operation of
        SetScalar n applied dynamic exported \<Rightarrow>
          (if \<not> safeEnvName n then Inr []
           else Inr
             (''  '' @ nm_capture_scalar names @ '' '' @ n @ '' '' @ encodeSlot ''ORIGINAL_SCALAR'' n @ '' ''
                @ encodeSlot ''PRESENT_SCALAR'' n @ '' '' @ encodeSlot ''EXPORTED_SCALAR'' n @ newline
              @ (if exported then ''  export '' else ''  typeset -g '') @ n @ ''=''
                @ renderValue applied dynamic @ newline
              @ (if nm_capture_applied names \<or> dynamic
                 then ''  typeset -g '' @ encodeSlot ''APPLIED_SCALAR'' n @ ''=\"'' @ dollar n @ ''\"'' @ newline
                 else [])))
      | ApplyListDelta n additions deletions bi dynamic \<Rightarrow>
          (if \<not> safeEnvName n then Inr []
           else let base = (if equal_fold n ''FPATH'' then ''ZP_BASE_FPATH'' else ''ZP_BASE_PATH'');
                    present = (if equal_fold n ''FPATH'' then ''ZP_BASE_FPATH_PRESENT'' else ''ZP_BASE_PATH_PRESENT'')
             in Inr
               (''  if (( ! '' @ is_set base @ '' )); then if (( '' @ is_set n @ '' )); then typeset -g ''
                  @ present @ ''=1; else typeset -g '' @ present @ ''=0; fi; typeset -g '' @ base
                  @ ''=\"'' @ dollar n @ ''\"; fi'' @ newline
                @ ''  '' @ renderListDelta n additions bi dynamic @ newline))
      | AddAlias n body dynamic \<Rightarrow>
          (if \<not> safeAliasFuncName n then Inr []
           else let original = encodeSlot ''ORIGINAL_ALIAS'' n; presence = encodeSlot ''PRESENT_ALIAS'' n
             in Inr
               (''  if (( ! '' @ is_set presence @ '' )); then if (( '' @ is_set (''aliases['' @ n @ '']'')
                  @ '' )); then typeset -g '' @ presence @ ''=1; typeset -g \"'' @ original @ ''=''
                  @ dollar (''{aliases['' @ n @ '']}'') @ ''\"; else typeset -g '' @ presence @ ''=0; fi; fi'' @ newline
                @ ''  alias '' @ n @ ''='' @ renderValue body dynamic @ newline))
      | AddFunc n body \<Rightarrow>
          (if \<not> safeAliasFuncName n then Inr []
           else let original = encodeSlot ''ORIGINAL_FUNCTION'' n; presence = encodeSlot ''PRESENT_FUNCTION'' n
             in Inr
               (''  if (( ! '' @ is_set presence @ '' )); then if (( '' @ is_set (''functions['' @ n @ '']'')
                  @ '' )); then typeset -g '' @ presence @ ''=1; typeset -g \"'' @ original @ ''=''
                  @ dollar (''{functions['' @ n @ '']}'') @ ''\"; else typeset -g '' @ presence @ ''=0; fi; fi'' @ newline
                @ ''  functions['' @ n @ '']='' @ quoteFunctionBody body @ newline))
      | SetOption n enabled \<Rightarrow>
          (if \<not> safeOptionName n then Inr []
           else let slot = encodeSlot ''WAS_ON_OPTION'' n
             in Inr
               (''  if (( ! '' @ is_set slot @ '' )); then if [[ -o '' @ n @ '' ]]; then typeset -g '' @ slot
                  @ ''=1; else typeset -g '' @ slot @ ''=0; fi; fi'' @ newline
                @ (if enabled then ''  setopt '' else ''  unsetopt '') @ n @ newline))
      | _ \<Rightarrow> unsupported ''activate'')"

section \<open>Deactivation\<close>

definition emitScalarCall :: "string \<Rightarrow> string \<Rightarrow> string \<Rightarrow> bool \<Rightarrow> emit_names \<Rightarrow> string" where
  "emitScalarCall helper n applied dynamic names =
     call_line ([helper, n, renderValue applied False, encodeSlot ''ORIGINAL_SCALAR'' n,
         encodeSlot ''PRESENT_SCALAR'' n, encodeSlot ''EXPORTED_SCALAR'' n]
       @ (if nm_capture_applied names \<or> dynamic then [encodeSlot ''APPLIED_SCALAR'' n] else []))"

definition emitScalarCommit :: "string \<Rightarrow> bool \<Rightarrow> emit_names \<Rightarrow> string" where
  "emitScalarCommit n dynamic names =
     call_line ([nm_commit_scalar names, encodeSlot ''ORIGINAL_SCALAR'' n,
         encodeSlot ''PRESENT_SCALAR'' n, encodeSlot ''EXPORTED_SCALAR'' n]
       @ (if nm_capture_applied names \<or> dynamic then [encodeSlot ''APPLIED_SCALAR'' n] else []))"

text \<open>A helper call for the undo slots of an identity, when its presence was recorded.\<close>

definition guarded_slots :: "string \<Rightarrow> string \<Rightarrow> string list \<Rightarrow> string" where
  "guarded_slots presence helper slots =
     ''  if (( '' @ is_set presence @ '' )); then '' @ joinWith '' '' (helper # slots)
       @ '' || return '' @ dollar ''?'' @ ''; fi'' @ newline"

definition readonly_test :: "string \<Rightarrow> string" where
  "readonly_test n = ''\"'' @ dollar (''{parameters['' @ n @ '']}'') @ ''\" == *readonly*''"

definition emitPreflightDeactivate :: "op \<Rightarrow> emit_names \<Rightarrow> string result" where
  "emitPreflightDeactivate operation names =
     (case operation of
        RestoreScalar n applied dynamic original \<Rightarrow>
          (if \<not> safeEnvName n then Inr []
           else Inr (emitScalarCall (nm_preflight_scalar names) n applied dynamic names))
      | UnsetScalar n applied dynamic \<Rightarrow>
          (if \<not> safeEnvName n then Inr []
           else Inr (emitScalarCall (nm_preflight_scalar names) n applied dynamic names))
      | RebuildListFromBase n \<Rightarrow>
          (if \<not> safeEnvName n then Inr []
           else Inr (''  if [[ '' @ readonly_test n @ '' || '' @ readonly_test (map lower_char n)
             @ '' ]]; then return 1; fi'' @ newline))
      | RestoreShadowedAlias n \<Rightarrow>
          (if \<not> safeAliasFuncName n then Inr []
           else Inr (guarded_slots (encodeSlot ''PRESENT_ALIAS'' n) (nm_preflight_undo_slots names)
             [encodeSlot ''ORIGINAL_ALIAS'' n, encodeSlot ''PRESENT_ALIAS'' n]))
      | RestoreShadowedFunc n \<Rightarrow>
          (if \<not> safeAliasFuncName n then Inr []
           else Inr (guarded_slots (encodeSlot ''PRESENT_FUNCTION'' n) (nm_preflight_undo_slots names)
             [encodeSlot ''ORIGINAL_FUNCTION'' n, encodeSlot ''PRESENT_FUNCTION'' n]))
      | RestoreOption n \<Rightarrow>
          (if \<not> safeOptionName n then Inr []
           else Inr (guarded_slots (encodeSlot ''WAS_ON_OPTION'' n) (nm_preflight_undo_slots names)
             [encodeSlot ''WAS_ON_OPTION'' n]))
      | Unalias n \<Rightarrow> Inr []
      | UnsetFunc n \<Rightarrow> Inr []
      | _ \<Rightarrow> unsupported ''deactivate'')"

text \<open>
  Putting back what a shadowed alias or function was; \<open>assign\<close> and \<open>remove\<close>
  are the two commands.
\<close>

definition restore_shadowed :: "string \<Rightarrow> string \<Rightarrow> string \<Rightarrow> string \<Rightarrow> string" where
  "restore_shadowed presence assign original remove =
     ''  if (( '' @ is_set presence @ '' )); then if (( '' @ presence @ '' )); then if '' @ assign @ ''=\"''
       @ dollar (''{'' @ original @ ''}'') @ ''\"; then :; else return '' @ dollar ''?'' @ ''; fi; else '' @ remove
       @ '' 2>/dev/null || :; fi; fi'' @ newline"

definition emitDeactivate :: "op \<Rightarrow> emit_names \<Rightarrow> string result" where
  "emitDeactivate operation names =
     (case operation of
        RestoreScalar n applied dynamic original \<Rightarrow>
          (if \<not> safeEnvName n then Inr []
           else Inr (emitScalarCall (nm_restore_scalar names) n applied dynamic names))
      | UnsetScalar n applied dynamic \<Rightarrow>
          (if \<not> safeEnvName n then Inr []
           else Inr (emitScalarCall (nm_restore_scalar names) n applied dynamic names))
      | RebuildListFromBase n \<Rightarrow>
          (if \<not> safeEnvName n then Inr []
           else let base = (if equal_fold n ''PATH'' then ''ZP_BASE_PATH''
                    else if equal_fold n ''FPATH'' then ''ZP_BASE_FPATH'' else encodeSlot ''BASE'' n);
                    present = (if equal_fold n ''FPATH'' then ''ZP_BASE_FPATH_PRESENT'' else ''ZP_BASE_PATH_PRESENT'')
             in Inr (''  if (( '' @ is_set present @ '' )) && [[ \"'' @ dollar present @ ''\" != 1 ]]; then unset ''
               @ n @ '' '' @ map lower_char n @ ''; else '' @ n @ ''=\"'' @ dollar base @ ''\"; fi'' @ newline))
      | Unalias n \<Rightarrow>
          (if \<not> safeAliasFuncName n then Inr [] else Inr (''  unalias '' @ n @ '' 2>/dev/null || :'' @ newline))
      | RestoreShadowedAlias n \<Rightarrow>
          (if \<not> safeAliasFuncName n then Inr []
           else Inr (restore_shadowed (encodeSlot ''PRESENT_ALIAS'' n) (''alias '' @ n)
             (encodeSlot ''ORIGINAL_ALIAS'' n) (''unalias '' @ n)))
      | UnsetFunc n \<Rightarrow>
          (if \<not> safeAliasFuncName n then Inr [] else Inr (''  unset -f '' @ n @ '' 2>/dev/null || :'' @ newline))
      | RestoreShadowedFunc n \<Rightarrow>
          (if \<not> safeAliasFuncName n then Inr []
           else Inr (restore_shadowed (encodeSlot ''PRESENT_FUNCTION'' n) (''functions['' @ n @ '']'')
             (encodeSlot ''ORIGINAL_FUNCTION'' n) (''unset -f '' @ n)))
      | RestoreOption n \<Rightarrow>
          (if \<not> safeOptionName n then Inr []
           else let slot = encodeSlot ''WAS_ON_OPTION'' n
             in Inr (''  if (( '' @ is_set slot @ '' )); then if (( '' @ slot @ '' )); then setopt '' @ n
               @ '' || return '' @ dollar ''?'' @ ''; else unsetopt '' @ n @ '' || return '' @ dollar ''?''
               @ ''; fi; fi'' @ newline))
      | _ \<Rightarrow> unsupported ''deactivate'')"

definition emitCommitDeactivate :: "op \<Rightarrow> emit_names \<Rightarrow> string result" where
  "emitCommitDeactivate operation names =
     (case operation of
        RestoreScalar n applied dynamic original \<Rightarrow>
          (if \<not> safeEnvName n then Inr [] else Inr (emitScalarCommit n dynamic names))
      | UnsetScalar n applied dynamic \<Rightarrow>
          (if \<not> safeEnvName n then Inr [] else Inr (emitScalarCommit n dynamic names))
      | RestoreShadowedAlias n \<Rightarrow>
          (if \<not> safeAliasFuncName n then Inr []
           else Inr (guarded_slots (encodeSlot ''PRESENT_ALIAS'' n) (nm_commit_undo_slots names)
             [encodeSlot ''ORIGINAL_ALIAS'' n, encodeSlot ''PRESENT_ALIAS'' n]))
      | RestoreShadowedFunc n \<Rightarrow>
          (if \<not> safeAliasFuncName n then Inr []
           else Inr (guarded_slots (encodeSlot ''PRESENT_FUNCTION'' n) (nm_commit_undo_slots names)
             [encodeSlot ''ORIGINAL_FUNCTION'' n, encodeSlot ''PRESENT_FUNCTION'' n]))
      | RestoreOption n \<Rightarrow>
          (if \<not> safeOptionName n then Inr []
           else Inr (guarded_slots (encodeSlot ''WAS_ON_OPTION'' n) (nm_commit_undo_slots names)
             [encodeSlot ''WAS_ON_OPTION'' n]))
      | RebuildListFromBase n \<Rightarrow> Inr []
      | Unalias n \<Rightarrow> Inr []
      | UnsetFunc n \<Rightarrow> Inr []
      | _ \<Rightarrow> unsupported ''deactivate'')"

section \<open>Plans\<close>

definition emitAll :: "(op \<Rightarrow> emit_names \<Rightarrow> string result) \<Rightarrow> op list \<Rightarrow> emit_names \<Rightarrow> string result" where
  "emitAll emit ops names = bindR (mapR (\<lambda>x. emit x names) ops) (\<lambda>texts. Inr (concat texts))"

definition emitPlan :: "plan \<Rightarrow> emit_names \<Rightarrow> bool \<Rightarrow> (string \<times> string) result" where
  "emitPlan p names includeHelpers =
     (let helpers = (if includeHelpers then runtimeHelpers else [])
      in bindR (emitAll emitActivate (pn_activate p) names) (\<lambda>a.
         bindR (emitAll emitPreflightDeactivate (pn_deactivate p) names) (\<lambda>preflight.
         bindR (emitAll emitDeactivate (pn_deactivate p) names) (\<lambda>reversal.
         bindR (emitAll emitCommitDeactivate (pn_deactivate p) names) (\<lambda>commit.
           Inr (helpers @ newline @ nm_apply names @ ''() {'' @ newline @ a @ ''}'' @ newline,
                helpers @ newline @ nm_deactivate names @ ''() {'' @ newline @ preflight @ reversal @ commit
                  @ ''}'' @ newline))))))"

definition Emit :: "plan \<Rightarrow> (string \<times> string) result" where
  "Emit p = emitPlan p
     \<lparr>nm_apply = ''zp_apply'', nm_deactivate = ''zp_deactivate'', nm_capture_scalar = ''zp_capture_scalar'',
      nm_preflight_scalar = ''zp_preflight_restore_scalar'', nm_restore_scalar = ''zp_restore_scalar'',
      nm_preflight_undo_slots = ''zp_preflight_undo_slots'', nm_commit_scalar = ''zp_commit_restore_scalar'',
      nm_commit_undo_slots = ''zp_commit_undo_slots'', nm_capture_applied = True\<rparr> True"

definition EmitRuntime :: "plan \<Rightarrow> string \<Rightarrow> string \<Rightarrow> (string \<times> string) result" where
  "EmitRuntime p applyName deactivateName =
     (if \<not> safeAliasFuncName applyName \<or> \<not> safeAliasFuncName deactivateName
      then Inl (Errorf ''runtime emission requires safe function names'')
      else emitPlan p
        \<lparr>nm_apply = applyName, nm_deactivate = deactivateName, nm_capture_scalar = ''_zp_capture_scalar'',
         nm_preflight_scalar = ''_zp_preflight_restore_scalar'', nm_restore_scalar = ''_zp_restore_scalar'',
         nm_preflight_undo_slots = ''_zp_preflight_undo_slots'', nm_commit_scalar = ''_zp_commit_restore_scalar'',
         nm_commit_undo_slots = ''_zp_commit_undo_slots'', nm_capture_applied = False\<rparr> False)"

end
