(* ===== verification/PlanFacts.thy ===== *)
theory PlanFacts
  imports PlanEmit ShellReader
begin

text \<open>
  What in the emitted text of a plan can depend on its values: texts are compared by how the
  reference reader reads them, with the quoted characters left out.
\<close>

section \<open>The mode of the reader\<close>

definition mode_step :: "char \<Rightarrow> quote_mode \<Rightarrow> quote_mode" where
  "mode_step c m =
     (case m of
        Bare \<Rightarrow> (if c = quote_char then Single else if c = CHR 0x22 then Double
                  else if c = CHR 0x5C then BareEscape else Bare)
      | Single \<Rightarrow> (if c = quote_char then Bare else Single)
      | Double \<Rightarrow> (if c = CHR 0x22 then Bare else if c = CHR 0x5C then DoubleEscape else Double)
      | BareEscape \<Rightarrow> Bare
      | DoubleEscape \<Rightarrow> Double)"

definition modes :: "string \<Rightarrow> quote_mode \<Rightarrow> quote_mode" where
  "modes s = fold mode_step s"

lemma modes_simps [simp]:
  "modes [] m = m" "modes (c # s) m = modes s (mode_step c m)" "modes (s @ t) m = modes t (modes s m)"
  by (simp_all add: modes_def)

lemma word_mode [simp]:
  "rd_mode (push_char q c r) = rd_mode r" "rd_mode (close_word r) = rd_mode r"
  "rd_mode (open_word m r) = m"
  by (simp_all add: push_char_def close_word_def open_word_def split: option.split)

lemma read_char_mode: "rd_mode (read_char c r) = mode_step c (rd_mode r)"
  by (cases "rd_mode r") (simp_all add: read_char_def read_bare_def mode_step_def Let_def)

lemma read_text_mode: "rd_mode (read_text s r) = modes s (rd_mode r)"
  by (induction s arbitrary: r) (simp_all add: read_text_Cons read_char_mode)

text \<open>Text without quotes and backslashes leaves the mode alone.\<close>

definition calm :: "string \<Rightarrow> bool" where
  "calm s \<longleftrightarrow> quote_char \<notin> set s \<and> CHR 0x22 \<notin> set s \<and> CHR 0x5C \<notin> set s"

lemma modes_calm [simp]: "calm s \<Longrightarrow> modes s Bare = Bare" "calm s \<Longrightarrow> modes s Double = Double"
  by (induction s) (auto simp: calm_def mode_step_def)

lemma calm_simps [simp]:
  "calm []" "calm (s @ t) \<longleftrightarrow> calm s \<and> calm t"
  "calm (c # s) \<longleftrightarrow> c \<noteq> quote_char \<and> c \<noteq> CHR 0x22 \<and> c \<noteq> CHR 0x5C \<and> calm s"
  by (auto simp: calm_def)

lemma calm_name:
  assumes "safeEnvName n \<or> safeAliasFuncName n \<or> safeOptionName n"
  shows "calm n"
  using plain_name [OF assms] by (auto simp: calm_def list_all_iff plain_char_def)

lemma calm_lower:
  assumes "safeEnvName n"
  shows "calm (map lower_char n)"
proof -
  have "lower_char c \<noteq> quote_char \<and> lower_char c \<noteq> CHR 0x22 \<and> lower_char c \<noteq> CHR 0x5C" if "c \<in> set n" for c
  proof -
    have "is_alnum c \<or> c = CHR ''_''"
      using assms that by (cases n) (auto simp: safeEnvName_def list_all_iff is_alnum_def)
    then consider "is_upper c" | "\<not> is_upper c" "plain_char c"
      using plain_name_char [of c] by blast
    then show ?thesis
    proof cases
      case 1
      have "65 \<le> (of_char c :: nat)" "(of_char c :: nat) \<le> 90"
        using 1 by (simp_all add: is_upper_def less_eq_char_def)
      moreover from this have "(of_char (lower_char c) :: nat) = of_char c + 32"
        unfolding lower_char_def if_P [OF 1] of_char_of by (intro mod_less) linarith
      ultimately have "97 \<le> (of_char (lower_char c) :: nat)" "(of_char (lower_char c) :: nat) \<le> 122" by linarith+
      then have up: "is_lower (lower_char c)" unfolding is_lower_def less_eq_char_def by (simp only: of_char_Char) simp
      from up have "plain_char (lower_char c)" by (intro plain_name_char) (simp add: is_alnum_def is_alpha_def)
      then show ?thesis by (simp add: plain_char_def)
    qed (simp add: lower_char_def plain_char_def)
  qed
  then show ?thesis unfolding calm_def set_map by (metis imageE)
qed

lemma hex_char: "c \<in> set ''0123456789abcdef'' \<Longrightarrow> c \<noteq> quote_char \<and> c \<noteq> CHR 0x22 \<and> c \<noteq> CHR 0x5C"
proof -
  have "list_all (\<lambda>c. c \<noteq> quote_char \<and> c \<noteq> CHR 0x22 \<and> c \<noteq> CHR 0x5C) ''0123456789abcdef''"
    by (simp add: quote_char_def)
  then show "c \<in> set ''0123456789abcdef'' \<Longrightarrow> ?thesis" unfolding list_all_iff by blast
qed

lemma calm_hex: "calm (hexEncode s)"
proof (induction s)
  case (Cons c s)
  have "hex_digit n \<in> set ''0123456789abcdef''" if "n < 16" for n
    unfolding hex_digit_def by (rule nth_mem) (use that in simp)
  moreover have "of_char c div 16 < (16 :: nat)"
    using nat_of_char_less_256 [of c] by (intro less_mult_imp_div_less) simp
  moreover have "of_char c mod 16 < (16 :: nat)" by (rule mod_less_divisor) simp
  ultimately have "hex_digit (of_char c div 16) \<in> set ''0123456789abcdef''"
    "hex_digit (of_char c mod 16) \<in> set ''0123456789abcdef''" by blast+
  from this [THEN hex_char] Cons show ?case by simp
qed simp

lemma calm_slot [simp]: "calm class \<Longrightarrow> calm (encodeSlot class n)"
  by (simp add: encodeSlot_def calm_hex) (simp add: quote_char_def)

lemma calm_pieces [simp]:
  "calm (dollar s) \<longleftrightarrow> calm s" "calm (is_set s) \<longleftrightarrow> calm s" "calm newline"
  by (simp_all add: dollar_def is_set_def newline_def quote_char_def)

section \<open>Texts that differ only in quoted characters\<close>

fun unquoted_token :: "shell_token \<Rightarrow> shell_token" where
  "unquoted_token (Word w) = Word (filter (Not \<circ> fst) w)"
| "unquoted_token (Mark c) = Mark c"

definition shape :: "reader \<Rightarrow> reader" where
  "shape r = \<lparr>rd_mode = rd_mode r, rd_word = map_option (filter (Not \<circ> fst)) (rd_word r),
     rd_tokens = map unquoted_token (rd_tokens r)\<rparr>"

lemma shape_parts:
  "shape (push_char q c r) = (if q then open_word (rd_mode r) (shape r) else push_char False c (shape r))"
  "shape (close_word r) = close_word (shape r)"
  "shape (open_word m r) = open_word m (shape r)"
  "shape (r\<lparr>rd_mode := m\<rparr>) = (shape r)\<lparr>rd_mode := m\<rparr>"
  "shape (r\<lparr>rd_tokens := rd_tokens r @ [Mark c]\<rparr>) = (shape r)\<lparr>rd_tokens := rd_tokens (shape r) @ [Mark c]\<rparr>"
  "rd_mode (shape r) = rd_mode r"
  by (auto simp: shape_def push_char_def close_word_def open_word_def split: option.split)

lemma shape_read_char: "shape r = shape r' \<Longrightarrow> shape (read_char c r) = shape (read_char c r')"
proof -
  assume eq: "shape r = shape r'"
  then have "rd_mode r = rd_mode r'" by (metis shape_parts(6))
  with eq show ?thesis
    by (cases "rd_mode r") (simp_all add: read_char_def read_bare_def shape_parts Let_def)
qed

lemma shape_read_text: "shape r = shape r' \<Longrightarrow> shape (read_text s r) = shape (read_text s r')"
proof (induction s arbitrary: r r')
  case (Cons c s)
  from Cons.IH [OF shape_read_char [OF Cons.prems]] show ?case by (simp add: read_text_Cons)
qed simp

text \<open>
  Two texts that, read from one mode, end in one mode and differ in quoted characters at most.
\<close>

definition same_from :: "quote_mode \<Rightarrow> quote_mode \<Rightarrow> string \<Rightarrow> string \<Rightarrow> bool" where
  "same_from m m' s t \<longleftrightarrow> modes s m = m' \<and> modes t m = m'
     \<and> (\<forall>r. rd_mode r = m \<longrightarrow> shape (read_text s r) = shape (read_text t r))"

abbreviation same_text :: "string \<Rightarrow> string \<Rightarrow> bool" where
  "same_text \<equiv> same_from Bare Bare"

lemma same_from_refl: "same_from m (modes s m) s s"
  by (simp add: same_from_def)

lemma same_text_refl: "modes s Bare = Bare \<Longrightarrow> same_text s s"
  by (simp add: same_from_def)

lemma same_from_append:
  assumes "same_from m m' s t" "same_from m' m'' s' t'"
  shows "same_from m m'' (s @ s') (t @ t')"
proof -
  have "shape (read_text s' (read_text s r)) = shape (read_text t' (read_text t r))" if "rd_mode r = m" for r
  proof -
    have "shape (read_text s' (read_text s r)) = shape (read_text s' (read_text t r))"
      using assms(1) that by (intro shape_read_text) (simp add: same_from_def)
    also have "\<dots> = shape (read_text t' (read_text t r))"
      using assms that by (simp add: same_from_def read_text_mode)
    finally show ?thesis .
  qed
  with assms show ?thesis by (simp add: same_from_def)
qed

lemma same_from_end: "same_from m m' s t \<Longrightarrow> m' = m'' \<Longrightarrow> same_from m m'' s t"
  by simp

lemma same_text_concat: "list_all2 same_text ss ts \<Longrightarrow> same_text (concat ss) (concat ts)"
  by (induction rule: list_all2_induct) (simp_all add: same_text_refl same_from_append)

lemma same_text_join:
  assumes "modes sep Bare = Bare" "list_all2 same_text ss ts"
  shows "same_text (joinWith sep ss) (joinWith sep ts)"
  using assms(2)
proof (induction rule: list_all2_induct)
  case (Cons x xs y ys)
  then show ?case
    using same_from_append [OF Cons.hyps(1) same_from_append [OF same_text_refl [OF assms(1)] Cons.IH]]
    by (cases xs; cases ys) auto
qed (simp add: same_text_refl)

lemma bare_reader:
  assumes "rd_mode r = Bare"
  obtains ts where "r = line_start ts" | w ts where "r = in_word w ts"
proof (cases "rd_word r")
  case None
  then show ?thesis using assms by (intro that(1) [of "rd_tokens r"]) (simp add: line_start_def)
next
  case (Some w)
  then show ?thesis using assms by (intro that(2) [of w "rd_tokens r"]) (simp add: in_word_def)
qed

lemma filter_quoted [simp]: "filter (Not \<circ> fst) (quoted v) = []"
  by (simp add: quoted_def filter_map comp_def)

lemma modes_zquote [simp]: "modes (zquote v) Bare = Bare"
  using read_text_mode [of "zquote v" "line_start []"] by (simp add: read_zquote) (simp add: line_start_def in_word_def)

lemma same_zquote: "same_text (zquote v) (zquote v')"
proof -
  have "shape (read_text (zquote v) r) = shape (read_text (zquote v') r)" if "rd_mode r = Bare" for r
    using bare_reader [OF that]
    by (cases rule: bare_reader [OF that]) (simp_all add: read_zquote, simp_all add: shape_def in_word_def)
  then show ?thesis by (simp add: same_from_def)
qed

lemma read_body_start: "read_text (quoteFunctionBody s) (line_start ts) = in_word (quoted s) ts"
proof -
  have "read_char (CHR 0x22) (line_start ts) = in_quotes Double [] ts"
    by (simp add: read_char_def read_bare_def open_word_def line_start_def in_quotes_def quote_char_def)
  moreover have "read_char (CHR 0x22) (in_quotes Double w ts) = in_word w ts" for w
    by (simp add: read_char_def in_word_def in_quotes_def)
  ultimately show ?thesis
    by (simp add: quoteFunctionBody_escape read_text_Cons read_double)
qed

lemma modes_body [simp]: "modes (quoteFunctionBody v) Bare = Bare"
  using read_text_mode [of "quoteFunctionBody v" "line_start []"]
  by (simp add: read_body_start) (simp add: line_start_def in_word_def)

lemma same_body: "same_text (quoteFunctionBody v) (quoteFunctionBody v')"
proof -
  have "shape (read_text (quoteFunctionBody v) r) = shape (read_text (quoteFunctionBody v') r)" if "rd_mode r = Bare" for r
    by (cases rule: bare_reader [OF that]) (simp_all add: read_body read_body_start, simp_all add: shape_def in_word_def)
  then show ?thesis by (simp add: same_from_def)
qed

text \<open>A value of the same kind: a dynamic one is the same text, and closes its quotes.\<close>

definition same_value :: "bool \<Rightarrow> string \<Rightarrow> string \<Rightarrow> bool" where
  "same_value dynamic v v' \<longleftrightarrow> (dynamic \<longrightarrow> v' = v \<and> modes v Bare = Bare)"

lemma same_render: "same_value d v v' \<Longrightarrow> same_text (renderValue v d) (renderValue v' d)"
  by (simp add: renderValue_def same_value_def same_zquote same_text_refl)

lemma same_from_value: "m = Bare \<Longrightarrow> same_value d v v' \<Longrightarrow> same_from m Bare (renderValue v d) (renderValue v' d)"
  by (simp add: same_render)

lemma same_from_body: "m = Bare \<Longrightarrow> same_from m Bare (quoteFunctionBody v) (quoteFunctionBody v')"
  by (simp add: same_body)

section \<open>Operations that differ in values\<close>

definition same_op :: "op \<Rightarrow> op \<Rightarrow> bool" where
  "same_op x y =
     (case x of
        SetScalar n v d e \<Rightarrow> (\<exists>v'. y = SetScalar n v' d e \<and> same_value d v v')
      | ApplyListDelta n as dels bi ds \<Rightarrow>
          (\<exists>as'. y = ApplyListDelta n as' dels bi ds
             \<and> (if bi \<noteq> None \<and> length ds = length as
                then list_all2 (\<lambda>(a, d) (a', d'). d' = d \<and> same_value d a a') (zip as ds) (zip as' ds) \<and> length as' = length as
                else list_all2 (\<lambda>a a'. dynamicSegment a' = dynamicSegment a \<and> same_value (dynamicSegment a) a a') as as'))
      | AddAlias n v d \<Rightarrow> (\<exists>v'. y = AddAlias n v' d \<and> same_value d v v')
      | AddFunc n v \<Rightarrow> (\<exists>v'. y = AddFunc n v')
      | RestoreScalar n v d e \<Rightarrow> (\<exists>v' e'. y = RestoreScalar n v' d e')
      | UnsetScalar n v d \<Rightarrow> (\<exists>v'. y = UnsetScalar n v' d)
      | _ \<Rightarrow> y = x)"

definition calm_names :: "emit_names \<Rightarrow> bool" where
  "calm_names names \<longleftrightarrow> calm (nm_apply names) \<and> calm (nm_deactivate names) \<and> calm (nm_capture_scalar names)
     \<and> calm (nm_preflight_scalar names) \<and> calm (nm_restore_scalar names) \<and> calm (nm_preflight_undo_slots names)
     \<and> calm (nm_commit_scalar names) \<and> calm (nm_commit_undo_slots names)"

definition same_result :: "string result \<Rightarrow> string result \<Rightarrow> bool" where
  "same_result r r' \<longleftrightarrow> (case r of Inl e \<Rightarrow> r' = Inl e | Inr s \<Rightarrow> (\<exists>t. r' = Inr t \<and> same_text s t))"

lemma same_result_Inr: "same_text s t \<Longrightarrow> same_result (Inr s) (Inr t)"
  by (simp add: same_result_def)

lemma same_result_nil: "same_result (Inr []) (Inr [])"
  by (simp add: same_result_def same_text_refl)

lemma same_delta_parts:
  assumes "list_all2 (\<lambda>(a, d) (a', d'). d' = d \<and> same_value d a a') xs ys" "calm base"
  shows "list_all2 same_text (delta_parts base idx i xs) (delta_parts base idx i ys)"
  using assms(1)
proof (induction arbitrary: i rule: list_all2_induct)
  case (Cons x xs y ys)
  then show ?case
    using assms(2) by (cases x; cases y) (auto simp: same_render same_text_refl)
qed (use assms(2) in \<open>simp add: same_text_refl\<close>)

lemmas mode_simps = mode_step_def quote_char_def

lemma same_list:
  assumes "list_all2 (\<lambda>a a'. dynamicSegment a' = dynamicSegment a \<and> same_value (dynamicSegment a) a a') as as'" "calm n"
  shows "same_text (renderList n as) (renderList n as')"
proof -
  have "list_all2 same_text (map (\<lambda>a. renderValue a (dynamicSegment a)) as) (map (\<lambda>a. renderValue a (dynamicSegment a)) as')"
    using assms(1) by (induction rule: list_all2_induct) (auto simp: same_render)
  then have join: "same_from m Bare (joinWith '' '' (map (\<lambda>a. renderValue a (dynamicSegment a)) as))
      (joinWith '' '' (map (\<lambda>a. renderValue a (dynamicSegment a)) as'))" if "m = Bare" for m
    using that by (simp add: same_text_join mode_step_def quote_char_def)
  show ?thesis
    unfolding renderList_def Let_def
    by (rule same_from_end, (rule same_from_refl | (rule join, simp add: mode_simps assms(2)) | rule same_from_append)+)
       (simp add: mode_simps assms(2))
qed

lemma same_list_delta:
  assumes "same_op (ApplyListDelta n as dels bi ds) (ApplyListDelta n as' dels bi ds)" "calm n"
  shows "same_text (renderListDelta n as bi ds) (renderListDelta n as' bi ds)"
proof (cases "bi \<noteq> None \<and> length ds = length as")
  case True
  then obtain idx where idx: "bi = Some idx" by blast
  let ?base = "if equal_fold n ''FPATH'' then ''ZP_BASE_FPATH'' else ''ZP_BASE_PATH''"
  have zip: "list_all2 (\<lambda>(a, d) (a', d'). d' = d \<and> same_value d a a') (zip as ds) (zip as' ds)"
    "length as' = length as"
    using assms(1) True by (auto simp: same_op_def)
  have "same_text (joinWith '':'' (delta_parts ?base idx 0 (zip as ds))) (joinWith '':'' (delta_parts ?base idx 0 (zip as' ds)))"
    by (intro same_text_join same_delta_parts zip) (simp_all add: mode_simps)
  then have "same_from m Bare (joinWith '':'' (delta_parts ?base idx 0 (zip as ds)))
      (joinWith '':'' (delta_parts ?base idx 0 (zip as' ds)))" if "m = Bare" for m
    using that by simp
  note join = this
  show ?thesis
    unfolding renderListDelta_def idx option.case Let_def using True zip(2)
    by (simp only: if_False simp_thms idx not_True_eq_False)
       (rule same_from_end, (rule same_from_refl | (rule join, simp add: mode_simps assms(2)) | rule same_from_append)+, rule refl)
next
  case False
  then have "list_all2 (\<lambda>a a'. dynamicSegment a' = dynamicSegment a \<and> same_value (dynamicSegment a) a a') as as'"
    using assms(1) by (auto simp: same_op_def split: if_splits)
  from same_list [OF this assms(2)] False list_all2_lengthD [OF this] show ?thesis
    by (cases bi) (auto simp: renderListDelta_def)
qed

section \<open>Emission of operations that differ in values\<close>

lemma safe_branch: "P \<Longrightarrow> (if \<not> P then x else y) = y"
  by simp

lemma same_activate:
  assumes "same_op x y" "calm_names names"
  shows "same_result (emitActivate x names) (emitActivate y names)"
proof (cases x)
  case (SetScalar n v d e)
  then obtain v' where y: "y = SetScalar n v' d e" "same_value d v v'" using assms(1) by (auto simp: same_op_def)
  show ?thesis
  proof (cases "safeEnvName n")
    case True
    then have calm: "calm n" "calm (nm_capture_scalar names)"
      using assms(2) by (simp_all add: calm_name calm_names_def)
    show ?thesis
      unfolding SetScalar y(1) emitActivate_def op.case safe_branch [OF True]
      by (rule same_result_Inr, rule same_from_end,
          (rule same_from_refl | (rule same_from_value, simp add: mode_simps calm, rule y(2)) | rule same_from_append)+)
         (simp add: mode_simps calm)
  qed (simp add: SetScalar y emitActivate_def same_result_nil)
next
  case (ApplyListDelta n as dels bi ds)
  then obtain as' where y: "y = ApplyListDelta n as' dels bi ds"
    using assms(1) by (auto simp: same_op_def)
  show ?thesis
  proof (cases "safeEnvName n")
    case True
    then have calm: "calm n" by (simp add: calm_name)
    have "same_from m Bare (renderListDelta n as bi ds) (renderListDelta n as' bi ds)" if "m = Bare" for m
      using same_list_delta [OF _ calm] assms(1) ApplyListDelta y that by simp
    note list = this
    show ?thesis
      unfolding ApplyListDelta y(1) emitActivate_def op.case safe_branch [OF True] Let_def
      by (rule same_result_Inr, rule same_from_end,
          (rule same_from_refl | (rule list, simp add: mode_simps calm) | rule same_from_append)+)
         (simp add: mode_simps calm)
  qed (simp add: ApplyListDelta y emitActivate_def same_result_nil)
next
  case (AddAlias n v d)
  then obtain v' where y: "y = AddAlias n v' d" "same_value d v v'" using assms(1) by (auto simp: same_op_def)
  show ?thesis
  proof (cases "safeAliasFuncName n")
    case True
    then have calm: "calm n" by (simp add: calm_name)
    show ?thesis
      unfolding AddAlias y(1) emitActivate_def op.case safe_branch [OF True] Let_def
      by (rule same_result_Inr, rule same_from_end,
          (rule same_from_refl | (rule same_from_value, simp add: mode_simps calm, rule y(2)) | rule same_from_append)+)
         (simp add: mode_simps calm)
  qed (simp add: AddAlias y emitActivate_def same_result_nil)
next
  case (AddFunc n v)
  then obtain v' where y: "y = AddFunc n v'" using assms(1) by (auto simp: same_op_def)
  show ?thesis
  proof (cases "safeAliasFuncName n")
    case True
    then have calm: "calm n" by (simp add: calm_name)
    show ?thesis
      unfolding AddFunc y emitActivate_def op.case safe_branch [OF True] Let_def
      by (rule same_result_Inr, rule same_from_end,
          (rule same_from_refl | (rule same_from_body, simp add: mode_simps calm) | rule same_from_append)+)
         (simp add: mode_simps calm)
  qed (simp add: AddFunc y emitActivate_def same_result_nil)
next
  case (SetOption n e)
  then have y: "y = SetOption n e" using assms(1) by (auto simp: same_op_def)
  show ?thesis
  proof (cases "safeOptionName n")
    case True
    then have calm: "calm n" by (simp add: calm_name)
    show ?thesis
      unfolding SetOption y emitActivate_def op.case safe_branch [OF True] Let_def
      by (rule same_result_Inr, rule same_text_refl) (simp add: mode_simps calm)
  qed (simp add: SetOption y emitActivate_def same_result_nil)
qed (use assms(1) in \<open>auto simp: same_op_def emitActivate_def unsupported_def same_result_def\<close>)

text \<open>Calls of helpers.\<close>

lemma same_call:
  assumes "list_all2 same_text xs ys"
  shows "same_text (call_line xs) (call_line ys)"
proof -
  have "same_from m Bare (joinWith '' '' xs) (joinWith '' '' ys)" if "m = Bare" for m
    using that assms by (simp add: same_text_join mode_simps)
  note join = this
  show ?thesis
    unfolding call_line_def
    by (rule same_from_end, (rule same_from_refl | (rule join, simp add: mode_simps) | rule same_from_append)+)
       (simp add: mode_simps)
qed

lemma same_scalar_call:
  assumes "calm helper" "calm n"
  shows "same_text (emitScalarCall helper n v d names) (emitScalarCall helper n v' d names)"
  unfolding emitScalarCall_def
  by (rule same_call) (simp add: assms same_text_refl renderValue_def same_zquote mode_simps)

lemma calm_line:
  "calm n \<Longrightarrow> calm (nm_commit_scalar names) \<Longrightarrow> modes (emitScalarCommit n d names) Bare = Bare"
  "calm presence \<Longrightarrow> calm helper \<Longrightarrow> list_all calm slots \<Longrightarrow> modes (guarded_slots presence helper slots) Bare = Bare"
  "calm presence \<Longrightarrow> calm assign \<Longrightarrow> calm original \<Longrightarrow> calm remove \<Longrightarrow>
     modes (restore_shadowed presence assign original remove) Bare = Bare"
proof -
  have join: "list_all calm xs \<Longrightarrow> calm (joinWith '' '' xs)" for xs
    by (induction "'' ''" xs rule: joinWith.induct) (auto simp: quote_char_def)
  show "calm n \<Longrightarrow> calm (nm_commit_scalar names) \<Longrightarrow> modes (emitScalarCommit n d names) Bare = Bare"
    by (simp add: emitScalarCommit_def call_line_def mode_simps)
  show "calm presence \<Longrightarrow> calm helper \<Longrightarrow> list_all calm slots \<Longrightarrow> modes (guarded_slots presence helper slots) Bare = Bare"
    using join [of "helper # slots"] by (simp add: guarded_slots_def mode_simps)
  show "calm presence \<Longrightarrow> calm assign \<Longrightarrow> calm original \<Longrightarrow> calm remove \<Longrightarrow>
     modes (restore_shadowed presence assign original remove) Bare = Bare"
    by (simp add: restore_shadowed_def mode_simps)
qed

text \<open>The three passes over the operations of a deactivation.\<close>

lemma same_result_calm: "modes s Bare = Bare \<Longrightarrow> same_result (Inr s) (Inr s)"
  by (simp add: same_result_def same_text_refl)

lemma calm_of:
  "safeEnvName n \<Longrightarrow> calm n" "safeAliasFuncName n \<Longrightarrow> calm n" "safeOptionName n \<Longrightarrow> calm n"
  by (simp_all add: calm_name)

lemma same_preflight:
  assumes "same_op x y" "calm_names names"
  shows "same_result (emitPreflightDeactivate x names) (emitPreflightDeactivate y names)"
proof -
  have names: "calm (nm_preflight_scalar names)" "calm (nm_preflight_undo_slots names)"
    using assms(2) by (simp_all add: calm_names_def)
  show ?thesis
    using assms(1) names
    by (cases x) (auto simp: same_op_def emitPreflightDeactivate_def unsupported_def same_result_nil
        same_result_def [of "Inl e" for e] readonly_test_def mode_simps calm_of calm_lower
        intro!: same_result_Inr same_scalar_call same_result_calm calm_line)
qed

lemma same_deactivate:
  assumes "same_op x y" "calm_names names"
  shows "same_result (emitDeactivate x names) (emitDeactivate y names)"
proof -
  have names: "calm (nm_restore_scalar names)" using assms(2) by (simp add: calm_names_def)
  show ?thesis
    using assms(1) names
    by (cases x) (auto simp: same_op_def emitDeactivate_def unsupported_def same_result_nil Let_def
        same_result_def [of "Inl e" for e] mode_simps calm_of calm_lower
        intro!: same_result_Inr same_scalar_call same_result_calm calm_line)
qed

lemma same_commit:
  assumes "same_op x y" "calm_names names"
  shows "same_result (emitCommitDeactivate x names) (emitCommitDeactivate y names)"
proof -
  have names: "calm (nm_commit_scalar names)" "calm (nm_commit_undo_slots names)"
    using assms(2) by (simp_all add: calm_names_def)
  show ?thesis
    using assms(1) names
    by (cases x) (auto simp: same_op_def emitCommitDeactivate_def unsupported_def same_result_nil
        same_result_def [of "Inl e" for e] mode_simps calm_of
        intro!: same_result_calm calm_line)
qed

section \<open>Plans that differ in values\<close>

lemma same_all:
  assumes "list_all2 same_op xs ys" "\<And>x y. same_op x y \<Longrightarrow> same_result (f x names) (f y names)"
  shows "same_result (emitAll f xs names) (emitAll f ys names)"
proof -
  have "(case mapR (\<lambda>x. f x names) xs of Inl e \<Rightarrow> mapR (\<lambda>x. f x names) ys = Inl e
      | Inr ss \<Rightarrow> (\<exists>ts. mapR (\<lambda>x. f x names) ys = Inr ts \<and> list_all2 same_text ss ts))"
    using assms(1)
  proof (induction rule: list_all2_induct)
    case (Cons x xs y ys)
    from assms(2) [OF Cons.hyps(1)] Cons.IH show ?case
      by (cases "f x names"; cases "mapR (\<lambda>x. f x names) xs") (auto simp: same_result_def)
  qed simp
  then show ?thesis
    by (cases "mapR (\<lambda>x. f x names) xs") (auto simp: emitAll_def same_result_def same_text_concat)
qed

definition same_plan :: "plan \<Rightarrow> plan \<Rightarrow> bool" where
  "same_plan p q \<longleftrightarrow> list_all2 same_op (pn_activate p) (pn_activate q)
     \<and> list_all2 same_op (pn_deactivate p) (pn_deactivate q)"

lemma same_function:
  assumes "same_text s t" "calm name" "modes helpers Bare = Bare"
  shows "same_text (helpers @ newline @ name @ ''() {'' @ newline @ s @ ''}'' @ newline)
    (helpers @ newline @ name @ ''() {'' @ newline @ t @ ''}'' @ newline)"
proof -
  have "same_from m Bare s t" if "m = Bare" for m using that assms(1) by simp
  note body = this
  show ?thesis
    by (rule same_from_end,
        (rule same_from_refl | (rule body, simp add: mode_simps assms(2,3)) | rule same_from_append)+)
       (simp add: mode_simps)
qed

lemma helpers_closed: "modes runtimeHelpers Bare = Bare"
  by code_simp

lemma same_emitPlan:
  assumes "same_plan p q" "calm_names names" "emitPlan p names h = Inr (ap, dp)"
  shows "\<exists>aq dq. emitPlan q names h = Inr (aq, dq) \<and> same_text ap aq \<and> same_text dp dq"
proof -
  let ?helpers = "if h then runtimeHelpers else []"
  have plans: "list_all2 same_op (pn_activate p) (pn_activate q)" "list_all2 same_op (pn_deactivate p) (pn_deactivate q)"
    using assms(1) by (simp_all add: same_plan_def)
  obtain a f r c where texts: "emitAll emitActivate (pn_activate p) names = Inr a"
    "emitAll emitPreflightDeactivate (pn_deactivate p) names = Inr f"
    "emitAll emitDeactivate (pn_deactivate p) names = Inr r"
    "emitAll emitCommitDeactivate (pn_deactivate p) names = Inr c"
    and p: "ap = ?helpers @ newline @ nm_apply names @ ''() {'' @ newline @ a @ ''}'' @ newline"
      "dp = ?helpers @ newline @ nm_deactivate names @ ''() {'' @ newline @ (f @ r @ c) @ ''}'' @ newline"
    using assms(3) by (auto simp: emitPlan_def Let_def bindR_eq_Inr)
  obtain a' where a': "emitAll emitActivate (pn_activate q) names = Inr a'" "same_text a a'"
    using same_all [OF plans(1), of emitActivate names] same_activate assms(2) texts(1) by (auto simp: same_result_def)
  obtain f' where f': "emitAll emitPreflightDeactivate (pn_deactivate q) names = Inr f'" "same_text f f'"
    using same_all [OF plans(2), of emitPreflightDeactivate names] same_preflight assms(2) texts(2) by (auto simp: same_result_def)
  obtain r' where r': "emitAll emitDeactivate (pn_deactivate q) names = Inr r'" "same_text r r'"
    using same_all [OF plans(2), of emitDeactivate names] same_deactivate assms(2) texts(3) by (auto simp: same_result_def)
  obtain c' where c': "emitAll emitCommitDeactivate (pn_deactivate q) names = Inr c'" "same_text c c'"
    using same_all [OF plans(2), of emitCommitDeactivate names] same_commit assms(2) texts(4) by (auto simp: same_result_def)
  have names: "calm (nm_apply names)" "calm (nm_deactivate names)" and h: "modes ?helpers Bare = Bare"
    using assms(2) helpers_closed by (simp_all add: calm_names_def)
  have "emitPlan q names h = Inr (?helpers @ newline @ nm_apply names @ ''() {'' @ newline @ a' @ ''}'' @ newline,
      ?helpers @ newline @ nm_deactivate names @ ''() {'' @ newline @ (f' @ r' @ c') @ ''}'' @ newline)"
    by (simp add: emitPlan_def Let_def a'(1) f'(1) r'(1) c'(1))
  moreover have "same_text (f @ r @ c) (f' @ r' @ c')"
    by (rule same_from_append [OF f'(2) same_from_append [OF r'(2) c'(2)]])
  ultimately show ?thesis
    using same_function [OF a'(2) names(1) h] same_function [OF _ names(2) h] p by blast
qed

section \<open>Plans of the planner\<close>

lemma emits_activate:
  "x \<in> set (activate m) \<Longrightarrow> \<exists>s. emitActivate x names = Inr s"
  by (auto simp: activate_def emitActivate_def activateAlias_def Let_def)

lemma emits_deactivate:
  assumes "x \<in> set (deactivate m)"
  shows "\<exists>s. emitPreflightDeactivate x names = Inr s" "\<exists>s. emitDeactivate x names = Inr s"
    "\<exists>s. emitCommitDeactivate x names = Inr s"
  using assms
  by (auto simp: deactivate_def emitPreflightDeactivate_def emitDeactivate_def emitCommitDeactivate_def Let_def)

lemma emitAll_total:
  assumes "\<And>x. x \<in> set xs \<Longrightarrow> \<exists>s. f x names = Inr s"
  shows "\<exists>s. emitAll f xs names = Inr s"
proof -
  obtain g where "\<And>x. x \<in> set xs \<Longrightarrow> f x names = Inr (g x)" using assms by metis
  then have "mapR (\<lambda>x. f x names) xs = Inr (map g xs)" by (rule mapR_total)
  then show ?thesis by (simp add: emitAll_def)
qed

lemma planned_emits:
  assumes "Diff active target = Inr p"
  shows "\<exists>a d. emitPlan p names h = Inr (a, d)"
proof -
  have "x \<in> set (pn_activate p) \<Longrightarrow> \<exists>m. x \<in> set (activate m)"
    "x \<in> set (pn_deactivate p) \<Longrightarrow> \<exists>m. x \<in> set (deactivate m)" for x
    using assms by (auto simp: Diff_def Let_def bindR_eq_Inr split: if_splits option.splits)
  then have "\<exists>s. emitAll emitActivate (pn_activate p) names = Inr s"
    "\<exists>s. emitAll emitPreflightDeactivate (pn_deactivate p) names = Inr s"
    "\<exists>s. emitAll emitDeactivate (pn_deactivate p) names = Inr s"
    "\<exists>s. emitAll emitCommitDeactivate (pn_deactivate p) names = Inr s"
    by (intro emitAll_total; meson emits_activate emits_deactivate)+
  then show ?thesis by (auto simp: emitPlan_def Let_def)
qed

section \<open>Slots\<close>

lemma hex_no_underscore: "CHR ''_'' \<notin> set (hexEncode s)"
proof (induction s)
  case (Cons c s)
  have "hex_digit n \<noteq> CHR ''_''" if "n < 16" for n
  proof -
    have "hex_digit n \<in> set ''0123456789abcdef''"
      unfolding hex_digit_def by (rule nth_mem) (use that in simp)
    then show ?thesis by auto
  qed
  moreover have "of_char c div 16 < (16 :: nat)"
    using nat_of_char_less_256 [of c] by (intro less_mult_imp_div_less) simp
  moreover have "of_char c mod 16 < (16 :: nat)" by (rule mod_less_divisor) simp
  ultimately show ?case using Cons.IH by (metis hexEncode.simps(2) set_ConsD)
qed simp

lemma split_last_mark:
  assumes "xs @ [m] @ s = ys @ [m] @ t" "m \<notin> set s" "m \<notin> set t"
  shows "xs = ys \<and> s = t"
proof -
  have last: "rev u = takeWhile (\<lambda>c. c \<noteq> m) (rev (zs @ [m] @ u))" if "m \<notin> set u" for zs u
    using that by (simp add: takeWhile_append2 takeWhile_append)
  have "rev s = rev t"
    unfolding last [OF assms(2), of xs] last [OF assms(3), of ys] assms(1) ..
  with assms(1) show ?thesis by simp
qed

lemma encodeSlot_inj: "encodeSlot c n = encodeSlot c' n' \<longleftrightarrow> c = c' \<and> n = n'"
proof
  assume "encodeSlot c n = encodeSlot c' n'"
  then have "c @ [CHR ''_''] @ hexEncode n = c' @ [CHR ''_''] @ hexEncode n'" by (simp add: encodeSlot_def)
  from split_last_mark [OF this hex_no_underscore hex_no_underscore]
  have "c = c'" "hexEncode n = hexEncode n'" by simp_all
  then show "c = c' \<and> n = n'" by (metis hexDecode_hexEncode sum.inject(2))
qed simp

end
