(* ===== verification/EmitProperties.thy ===== *)
theory EmitProperties
  imports EmitFacts PlanFacts Samples
begin

text \<open>
  The properties of the emitted shell text: live patches, committed documents and plans.
\<close>

section \<open>Live patches\<close>

text \<open>
  C37: Every planned patch can be emitted, unless it touches the names of the
  acknowledgement: for two valid lists of states and two different safe function names,
  emission succeeds exactly when no identity whose value differs has a reserved name.
\<close>

theorem planned_patch_emitted:
  assumes "BuildLivePatch ss ts = Inr p"
    and "safeRuntimeLiveFunctionName go" "safeRuntimeLiveFunctionName undo" "go \<noteq> undo"
  shows "(\<exists>src. EmitLivePatch (lp_forward p) (lp_replacement_reverse p) go undo = Inr src) \<longleftrightarrow>
    (\<forall>i. live_map ss i \<noteq> live_map ts i \<longrightarrow> \<not> reservedWorktreeReplyName (id_name i))"
proof -
  obtain b a where n: "NormalizeLiveStates ss = Inr b" "NormalizeLiveStates ts = Inr a"
    and ops: "liveChangesToOps (refDiff (live_map ss) (live_map ts)) b a = Inr (lp_forward p)"
      "liveChangesToOps (refDiff (live_map ts) (live_map ss)) a b = Inr (lp_replacement_reverse p)"
    using assms(1) by (rule BuildLivePatch_ops)
  have "(\<exists>src. EmitLivePatch (lp_forward p) (lp_replacement_reverse p) go undo = Inr src) \<longleftrightarrow>
      (\<exists>f. validateAndEmitLiveOperations (lp_forward p) = Inr f)
      \<and> (\<exists>r. validateAndEmitLiveOperations (lp_replacement_reverse p) = Inr r)"
    using assms(2-4) by (auto simp: EmitLivePatch_def bindR_eq_Inr)
  also have "\<dots> \<longleftrightarrow> (\<forall>i. live_map ss i \<noteq> live_map ts i \<longrightarrow> \<not> reservedWorktreeReplyName (id_name i))"
    unfolding emit_changes [OF n ops(1)] emit_changes [OF n(2,1) ops(2)] by metis
  finally show ?thesis .
qed

lemma foo_removed:
  "BuildLivePatch [set_to foo ''it's''] [] =
     Inr \<lparr>lp_forward = [RemoveLiveScalar foo], lp_replacement_reverse = [SetLiveScalar foo ''it's'']\<rparr>"
  by code_simp

lemma patch_names:
  "safeRuntimeLiveFunctionName ''_zp_go''" "safeRuntimeLiveFunctionName ''_zp_undo''"
  by code_simp+

lemma foo_emits:
  "case EmitLivePatch [RemoveLiveScalar foo] [SetLiveScalar foo ''it's''] ''_zp_go'' ''_zp_undo'' of
     Inl e \<Rightarrow> False | Inr src \<Rightarrow> True"
  by code_simp

theorem planned_patch_emitted_witness:
  "\<exists>src. EmitLivePatch [RemoveLiveScalar foo] [SetLiveScalar foo ''it's''] ''_zp_go'' ''_zp_undo'' = Inr src"
proof -
  have "\<not> reservedWorktreeReplyName (id_name foo)" by code_simp
  moreover have "i = foo" if "live_map [set_to foo ''it's''] i \<noteq> live_map [] i" for i
  proof -
    have "live_map [] i = None" by (simp add: live_map_def live_pairs_def)
    with that have "i \<in> dom (live_map [set_to foo ''it's''])" by auto
    then show ?thesis
      using dom_live_map_subset [of "[set_to foo ''it's'']"] by (auto simp: set_to_def)
  qed
  ultimately show ?thesis
    using planned_patch_emitted [OF foo_removed patch_names] by auto
qed

text \<open>
  C38: No value can escape its quotes. Whatever operations a patch has, if it is emitted then
  reading its text gives the two function definitions with one line for every operation, in
  which names and keywords are bare and every character of a value is quoted, followed by the
  check of its status; after the text the reader is at the start of a line.
\<close>

theorem patch_text_reads:
  assumes "EmitLivePatch forward reverse go undo = Inr src"
  shows "read_text src (line_start []) = line_start
    (function_tokens go (concat (map (\<lambda>x. op_line x @ status_tokens) forward))
     @ function_tokens undo (concat (map (\<lambda>x. op_line x @ status_tokens) reverse)))"
  using read_patch [OF assms, of "[]"] by simp

theorem patch_text_reads_witness:
  "\<exists>src. EmitLivePatch [RemoveLiveScalar foo] [SetLiveScalar foo ''it's''] ''_zp_go'' ''_zp_undo'' = Inr src
     \<and> read_text src (line_start []) = line_start
         (function_tokens ''_zp_go'' (words [''unset'', ''FOO''] @ [eol] @ status_tokens)
          @ function_tokens ''_zp_undo''
              (words [''export''] @ [Word (bare ''FOO='' @ quoted ''it's''), eol] @ status_tokens))"
proof -
  have "\<not> (\<exists>e. EmitLivePatch [RemoveLiveScalar foo] [SetLiveScalar foo ''it's''] ''_zp_go'' ''_zp_undo'' = Inl e)"
    using foo_emits by (auto split: sum.splits)
  then obtain src where src: "EmitLivePatch [RemoveLiveScalar foo] [SetLiveScalar foo ''it's''] ''_zp_go'' ''_zp_undo'' = Inr src"
    by (metis sum.exhaust)
  have "op_line (RemoveLiveScalar foo) = words [''unset'', ''FOO''] @ [eol]"
    "op_line (SetLiveScalar foo ''it's'') = words [''export''] @ [Word (bare ''FOO='' @ quoted ''it's''), eol]"
    by code_simp+
  with patch_text_reads [OF src] src show ?thesis by auto
qed

section \<open>Committed documents\<close>

text \<open>
  What the store accepts the regenerator emits: a document that passes the validation of
  the store is regenerated, and reading the text gives one line for every state of the
  projection, in order, and one for every removal. A variable is exported unless all managed
  assignments of the source to it are plain.
\<close>

theorem committed_text_reads:
  assumes "validateCommittedWorktreeDTO d = OK"
  shows "(\<exists>src. RegenerateWorktree d = Inr src
    \<and> read_text src (line_start []) = line_start
        (concat (map (\<lambda>s. state_line s (regeneratedExport (cw_source d) (ls_identity s))) (pr_states (cw_projection d)))
         @ concat (map removal_line (pr_tombstones (cw_projection d)))))
    \<and> (regeneratedExport (cw_source d) (Identity LiveEnv n) \<longleftrightarrow>
      ((\<exists>e \<in> set (cw_source d). exports_name e \<and> hd (en_names e) = n) \<longrightarrow>
       (\<exists>e \<in> set (cw_source d). exports_name e \<and> hd (en_names e) = n \<and> en_exported e)))"
proof
  let ?f = "\<lambda>s. emitLiveIdentityState s (regeneratedExport (cw_source d) (ls_identity s))"
  let ?ss = "pr_states (cw_projection d)" and ?is = "pr_tombstones (cw_projection d)"
  have ok: "validateCommittedWorktree d = OK" using assms by (rule store_accepts_regenerator)
  have "\<forall>s \<in> set ?ss. \<exists>src. ?f s = Inr src"
    using assms by (auto simp: validateCommittedWorktreeDTO_OK good_states_def emit_state)
  then obtain f where f: "mapR ?f ?ss = Inr f" using mapR_Inr_iff [of ?f ?ss] by blast
  have "\<forall>i \<in> set ?is. \<exists>src. emitLiveIdentityTombstone i = Inr src"
    using assms by (auto simp: validateCommittedWorktreeDTO_OK emit_removal)
  then obtain r where r: "mapR emitLiveIdentityTombstone ?is = Inr r"
    using mapR_Inr_iff [of emitLiveIdentityTombstone ?is] by blast
  have "read_text (concat f) (line_start ts) = line_start (ts @ concat (map
      (\<lambda>s. state_line s (regeneratedExport (cw_source d) (ls_identity s))) ?ss))" for ts
    by (rule read_lines [OF _ f]) (rule read_emitted_state)
  moreover have "read_text (concat r) (line_start ts) = line_start (ts @ concat (map removal_line ?is))" for ts
    by (rule read_lines [OF _ r]) (rule read_emitted_removal)
  ultimately show "\<exists>src. RegenerateWorktree d = Inr src
    \<and> read_text src (line_start []) = line_start
        (concat (map (\<lambda>s. state_line s (regeneratedExport (cw_source d) (ls_identity s))) ?ss)
         @ concat (map removal_line ?is))"
    using ok f r by (simp add: RegenerateWorktree_def)
  show "regeneratedExport (cw_source d) (Identity LiveEnv n) \<longleftrightarrow>
      ((\<exists>e \<in> set (cw_source d). exports_name e \<and> hd (en_names e) = n) \<longrightarrow>
       (\<exists>e \<in> set (cw_source d). exports_name e \<and> hd (en_names e) = n \<and> en_exported e))"
    by (auto simp: regeneratedExport_eq)
qed

theorem committed_text_reads_witness:
  "\<exists>src. RegenerateWorktree sample_committed = Inr src
    \<and> read_text src (line_start []) = line_start
        (concat (map (\<lambda>s. state_line s (regeneratedExport (cw_source sample_committed) (ls_identity s)))
           (pr_states (cw_projection sample_committed)))
         @ concat (map removal_line (pr_tombstones (cw_projection sample_committed))))"
proof -
  have "validateCommittedWorktreeDTO sample_committed = OK" by code_simp
  from committed_text_reads [OF this] show ?thesis by blast
qed

section \<open>Plans\<close>

text \<open>
  C39: A value cannot change the code around it. If the plans of two profiles differ only in
  static values (of variables, aliases, functions and list elements) and one is rendered for
  the runtime, so is the other, and their texts read to the same words except for quoted
  characters, ending outside quotes. Dynamic values, which are meant to be evaluated, are the
  same in both and close their quotes.
\<close>

theorem values_stay_data:
  assumes "same_plan p q" "EmitRuntime p go undo = Inr (ap, dp)"
  shows "\<exists>aq dq. EmitRuntime q go undo = Inr (aq, dq)
    \<and> shape (read_text ap (line_start [])) = shape (read_text aq (line_start []))
    \<and> shape (read_text dp (line_start [])) = shape (read_text dq (line_start []))
    \<and> rd_mode (read_text ap (line_start [])) = Bare \<and> rd_mode (read_text dp (line_start [])) = Bare"
proof -
  let ?names = "\<lparr>nm_apply = go, nm_deactivate = undo, nm_capture_scalar = ''_zp_capture_scalar'',
    nm_preflight_scalar = ''_zp_preflight_restore_scalar'', nm_restore_scalar = ''_zp_restore_scalar'',
    nm_preflight_undo_slots = ''_zp_preflight_undo_slots'', nm_commit_scalar = ''_zp_commit_restore_scalar'',
    nm_commit_undo_slots = ''_zp_commit_undo_slots'', nm_capture_applied = False\<rparr>"
  have safe: "safeAliasFuncName go" "safeAliasFuncName undo" and p: "emitPlan p ?names False = Inr (ap, dp)"
    using assms(2) by (auto simp: EmitRuntime_def split: if_splits)
  have "calm_names ?names"
    using safe by (simp add: calm_names_def calm_name quote_char_def)
  from same_emitPlan [OF assms(1) this p] obtain aq dq where q: "emitPlan q ?names False = Inr (aq, dq)"
    "same_text ap aq" "same_text dp dq" by blast
  have start: "rd_mode (line_start []) = Bare" by (simp add: line_start_def)
  show ?thesis
    using q safe start by (auto simp: EmitRuntime_def same_from_def read_text_mode)
qed

definition token_plan :: "string \<Rightarrow> plan" where
  "token_plan v = \<lparr>pn_deactivate = [UnsetScalar ''API_TOKEN'' v False],
     pn_activate = [SetScalar ''API_TOKEN'' v False True]\<rparr>"

lemma token_emits: "case EmitRuntime (token_plan ''x'') ''_zp_go'' ''_zp_undo'' of Inl e \<Rightarrow> False | Inr r \<Rightarrow> True"
  by code_simp

theorem values_stay_data_witness:
  "\<exists>ap dp aq dq. EmitRuntime (token_plan ''x'') ''_zp_go'' ''_zp_undo'' = Inr (ap, dp)
    \<and> EmitRuntime (token_plan (''it's'' @ newline @ ''rm -rf ~'')) ''_zp_go'' ''_zp_undo'' = Inr (aq, dq)
    \<and> shape (read_text ap (line_start [])) = shape (read_text aq (line_start []))"
proof -
  obtain ap dp where p: "EmitRuntime (token_plan ''x'') ''_zp_go'' ''_zp_undo'' = Inr (ap, dp)"
    using token_emits by (auto split: sum.splits)
  have "same_plan (token_plan ''x'') (token_plan (''it's'' @ newline @ ''rm -rf ~''))"
    by (simp add: token_plan_def same_plan_def same_op_def same_value_def)
  from values_stay_data [OF this p] p show ?thesis by blast
qed

text \<open>
  Whatever the planner plans can be rendered, for any two safe function names and as a
  standalone script; and the undo slots of a rendered plan never collide: the name of a slot
  determines its class and the identity it belongs to.
\<close>

theorem planned_text_and_slots:
  assumes "Diff active target = Inr p" "safeAliasFuncName go" "safeAliasFuncName undo"
  shows "(\<exists>a d. EmitRuntime p go undo = Inr (a, d)) \<and> (\<exists>a d. Emit p = Inr (a, d))
    \<and> (encodeSlot c n = encodeSlot c' n' \<longleftrightarrow> c = c' \<and> n = n')"
  using planned_emits [OF assms(1)] assms(2,3) by (simp add: EmitRuntime_def Emit_def encodeSlot_inj)

theorem planned_text_and_slots_witness:
  "\<exists>a d. EmitRuntime \<lparr>pn_deactivate = [], pn_activate = []\<rparr> ''_zp_go'' ''_zp_undo'' = Inr (a, d)"
proof -
  have "Diff None None = Inr \<lparr>pn_deactivate = [], pn_activate = []\<rparr>" by code_simp
  from planned_text_and_slots [OF this, of "''_zp_go''" "''_zp_undo''"] patch_names show ?thesis
    by (simp add: safeRuntimeLiveFunctionName_def)
qed

end
