(* ===== verification/Analysis.thy ===== *)
theory Analysis
  imports ProfileIR GoText
begin

text \<open>
  The read-only analysis of a configuration: \<^verbatim>\<open>core/analyze/analyzer.go\<close>,
  \<^verbatim>\<open>core/analyze/reconciler.go\<close> and its result types in \<^verbatim>\<open>core/model\<close>.
  The parser and the introspection of a running shell are parameters, as in the code.
\<close>

section \<open>Results\<close>

datatype issue_kind = IssueDuplicateAlias | IssueReassignedEnv | IssueDuplicatePath | IssueShadowed

fun issue_kind_string :: "issue_kind \<Rightarrow> string" where
  "issue_kind_string IssueDuplicateAlias = ''duplicate_alias''"
| "issue_kind_string IssueReassignedEnv = ''reassigned_env''"
| "issue_kind_string IssueDuplicatePath = ''duplicate_path''"
| "issue_kind_string IssueShadowed = ''shadowed''"

datatype severity = SevActionable | SevAdvisory

definition IsActionable :: "severity \<Rightarrow> bool" where
  "IsActionable s \<longleftrightarrow> s \<noteq> SevAdvisory"

record issue =
  is_kind :: issue_kind
  is_name :: string
  is_lines :: "int list"
  is_note :: string
  is_severity :: severity

record category_summary =
  cs_category :: category
  cs_count :: nat
  cs_items :: "string list"

record analysis =
  an_path :: string
  an_lines :: nat
  an_block_count :: nat
  an_opaque_blocks :: nat
  an_categories :: "category_summary list"
  an_issues :: "issue list"
  an_has_secrets :: bool
  an_introspected :: bool
  an_notes :: "string list"

datatype exit_code = ExitClean | ExitRuntimeErr | ExitUsageErr | ExitActionable

definition HasActionableIssues :: "analysis \<Rightarrow> bool" where
  "HasActionableIssues a = list_ex (\<lambda>i. IsActionable (is_severity i)) (an_issues a)"

definition ExitCode :: "analysis \<Rightarrow> exit_code" where
  "ExitCode a = (if HasActionableIssues a then ExitActionable else ExitClean)"

section \<open>Labels\<close>

definition primaryName :: "block \<Rightarrow> string" where
  "primaryName b =
     (if bk_names b \<noteq> [] then hd (bk_names b)
      else let first = TrimSpace (takeWhile (\<lambda>c. c \<noteq> CHR 0x0A) (bk_text b))
        in if 48 < length first then take 48 first @ [CHR 0xE2, CHR 0x80, CHR 0xA6] else first)"

section \<open>Issues\<close>

text \<open>
  A map from a key to its lines with the order of first occurrence: an association list whose
  keys are in that order.
\<close>

definition note_line :: "int \<Rightarrow> string \<Rightarrow> (string \<times> int list) list \<Rightarrow> (string \<times> int list) list" where
  "note_line line n m = assoc_put n ((case map_of m n of None \<Rightarrow> [] | Some ls \<Rightarrow> ls) @ [line]) m"

definition line_table :: "(block \<Rightarrow> string list) \<Rightarrow> block list \<Rightarrow> (string \<times> int list) list" where
  "line_table keys blocks = fold (\<lambda>b. fold (note_line (bk_start_line b)) (keys b)) blocks []"

definition repeated :: "issue_kind \<Rightarrow> string \<Rightarrow> (string \<times> int list) list \<Rightarrow> issue list" where
  "repeated kind note table =
     List.map_filter (\<lambda>(n, ls). if 1 < length ls
       then Some \<lparr>is_kind = kind, is_name = n, is_lines = sort ls, is_note = note, is_severity = SevActionable\<rparr>
       else None) table"

definition duplicateNames :: "block list \<Rightarrow> issue_kind \<Rightarrow> issue list" where
  "duplicateNames blocks kind = repeated kind ''last definition wins'' (line_table bk_names blocks)"

text \<open>
  All matches of \<^verbatim>\<open>(?:\$HOME|~|/)[^:"'\s)]+\<close>, from the left, without overlap.
\<close>

definition segment_char :: "char \<Rightarrow> bool" where
  "segment_char c \<longleftrightarrow>
     c \<notin> {CHR '':'', CHR 0x22, CHR 0x27, CHR '' '', CHR 0x09, CHR 0x0A, CHR 0x0C, CHR 0x0D, CHR '')''}"

definition segment_start :: "string \<Rightarrow> (string \<times> string) option" where
  "segment_start s =
     (if has_prefix (CHR 0x24 # ''HOME'') s then Some (CHR 0x24 # ''HOME'', drop 5 s)
      else case s of
        [] \<Rightarrow> None
      | c # cs \<Rightarrow> (if c = CHR ''~'' \<or> c = CHR ''/'' then Some ([c], cs) else None))"

function pathSegments :: "string \<Rightarrow> string list" where
  "pathSegments s =
     (case segment_start s of
        None \<Rightarrow> (case s of [] \<Rightarrow> [] | c # cs \<Rightarrow> pathSegments cs)
      | Some (first, rest) \<Rightarrow>
          (if takeWhile segment_char rest = [] then pathSegments (tl s)
           else (first @ takeWhile segment_char rest) # pathSegments (dropWhile segment_char rest)))"
  by auto
termination
proof (relation "measure length")
  have shorter: "length rest < length s" if "segment_start s = Some (first, rest)" for s first rest
    using that by (cases s) (auto simp: segment_start_def has_prefix_def split: if_splits)
  fix s x first rest
  assume x: "segment_start s = Some x" "(first, rest) = x"
  then show "(dropWhile segment_char rest, s) \<in> measure length" 
    using shorter [of s first rest] length_dropWhile_le [of segment_char rest] by simp
  from x show "(tl s, s) \<in> measure length" using shorter [of s first rest] by (cases s) auto
qed auto

declare pathSegments.simps [simp del]

definition duplicatePaths :: "block list \<Rightarrow> issue list" where
  "duplicatePaths blocks = repeated IssueDuplicatePath [] (line_table (\<lambda>b. pathSegments (bk_text b)) blocks)"

definition note_first :: "int \<Rightarrow> string \<Rightarrow> (string \<times> int) list \<Rightarrow> (string \<times> int) list" where
  "note_first line n m = (if map_of m n = None then assoc_put n line m else m)"

definition first_lines :: "block_kind \<Rightarrow> block list \<Rightarrow> (string \<times> int) list" where
  "first_lines kind blocks =
     fold (\<lambda>b. if bk_kind b = kind then fold (note_first (bk_start_line b)) (bk_names b) else id) blocks []"

definition shadowed_names :: "(string \<times> int) list \<Rightarrow> (string \<times> int) list \<Rightarrow> block list \<Rightarrow> string list" where
  "shadowed_names aliasLines funcLines blocks =
     fold (\<lambda>b. fold (\<lambda>n names.
         if map_of aliasLines n \<noteq> None \<and> map_of funcLines n \<noteq> None \<and> n \<notin> set names then names @ [n] else names)
       (bk_names b)) blocks []"

definition shadows :: "block list \<Rightarrow> issue list" where
  "shadows blocks =
     (let aliasLines = first_lines KindAlias blocks; funcLines = first_lines KindFuncDecl blocks
      in map (\<lambda>n. \<lparr>is_kind = IssueShadowed, is_name = n,
           is_lines = sort [the (map_of aliasLines n), the (map_of funcLines n)],
           is_note = ''defined as both an alias and a function'', is_severity = SevActionable\<rparr>)
         (shadowed_names aliasLines funcLines blocks))"

section \<open>The analysis\<close>

definition countLines :: "string \<Rightarrow> nat" where
  "countLines src =
     (if src = [] then 0
      else let n = length (filter (\<lambda>c. c = CHR 0x0A) src) in if last src \<noteq> CHR 0x0A then n + 1 else n)"

definition unavailable_note :: string where
  "unavailable_note = ''introspection unavailable '' @ [CHR 0xE2, CHR 0x80, CHR 0x94] @ '' showing static analysis only''"

text \<open>The provider of the analyzer: of the introspection only its availability is used.\<close>

record provider =
  pv_parse :: "string \<Rightarrow> block list"
  pv_classify :: "block \<Rightarrow> category \<times> confidence"
  pv_categories :: "category list"
  pv_introspect :: "string \<Rightarrow> bool result"

definition classified :: "provider \<Rightarrow> block \<Rightarrow> block" where
  "classified P b = b\<lparr>bk_category := fst (pv_classify P b), bk_conf := snd (pv_classify P b)\<rparr>"

definition bucket :: "block list \<Rightarrow> category \<Rightarrow> block list" where
  "bucket blocks c = filter (\<lambda>b. bk_category b = c) blocks"

definition categoryRollup :: "provider \<Rightarrow> block list \<Rightarrow> category_summary list" where
  "categoryRollup P blocks =
     List.map_filter (\<lambda>c. let bs = bucket blocks c
       in if bs = [] then None
          else Some \<lparr>cs_category = c, cs_count = length bs, cs_items = map primaryName bs\<rparr>) (pv_categories P)"

definition static_issues :: "block list \<Rightarrow> issue list" where
  "static_issues blocks =
     duplicateNames (bucket blocks CatAliases) IssueDuplicateAlias
     @ duplicateNames (bucket blocks CatEnvironment @ bucket blocks CatSecrets) IssueReassignedEnv
     @ duplicatePaths (bucket blocks CatPath) @ shadows blocks"

definition Analyze :: "provider \<Rightarrow> string \<Rightarrow> string \<Rightarrow> analysis" where
  "Analyze P src path =
     (let blocks = map (classified P) (pv_parse P src);
          introspected = (case pv_introspect P path of Inl e \<Rightarrow> False | Inr available \<Rightarrow> available)
      in \<lparr>an_path = path, an_lines = countLines src, an_block_count = length blocks,
          an_opaque_blocks = length (filter bk_opaque blocks), an_categories = categoryRollup P blocks,
          an_issues = sort_key (\<lambda>i. (issue_kind_string (is_kind i), is_name i)) (static_issues blocks),
          an_has_secrets = 0 < length (bucket blocks CatSecrets), an_introspected = introspected,
          an_notes = (if introspected then [] else [unavailable_note])\<rparr>)"

end
