(* ===== verification/AnalysisFacts.thy ===== *)
theory AnalysisFacts
  imports Analysis
begin

text \<open>
  What the tables of lines and the reports of the analysis contain, and the properties of the
  analysis.
\<close>

section \<open>Tables of lines\<close>

definition occurrences :: "(block \<Rightarrow> string list) \<Rightarrow> block list \<Rightarrow> (int \<times> string) list" where
  "occurrences keys blocks = concat (map (\<lambda>b. map (Pair (bk_start_line b)) (keys b)) blocks)"

text \<open>The start lines of the blocks at which a name occurs, once for every occurrence.\<close>

definition name_lines :: "(block \<Rightarrow> string list) \<Rightarrow> block list \<Rightarrow> string \<Rightarrow> int list" where
  "name_lines keys blocks n = map fst (filter (\<lambda>p. snd p = n) (occurrences keys blocks))"

lemma fold_occurrences:
  "fold (\<lambda>b. fold (f (bk_start_line b)) (keys b)) blocks m = fold (\<lambda>(l, n). f l n) (occurrences keys blocks) m"
  by (induction blocks arbitrary: m) (simp_all add: occurrences_def fold_map comp_def)

lemma noted:
  "distinct (map fst (fold (\<lambda>(l, n). note_line l n) ps []))
   \<and> map_of (fold (\<lambda>(l, n). note_line l n) ps []) n
      = (let ls = map fst (filter (\<lambda>p. snd p = n) ps) in if ls = [] then None else Some ls)"
proof (induction ps arbitrary: n rule: rev_induct)
  case (snoc p ps)
  then show ?case
    by (cases p) (auto simp: note_line_def Let_def distinct_assoc_put split: option.split if_splits)
qed simp

lemma line_table_lookup:
  "map_of (line_table keys blocks) n = (if name_lines keys blocks n = [] then None else Some (name_lines keys blocks n))"
  and line_table_distinct: "distinct (map fst (line_table keys blocks))"
  using noted [of "occurrences keys blocks" n] noted [of "occurrences keys blocks"]
  by (simp_all add: line_table_def fold_occurrences name_lines_def Let_def)

definition repeat_issue :: "issue_kind \<Rightarrow> string \<Rightarrow> int list \<Rightarrow> string \<Rightarrow> issue" where
  "repeat_issue kind note ls n =
     \<lparr>is_kind = kind, is_name = n, is_lines = sort ls, is_note = note, is_severity = SevActionable\<rparr>"

lemma set_filtered: "set (List.map_filter f xs) = {y. \<exists>x \<in> set xs. f x = Some y}"
  by (induction xs) (auto simp: map_filter_simps split: option.splits)

lemma repeated_table:
  "set (repeated kind note (line_table keys blocks)) =
     {repeat_issue kind note (name_lines keys blocks n) n | n. 1 < length (name_lines keys blocks n)}"
proof -
  have entry: "(n, ls) \<in> set (line_table keys blocks) \<longleftrightarrow> ls = name_lines keys blocks n \<and> ls \<noteq> []" for n ls
    using map_of_eq_Some_iff [OF line_table_distinct, of keys blocks n ls]
    by (auto simp: line_table_lookup split: if_splits)
  have "set (repeated kind note (line_table keys blocks)) =
      {repeat_issue kind note ls n | n ls. (n, ls) \<in> set (line_table keys blocks) \<and> 1 < length ls}"
    unfolding repeated_def set_filtered
    by (simp add: repeat_issue_def Bex_def split_paired_Ex) blast
  then show ?thesis by (auto simp: entry)
qed

section \<open>Shadowing\<close>

definition of_kind :: "block_kind \<Rightarrow> block list \<Rightarrow> block list" where
  "of_kind kind blocks = filter (\<lambda>b. bk_kind b = kind) blocks"

lemma first_noted:
  "map_of (fold (\<lambda>(l, n). note_first l n) ps m) n =
     (case map_of m n of Some l \<Rightarrow> Some l | None \<Rightarrow> map_of (map (\<lambda>(l, n). (n, l)) ps) n)"
proof (induction ps arbitrary: m)
  case (Cons p ps)
  obtain l k where "p = (l, k)" by (cases p)
  with Cons.IH [of "note_first l k m"] show ?case
    by (cases "k = n") (simp_all add: note_first_def split: option.split)
qed (simp split: option.split)

lemma first_lines_lookup:
  "map_of (first_lines kind blocks) n =
     (case name_lines bk_names (of_kind kind blocks) n of [] \<Rightarrow> None | l # ls \<Rightarrow> Some l)"
proof -
  have filtered: "fold (\<lambda>b. if bk_kind b = kind then fold (f (bk_start_line b)) (bk_names b) else id) blocks m
      = fold (\<lambda>b. fold (f (bk_start_line b)) (bk_names b)) (of_kind kind blocks) m" for f m
    by (induction blocks arbitrary: m) (simp_all add: of_kind_def)
  have first: "map_of (map (\<lambda>(l, n). (n, l)) ps) n =
      (case map fst (filter (\<lambda>p. snd p = n) ps) of [] \<Rightarrow> None | l # ls \<Rightarrow> Some l)" for ps :: "(int \<times> string) list"
    by (induction ps) auto
  show ?thesis
    unfolding first_lines_def filtered fold_occurrences first_noted first name_lines_def by simp
qed

lemma collected_names:
  "set (fold (\<lambda>n names. if P n \<and> n \<notin> set names then names @ [n] else names) ns xs) = set xs \<union> {n \<in> set ns. P n}"
  "distinct xs \<Longrightarrow> distinct (fold (\<lambda>n names. if P n \<and> n \<notin> set names then names @ [n] else names) ns xs)"
  by (induction ns arbitrary: xs) auto

lemma shadowed_names_eq:
  "shadowed_names as fs blocks =
     fold (\<lambda>n names. if (map_of as n \<noteq> None \<and> map_of fs n \<noteq> None) \<and> n \<notin> set names then names @ [n] else names)
       (concat (map bk_names blocks)) []"
proof -
  have "fold (\<lambda>b. fold f (bk_names b)) blocks xs = fold f (concat (map bk_names blocks)) xs" for f and xs :: "string list"
    by (induction blocks arbitrary: xs) simp_all
  then show ?thesis by (simp add: shadowed_names_def)
qed

definition shadow_issue :: "block list \<Rightarrow> string \<Rightarrow> issue" where
  "shadow_issue blocks n =
     \<lparr>is_kind = IssueShadowed, is_name = n,
      is_lines = sort [hd (name_lines bk_names (of_kind KindAlias blocks) n),
        hd (name_lines bk_names (of_kind KindFuncDecl blocks) n)],
      is_note = ''defined as both an alias and a function'', is_severity = SevActionable\<rparr>"

lemma shadows_eq:
  "set (shadows blocks) = {shadow_issue blocks n | n.
     name_lines bk_names (of_kind KindAlias blocks) n \<noteq> [] \<and> name_lines bk_names (of_kind KindFuncDecl blocks) n \<noteq> []}"
proof -
  have somewhere: "n \<in> set (concat (map bk_names blocks))" if "name_lines bk_names (of_kind KindAlias blocks) n \<noteq> []" for n
    using that by (auto simp: name_lines_def occurrences_def of_kind_def filter_empty_conv)
  have defined: "map_of (first_lines k blocks) n \<noteq> None \<longleftrightarrow> name_lines bk_names (of_kind k blocks) n \<noteq> []"
    "name_lines bk_names (of_kind k blocks) n \<noteq> [] \<Longrightarrow>
       the (map_of (first_lines k blocks) n) = hd (name_lines bk_names (of_kind k blocks) n)" for k n
    by (auto simp: first_lines_lookup split: list.split)
  let ?S = "{n. name_lines bk_names (of_kind KindAlias blocks) n \<noteq> [] \<and> name_lines bk_names (of_kind KindFuncDecl blocks) n \<noteq> []}"
  have "set (shadowed_names (first_lines KindAlias blocks) (first_lines KindFuncDecl blocks) blocks) = ?S"
    unfolding shadowed_names_eq collected_names using somewhere by (auto simp: defined(1) simp del: not_None_eq)
  then have "set (shadows blocks) = shadow_issue blocks ` ?S"
    unfolding shadows_def Let_def set_map
    by (intro image_cong) (simp_all add: shadow_issue_def defined(2))
  then show ?thesis by (simp only: setcompr_eq_image) 
qed

section \<open>Category rollups\<close>

lemma Classify_category: "fst (Classify b) \<in> set Categories"
  by (cases "bk_kind b") (simp_all add: Classify_def Categories_def Let_def)

lemma bucket_count:
  assumes "distinct cs" "\<forall>b \<in> set blocks. bk_category b \<in> set cs"
  shows "sum_list (map (\<lambda>c. length (bucket blocks c)) cs) = length blocks"
  using assms(2)
proof (induction blocks)
  case (Cons b bs)
  have "sum_list (map (\<lambda>c. length (bucket (b # bs) c)) ds) =
      sum_list (map (\<lambda>c. length (bucket bs c)) ds) + (if bk_category b \<in> set ds then 1 else 0)" if "distinct ds" for ds
    using that by (induction ds) (auto simp: bucket_def)
  with Cons assms(1) show ?case by simp
qed (simp add: bucket_def)

lemma categoryRollup_sum:
  "sum_list (map cs_count (categoryRollup P blocks)) = sum_list (map (\<lambda>c. length (bucket blocks c)) (pv_categories P))"
  "map cs_category (categoryRollup P blocks) = filter (\<lambda>c. bucket blocks c \<noteq> []) (pv_categories P)"
proof -
  let ?f = "\<lambda>c. let bs = bucket blocks c in if bs = [] then None
    else Some \<lparr>cs_category = c, cs_count = length bs, cs_items = map primaryName bs\<rparr>"
  have "sum_list (map cs_count (List.map_filter ?f cs)) = sum_list (map (\<lambda>c. length (bucket blocks c)) cs)"
    "map cs_category (List.map_filter ?f cs) = filter (\<lambda>c. bucket blocks c \<noteq> []) cs" for cs
    by (induction cs) (simp_all add: map_filter_simps Let_def)
  then show "sum_list (map cs_count (categoryRollup P blocks)) = sum_list (map (\<lambda>c. length (bucket blocks c)) (pv_categories P))"
    "map cs_category (categoryRollup P blocks) = filter (\<lambda>c. bucket blocks c \<noteq> []) (pv_categories P)"
    unfolding categoryRollup_def by blast+
qed

end
