(* ===== verification/AnalysisProperties.thy ===== *)
theory AnalysisProperties
  imports AnalysisFacts
begin

text \<open>The properties of the read-only analysis (\<^verbatim>\<open>core/analyze\<close>).\<close>

section \<open>Issues\<close>



section \<open>Rollups\<close>

text \<open>
  Every block is counted once. With the classifier and the categories of the zsh
  provider the counts of the rollups add up to the number of blocks, the categories appear
  in the order of the taxonomy and only when a block has them, and secrets are announced
  exactly when the secrets category is listed.
\<close>

theorem rollup_complete:
  assumes "pv_classify P = Classify" "pv_categories P = Categories"
  shows "sum_list (map cs_count (an_categories (Analyze P src path))) = an_block_count (Analyze P src path)
    \<and> map cs_category (an_categories (Analyze P src path)) = filter (\<lambda>c. \<exists>b \<in> set (pv_parse P src). fst (Classify b) = c) Categories
    \<and> (an_has_secrets (Analyze P src path) \<longleftrightarrow> CatSecrets \<in> cs_category ` set (an_categories (Analyze P src path)))"
proof -
  let ?a = "Analyze P src path"
  let ?blocks = "map (classified P) (pv_parse P src)"
  have cats: "an_categories ?a = categoryRollup P ?blocks" "an_block_count ?a = length ?blocks"
    "an_has_secrets ?a \<longleftrightarrow> bucket ?blocks CatSecrets \<noteq> []"
    by (simp_all add: Analyze_def Let_def)
  have cat: "bk_category (classified P b) = fst (Classify b)" for b
    by (simp add: classified_def assms(1))
  have used: "bucket ?blocks c \<noteq> [] \<longleftrightarrow> (\<exists>b \<in> set (pv_parse P src). fst (Classify b) = c)" for c
    by (auto simp: bucket_def filter_empty_conv cat)
  have dist: "distinct Categories" by (simp add: Categories_def)
  have "sum_list (map cs_count (an_categories ?a)) = an_block_count ?a"
    unfolding cats categoryRollup_sum(1) assms(2)
    by (rule bucket_count [OF dist]) (auto simp: cat Classify_category)
  moreover have "map cs_category (an_categories ?a) = filter (\<lambda>c. \<exists>b \<in> set (pv_parse P src). fst (Classify b) = c) Categories"
    unfolding cats categoryRollup_sum(2) assms(2) used ..
  moreover from this have "cs_category ` set (an_categories ?a) =
      {c \<in> set Categories. \<exists>b \<in> set (pv_parse P src). fst (Classify b) = c}"
    by (metis set_filter set_map)
  moreover have "CatSecrets \<in> set Categories" by (simp add: Categories_def)
  ultimately show ?thesis by (simp add: cats(3) used)
qed

definition two_aliases :: provider where
  "two_aliases =
     \<lparr>pv_parse = (\<lambda>src. [(live_block KindAlias ''alias ll=ls'' ''alias'' ''ll'')\<lparr>bk_start_line := 1\<rparr>,
        (live_block KindAlias ''alias ll=exa'' ''alias'' ''ll'')\<lparr>bk_start_line := 4\<rparr>]),
      pv_classify = Classify, pv_categories = Categories, pv_introspect = (\<lambda>p. Inr True)\<rparr>"

theorem rollup_complete_witness:
  "map cs_category (an_categories (Analyze two_aliases [] [])) = [CatAliases]
   \<and> sum_list (map cs_count (an_categories (Analyze two_aliases [] []))) = an_block_count (Analyze two_aliases [] [])"
proof -
  have "pv_classify two_aliases = Classify" "pv_categories two_aliases = Categories"
    by (simp_all add: two_aliases_def)
  note rollup = rollup_complete [OF this, of "[]" "[]"]
  have "filter (\<lambda>c. \<exists>b \<in> set (pv_parse two_aliases []). fst (Classify b) = c) Categories = [CatAliases]"
    by code_simp
  with rollup show ?thesis by simp
qed

end
