(* ===== verification/GitText.thy ===== *)
theory GitText
  imports LiveModel GoText
begin

text \<open>
  The text the store exchanges with git (\<^verbatim>\<open>core/store/git.go\<close> and the name
  checks of \<^verbatim>\<open>core/store/store.go\<close>): names of branches and objects, the
  arguments a process may be started with, its environment, the listing of a tree, the
  frames of a reference transaction. Everything here is a function of its arguments.
\<close>

section \<open>Names of branches and objects\<close>

text \<open>
  The code ranges over the runes of a name. A rune outside ASCII is never accepted, so the
  check of each byte is the same check.
\<close>

definition isBranchRune :: "char \<Rightarrow> bool" where
  "isBranchRune c \<longleftrightarrow> is_lower c \<or> is_upper c \<or> is_digit c
     \<or> c = CHR ''.'' \<or> c = CHR ''_'' \<or> c = CHR ''/'' \<or> c = CHR ''-''"

definition validBranchName :: "string \<Rightarrow> unit result" where
  "validBranchName name =
     (if name = [] then Inl ErrInvalidProfileName
      else if has_prefix ''-'' name then Inl ErrInvalidProfileName
      else if \<not> list_all isBranchRune name then Inl ErrInvalidProfileName
      else if list_ex (\<lambda>seg. seg = ''..'' \<or> seg = ''.'') (splitOn (CHR ''/'') name)
      then Inl ErrInvalidProfileName
      else OK)"

definition headsPrefix :: string where
  "headsPrefix = ''refs/heads/''"

text \<open>A reference is its full name; the private field of the code is the whole value.\<close>

datatype head_ref = HeadRef (hr_name: string)

definition mainHeadRef :: head_ref where
  "mainHeadRef = HeadRef (headsPrefix @ ''main'')"

definition validatedHeadRefForBranch :: "string \<Rightarrow> head_ref result" where
  "validatedHeadRefForBranch branch =
     bindR (validBranchName branch) (\<lambda>_. Inr (HeadRef (headsPrefix @ branch)))"

definition validHeadRef :: "head_ref \<Rightarrow> bool" where
  "validHeadRef ref \<longleftrightarrow>
     has_prefix headsPrefix (hr_name ref)
     \<and> validBranchName (drop (length headsPrefix) (hr_name ref)) = OK"

definition hex_char :: "char \<Rightarrow> bool" where
  "hex_char c \<longleftrightarrow> is_digit c \<or> (CHR ''a'' \<le> c \<and> c \<le> CHR ''f'') \<or> (CHR ''A'' \<le> c \<and> c \<le> CHR ''F'')"

definition validGitObjectID :: "string \<Rightarrow> bool" where
  "validGitObjectID v \<longleftrightarrow> (length v = 40 \<or> length v = 64) \<and> list_all hex_char v"

definition validCommitMessage :: "string \<Rightarrow> bool" where
  "validCommitMessage m \<longleftrightarrow> m \<noteq> [] \<and> \<not> has_nul m"

section \<open>Arguments\<close>

definition validAtom :: "string \<Rightarrow> bool" where
  "validAtom v \<longleftrightarrow> v \<noteq> [] \<and> \<not> has_prefix ''-'' v \<and> \<not> has_nul v"

definition validInitArgv :: "string list \<Rightarrow> unit result" where
  "validInitArgv args =
     (if args = [''init'', ''--bare'', ''-b'', ''main''] then OK else Inl ErrGitCommand)"

text \<open>The loop over the options of \<^verbatim>\<open>commit-tree\<close>, two arguments at a time.\<close>

fun commitTreeOptions :: "string list \<Rightarrow> bool" where
  "commitTreeOptions [] = True"
| "commitTreeOptions [_] = False"
| "commitTreeOptions (opt # v # rest) =
     (if opt = ''-m'' then v \<noteq> [] \<and> \<not> has_nul v \<and> commitTreeOptions rest
      else if opt = ''-p'' then validAtom v \<and> commitTreeOptions rest
      else False)"

definition accepted_arguments :: "string \<Rightarrow> string list \<Rightarrow> bool" where
  "accepted_arguments verb args =
     (if verb = ''version'' then args = []
      else if verb = ''rev-parse'' then
        (case args of [a] \<Rightarrow> a = ''--is-bare-repository'' \<or> validAtom a | _ \<Rightarrow> False)
      else if verb = ''cat-file'' then
        (case args of [opt, a] \<Rightarrow> (opt = ''-e'' \<and> validAtom a)
             \<or> ((opt = ''-t'' \<or> opt = ''blob'') \<and> validGitObjectID a) | _ \<Rightarrow> False)
      else if verb = ''show'' then (case args of [a] \<Rightarrow> validAtom a | _ \<Rightarrow> False)
      else if verb = ''for-each-ref'' then
        (case args of [f, a] \<Rightarrow> has_prefix ''--format='' f \<and> validAtom a | _ \<Rightarrow> False)
      else if verb = ''hash-object'' then args = [''-w'', ''--stdin'']
      else if verb = ''update-ref'' then
        args = [''--no-deref'', ''--stdin'']
        \<or> (length args = 3 \<and> hd args = ''-d'' \<and> list_all validAtom (tl args))
        \<or> ((length args = 2 \<or> length args = 3) \<and> list_all validAtom args)
      else if verb = ''read-tree'' then
        (case args of [a] \<Rightarrow> a = ''--empty'' \<or> validAtom a | _ \<Rightarrow> False)
      else if verb = ''update-index'' then
        (case args of [a, b, entry] \<Rightarrow> a = ''--add'' \<and> b = ''--cacheinfo''
             \<and> has_prefix ''100644,'' entry \<and> \<not> has_nul entry | _ \<Rightarrow> False)
      else if verb = ''write-tree'' then args = []
      else if verb = ''commit-tree'' then
        length args \<ge> 3 \<and> validAtom (hd args) \<and> commitTreeOptions (tl args)
      else if verb = ''ls-tree'' then
        (case args of
           [z, a] \<Rightarrow> z = ''-z'' \<and> validGitObjectID a
         | [z, a, dashes, p] \<Rightarrow> z = ''-z'' \<and> validAtom a \<and> dashes = ''--'' \<and> p = ''profile.json''
         | _ \<Rightarrow> False)
      else if verb = ''show-ref'' then
        (case args of [v, h, a] \<Rightarrow> v = ''--verify'' \<and> h = ''--hash'' \<and> validAtom a | _ \<Rightarrow> False)
      else False)"

definition validateGitArgv :: "string list \<Rightarrow> unit result" where
  "validateGitArgv argv =
     (case argv of
        [] \<Rightarrow> Inl ErrGitCommand
      | verb # args \<Rightarrow>
          if verb = ''init'' then validInitArgv argv
          else if accepted_arguments verb args then OK else Inl ErrGitCommand)"

section \<open>The environment of a process\<close>

text \<open>
  A runner carries the directory of the store, whether it is anchored in a descriptor the
  sourced loader authenticated, and the private index and object directory of a candidate.
\<close>

record git_runner =
  gr_repo_dir :: string
  gr_runtime :: bool
  gr_index_file :: string
  gr_object_dir :: string
  gr_alternate :: string

definition env_entry_name :: "string \<Rightarrow> string option" where
  "env_entry_name entry = map_option fst (cutAt (CHR ''='') entry)"

definition inherited_entry :: "string \<Rightarrow> bool" where
  "inherited_entry entry =
     (case env_entry_name entry of None \<Rightarrow> True | Some n \<Rightarrow> \<not> (has_prefix ''GIT_'' n \<or> n = ''LC_ALL''))"

definition assigned :: "string \<Rightarrow> string \<Rightarrow> string list" where
  "assigned name v = (if v = [] then [] else [name @ CHR ''='' # v])"

definition ownedEnvironment :: "git_runner \<Rightarrow> string list \<Rightarrow> string list" where
  "ownedEnvironment g environ =
     filter inherited_entry environ
     @ [''GIT_DIR='' @ (if gr_runtime g then ''.'' else gr_repo_dir g), ''GIT_CONFIG_NOSYSTEM=1'',
        ''GIT_CONFIG_GLOBAL=/dev/null'', ''LC_ALL=C'']
     @ assigned ''GIT_INDEX_FILE'' (gr_index_file g)
     @ assigned ''GIT_OBJECT_DIRECTORY'' (gr_object_dir g)
     @ assigned ''GIT_ALTERNATE_OBJECT_DIRECTORIES'' (gr_alternate g)"

definition replaceGitEnvironment :: "string list \<Rightarrow> string list \<Rightarrow> string list" where
  "replaceGitEnvironment environment replacements =
     filter (\<lambda>entry. case env_entry_name entry of
         None \<Rightarrow> True
       | Some n \<Rightarrow> \<not> list_ex (\<lambda>r. (case env_entry_name r of None \<Rightarrow> r | Some m \<Rightarrow> m) = n) replacements)
       environment
     @ replacements"

definition commitTS :: string where
  "commitTS = ''1700000000 +0000''"

definition commitAssignments :: "string \<Rightarrow> string \<Rightarrow> string list" where
  "commitAssignments index ts =
     [''GIT_INDEX_FILE='' @ index, ''GIT_AUTHOR_NAME=zsh-pro'', ''GIT_AUTHOR_EMAIL=zsh-pro@local'',
      ''GIT_AUTHOR_DATE='' @ ts, ''GIT_COMMITTER_NAME=zsh-pro'', ''GIT_COMMITTER_EMAIL=zsh-pro@local'',
      ''GIT_COMMITTER_DATE='' @ ts]"

text \<open>
  The alternate object directory is quoted in C style, so that a colon in it stays data.
\<close>

definition octal_digit :: "nat \<Rightarrow> char" where
  "octal_digit n = char_of (48 + n mod 8)"

definition quoteByte :: "char \<Rightarrow> string" where
  "quoteByte c =
     (let v = of_char c :: nat
      in if c = CHR 0x5C \<or> c = CHR 0x22 then [CHR 0x5C, c]
         else if v < 0x20 \<or> v = 0x7F
         then [CHR 0x5C, octal_digit (v div 64), octal_digit (v div 8), octal_digit v]
         else [c])"

definition quoteGitPath :: "string \<Rightarrow> string" where
  "quoteGitPath path = CHR 0x22 # concat (map quoteByte path) @ [CHR 0x22]"

text \<open>Joining two elements of a cleaned path.\<close>

definition joinPath :: "string \<Rightarrow> string \<Rightarrow> string" where
  "joinPath dir name = (if dir \<noteq> [] \<and> last dir = CHR ''/'' then dir @ name else dir @ CHR ''/'' # name)"

definition candidateRunner :: "git_runner \<Rightarrow> string \<Rightarrow> string \<Rightarrow> git_runner" where
  "candidateRunner g index objects =
     g\<lparr>gr_index_file := index, gr_object_dir := objects,
       gr_alternate := quoteGitPath (if gr_runtime g then ''objects'' else joinPath (gr_repo_dir g) ''objects'')\<rparr>"

section \<open>The tree of a worktree revision\<close>

record worktree_blobs =
  wb_json :: string
  wb_zsh :: string

text \<open>One record of \<^verbatim>\<open>git ls-tree -z\<close>: mode, type and object, a tab, the path.\<close>

definition parseTreeRecord :: "nat \<Rightarrow> string list \<Rightarrow> string \<Rightarrow> (string \<times> string) option" where
  "parseTreeRecord n seen rec =
     (case cutAt (CHR 0x09) rec of
        None \<Rightarrow> None
      | Some (header, path) \<Rightarrow>
          if CHR 0x09 \<in> set path then None
          else case splitOn (CHR '' '') header of
            [mode, kind, oid] \<Rightarrow>
              (if mode \<noteq> ''100644'' \<or> kind \<noteq> ''blob'' then None
               else if length oid \<noteq> n \<or> \<not> validGitObjectID oid \<or> path \<in> set seen then None
               else Some (path, oid))
          | _ \<Rightarrow> None)"

fun parseTreeRecords :: "nat \<Rightarrow> string list \<Rightarrow> worktree_blobs \<Rightarrow> string list \<Rightarrow> worktree_blobs result" where
  "parseTreeRecords n seen b [] = Inr b"
| "parseTreeRecords n seen b (rec # recs) =
     (case parseTreeRecord n seen rec of
        None \<Rightarrow> Inl ErrGitCommand
      | Some (path, oid) \<Rightarrow>
          if path = ''profile.json'' then parseTreeRecords n (path # seen) (b\<lparr>wb_json := oid\<rparr>) recs
          else if path = ''profile.zsh'' then parseTreeRecords n (path # seen) (b\<lparr>wb_zsh := oid\<rparr>) recs
          else Inl ErrGitCommand)"

definition parseWorktreeTreeEntries :: "string \<Rightarrow> nat \<Rightarrow> worktree_blobs result" where
  "parseWorktreeTreeEntries tree n =
     (if (n \<noteq> 40 \<and> n \<noteq> 64) \<or> tree = [] \<or> last tree \<noteq> CHR 0x00 then Inl ErrGitCommand
      else let records = splitOn (CHR 0x00) (butlast tree)
        in if length records \<noteq> 2 then Inl ErrGitCommand
           else bindR (parseTreeRecords n [] \<lparr>wb_json = [], wb_zsh = []\<rparr> records) (\<lambda>b.
             if wb_json b = [] \<or> wb_zsh b = [] then Inl ErrGitCommand else Inr b))"

section \<open>Frames of a reference transaction\<close>

definition zero_oid :: "nat \<Rightarrow> string" where
  "zero_oid n = replicate n (CHR ''0'')"

definition encodeRefMutation ::
  "head_ref \<Rightarrow> string \<Rightarrow> bool \<Rightarrow> string option \<Rightarrow> string result" where
  "encodeRefMutation ref candidate present expected =
     (if \<not> validHeadRef ref \<or> \<not> validGitObjectID candidate \<or> present \<noteq> (expected \<noteq> None)
      then Inl ErrGitCommand
      else case expected of
        None \<Rightarrow> Inr (''create '' @ hr_name ref @ CHR '' '' # candidate @ [CHR 0x0A])
      | Some old \<Rightarrow>
          if \<not> validGitObjectID old then Inl ErrGitCommand
          else Inr (''update '' @ hr_name ref @ CHR '' '' # candidate @ CHR '' '' # old @ [CHR 0x0A]))"

definition encodeRefGuard :: "head_ref \<Rightarrow> string option \<Rightarrow> nat \<Rightarrow> string result" where
  "encodeRefGuard ref expected n =
     (if \<not> validHeadRef ref \<or> (n \<noteq> 40 \<and> n \<noteq> 64) then Inl ErrGitCommand
      else case expected of
        None \<Rightarrow> Inr (''verify '' @ hr_name ref @ CHR '' '' # zero_oid n @ [CHR 0x0A])
      | Some old \<Rightarrow>
          if \<not> validGitObjectID old \<or> length old \<noteq> n then Inl ErrGitCommand
          else Inr (''verify '' @ hr_name ref @ CHR '' '' # old @ [CHR 0x0A]))"

section \<open>Versions\<close>

text \<open>\<^verbatim>\<open>strings.Fields\<close> on ASCII text; git runs under \<^verbatim>\<open>LC_ALL=C\<close>.\<close>

definition ascii_space :: "char \<Rightarrow> bool" where
  "ascii_space c \<longleftrightarrow> c = CHR '' '' \<or> (CHR 0x09 \<le> c \<and> c \<le> CHR 0x0D)"

definition asciiFields :: "string \<Rightarrow> string list" where
  "asciiFields s =
     filter (\<lambda>w. w \<noteq> []) (splitOn (CHR '' '') (map (\<lambda>c. if ascii_space c then CHR '' '' else c) s))"

definition leadingDecimal :: "string \<Rightarrow> string" where
  "leadingDecimal = takeWhile is_digit"

definition gitSupportsUpdateRefTransactions :: "string \<Rightarrow> bool" where
  "gitSupportsUpdateRefTransactions out =
     (case asciiFields out of
        a # b # version # _ \<Rightarrow>
          a = ''git'' \<and> b = ''version'' \<and>
          (case splitOn (CHR ''.'') version of
             major # minor # patch # _ \<Rightarrow>
               (case (goAtoi major, goAtoi minor) of
                  (Some x, Some y) \<Rightarrow> leadingDecimal patch \<noteq> [] \<and> (x > 2 \<or> (x = 2 \<and> y \<ge> 27))
                | _ \<Rightarrow> False)
           | _ \<Rightarrow> False)
      | _ \<Rightarrow> False)"

definition updateRefPrepareLockRejected :: "string \<Rightarrow> bool" where
  "updateRefPrepareLockRejected stderr = has_prefix ''fatal: prepare: cannot lock ref '' (TrimSpace stderr)"

end
