(* ===== verification/GitTextFacts.thy ===== *)
theory GitTextFacts
  imports GitText
begin

text \<open>
  Facts about the text exchanged with git: what an accepted name, argument list, tree listing
  and frame look like, and reference readers of the quoted path and of a frame.
\<close>

section \<open>Characters\<close>

lemma hex_char_plain:
  assumes "hex_char c"
  shows "c \<noteq> CHR '' ''" "c \<noteq> CHR 0x09" "c \<noteq> CHR 0x0A" "c \<noteq> CHR 0x00" "c \<noteq> CHR ''-''" "printable c"
  using assms by (auto simp: hex_char_def is_digit_def printable_def less_eq_char_def)

lemma branch_rune_plain:
  assumes "isBranchRune c"
  shows "c \<noteq> CHR '' ''" "c \<noteq> CHR 0x09" "c \<noteq> CHR 0x0A" "c \<noteq> CHR 0x00" "c \<noteq> CHR '':''" "printable c"
  using assms by (auto simp: isBranchRune_def is_digit_def is_lower_def is_upper_def printable_def less_eq_char_def)

section \<open>Names\<close>

lemma validGitObjectID_plain:
  assumes "validGitObjectID v" "c \<in> set v"
  shows "c \<noteq> CHR '' ''" "c \<noteq> CHR 0x09" "c \<noteq> CHR 0x0A" "c \<noteq> CHR 0x00" "c \<noteq> CHR ''-''" "printable c"
  using assms hex_char_plain by (auto simp: validGitObjectID_def list_all_iff)

lemma validGitObjectID_nonempty: "validGitObjectID v \<Longrightarrow> v \<noteq> []"
  by (auto simp: validGitObjectID_def)

lemma validGitObjectID_line:
  assumes "validGitObjectID v"
  shows "TrimSpace (v @ [CHR 0x0A]) = v" "TrimSpace v = v"
proof -
  have "printable (hd v)" "printable (last v)"
    using validGitObjectID_plain(6) [OF assms] validGitObjectID_nonempty [OF assms] by simp_all
  with validGitObjectID_nonempty [OF assms]
  show "TrimSpace (v @ [CHR 0x0A]) = v" "TrimSpace v = v" by (simp_all add: TrimSpace_line)
qed

lemma validBranchName_OK:
  "validBranchName b = OK \<longleftrightarrow>
     b \<noteq> [] \<and> hd b \<noteq> CHR ''-'' \<and> (\<forall>c \<in> set b. isBranchRune c)
     \<and> ''..'' \<notin> set (splitOn (CHR ''/'') b) \<and> ''.'' \<notin> set (splitOn (CHR ''/'') b)"
  by (auto simp: validBranchName_def has_prefix_single list_all_iff list_ex_iff)

lemma validatedHeadRef_Inr:
  "validatedHeadRefForBranch b = Inr ref \<longleftrightarrow> validBranchName b = OK \<and> ref = HeadRef (headsPrefix @ b)"
  by (cases "validBranchName b") (auto simp: validatedHeadRefForBranch_def)

lemma validHeadRef_iff:
  "validHeadRef ref \<longleftrightarrow> (\<exists>b. validBranchName b = OK \<and> ref = HeadRef (headsPrefix @ b))"
  by (cases ref) (auto simp: validHeadRef_def has_prefix_conv)

lemma validated_valid: "validatedHeadRefForBranch b = Inr ref \<Longrightarrow> validHeadRef ref"
  by (auto simp: validatedHeadRef_Inr validHeadRef_iff)

lemma mainHeadRef_valid: "validHeadRef mainHeadRef"
  by code_simp

lemma validHeadRef_plain:
  assumes "validHeadRef ref" "c \<in> set (hr_name ref)"
  shows "c \<noteq> CHR '' ''" "c \<noteq> CHR 0x0A" "c \<noteq> CHR 0x00"
proof -
  obtain b where b: "validBranchName b = OK" "hr_name ref = headsPrefix @ b"
    using assms(1) by (auto simp: validHeadRef_iff)
  have "list_all isBranchRune headsPrefix" by code_simp
  with b assms(2) have "isBranchRune c" by (auto simp: validBranchName_OK list_all_iff)
  then show "c \<noteq> CHR '' ''" "c \<noteq> CHR 0x0A" "c \<noteq> CHR 0x00" by (simp_all add: branch_rune_plain)
qed

lemma validHeadRef_atom:
  assumes "validHeadRef ref"
  shows "validAtom (hr_name ref)"
proof -
  from assms obtain b where "hr_name ref = ''refs/heads/'' @ b"
    by (auto simp: validHeadRef_iff headsPrefix_def)
  moreover have "CHR 0x00 \<notin> set (hr_name ref)" using validHeadRef_plain(3) [OF assms] by blast
  ultimately show ?thesis by (simp add: validAtom_def has_nul_def has_prefix_def)
qed

lemma oid_atom: "validGitObjectID v \<Longrightarrow> validAtom v"
  using validGitObjectID_plain(4) [of v "CHR 0x00"] validGitObjectID_plain(5) [of v "hd v"]
    validGitObjectID_nonempty [of v]
  unfolding validAtom_def has_nul_def has_prefix_single by (metis list.set_sel(1))

section \<open>Frames\<close>

lemma set_joinWith: "set (joinWith c ss) \<subseteq> insert c (\<Union> (set ` set ss))"
  by (induction ss rule: joinWith.induct) auto

text \<open>The words of a frame that is one line.\<close>

definition frame_words :: "string \<Rightarrow> string list option" where
  "frame_words frame =
     (if frame \<noteq> [] \<and> last frame = CHR 0x0A \<and> CHR 0x0A \<notin> set (butlast frame)
      then Some (splitOn (CHR '' '') (butlast frame)) else None)"

lemma frame_words_join:
  assumes "ws \<noteq> []" "\<forall>w \<in> set ws. CHR '' '' \<notin> set w \<and> CHR 0x0A \<notin> set w"
  shows "frame_words (joinWith (CHR '' '') ws @ [CHR 0x0A]) = Some ws"
proof -
  have "CHR 0x0A \<notin> set (joinWith (CHR '' '') ws)"
    using assms(2) set_joinWith [of "CHR '' ''" ws] by auto
  with assms show ?thesis by (simp add: frame_words_def splitOn_joinWith)
qed

lemma oid_word: "validGitObjectID v \<Longrightarrow> CHR '' '' \<notin> set v \<and> CHR 0x0A \<notin> set v"
  using validGitObjectID_plain by blast

lemma ref_word: "validHeadRef r \<Longrightarrow> CHR '' '' \<notin> set (hr_name r) \<and> CHR 0x0A \<notin> set (hr_name r)"
  using validHeadRef_plain by blast

lemma encodeRefMutation_words:
  "encodeRefMutation ref candidate present expected = Inr frame \<Longrightarrow>
     frame_words frame = Some (case expected of
         None \<Rightarrow> [''create'', hr_name ref, candidate]
       | Some old \<Rightarrow> [''update'', hr_name ref, candidate, old])"
  using frame_words_join [of "[''create'', hr_name ref, candidate]"]
    frame_words_join [of "[''update'', hr_name ref, candidate, the expected]"]
  by (auto simp: encodeRefMutation_def oid_word ref_word split: if_splits option.splits)

lemma encodeRefGuard_words:
  "encodeRefGuard ref expected n = Inr frame \<Longrightarrow>
     frame_words frame = Some [''verify'', hr_name ref, case expected of None \<Rightarrow> zero_oid n | Some old \<Rightarrow> old]"
  using frame_words_join [of "[''verify'', hr_name ref, case expected of None \<Rightarrow> zero_oid n | Some old \<Rightarrow> old]"]
  by (auto simp: encodeRefGuard_def oid_word ref_word zero_oid_def split: if_splits option.splits)

section \<open>Tree listings\<close>

definition tree_record :: "string \<Rightarrow> string \<Rightarrow> string" where
  "tree_record path oid = ''100644 blob '' @ oid @ CHR 0x09 # path"

lemma parseTreeRecord_iff:
  "parseTreeRecord n seen rec = Some (path, oid) \<longleftrightarrow>
     rec = tree_record path oid \<and> CHR 0x09 \<notin> set path \<and> path \<notin> set seen
     \<and> length oid = n \<and> validGitObjectID oid" (is "?l \<longleftrightarrow> ?r")
proof
  assume ?l
  then obtain header where cut: "cutAt (CHR 0x09) rec = Some (header, path)"
    and tab: "CHR 0x09 \<notin> set path"
    and words: "splitOn (CHR '' '') header = [''100644'', ''blob'', oid]"
    and rest: "length oid = n" "validGitObjectID oid" "path \<notin> set seen"
    by (auto simp: parseTreeRecord_def split: option.splits if_splits list.splits)
  from words have "header = ''100644 blob '' @ oid"
    using joinWith_splitOn [of "CHR '' ''" header] by simp
  with cut tab rest show ?r by (simp add: cutAt_Some tree_record_def)
next
  assume r: ?r
  then have "CHR 0x09 \<notin> set (''100644 blob '' @ oid)"
    using validGitObjectID_plain(2) by auto
  then have "cutAt (CHR 0x09) rec = Some (''100644 blob '' @ oid, path)"
    using r by (simp add: tree_record_def cutAt_Some)
  moreover have "splitOn (CHR '' '') (''100644 blob '' @ oid) = [''100644'', ''blob'', oid]"
    using r oid_word [of oid] by (simp add: splitOn_plain)
  ultimately show ?l using r by (simp add: parseTreeRecord_def)
qed

lemma parseTreeRecords_Cons:
  "parseTreeRecords n seen b (rec # recs) = Inr b' \<longleftrightarrow>
     (\<exists>path oid. parseTreeRecord n seen rec = Some (path, oid) \<and>
       (path = ''profile.json'' \<and> parseTreeRecords n (path # seen) (b\<lparr>wb_json := oid\<rparr>) recs = Inr b'
        \<or> path = ''profile.zsh'' \<and> parseTreeRecords n (path # seen) (b\<lparr>wb_zsh := oid\<rparr>) recs = Inr b'))"
  by (auto split: option.splits)

lemma tree_record_no_nul:
  "validGitObjectID oid \<Longrightarrow> CHR 0x00 \<notin> set (tree_record ''profile.json'' oid)"
  "validGitObjectID oid \<Longrightarrow> CHR 0x00 \<notin> set (tree_record ''profile.zsh'' oid)"
  using validGitObjectID_plain(4) by (auto simp: tree_record_def)

definition worktree_listing :: "string \<Rightarrow> string \<Rightarrow> string" where
  "worktree_listing json zsh =
     tree_record ''profile.json'' json @ CHR 0x00 # tree_record ''profile.zsh'' zsh @ [CHR 0x00]"

definition swapped_listing :: "string \<Rightarrow> string \<Rightarrow> string" where
  "swapped_listing json zsh =
     tree_record ''profile.zsh'' zsh @ CHR 0x00 # tree_record ''profile.json'' json @ [CHR 0x00]"

lemma two_records:
  "parseTreeRecords n [] \<lparr>wb_json = [], wb_zsh = []\<rparr> [r1, r2] = Inr b \<longleftrightarrow>
     length (wb_json b) = n \<and> length (wb_zsh b) = n \<and> validGitObjectID (wb_json b) \<and> validGitObjectID (wb_zsh b)
     \<and> ((r1 = tree_record ''profile.json'' (wb_json b) \<and> r2 = tree_record ''profile.zsh'' (wb_zsh b))
        \<or> (r1 = tree_record ''profile.zsh'' (wb_zsh b) \<and> r2 = tree_record ''profile.json'' (wb_json b)))"
  (is "?l \<longleftrightarrow> ?r")
proof
  assume ?l
  then show ?r
    by (cases b) (auto simp: parseTreeRecords_Cons parseTreeRecord_iff simp del: parseTreeRecords.simps(2))
next
  assume r: ?r
  then have "parseTreeRecord n seen (tree_record ''profile.json'' (wb_json b)) = Some (''profile.json'', wb_json b)"
    if "''profile.json'' \<notin> set seen" for seen
    using that by (simp add: parseTreeRecord_iff)
  moreover have "parseTreeRecord n seen (tree_record ''profile.zsh'' (wb_zsh b)) = Some (''profile.zsh'', wb_zsh b)"
    if "''profile.zsh'' \<notin> set seen" for seen
    using that r by (simp add: parseTreeRecord_iff)
  ultimately show ?l using r by auto
qed

lemma parseWorktreeTreeEntries_iff:
  "parseWorktreeTreeEntries tree n = Inr b \<longleftrightarrow>
     (n = 40 \<or> n = 64) \<and> length (wb_json b) = n \<and> length (wb_zsh b) = n
     \<and> validGitObjectID (wb_json b) \<and> validGitObjectID (wb_zsh b)
     \<and> (tree = worktree_listing (wb_json b) (wb_zsh b) \<or> tree = swapped_listing (wb_json b) (wb_zsh b))"
  (is "?l \<longleftrightarrow> ?r")
proof
  assume ?l
  then have n: "n = 40 \<or> n = 64" and ne: "tree \<noteq> []" and nul: "last tree = CHR 0x00"
    and two: "length (splitOn (CHR 0x00) (butlast tree)) = 2"
    and recs: "parseTreeRecords n [] \<lparr>wb_json = [], wb_zsh = []\<rparr> (splitOn (CHR 0x00) (butlast tree)) = Inr b"
    by (auto simp: parseWorktreeTreeEntries_def Let_def bindR_eq_Inr split: if_splits)
  obtain r1 r2 where rs: "splitOn (CHR 0x00) (butlast tree) = [r1, r2]"
    using two by (auto simp: length_Suc_conv eval_nat_numeral)
  have "tree = r1 @ CHR 0x00 # r2 @ [CHR 0x00]"
    using joinWith_splitOn [of "CHR 0x00" "butlast tree"] append_butlast_last_id [OF ne]
    by (metis append_Cons append_assoc joinWith.simps(2,3) nul rs)
  with n recs show ?r
    unfolding rs two_records by (auto simp: worktree_listing_def swapped_listing_def)
next
  assume r: ?r
  have "splitOn (CHR 0x00) (butlast tree) = [r1, r2] \<Longrightarrow>
      tree = r1 @ CHR 0x00 # r2 @ [CHR 0x00] \<Longrightarrow>
      parseTreeRecords n [] \<lparr>wb_json = [], wb_zsh = []\<rparr> [r1, r2] = Inr b \<Longrightarrow> ?l" for r1 r2
    using r validGitObjectID_nonempty [of "wb_json b"] validGitObjectID_nonempty [of "wb_zsh b"]
    by (simp add: parseWorktreeTreeEntries_def Let_def)
  moreover have "splitOn (CHR 0x00) (butlast (r1 @ CHR 0x00 # r2 @ [CHR 0x00])) = [r1, r2]"
    if "CHR 0x00 \<notin> set r1" "CHR 0x00 \<notin> set r2" for r1 r2
    using that by (simp add: butlast_append splitOn_append splitOn_plain)
  ultimately show ?l
    using r tree_record_no_nul [of "wb_json b"] tree_record_no_nul [of "wb_zsh b"]
    unfolding two_records by (auto simp: worktree_listing_def swapped_listing_def two_records)
qed

section \<open>Options\<close>

definition fixed_options :: "string list" where
  "fixed_options =
     [''--bare'', ''-b'', ''--is-bare-repository'', ''-e'', ''-t'', ''-w'', ''--stdin'', ''--no-deref'', ''-d'',
      ''--empty'', ''--add'', ''--cacheinfo'', ''-m'', ''-p'', ''-z'', ''--'', ''--verify'', ''--hash'']"

lemma commitTreeOptions_dash:
  assumes "commitTreeOptions args" "i < length args" "has_prefix ''-'' (args ! i)"
  shows "args ! i = ''-m'' \<or> args ! i = ''-p'' \<or> (0 < i \<and> args ! (i - 1) = ''-m'')"
  using assms
proof (induction args arbitrary: i rule: commitTreeOptions.induct)
  case (3 opt v rest)
  consider "i = 0" | "i = 1" | j where "i = Suc (Suc j)" by (metis One_nat_def not0_implies_Suc)
  then show ?case
  proof cases
    case 3
    with "3.prems" have "commitTreeOptions rest" "j < length rest" "has_prefix ''-'' (rest ! j)"
      by (auto split: if_splits)
    then have "rest ! j = ''-m'' \<or> rest ! j = ''-p'' \<or> (0 < j \<and> rest ! (j - 1) = ''-m'')"
      using "3.IH" "3.prems"(1) by (auto split: if_splits)
    with 3 show ?thesis by (cases j) auto
  qed (use "3.prems" in \<open>auto simp: validAtom_def split: if_splits\<close>)
qed auto

lemma nth_of_two: "i < length [a, b] \<Longrightarrow> [a, b] ! i = a \<or> [a, b] ! i = b"
  by (auto simp: less_Suc_eq)

text \<open>
  Whatever the caller's data, an accepted command has only options of the code's own choice,
  and a dash can start another argument only as the text of a message.
\<close>

lemma accepted_dash:
  assumes "accepted_arguments verb args" "a \<in> set args" "has_prefix ''-'' a" "verb \<noteq> ''commit-tree''"
  shows "a \<in> set fixed_options \<or> (verb = ''for-each-ref'' \<and> has_prefix ''--format='' a)"
proof -
  have atom: "\<not> validAtom a" using assms(3) by (simp add: validAtom_def)
  have oid: "\<not> validGitObjectID a" using atom oid_atom by blast
  have entry: "\<not> has_prefix ''100644,'' a" "a \<noteq> ''blob''" "a \<noteq> ''profile.json''"
    using assms(3) by (auto simp: has_prefix_conv)
  show ?thesis
  proof (cases "verb = ''update-ref''")
    case True
    have "a = hd args \<or> a \<in> set (tl args)" using assms(2) by (cases args) auto
    with True assms(1,2) atom show ?thesis
      by (auto simp: accepted_arguments_def fixed_options_def list_all_iff)
  next
    case False
    with assms(1,4) have "verb \<in> {''version'', ''rev-parse'', ''cat-file'', ''show'', ''for-each-ref'', ''hash-object'',
        ''read-tree'', ''update-index'', ''write-tree'', ''ls-tree'', ''show-ref''}"
      by (intro ccontr [of "verb \<in> _"]) (simp add: accepted_arguments_def)
    then show ?thesis
      using assms(1,2) atom oid entry
      by (elim insertE emptyE; simp add: accepted_arguments_def fixed_options_def split: list.splits)
         auto
  qed
qed

lemma argv_options:
  assumes "validateGitArgv (verb # args) = OK" "i < length args" "has_prefix ''-'' (args ! i)"
  shows "args ! i \<in> set fixed_options \<or> (verb = ''for-each-ref'' \<and> has_prefix ''--format='' (args ! i))
    \<or> (verb = ''commit-tree'' \<and> 0 < i \<and> args ! (i - 1) = ''-m'')"
proof (cases "verb = ''init''")
  case True
  with assms show ?thesis
    by (auto simp: validateGitArgv_def validInitArgv_def fixed_options_def less_Suc_eq has_prefix_def split: if_splits)
next
  case False
  with assms(1) have acc: "accepted_arguments verb args" by (auto simp: validateGitArgv_def split: if_splits)
  show ?thesis
  proof (cases "verb = ''commit-tree''")
    case True
    with acc have ct: "args \<noteq> []" "validAtom (hd args)" "commitTreeOptions (tl args)"
      by (auto simp: accepted_arguments_def)
    then have "i \<noteq> 0" using assms(3) by (metis hd_conv_nth validAtom_def)
    then obtain j where j: "i = Suc j" by (cases i) auto
    with ct(1) assms(2,3) have "j < length (tl args)" "has_prefix ''-'' (tl args ! j)"
      by (auto simp: nth_tl)
    from commitTreeOptions_dash [OF ct(3) this] show ?thesis
      using True j assms(2) by (cases j) (auto simp: nth_tl fixed_options_def)
  next
    case False
    from accepted_dash [OF acc nth_mem [OF assms(2)] assms(3) False] show ?thesis by blast
  qed
qed

lemma frame_single: "frame_words frame = Some ws \<Longrightarrow> frame \<noteq> [] \<and> last frame = CHR 0x0A \<and> count_list frame (CHR 0x0A) = 1"
proof -
  assume "frame_words frame = Some ws"
  then have f: "frame \<noteq> []" "last frame = CHR 0x0A" "CHR 0x0A \<notin> set (butlast frame)"
    by (auto simp: frame_words_def split: if_splits)
  then have "frame = butlast frame @ [CHR 0x0A]" by (metis append_butlast_last_id)
  moreover have "count_list (butlast frame @ [CHR 0x0A]) (CHR 0x0A) = 1"
    using f(3) by (simp add: count_notin)
  ultimately show ?thesis using f by metis
qed

end
