(* ===== verification/GitHost.thy ===== *)
theory GitHost
  imports GitTextFacts CommittedDoc
begin

text \<open>
  How the store runs git (\<^verbatim>\<open>core/store/git.go\<close>): a process with checked arguments
  and an owned environment, the plumbing verbs, the inspection of a loose reference before
  git may read it, and the long-lived process of a reference transaction. Git itself, its
  pipes and the file system are a parameter: a record of functions on an abstract state.
\<close>

section \<open>The host\<close>

text \<open>
  What the file system says about a path without following a link, and the calls the code
  makes. A process that cannot start, fails or exceeds its time gives no output. A handle
  names a started process. The last two entries are the file of a temporary index.
\<close>

datatype file_stat = StatMissing | StatFailed | StatDir | StatRegular | StatSymlink | StatOther

record 'g git_host =
  gh_environ :: "'g \<Rightarrow> string list"
  gh_anchored :: "'g \<Rightarrow> bool"
  gh_exec :: "string list \<Rightarrow> string list \<Rightarrow> string option \<Rightarrow> 'g \<Rightarrow> string option \<times> 'g"
  gh_spawn :: "string list \<Rightarrow> string list \<Rightarrow> 'g \<Rightarrow> nat option \<times> 'g"
  gh_write :: "nat \<Rightarrow> string \<Rightarrow> 'g \<Rightarrow> bool \<times> 'g"
  gh_read_line :: "nat \<Rightarrow> 'g \<Rightarrow> string option \<times> 'g"
  gh_stderr :: "nat \<Rightarrow> 'g \<Rightarrow> string"
  gh_wait :: "nat \<Rightarrow> 'g \<Rightarrow> bool \<times> 'g"
  gh_root :: "'g \<Rightarrow> file_stat"
  gh_open_root :: "'g \<Rightarrow> bool"
  gh_lstat :: "string \<Rightarrow> 'g \<Rightarrow> file_stat"
  gh_reopened :: "string \<Rightarrow> 'g \<Rightarrow> bool"
  gh_read_leaf :: "string \<Rightarrow> 'g \<Rightarrow> string option"
  gh_private_dir :: "'g \<Rightarrow> unit result \<times> 'g"
  gh_temp_index :: "'g \<Rightarrow> string option \<times> 'g"
  gh_remove_index :: "string \<Rightarrow> 'g \<Rightarrow> 'g"

section \<open>Sequencing\<close>

type_synonym ('g, 'a) gio = "'g \<Rightarrow> 'a result \<times> 'g"

definition bindG :: "('g, 'a) gio \<Rightarrow> ('a \<Rightarrow> ('g, 'b) gio) \<Rightarrow> ('g, 'b) gio" where
  "bindG m f = (\<lambda>g. case m g of (Inl e, g') \<Rightarrow> (Inl e, g') | (Inr x, g') \<Rightarrow> f x g')"

definition liftG :: "'a result \<Rightarrow> ('g, 'a) gio" where
  "liftG r = (\<lambda>g. (r, g))"

definition askG :: "('g \<Rightarrow> 'a result) \<Rightarrow> ('g, 'a) gio" where
  "askG f = (\<lambda>g. (f g, g))"

text \<open>A call whose error the caller replaces by its own.\<close>

definition orErrG :: "('g, 'a) gio \<Rightarrow> go_error \<Rightarrow> ('g, 'a) gio" where
  "orErrG m e = (\<lambda>g. case m g of (r, g') \<Rightarrow> (orErr r e, g'))"

named_theorems gio_simps \<open>a sequence of calls that returned normally\<close>

lemma bindG_Inr [gio_simps]:
  "bindG m f g = (Inr y, g'') \<longleftrightarrow> (\<exists>x g'. m g = (Inr x, g') \<and> f x g' = (Inr y, g''))"
  by (auto simp: bindG_def split: prod.splits sum.splits)

lemma liftG_Inr [gio_simps]: "liftG r g = (Inr y, g') \<longleftrightarrow> r = Inr y \<and> g' = g"
  by (auto simp: liftG_def)

lemma askG_Inr [gio_simps]: "askG f g = (Inr y, g') \<longleftrightarrow> f g = Inr y \<and> g' = g"
  by (auto simp: askG_def)

lemma orErrG_Inr [gio_simps]: "orErrG m e g = (Inr y, g') \<longleftrightarrow> m g = (Inr y, g')"
  by (auto simp: orErrG_def orErr_eq_Inr split: prod.splits)

section \<open>Processes\<close>

text \<open>
  The command is checked before anything else; then its environment is built. A runner of the
  sourced loader must also find its authenticated directory again.
\<close>

definition gitCommand :: "'g git_host \<Rightarrow> git_runner \<Rightarrow> string list \<Rightarrow> ('g, string list) gio" where
  "gitCommand H rn args =
     bindG (liftG (validateGitArgv args)) (\<lambda>_.
       askG (\<lambda>g. if gr_runtime rn \<and> \<not> gh_anchored H g then Inl ErrGitCommand
                 else Inr (ownedEnvironment rn (gh_environ H g))))"

text \<open>Whatever goes wrong is the one mapped error; what git wrote to its error stream is dropped.\<close>

definition execute :: "'g git_host \<Rightarrow> string list \<Rightarrow> string list \<Rightarrow> string option \<Rightarrow> ('g, string) gio" where
  "execute H env args stdin =
     (\<lambda>g. case gh_exec H env args stdin g of
            (None, g') \<Rightarrow> (Inl ErrGitCommand, g')
          | (Some out, g') \<Rightarrow> (Inr out, g'))"

definition runGit :: "'g git_host \<Rightarrow> git_runner \<Rightarrow> string option \<Rightarrow> string list \<Rightarrow> ('g, string) gio" where
  "runGit H rn stdin args =
     bindG (orErrG (gitCommand H rn args) ErrGitCommand) (\<lambda>env. execute H env args stdin)"

definition runCommit :: "'g git_host \<Rightarrow> git_runner \<Rightarrow> string \<Rightarrow> string \<Rightarrow> string list \<Rightarrow> ('g, string) gio" where
  "runCommit H rn index ts args =
     bindG (orErrG (gitCommand H rn args) ErrGitCommand) (\<lambda>env.
       execute H (replaceGitEnvironment env (commitAssignments index ts)) args None)"

section \<open>Plumbing\<close>

definition hashObject :: "'g git_host \<Rightarrow> git_runner \<Rightarrow> string \<Rightarrow> ('g, string) gio" where
  "hashObject H rn content =
     bindG (runGit H rn (Some content) [''hash-object'', ''-w'', ''--stdin'']) (\<lambda>out.
       liftG (Inr (TrimSpace out)))"

definition catFileExists :: "'g git_host \<Rightarrow> git_runner \<Rightarrow> string \<Rightarrow> 'g \<Rightarrow> bool \<times> 'g" where
  "catFileExists H rn ref g =
     (case runGit H rn None [''cat-file'', ''-e'', ref] g of (r, g') \<Rightarrow> (\<not> isl r, g'))"

definition showObject :: "'g git_host \<Rightarrow> git_runner \<Rightarrow> string \<Rightarrow> ('g, string) gio" where
  "showObject H rn ref = runGit H rn None [''show'', ref]"

definition objectType :: "'g git_host \<Rightarrow> git_runner \<Rightarrow> string \<Rightarrow> ('g, string) gio" where
  "objectType H rn oid =
     (if \<not> validGitObjectID oid then liftG (Inl ErrGitCommand)
      else bindG (runGit H rn None [''cat-file'', ''-t'', oid]) (\<lambda>out. liftG (Inr (TrimSpace out))))"

text \<open>The callers' test: an error and another type are the same failure.\<close>

definition requireCommit :: "'g git_host \<Rightarrow> git_runner \<Rightarrow> string \<Rightarrow> ('g, unit) gio" where
  "requireCommit H rn oid =
     bindG (orErrG (objectType H rn oid) ErrGitCommand) (\<lambda>kind.
       liftG (if kind \<noteq> ''commit'' then Inl ErrGitCommand else OK))"

definition readBlob :: "'g git_host \<Rightarrow> git_runner \<Rightarrow> string \<Rightarrow> ('g, string) gio" where
  "readBlob H rn oid =
     (if \<not> validGitObjectID oid then liftG (Inl ErrGitCommand)
      else runGit H rn None [''cat-file'', ''blob'', oid])"

definition worktreeBlobsAtRevision :: "'g git_host \<Rightarrow> git_runner \<Rightarrow> string \<Rightarrow> ('g, worktree_blobs) gio" where
  "worktreeBlobsAtRevision H rn revision =
     (if \<not> validGitObjectID revision then liftG (Inl ErrGitCommand)
      else
        bindG (requireCommit H rn revision) (\<lambda>_.
        bindG (runGit H rn None [''ls-tree'', ''-z'', revision]) (\<lambda>tree.
        liftG (parseWorktreeTreeEntries tree (length revision)))))"

definition forEachRef :: "'g git_host \<Rightarrow> git_runner \<Rightarrow> string \<Rightarrow> ('g, string) gio" where
  "forEachRef H rn pattern = runGit H rn None [''for-each-ref'', ''--format=%(refname:short)'', pattern]"

definition revParse :: "'g git_host \<Rightarrow> git_runner \<Rightarrow> string \<Rightarrow> ('g, string) gio" where
  "revParse H rn ref =
     bindG (runGit H rn None [''rev-parse'', ref]) (\<lambda>out. liftG (Inr (TrimSpace out)))"

definition updateRef :: "'g git_host \<Rightarrow> git_runner \<Rightarrow> string \<Rightarrow> string \<Rightarrow> ('g, unit) gio" where
  "updateRef H rn ref oid =
     bindG (runGit H rn None [''update-ref'', ref, oid]) (\<lambda>_. liftG OK)"

definition updateRefCAS :: "'g git_host \<Rightarrow> git_runner \<Rightarrow> string \<Rightarrow> string \<Rightarrow> string \<Rightarrow> ('g, unit) gio" where
  "updateRefCAS H rn ref oid old =
     bindG (runGit H rn None [''update-ref'', ref, oid, old]) (\<lambda>_. liftG OK)"

definition deleteRefCAS :: "'g git_host \<Rightarrow> git_runner \<Rightarrow> string \<Rightarrow> string \<Rightarrow> ('g, unit) gio" where
  "deleteRefCAS H rn ref old =
     bindG (runGit H rn None [''update-ref'', ''-d'', ref, old]) (\<lambda>_. liftG OK)"

definition isBareRepo :: "'g git_host \<Rightarrow> git_runner \<Rightarrow> 'g \<Rightarrow> bool \<times> 'g" where
  "isBareRepo H rn g =
     (case runGit H rn None [''rev-parse'', ''--is-bare-repository''] g of
        (Inl _, g') \<Rightarrow> (False, g')
      | (Inr out, g') \<Rightarrow> (TrimSpace out = ''true'', g'))"

section \<open>Direct references\<close>

definition validatePackedRefsEntry :: "'g git_host \<Rightarrow> 'g \<Rightarrow> unit result" where
  "validatePackedRefsEntry H g =
     (case gh_lstat H ''packed-refs'' g of
        StatMissing \<Rightarrow> OK
      | StatRegular \<Rightarrow> if gh_reopened H ''packed-refs'' g then OK else Inl ErrGitCommand
      | _ \<Rightarrow> Inl ErrGitCommand)"

text \<open>\<^verbatim>\<open>filepath.Join\<close> drops empty elements; dots cannot occur in a valid name.\<close>

definition relativePath :: "string list \<Rightarrow> string" where
  "relativePath parts = joinWith (CHR ''/'') (filter (\<lambda>p. p \<noteq> []) parts)"

text \<open>
  Every existing component on the way must be a directory. The leaf may be missing or a
  directory (then the reference is absent); a file must hold one object name. The file's
  content is what an opened descriptor of the same file gives, at most 256 bytes.
\<close>

fun checkRefParts :: "'g git_host \<Rightarrow> 'g \<Rightarrow> string list \<Rightarrow> string list \<Rightarrow> unit result" where
  "checkRefParts H g seen [] = OK"
| "checkRefParts H g seen (p # ps) =
     (let relative = relativePath (seen @ [p])
      in case gh_lstat H relative g of
           StatMissing \<Rightarrow> OK
         | StatDir \<Rightarrow> if ps \<noteq> [] then checkRefParts H g (seen @ [p]) ps else OK
         | StatRegular \<Rightarrow>
             (if ps \<noteq> [] then Inl ErrGitCommand
              else case gh_read_leaf H relative g of
                None \<Rightarrow> Inl ErrGitCommand
              | Some contents \<Rightarrow>
                  let v = TrimSpace contents
                  in if has_prefix ''ref:'' v \<or> \<not> validGitObjectID v then Inl ErrGitCommand else OK)
         | _ \<Rightarrow> Inl ErrGitCommand)"

definition validateDirectRef :: "'g git_host \<Rightarrow> git_runner \<Rightarrow> head_ref \<Rightarrow> 'g \<Rightarrow> unit result" where
  "validateDirectRef H rn ref g =
     (if \<not> validHeadRef ref \<or> gr_runtime rn then Inl ErrGitCommand
      else if gh_root H g \<noteq> StatDir \<or> \<not> gh_open_root H g then Inl ErrGitCommand
      else bindR (validatePackedRefsEntry H g) (\<lambda>_.
        checkRefParts H g [] (splitOn (CHR ''/'') (hr_name ref))))"

text \<open>The line of the listing that is exactly the reference; others share its prefix.\<close>

fun findRefLine :: "string \<Rightarrow> string list \<Rightarrow> string option result" where
  "findRefLine name [] = Inr None"
| "findRefLine name (line # rest) =
     (case cutAt (CHR 0x00) line of
        Some (n, v) \<Rightarrow>
          (if n \<noteq> name then findRefLine name rest
           else if \<not> validGitObjectID (TrimSpace v) then Inl ErrGitCommand
           else Inr (Some (TrimSpace v)))
      | None \<Rightarrow> findRefLine name rest)"

definition observeDirectRef :: "'g git_host \<Rightarrow> git_runner \<Rightarrow> head_ref \<Rightarrow> ('g, string option) gio" where
  "observeDirectRef H rn ref =
     bindG (askG (validateDirectRef H rn ref)) (\<lambda>_.
     bindG (runGit H rn None [''for-each-ref'', ''--format=%(refname)%00%(objectname)'', hr_name ref]) (\<lambda>out.
     liftG (findRefLine (hr_name ref) (splitOn (CHR 0x0A) (TrimSpace out)))))"

text \<open>
  The profile of one exact commit: an absent \<^verbatim>\<open>profile.json\<close> is an empty profile
  without an object.
\<close>

definition has_suffix :: "string \<Rightarrow> string \<Rightarrow> bool" where
  "has_suffix t s \<longleftrightarrow> has_prefix (rev t) (rev s)"

definition profileAtRevision ::
  "'g git_host \<Rightarrow> json_codec \<Rightarrow> git_runner \<Rightarrow> string \<Rightarrow> ('g, profile \<times> bool) gio" where
  "profileAtRevision H J rn revision =
     bindG (runGit H rn None [''ls-tree'', ''-z'', revision, ''--'', ''profile.json'']) (\<lambda>tree.
       if tree = [] then liftG (Inr ([], False))
       else if \<not> has_suffix (CHR 0x09 # ''profile.json'' @ [CHR 0x00]) tree then liftG (Inl ErrGitCommand)
       else bindG (showObject H rn (revision @ '':profile.json'')) (\<lambda>payload.
         liftG (bindR (UnmarshalProfile J payload) (\<lambda>p. Inr (p, True)))))"

end
