(* ===== verification/RefSession.thy ===== *)
theory RefSession
  imports GitHost
begin

text \<open>
  The staged reference transaction of \<^verbatim>\<open>core/store/git.go\<close>: one
  \<^verbatim>\<open>git update-ref --stdin\<close> process that is started, prepared, and then committed or
  aborted, with an acknowledgement read after each step. A property of the frames the process
  receives is stated over a host that also keeps a log of them.
\<close>

section \<open>Sessions\<close>

record ref_session =
  us_handle :: nat
  us_live :: bool
  us_locked :: bool
  us_waited :: bool
  us_commit_written :: bool

definition new_session :: "nat \<Rightarrow> ref_session" where
  "new_session h =
     \<lparr>us_handle = h, us_live = False, us_locked = False, us_waited = False, us_commit_written = False\<rparr>"

text \<open>Closing the input and waiting happen at most once.\<close>

definition finishLocked :: "'g git_host \<Rightarrow> ref_session \<Rightarrow> 'g \<Rightarrow> unit result \<times> ref_session \<times> 'g" where
  "finishLocked H s g =
     (if us_waited s then (OK, s, g)
      else let (ok, g') = gh_wait H (us_handle s) g
        in (if ok then OK else Inl ErrGitCommand,
            s\<lparr>us_waited := True, us_live := False, us_locked := False\<rparr>, g'))"

definition acknowledged :: "string \<Rightarrow> string option \<Rightarrow> bool" where
  "acknowledged step line \<longleftrightarrow> line = Some (step @ '': ok'' @ [CHR 0x0A])"

text \<open>
  A step: the frame is written, then its acknowledgement read; the caller says what happens
  when either fails.
\<close>

definition step_frame :: "'g git_host \<Rightarrow> nat \<Rightarrow> string \<Rightarrow> 'g \<Rightarrow> bool \<times> 'g" where
  "step_frame H h step g =
     (case gh_write H h (step @ [CHR 0x0A]) g of
        (False, g') \<Rightarrow> (False, g')
      | (True, g') \<Rightarrow> (case gh_read_line H h g' of (line, g'') \<Rightarrow> (acknowledged step line, g'')))"

definition supportsUpdateRefTransactions :: "'g git_host \<Rightarrow> git_runner \<Rightarrow> 'g \<Rightarrow> bool \<times> 'g" where
  "supportsUpdateRefTransactions H rn g =
     (case runGit H rn None [''version''] g of
        (Inl _, g') \<Rightarrow> (False, g')
      | (Inr out, g') \<Rightarrow> (gitSupportsUpdateRefTransactions out, g'))"

definition startUpdateRefSession :: "'g git_host \<Rightarrow> git_runner \<Rightarrow> ('g, ref_session) gio" where
  "startUpdateRefSession H rn =
     (\<lambda>g. case supportsUpdateRefTransactions H rn g of
        (False, g1) \<Rightarrow> (Inl ErrGitCommand, g1)
      | (True, g1) \<Rightarrow>
          (case gitCommand H rn [''update-ref'', ''--no-deref'', ''--stdin''] g1 of
             (Inl e, g2) \<Rightarrow> (Inl e, g2)
           | (Inr env, g2) \<Rightarrow>
               (case gh_spawn H env [''update-ref'', ''--no-deref'', ''--stdin''] g2 of
                  (None, g3) \<Rightarrow> (Inl ErrGitCommand, g3)
                | (Some h, g3) \<Rightarrow>
                    (case step_frame H h ''start'' g3 of
                       (False, g4) \<Rightarrow> (Inl ErrGitCommand, snd (snd (finishLocked H (new_session h) g4)))
                     | (True, g4) \<Rightarrow> (Inr ((new_session h)\<lparr>us_live := True\<rparr>), g4)))))"

definition single_line :: "string \<Rightarrow> bool" where
  "single_line frame \<longleftrightarrow> frame \<noteq> [] \<and> last frame = CHR 0x0A \<and> count_list frame (CHR 0x0A) = 1"

text \<open>
  Preparing writes the mutation and asks for the lock. When the acknowledgement does not come
  git has ended by itself; what it said tells a lost race from another failure.
\<close>

definition sessionPrepare :: "'g git_host \<Rightarrow> string \<Rightarrow> ref_session \<Rightarrow> 'g \<Rightarrow> unit result \<times> ref_session \<times> 'g" where
  "sessionPrepare H mutation s g =
     (if \<not> us_live s \<or> us_locked s \<or> \<not> single_line mutation then (Inl ErrGitCommand, s, g)
      else case gh_write H (us_handle s) mutation g of
        (False, g1) \<Rightarrow> (Inl ErrGitCommand, snd (finishLocked H s g1))
      | (True, g1) \<Rightarrow>
          (case gh_write H (us_handle s) (''prepare'' @ [CHR 0x0A]) g1 of
             (False, g2) \<Rightarrow> (Inl ErrGitCommand, snd (finishLocked H s g2))
           | (True, g2) \<Rightarrow>
               (case gh_read_line H (us_handle s) g2 of (line, g3) \<Rightarrow>
                  if acknowledged ''prepare'' line then (OK, s\<lparr>us_locked := True\<rparr>, g3)
                  else case finishLocked H s g3 of (_, s', g4) \<Rightarrow>
                    (if updateRefPrepareLockRejected (gh_stderr H (us_handle s) g4)
                     then Inl ErrSecretRefConflict else Inl ErrGitCommand, s', g4))))"

definition sessionCommit :: "'g git_host \<Rightarrow> ref_session \<Rightarrow> 'g \<Rightarrow> unit result \<times> ref_session \<times> 'g" where
  "sessionCommit H s g =
     (if \<not> us_live s \<or> \<not> us_locked s then (Inl ErrGitCommand, s, g)
      else let s1 = s\<lparr>us_commit_written := True\<rparr>
        in case step_frame H (us_handle s) ''commit'' g of
             (False, g1) \<Rightarrow> (Inl ErrGitCommand, snd (finishLocked H s1 g1))
           | (True, g1) \<Rightarrow> finishLocked H s1 g1)"

definition sessionAbort :: "'g git_host \<Rightarrow> ref_session \<Rightarrow> 'g \<Rightarrow> unit result \<times> ref_session \<times> 'g" where
  "sessionAbort H s g =
     (if \<not> us_live s then (OK, s, g)
      else if \<not> us_locked s then (Inl ErrGitCommand, s, g)
      else case step_frame H (us_handle s) ''abort'' g of
        (False, g1) \<Rightarrow> (Inl ErrGitCommand, snd (finishLocked H s g1))
      | (True, g1) \<Rightarrow> finishLocked H s g1)"

section \<open>Runs of a session\<close>

text \<open>What a client may call once the session is started, in any order and number.\<close>

datatype session_call = CallPrepare string | CallCommit | CallAbort

fun callSession :: "'g git_host \<Rightarrow> session_call \<Rightarrow> ref_session \<times> 'g \<Rightarrow> ref_session \<times> 'g" where
  "callSession H (CallPrepare m) (s, g) = snd (sessionPrepare H m s g)"
| "callSession H CallCommit (s, g) = snd (sessionCommit H s g)"
| "callSession H CallAbort (s, g) = snd (sessionAbort H s g)"

text \<open>A host that also writes down what goes over the pipe, in order.\<close>

datatype pipe_event = Sent string bool | Received "string option" | Waited

definition logged :: "'g git_host \<Rightarrow> ('g \<times> pipe_event list) git_host" where
  "logged H =
     \<lparr>gh_environ = gh_environ H \<circ> fst,
      gh_anchored = gh_anchored H \<circ> fst,
      gh_exec = (\<lambda>env args stdin (g, l). case gh_exec H env args stdin g of (r, g') \<Rightarrow> (r, g', l)),
      gh_spawn = (\<lambda>env args (g, l). case gh_spawn H env args g of (r, g') \<Rightarrow> (r, g', l)),
      gh_write = (\<lambda>h frame (g, l). case gh_write H h frame g of (r, g') \<Rightarrow> (r, g', l @ [Sent frame r])),
      gh_read_line = (\<lambda>h (g, l). case gh_read_line H h g of (r, g') \<Rightarrow> (r, g', l @ [Received r])),
      gh_stderr = (\<lambda>h. gh_stderr H h \<circ> fst),
      gh_wait = (\<lambda>h (g, l). case gh_wait H h g of (r, g') \<Rightarrow> (r, g', l @ [Waited])),
      gh_root = gh_root H \<circ> fst,
      gh_open_root = gh_open_root H \<circ> fst,
      gh_lstat = (\<lambda>p. gh_lstat H p \<circ> fst),
      gh_reopened = (\<lambda>p. gh_reopened H p \<circ> fst),
      gh_read_leaf = (\<lambda>p. gh_read_leaf H p \<circ> fst),
      gh_private_dir = (\<lambda>(g, l). case gh_private_dir H g of (r, g') \<Rightarrow> (r, g', l)),
      gh_temp_index = (\<lambda>(g, l). case gh_temp_index H g of (r, g') \<Rightarrow> (r, g', l)),
      gh_remove_index = (\<lambda>p (g, l). (gh_remove_index H p g, l))\<rparr>"

section \<open>The protocol\<close>

text \<open>
  The legal conversations as a machine over events: what has happened is a state, and
  \<open>None\<close> is a violation. After a failed step the only legal event is the wait.
\<close>

datatype pipe_state = PipeFresh | PipeStart | PipeOpen | PipeMutation | PipePrepare | PipeLocked | PipeClosing string | PipeEnding | PipeDone

fun pipe_step :: "pipe_state \<Rightarrow> pipe_event \<Rightarrow> pipe_state option" where
  "pipe_step PipeFresh (Sent frame ok) =
     (if frame = ''start'' @ [CHR 0x0A] then Some (if ok then PipeStart else PipeEnding) else None)"
| "pipe_step PipeStart (Received line) =
     Some (if acknowledged ''start'' line then PipeOpen else PipeEnding)"
| "pipe_step PipeOpen (Sent frame ok) =
     (if single_line frame then Some (if ok then PipeMutation else PipeEnding) else None)"
| "pipe_step PipeMutation (Sent frame ok) =
     (if frame = ''prepare'' @ [CHR 0x0A] then Some (if ok then PipePrepare else PipeEnding) else None)"
| "pipe_step PipePrepare (Received line) =
     Some (if acknowledged ''prepare'' line then PipeLocked else PipeEnding)"
| "pipe_step PipeLocked (Sent frame ok) =
     (if frame = ''commit'' @ [CHR 0x0A] then Some (if ok then PipeClosing ''commit'' else PipeEnding)
      else if frame = ''abort'' @ [CHR 0x0A] then Some (if ok then PipeClosing ''abort'' else PipeEnding)
      else None)"
| "pipe_step (PipeClosing step) (Received line) = Some PipeEnding"
| "pipe_step PipeEnding Waited = Some PipeDone"
| "pipe_step _ _ = None"

fun pipe_run :: "pipe_state \<Rightarrow> pipe_event list \<Rightarrow> pipe_state option" where
  "pipe_run p [] = Some p"
| "pipe_run p (e # es) = (case pipe_step p e of None \<Rightarrow> None | Some p' \<Rightarrow> pipe_run p' es)"

lemma pipe_run_append: "pipe_run p (xs @ ys) = (case pipe_run p xs of None \<Rightarrow> None | Some p' \<Rightarrow> pipe_run p' ys)"
  by (induction p xs rule: pipe_run.induct) (auto split: option.split)

text \<open>How the flags of a session mirror the conversation.\<close>

definition mirrors :: "ref_session \<Rightarrow> pipe_event list \<Rightarrow> bool" where
  "mirrors s l \<longleftrightarrow>
     (us_live s \<and> \<not> us_locked s \<and> \<not> us_waited s \<and> pipe_run PipeFresh l = Some PipeOpen)
     \<or> (us_live s \<and> us_locked s \<and> \<not> us_waited s \<and> pipe_run PipeFresh l = Some PipeLocked)
     \<or> (\<not> us_live s \<and> \<not> us_locked s \<and> us_waited s \<and> pipe_run PipeFresh l = Some PipeDone)"

lemma write_logged:
  "gh_write (logged H) h frame (g, l) = (r, g', l') \<longleftrightarrow>
     gh_write H h frame g = (r, g') \<and> l' = l @ [Sent frame r]"
  by (auto simp: logged_def split: prod.splits)

lemma read_logged:
  "gh_read_line (logged H) h (g, l) = (r, g', l') \<longleftrightarrow> gh_read_line H h g = (r, g') \<and> l' = l @ [Received r]"
  by (auto simp: logged_def split: prod.splits)

lemma finish_logged:
  assumes "finishLocked (logged H) s (g, l) = (r, s', g', l')" "\<not> us_waited s"
  shows "l' = l @ [Waited]" "\<not> us_live s'" "\<not> us_locked s'" "us_waited s'"
  using assms by (auto simp: finishLocked_def logged_def Let_def split: prod.splits)

lemma step_logged:
  assumes "step_frame (logged H) h step (g, l) = (ok, g', l')"
  obtains "\<not> ok" "l' = l @ [Sent (step @ [CHR 0x0A]) False]"
  | line where "l' = l @ [Sent (step @ [CHR 0x0A]) True, Received line]" "ok \<longleftrightarrow> acknowledged step line"
  using assms by (fastforce simp: step_frame_def write_logged read_logged split: prod.splits bool.splits)

lemma mirrors_finished:
  assumes "finishLocked (logged H) s (g, l) = (r, s', g', l')" "\<not> us_waited s"
    and "pipe_run PipeFresh l = Some PipeEnding"
  shows "mirrors s' l'"
  using finish_logged [OF assms(1,2)] assms(3) by (simp add: mirrors_def pipe_run_append)

lemma prepare_mirrors:
  assumes m: "mirrors s l" and run: "sessionPrepare (logged H) mu s (g, l) = (r, s', g', l')"
  shows "mirrors s' l'"
proof (cases "us_live s \<and> \<not> us_locked s \<and> single_line mu")
  case False
  with m run show ?thesis by (auto simp: sessionPrepare_def)
next
  case True
  with m have w: "\<not> us_waited s" and l: "pipe_run PipeFresh l = Some PipeOpen" by (auto simp: mirrors_def)
  obtain b1 g1 l1 where 1: "gh_write (logged H) (us_handle s) mu (g, l) = (b1, g1, l1)" by (metis prod_cases3)
  show ?thesis
  proof (cases b1)
    case False
    with 1 True run have "finishLocked (logged H) s (g1, l1) = (fst (finishLocked (logged H) s (g1, l1)), s', g', l')"
      by (simp add: sessionPrepare_def) (metis prod.collapse)
    then show ?thesis
      using w l 1 False True by (auto intro!: mirrors_finished simp: write_logged pipe_run_append)
  next
    case ok1: True
    obtain b2 g2 l2 where 2: "gh_write (logged H) (us_handle s) (''prepare'' @ [CHR 0x0A]) (g1, l1) = (b2, g2, l2)"
      by (metis prod_cases3)
    show ?thesis
    proof (cases b2)
      case False
      with 1 2 ok1 True run have "finishLocked (logged H) s (g2, l2) = (fst (finishLocked (logged H) s (g2, l2)), s', g', l')"
        by (simp add: sessionPrepare_def) (metis prod.collapse)
      then show ?thesis
        using w l 1 2 False ok1 True by (auto intro!: mirrors_finished simp: write_logged pipe_run_append)
    next
      case ok2: True
      obtain line g3 l3 where 3: "gh_read_line (logged H) (us_handle s) (g2, l2) = (line, g3, l3)"
        by (metis prod_cases3)
      have at: "pipe_run PipeFresh l3 = Some (if acknowledged ''prepare'' line then PipeLocked else PipeEnding)"
        using 1 2 3 ok1 ok2 True l by (auto simp: write_logged read_logged pipe_run_append)
      show ?thesis
      proof (cases "acknowledged ''prepare'' line")
        case ack: True
        with 1 2 3 ok1 ok2 True run w at show ?thesis by (auto simp: sessionPrepare_def mirrors_def)
      next
        case False
        with 1 2 3 ok1 ok2 True run have "finishLocked (logged H) s (g3, l3) = (fst (finishLocked (logged H) s (g3, l3)), s', g', l')"
          by (auto simp: sessionPrepare_def split: prod.splits)
        then show ?thesis using w at False by (auto intro!: mirrors_finished)
      qed
    qed
  qed
qed

text \<open>Committing and aborting end the conversation the same way.\<close>

lemma closing_mirrors:
  assumes "pipe_run PipeFresh l = Some PipeLocked" "\<not> us_waited s" "step \<in> {''commit'', ''abort''}"
    and st: "step_frame (logged H) h step (g, l) = (ok, g1, l1)"
    and "finishLocked (logged H) s (g1, l1) = (r, s', g', l')"
  shows "mirrors s' l'"
proof -
  have "pipe_run PipeFresh l1 = Some PipeEnding"
    using st by (rule step_logged) (use assms(1,3) in \<open>auto simp: pipe_run_append\<close>)
  with assms(2,5) show ?thesis by (intro mirrors_finished)
qed

lemma commit_mirrors:
  assumes m: "mirrors s l" and run: "sessionCommit (logged H) s (g, l) = (r, s', g', l')"
  shows "mirrors s' l'"
proof (cases "us_live s \<and> us_locked s")
  case False
  with m run show ?thesis by (auto simp: sessionCommit_def)
next
  case True
  with m have w: "\<not> us_waited s" and l: "pipe_run PipeFresh l = Some PipeLocked" by (auto simp: mirrors_def)
  let ?s = "s\<lparr>us_commit_written := True\<rparr>"
  obtain ok g1 l1 where st: "step_frame (logged H) (us_handle s) ''commit'' (g, l) = (ok, g1, l1)"
    by (metis prod_cases3)
  with True run have "finishLocked (logged H) ?s (g1, l1) = (fst (finishLocked (logged H) ?s (g1, l1)), s', g', l')"
    by (cases ok) (auto simp: sessionCommit_def Let_def prod_eq_iff)
  then show ?thesis by (rule closing_mirrors [OF l _ _ st, rotated -1]) (simp_all add: w)
qed

lemma abort_mirrors:
  assumes m: "mirrors s l" and run: "sessionAbort (logged H) s (g, l) = (r, s', g', l')"
  shows "mirrors s' l'"
proof (cases "us_live s \<and> us_locked s")
  case False
  with m run show ?thesis by (auto simp: sessionAbort_def split: if_splits)
next
  case True
  with m have w: "\<not> us_waited s" and l: "pipe_run PipeFresh l = Some PipeLocked" by (auto simp: mirrors_def)
  obtain ok g1 l1 where st: "step_frame (logged H) (us_handle s) ''abort'' (g, l) = (ok, g1, l1)"
    by (metis prod_cases3)
  with True run have "finishLocked (logged H) s (g1, l1) = (fst (finishLocked (logged H) s (g1, l1)), s', g', l')"
    by (cases ok) (auto simp: sessionAbort_def prod_eq_iff)
  then show ?thesis by (rule closing_mirrors [OF l _ _ st, rotated -1]) (simp_all add: w)
qed

lemma call_mirrors:
  assumes "mirrors s l" "callSession (logged H) c (s, g, l) = (s', g', l')"
  shows "mirrors s' l'"
proof (cases c)
  case (CallPrepare mu)
  then have "sessionPrepare (logged H) mu s (g, l) = (fst (sessionPrepare (logged H) mu s (g, l)), s', g', l')"
    using assms(2) by (metis callSession.simps(1) prod.collapse)
  then show ?thesis by (rule prepare_mirrors [OF assms(1)])
next
  case CallCommit
  then have "sessionCommit (logged H) s (g, l) = (fst (sessionCommit (logged H) s (g, l)), s', g', l')"
    using assms(2) by (metis callSession.simps(2) prod.collapse)
  then show ?thesis by (rule commit_mirrors [OF assms(1)])
next
  case CallAbort
  then have "sessionAbort (logged H) s (g, l) = (fst (sessionAbort (logged H) s (g, l)), s', g', l')"
    using assms(2) by (metis callSession.simps(3) prod.collapse)
  then show ?thesis by (rule abort_mirrors [OF assms(1)])
qed

lemma calls_mirror:
  assumes "mirrors s l" "fold (callSession (logged H)) cs (s, g, l) = (s', g', l')"
  shows "mirrors s' l'"
  using assms
proof (induction cs arbitrary: s g l)
  case (Cons c cs)
  obtain s1 g1 l1 where c: "callSession (logged H) c (s, g, l) = (s1, g1, l1)"
    by (metis prod_cases3)
  with Cons show ?case by (auto dest: call_mirrors)
qed simp

text \<open>Running a command and starting a process do not touch the log.\<close>

lemma runGit_logged: "runGit (logged H) rn stdin args (g, l) = (r, g', l') \<Longrightarrow> l' = l"
  by (auto simp: runGit_def gitCommand_def execute_def bindG_def askG_def liftG_def orErrG_def logged_def
      split: prod.splits sum.splits option.splits)

lemma supports_logged: "supportsUpdateRefTransactions (logged H) rn (g, l) = (b, g', l') \<Longrightarrow> l' = l"
  by (auto simp: supportsUpdateRefTransactions_def dest: runGit_logged split: prod.splits sum.splits)

lemma gitCommand_state: "gitCommand H rn args g = (r, g') \<Longrightarrow> g' = g"
  by (auto simp: gitCommand_def bindG_def askG_def liftG_def split: sum.splits)

lemma spawn_logged: "gh_spawn (logged H) env args (g, l) = (r, g', l') \<Longrightarrow> l' = l"
  by (auto simp: logged_def split: prod.splits)

lemma start_mirrors:
  assumes "startUpdateRefSession (logged H) rn (g, []) = (r, g', l')"
  shows "case r of Inl _ \<Rightarrow> pipe_run PipeFresh l' \<in> {Some PipeFresh, Some PipeDone} | Inr s \<Rightarrow> mirrors s l'"
proof -
  let ?args = "[''update-ref'', ''--no-deref'', ''--stdin'']"
  obtain b g1 l1 where v: "supportsUpdateRefTransactions (logged H) rn (g, []) = (b, g1, l1)"
    by (metis prod_cases3)
  then have l1: "l1 = []" by (rule supports_logged)
  obtain c where c: "gitCommand (logged H) rn ?args (g1, l1) = (c, g1, l1)"
    using gitCommand_state by (metis prod.collapse)
  show ?thesis
  proof (cases "b \<and> \<not> isl c")
    case False
    then show ?thesis
      using assms v c l1 by (cases b; cases c) (auto simp: startUpdateRefSession_def)
  next
    case True
    then obtain env where env: "b" "c = Inr env" by (cases c) auto
    obtain sp g2 l2 where sp: "gh_spawn (logged H) env ?args (g1, l1) = (sp, g2, l2)"
      by (metis prod_cases3)
    then have l2: "l2 = []" using spawn_logged [OF sp] l1 by simp
    show ?thesis
    proof (cases sp)
      case None
      then show ?thesis using assms v c env sp l2 by (auto simp: startUpdateRefSession_def)
    next
      case (Some h)
      obtain ok g3 l3 where st: "step_frame (logged H) h ''start'' (g2, l2) = (ok, g3, l3)"
        by (metis prod_cases3)
      then have at: "pipe_run PipeFresh l3 = Some (if ok then PipeOpen else PipeEnding)"
        by (rule step_logged) (auto simp: l2)
      obtain f s4 g4 l4 where fin: "finishLocked (logged H) (new_session h) (g3, l3) = (f, s4, g4, l4)"
        by (metis prod_cases4)
      have "pipe_run PipeFresh l4 = Some PipeDone" if "\<not> ok"
        using finish_logged(1) [OF fin] at that by (simp add: new_session_def pipe_run_append)
      then show ?thesis
        using assms v c env sp Some st fin at
        by (cases ok) (auto simp: startUpdateRefSession_def mirrors_def new_session_def)
    qed
  qed
qed

end
