(* ===== verification/GitStore.thy ===== *)
theory GitStore
  imports RefSession SecretFacts WorkflowService LiveEmit
begin

text \<open>
  The git-backed store (\<^verbatim>\<open>core/store/store.go\<close>): profiles as branches, exact worktree
  revisions and their publication against an expected base. Every operation is a function of
  the state of the host; publication also works on the state of the secret backend. Together
  they are the repository the worktree service talks to.
\<close>

section \<open>The store\<close>

record ('g, 's) store =
  so_host :: "'g git_host"
  so_runner :: git_runner
  so_codec :: json_codec
  so_regen :: "(committed_worktree \<Rightarrow> string result) option"
  so_keychain :: "'s keychain_driver"

section \<open>Branches\<close>

definition Init :: "('g, 's) store \<Rightarrow> ('g, unit) gio" where
  "Init S =
     bindG (gh_private_dir (so_host S)) (\<lambda>_ g.
       case isBareRepo (so_host S) (so_runner S) g of
         (True, g1) \<Rightarrow> (OK, g1)
       | (False, g1) \<Rightarrow>
           bindG (runGit (so_host S) (so_runner S) None [''init'', ''--bare'', ''-b'', ''main'']) (\<lambda>_ g2.
             case catFileExists (so_host S) (so_runner S) (hr_name mainHeadRef) g2 of
               (True, g3) \<Rightarrow> (OK, g3)
             | (False, g3) \<Rightarrow>
                 bindG (runCommit (so_host S) (so_runner S) [] commitTS
                    [''commit-tree'', ''4b825dc642cb6eb9a060e54bf8d69288fbee4904'', ''-m'', ''init'']) (\<lambda>out.
                   updateRef (so_host S) (so_runner S) (hr_name mainHeadRef) (TrimSpace out)) g3) g1)"

definition storeBranches :: "('g, 's) store \<Rightarrow> ('g, string list) gio" where
  "storeBranches S =
     bindG (forEachRef (so_host S) (so_runner S) headsPrefix) (\<lambda>out.
       liftG (Inr (sortStrings
         (filter (\<lambda>n. n \<noteq> []) (map TrimSpace (splitOn (CHR 0x0A) out))))))"

definition storeCurrent :: "string option \<Rightarrow> string" where
  "storeCurrent profile_variable =
     (case profile_variable of Some name \<Rightarrow> if name \<noteq> [] then name else ''main'' | None \<Rightarrow> ''main'')"

definition storeCheckout :: "('g, 's) store \<Rightarrow> string \<Rightarrow> ('g, unit) gio" where
  "storeCheckout S name =
     bindG (liftG (validBranchName name)) (\<lambda>_ g.
       case catFileExists (so_host S) (so_runner S) (headsPrefix @ name) g of
         (True, g') \<Rightarrow> (OK, g')
       | (False, g') \<Rightarrow> (Inl ErrProfileNotFound, g'))"

definition storeCreate :: "('g, 's) store \<Rightarrow> string \<Rightarrow> ('g, unit) gio" where
  "storeCreate S name =
     bindG (liftG (validBranchName name)) (\<lambda>_ g.
       case catFileExists (so_host S) (so_runner S) (headsPrefix @ name) g of
         (True, g') \<Rightarrow> (Inl ErrProfileExists, g')
       | (False, g') \<Rightarrow>
           bindG (revParse (so_host S) (so_runner S) (hr_name mainHeadRef)) (\<lambda>oid.
             updateRefCAS (so_host S) (so_runner S) (headsPrefix @ name) oid (zero_oid (length oid))) g')"

text \<open>
  A branch that exists and holds no profile yet is the empty profile; a branch that does not
  exist is an error.
\<close>

definition storeRead :: "('g, 's) store \<Rightarrow> string \<Rightarrow> ('g, profile) gio" where
  "storeRead S branch =
     bindG (liftG (validBranchName branch)) (\<lambda>_ g.
       case catFileExists (so_host S) (so_runner S) (headsPrefix @ branch) g of
         (False, g1) \<Rightarrow> (Inl ErrProfileNotFound, g1)
       | (True, g1) \<Rightarrow>
           (case catFileExists (so_host S) (so_runner S) (branch @ '':profile.json'') g1 of
              (False, g2) \<Rightarrow> (Inr [], g2)
            | (True, g2) \<Rightarrow>
                bindG (showObject (so_host S) (so_runner S) (branch @ '':profile.json'')) (\<lambda>b.
                  liftG (UnmarshalProfile (so_codec S) b)) g2))"

section \<open>Exact revisions\<close>

definition ResolveWorktreeRevision :: "('g, 's) store \<Rightarrow> string \<Rightarrow> ('g, string) gio" where
  "ResolveWorktreeRevision S branch =
     bindG (liftG (validatedHeadRefForBranch branch)) (\<lambda>ref.
     bindG (observeDirectRef (so_host S) (so_runner S) ref) (\<lambda>observed.
       case observed of
         None \<Rightarrow> liftG (Inl ErrProfileNotFound)
       | Some revision \<Rightarrow>
           bindG (requireCommit (so_host S) (so_runner S) revision) (\<lambda>_. liftG (Inr revision))))"

definition ReadWorktreeRevision :: "('g, 's) store \<Rightarrow> string \<Rightarrow> ('g, committed_worktree) gio" where
  "ReadWorktreeRevision S revision =
     (case so_regen S of
        None \<Rightarrow> liftG (Inl ErrGitCommand)
      | Some regen \<Rightarrow>
          if \<not> validGitObjectID revision then liftG (Inl ErrGitCommand)
          else
            bindG (worktreeBlobsAtRevision (so_host S) (so_runner S) revision) (\<lambda>blobs.
            bindG (readBlob (so_host S) (so_runner S) (wb_json blobs)) (\<lambda>payload.
            bindG (readBlob (so_host S) (so_runner S) (wb_zsh blobs)) (\<lambda>generated.
            bindG (liftG (UnmarshalCommittedWorktree (so_codec S) payload)) (\<lambda>document.
              liftG (case regen document of
                  Inl _ \<Rightarrow> Inl ErrGitCommand
                | Inr want \<Rightarrow> if generated \<noteq> want then Inl ErrGitCommand else Inr document))))))"

definition CreateFrom :: "('g, 's) store \<Rightarrow> string \<Rightarrow> string \<Rightarrow> ('g, unit) gio" where
  "CreateFrom S branch base =
     bindG (liftG (validatedHeadRefForBranch branch)) (\<lambda>ref.
       if \<not> validGitObjectID base then liftG (Inl ErrGitCommand)
       else
         bindG (requireCommit (so_host S) (so_runner S) base) (\<lambda>_.
         bindG (observeDirectRef (so_host S) (so_runner S) ref) (\<lambda>observed.
           if observed \<noteq> None then liftG (Inl ErrProfileExists)
           else (\<lambda>g.
             case updateRefCAS (so_host S) (so_runner S) (hr_name ref) base (zero_oid (length base)) g of
               (Inr _, g1) \<Rightarrow> (OK, g1)
             | (Inl e, g1) \<Rightarrow>
                 (case observeDirectRef (so_host S) (so_runner S) ref g1 of
                    (Inr (Some _), g2) \<Rightarrow> (Inl ErrProfileExists, g2)
                  | (_, g2) \<Rightarrow> (Inl e, g2))))))"

section \<open>The candidate of a publication\<close>

definition blob_entry :: "string \<Rightarrow> string \<Rightarrow> string" where
  "blob_entry oid path = ''100644,'' @ oid @ CHR '','' # path"

definition same_format :: "string \<Rightarrow> string \<Rightarrow> bool" where
  "same_format base oid \<longleftrightarrow> validGitObjectID oid \<and> length oid = length base"

definition candidateSteps ::
  "('g, 's) store \<Rightarrow> string \<Rightarrow> string \<Rightarrow> string \<Rightarrow> string \<Rightarrow> string \<Rightarrow> ('g, string) gio" where
  "candidateSteps S index base json zsh message =
     (let H = so_host S; rn = so_runner S; plumb = runCommit H rn index commitTS
      in bindG (hashObject H rn json) (\<lambda>json_oid.
         bindG (hashObject H rn zsh) (\<lambda>zsh_oid.
         if \<not> (same_format base json_oid \<and> same_format base zsh_oid) then liftG (Inl ErrGitCommand)
         else
           bindG (plumb [''read-tree'', ''--empty'']) (\<lambda>_.
           bindG (plumb [''update-index'', ''--add'', ''--cacheinfo'', blob_entry json_oid ''profile.json'']) (\<lambda>_.
           bindG (plumb [''update-index'', ''--add'', ''--cacheinfo'', blob_entry zsh_oid ''profile.zsh'']) (\<lambda>_.
           bindG (plumb [''write-tree'']) (\<lambda>tree_out.
             let tree = TrimSpace tree_out
             in if \<not> same_format base tree then liftG (Inl ErrGitCommand)
                else bindG (plumb [''commit-tree'', tree, ''-p'', base, ''-m'', message]) (\<lambda>commit_out.
                  let commit = TrimSpace commit_out
                  in liftG (if same_format base commit then Inr commit else Inl ErrGitCommand)))))))))"

text \<open>The temporary index is created, closed and removed before use, and removed at the end.\<close>

definition prepareWorktreeCandidate ::
  "('g, 's) store \<Rightarrow> string \<Rightarrow> string \<Rightarrow> string \<Rightarrow> string \<Rightarrow> ('g, string) gio" where
  "prepareWorktreeCandidate S base json zsh message =
     (\<lambda>g. case gh_temp_index (so_host S) g of
        (None, g1) \<Rightarrow> (Inl ErrGitCommand, g1)
      | (Some index, g1) \<Rightarrow>
          (case candidateSteps S index base json zsh message g1 of
             (r, g2) \<Rightarrow> (r, gh_remove_index (so_host S) index g2)))"

section \<open>Publication\<close>

definition conflicted :: commit_result where "conflicted = noCommit\<lparr>cm_conflict := True\<rparr>"
definition recovering :: commit_result where "recovering = noCommit\<lparr>cm_recovery := True\<rparr>"
definition committedAt :: "string \<Rightarrow> commit_result" where
  "committedAt oid = noCommit\<lparr>cm_committed := True, cm_oid := oid\<rparr>"

type_synonym commit_answer = "commit_result \<times> go_error option"

text \<open>
  The answer to the commit frame was lost. The branch decides: at the candidate the commit
  happened; still at the base, the secrets are restored under a lock that keeps it there;
  anything else is left to recovery.
\<close>

definition reconcileWorktreeCommit ::
  "('g, 's) store \<Rightarrow> head_ref \<Rightarrow> string \<Rightarrow> string \<Rightarrow> secret_prior list \<Rightarrow> 'g \<times> 's
     \<Rightarrow> commit_answer \<times> 'g \<times> 's" where
  "reconcileWorktreeCommit S ref base candidate priors w =
     (let H = so_host S; rn = so_runner S; (g, s) = w; lost = (recovering, Some ErrIngestRecoveryRequired)
      in case observeDirectRef H rn ref g of
           (Inl _, g1) \<Rightarrow> (lost, g1, s)
         | (Inr observed, g1) \<Rightarrow>
             if observed = Some candidate
             then (((committedAt candidate)\<lparr>cm_recovery := True\<rparr>, Some (IngestRecovery True)), g1, s)
             else if observed \<noteq> Some base then (lost, g1, s)
             else case encodeRefGuard ref (Some base) (length candidate) of
               Inl _ \<Rightarrow> (lost, g1, s)
             | Inr guard \<Rightarrow>
                 (case startUpdateRefSession H rn g1 of
                    (Inl _, g2) \<Rightarrow> (lost, g2, s)
                  | (Inr session, g2) \<Rightarrow>
                      (case sessionPrepare H guard session g2 of
                         (Inl _, _, g3) \<Rightarrow> (lost, g3, s)
                       | (Inr _, locked, g3) \<Rightarrow>
                           (case restoreSecretPriors (so_keychain S) priors s of
                              (Inl _, s1) \<Rightarrow> (lost, snd (snd (sessionAbort H locked g3)), s1)
                            | (Inr _, s1) \<Rightarrow>
                                (case sessionAbort H locked g3 of
                                   (Inl _, _, g4) \<Rightarrow> (lost, g4, s1)
                                 | (Inr _, _, g4) \<Rightarrow> ((noCommit, Some ErrIngestNotCommitted), g4, s1))))))"

definition publishCandidate ::
  "('g, 's) store \<Rightarrow> head_ref \<Rightarrow> string \<Rightarrow> string \<Rightarrow> (string \<times> string) list \<Rightarrow> ref_session \<Rightarrow> 'g \<times> 's
     \<Rightarrow> commit_answer \<times> 'g \<times> 's" where
  "publishCandidate S ref base candidate pending locked w =
     (let H = so_host S; (g, s) = w
      in case applyPreparedSecrets pending (so_keychain S) s of
           ((_, Some e), s1) \<Rightarrow>
             (case sessionAbort H locked g of (aborted, _, g1) \<Rightarrow>
                ((noCommit\<lparr>cm_recovery := errorIs e ErrSecretRollback \<or> isl aborted\<rparr>, Some e), g1, s1))
         | ((priors, None), s1) \<Rightarrow>
             (case sessionCommit H locked g of
                (Inr _, _, g1) \<Rightarrow> ((committedAt candidate, None), g1, s1)
              | (Inl _, _, g1) \<Rightarrow> reconcileWorktreeCommit S ref base candidate priors (g1, s1)))"

text \<open>The part of a publication that happens on the host alone, up to the locked session.\<close>

definition stagePublication ::
  "('g, 's) store \<Rightarrow> head_ref \<Rightarrow> string \<Rightarrow> committed_worktree \<Rightarrow> string \<Rightarrow> ('g, string \<times> string \<times> ref_session) gio" where
  "stagePublication S ref base document message =
     bindG (liftG (MarshalCommittedWorktree (so_codec S) document)) (\<lambda>json.
     bindG (liftG (case so_regen S of None \<Rightarrow> Inl ErrGitCommand | Some regen \<Rightarrow> regen document)) (\<lambda>zsh.
     bindG (prepareWorktreeCandidate S base json zsh message) (\<lambda>candidate.
     bindG (liftG (encodeRefMutation ref candidate True (Some base))) (\<lambda>mutation.
     bindG (askG (validateDirectRef (so_host S) (so_runner S) ref)) (\<lambda>_.
     bindG (startUpdateRefSession (so_host S) (so_runner S)) (\<lambda>session.
       liftG (Inr (candidate, mutation, session))))))))"

definition checkBase :: "('g, 's) store \<Rightarrow> string \<Rightarrow> string \<Rightarrow> string \<Rightarrow> ('g, head_ref \<times> string option) gio" where
  "checkBase S branch base message =
     (if so_regen S = None then liftG (Inl ErrGitCommand)
      else
        bindG (liftG (validatedHeadRefForBranch branch)) (\<lambda>ref.
        if \<not> validGitObjectID base \<or> \<not> validCommitMessage message then liftG (Inl ErrGitCommand)
        else
          bindG (requireCommit (so_host S) (so_runner S) base) (\<lambda>_.
          bindG (observeDirectRef (so_host S) (so_runner S) ref) (\<lambda>observed.
            liftG (Inr (ref, observed))))))"

definition CommitWorktree ::
  "('g, 's) store \<Rightarrow> string \<Rightarrow> string \<Rightarrow> committed_worktree \<Rightarrow> string \<Rightarrow> 'g \<times> 's
     \<Rightarrow> commit_answer \<times> 'g \<times> 's" where
  "CommitWorktree S branch base document message w =
     (let (g, s) = w
      in case checkBase S branch base message g of
           (Inl e, g1) \<Rightarrow> ((noCommit, Some e), g1, s)
         | (Inr (ref, observed), g1) \<Rightarrow>
             if observed \<noteq> Some base then ((conflicted, Some ErrSecretRefConflict), g1, s)
             else case prepareSecrets (cw_source document) (Some (kd_kind (so_keychain S))) of
               Inl e \<Rightarrow> ((noCommit, Some e), g1, s)
             | Inr prepared \<Rightarrow>
                 (case stagePublication S ref base (document\<lparr>cw_source := pp_profile prepared\<rparr>) message g1 of
                    (Inl e, g2) \<Rightarrow> ((noCommit, Some e), g2, s)
                  | (Inr (candidate, mutation, session), g2) \<Rightarrow>
                      (case sessionPrepare (so_host S) mutation session g2 of
                         (Inl e, _, g3) \<Rightarrow>
                           (if e = ErrSecretRefConflict
                            then ((conflicted, Some ErrSecretRefConflict), g3, s)
                            else ((noCommit, Some e), g3, s))
                       | (Inr _, locked, g3) \<Rightarrow>
                           publishCandidate S ref base candidate (pp_pending prepared) locked (g3, s))))"

section \<open>The repository of the service\<close>

definition overHost :: "('g, 'a) gio \<Rightarrow> 'g \<times> 's \<Rightarrow> 'a result \<times> 'g \<times> 's" where
  "overHost m w = (case m (fst w) of (r, g') \<Rightarrow> (r, g', snd w))"

definition storeRepository :: "('g, 's) store \<Rightarrow> ('g \<times> 's) repository" where
  "storeRepository S =
     \<lparr>rp_branches = overHost (storeBranches S),
      rp_resolve = (\<lambda>branch. overHost (ResolveWorktreeRevision S branch)),
      rp_read = (\<lambda>revision. overHost (ReadWorktreeRevision S revision)),
      rp_create_from = (\<lambda>branch base. overHost (CreateFrom S branch base)),
      rp_commit = CommitWorktree S\<rparr>"

end
