(* ===== verification/GitStoreFacts.thy ===== *)
theory GitStoreFacts
  imports GitStore CommittedFacts
begin

text \<open>
  What the store may rely on in git, stated for the commands it runs, and what follows for
  publication: the candidate commit holds exactly the two blobs, a later read of it gives the
  document back, and the secret backend is changed only together with the branch.
\<close>

section \<open>Environments\<close>

text \<open>The value of a variable in the environment of a process.\<close>

fun env_value :: "string \<Rightarrow> string list \<Rightarrow> string option" where
  "env_value n [] = None"
| "env_value n (x # e) =
     (case cutAt (CHR ''='') x of
        None \<Rightarrow> env_value n e
      | Some (m, v) \<Rightarrow> if m = n then Some v else env_value n e)"

lemma env_value_append: "env_value n (e @ e') = (case env_value n e of None \<Rightarrow> env_value n e' | v \<Rightarrow> v)"
  by (induction e) (auto split: option.split)

lemma env_value_None: "env_value n e = None \<longleftrightarrow> (\<forall>x \<in> set e. \<forall>v. cutAt (CHR ''='') x \<noteq> Some (n, v))"
  by (induction e) (auto split: option.split)

lemma env_value_filter:
  assumes "\<And>x v. x \<in> set e \<Longrightarrow> cutAt (CHR ''='') x = Some (n, v) \<Longrightarrow> \<not> P x"
  shows "env_value n (filter P e) = None"
  using assms by (induction e) (auto split: option.split)

lemma env_value_filter_other:
  assumes "\<And>x v. x \<in> set e \<Longrightarrow> cutAt (CHR ''='') x = Some (n, v) \<Longrightarrow> P x"
  shows "env_value n (filter P e) = env_value n e"
  using assms by (induction e) (auto split: option.split)

lemma env_value_inherited: "has_prefix ''GIT_'' n \<Longrightarrow> env_value n (filter inherited_entry environ) = None"
  by (rule env_value_filter) (simp add: inherited_entry_def env_entry_name_def)

definition store_dir :: "git_runner \<Rightarrow> string" where
  "store_dir rn = (if gr_runtime rn then ''.'' else gr_repo_dir rn)"

lemma cutAt_assignment [simp]: "CHR ''='' \<notin> set n \<Longrightarrow> cutAt (CHR ''='') (n @ CHR ''='' # v) = Some (n, v)"
  by (simp add: cutAt_Some)

lemma cutAt_Cons:
  "cutAt c (d # s) = (if d = c then Some ([], s) else map_option (\<lambda>(a, b). (d # a, b)) (cutAt c s))"
  by (auto simp: cutAt_def)

lemma env_value_assigned:
  "CHR ''='' \<notin> set m \<Longrightarrow>
     env_value n (assigned m v) = (if m = n \<and> v \<noteq> [] then Some v else None)"
  by (cases "v = []") (auto simp: assigned_def)

text \<open>
  Whatever environment the program was started in, git gets exactly the variables of the store:
  of every variable whose name starts with \<^verbatim>\<open>GIT_\<close>, the inherited value is gone.
\<close>

lemma env_value_owned:
  assumes "has_prefix ''GIT_'' n"
  shows "env_value n (ownedEnvironment rn environ) =
    (if n = ''GIT_DIR'' then Some (store_dir rn)
     else if n = ''GIT_CONFIG_NOSYSTEM'' then Some ''1''
     else if n = ''GIT_CONFIG_GLOBAL'' then Some ''/dev/null''
     else if n = ''GIT_INDEX_FILE'' \<and> gr_index_file rn \<noteq> [] then Some (gr_index_file rn)
     else if n = ''GIT_OBJECT_DIRECTORY'' \<and> gr_object_dir rn \<noteq> [] then Some (gr_object_dir rn)
     else if n = ''GIT_ALTERNATE_OBJECT_DIRECTORIES'' \<and> gr_alternate rn \<noteq> [] then Some (gr_alternate rn)
     else None)"
proof -
  have "n \<noteq> ''LC_ALL''" using assms by (auto simp: has_prefix_def)
  then show ?thesis
    using env_value_inherited [OF assms, of environ]
    by (simp add: ownedEnvironment_def env_value_append env_value_assigned cutAt_Cons flip: store_dir_def)
qed

lemma env_value_replaced:
  "env_value n (replaceGitEnvironment env rs) =
     (if \<exists>r \<in> set rs. \<exists>v. cutAt (CHR ''='') r = Some (n, v) then env_value n rs
      else if n \<in> set rs then env_value n rs
      else env_value n env)" (is "_ = (if ?a then _ else if ?b then _ else _)")
proof -
  let ?keep = "\<lambda>entry. case env_entry_name entry of None \<Rightarrow> True
    | Some m \<Rightarrow> \<not> list_ex (\<lambda>r. (case env_entry_name r of None \<Rightarrow> r | Some k \<Rightarrow> k) = m) rs"
  have none: "env_value n rs = None" if "\<not> ?a"
    using that by (auto simp: env_value_None)
  consider "?a \<or> ?b" | "\<not> ?a" "\<not> ?b" by blast
  then show ?thesis
  proof cases
    case 1
    then have "\<not> ?keep x" if "cutAt (CHR ''='') x = Some (n, v)" for x v
      using that by (force simp: env_entry_name_def list_ex_iff cutAt_None cutAt_Some split: option.splits)
    then have "env_value n (filter ?keep env) = None" by (intro env_value_filter) auto
    with 1 show ?thesis by (auto simp: replaceGitEnvironment_def env_value_append)
  next
    case 2
    then have "?keep x" if "cutAt (CHR ''='') x = Some (n, v)" for x v
      using that by (auto simp: env_entry_name_def list_ex_iff split: option.splits)
    then have "env_value n (filter ?keep env) = env_value n env" by (intro env_value_filter_other) auto
    with 2 none show ?thesis
      by (auto simp: replaceGitEnvironment_def env_value_append split: option.split)
  qed
qed

text \<open>The assignments of a commit replace whatever the environment said before.\<close>

lemma env_value_commit:
  "env_value n (replaceGitEnvironment env (commitAssignments index ts)) =
    (if n = ''GIT_INDEX_FILE'' then Some index
     else if n \<in> {''GIT_AUTHOR_NAME'', ''GIT_COMMITTER_NAME''} then Some ''zsh-pro''
     else if n \<in> {''GIT_AUTHOR_EMAIL'', ''GIT_COMMITTER_EMAIL''} then Some ''zsh-pro@local''
     else if n \<in> {''GIT_AUTHOR_DATE'', ''GIT_COMMITTER_DATE''} then Some ts
     else env_value n env)" (is "_ = ?rhs")
proof -
  have rs: "env_value n (commitAssignments index ts) =
    (if n = ''GIT_INDEX_FILE'' then Some index
     else if n \<in> {''GIT_AUTHOR_NAME'', ''GIT_COMMITTER_NAME''} then Some ''zsh-pro''
     else if n \<in> {''GIT_AUTHOR_EMAIL'', ''GIT_COMMITTER_EMAIL''} then Some ''zsh-pro@local''
     else if n \<in> {''GIT_AUTHOR_DATE'', ''GIT_COMMITTER_DATE''} then Some ts
     else None)"
    by (simp add: commitAssignments_def cutAt_Cons)
  have odd: "env_value n env = None" if "n \<in> set (commitAssignments index ts)"
  proof -
    have "CHR ''='' \<in> set n" using that by (auto simp: commitAssignments_def)
    then show ?thesis by (auto simp: env_value_None cutAt_Some)
  qed
  show ?thesis
  proof (cases "env_value n (commitAssignments index ts)")
    case None
    with rs have "?rhs = env_value n env" by (auto split: if_splits)
    moreover have "env_value n (replaceGitEnvironment env (commitAssignments index ts)) = env_value n env"
      using None odd env_value_None [of n "commitAssignments index ts"]
      unfolding env_value_replaced by (metis (no_types, lifting))
    ultimately show ?thesis by simp
  next
    case (Some v)
    then have "env_value n (replaceGitEnvironment env (commitAssignments index ts)) = Some v"
      using env_value_None [of n "commitAssignments index ts"]
      unfolding env_value_replaced by (metis (no_types, lifting) option.distinct(1))
    with Some rs show ?thesis by (auto split: if_splits)
  qed
qed

section \<open>What is relied on in git\<close>

text \<open>
  A view of the host: the objects of the database and the entries of an index file. The laws
  speak about a process that was started in the directory of the store without a private
  object directory, and only about the commands the store runs.
\<close>

datatype git_object = BlobObject string | TreeObject "string \<rightharpoonup> string" | CommitObject string

record 'g git_view =
  gv_object :: "string \<Rightarrow> 'g \<Rightarrow> git_object option"
  gv_index :: "string \<Rightarrow> 'g \<Rightarrow> string \<rightharpoonup> string"

definition in_store :: "string \<Rightarrow> string list \<Rightarrow> bool" where
  "in_store dir env \<longleftrightarrow>
     env_value ''GIT_DIR'' env = Some dir \<and> env_value ''GIT_OBJECT_DIRECTORY'' env = None"

text \<open>Objects never go away while the store works.\<close>

definition grows :: "'g git_view \<Rightarrow> 'g \<Rightarrow> 'g \<Rightarrow> bool" where
  "grows V g g' \<longleftrightarrow> (\<forall>oid x. gv_object V oid g = Some x \<longrightarrow> gv_object V oid g' = Some x)"

definition keeps_objects :: "'g git_host \<Rightarrow> 'g git_view \<Rightarrow> bool" where
  "keeps_objects H V \<longleftrightarrow>
     (\<forall>g. (\<forall>env args stdin. grows V g (snd (gh_exec H env args stdin g)))
        \<and> (\<forall>env args. grows V g (snd (gh_spawn H env args g)))
        \<and> (\<forall>h frame. grows V g (snd (gh_write H h frame g)))
        \<and> (\<forall>h. grows V g (snd (gh_read_line H h g)) \<and> grows V g (snd (gh_wait H h g)))
        \<and> grows V g (snd (gh_temp_index H g))
        \<and> (\<forall>p. grows V g (gh_remove_index H p g)))"

text \<open>What a command that succeeded has done.\<close>

definition makes_objects :: "'g git_host \<Rightarrow> 'g git_view \<Rightarrow> string \<Rightarrow> bool" where
  "makes_objects H V dir \<longleftrightarrow>
     (\<forall>env g out g'. in_store dir env \<longrightarrow>
        (\<forall>c. gh_exec H env [''hash-object'', ''-w'', ''--stdin''] (Some c) g = (Some out, g') \<longrightarrow>
           (\<exists>oid. out = oid @ [CHR 0x0A] \<and> validGitObjectID oid \<and> gv_object V oid g' = Some (BlobObject c)))
      \<and> (\<forall>tree base m. gh_exec H env [''commit-tree'', tree, ''-p'', base, ''-m'', m] None g = (Some out, g') \<longrightarrow>
           (\<exists>oid. out = oid @ [CHR 0x0A] \<and> validGitObjectID oid \<and> gv_object V oid g' = Some (CommitObject tree)))
      \<and> (\<forall>index. env_value ''GIT_INDEX_FILE'' env = Some index \<longrightarrow>
           (gh_exec H env [''read-tree'', ''--empty''] None g = (Some out, g') \<longrightarrow> gv_index V index g' = Map.empty)
         \<and> (\<forall>oid path. validGitObjectID oid \<longrightarrow>
              gh_exec H env [''update-index'', ''--add'', ''--cacheinfo'', blob_entry oid path] None g = (Some out, g') \<longrightarrow>
              gv_index V index g' = (gv_index V index g)(path \<mapsto> oid))
         \<and> (gh_exec H env [''write-tree''] None g = (Some out, g') \<longrightarrow>
              (\<exists>oid. out = oid @ [CHR 0x0A] \<and> validGitObjectID oid
                 \<and> gv_object V oid g' = Some (TreeObject (gv_index V index g))))))"

text \<open>Reading an object that is there.\<close>

definition worktree_tree :: "string \<Rightarrow> string \<Rightarrow> string \<rightharpoonup> string" where
  "worktree_tree json zsh = [''profile.json'' \<mapsto> json, ''profile.zsh'' \<mapsto> zsh]"

definition answers_reads :: "'g git_host \<Rightarrow> 'g git_view \<Rightarrow> string \<Rightarrow> bool" where
  "answers_reads H V dir \<longleftrightarrow>
     (\<forall>env g oid. in_store dir env \<longrightarrow>
        (\<forall>tree. gv_object V oid g = Some (CommitObject tree) \<longrightarrow>
           (\<exists>g'. gh_exec H env [''cat-file'', ''-t'', oid] None g = (Some (''commit'' @ [CHR 0x0A]), g'))
         \<and> (\<forall>json zsh. gv_object V tree g = Some (TreeObject (worktree_tree json zsh)) \<longrightarrow>
              (\<exists>g'. gh_exec H env [''ls-tree'', ''-z'', oid] None g = (Some (worktree_listing json zsh), g'))))
      \<and> (\<forall>c. gv_object V oid g = Some (BlobObject c) \<longrightarrow>
           (\<exists>g'. gh_exec H env [''cat-file'', ''blob'', oid] None g = (Some c, g'))))"

definition honest_git :: "'g git_host \<Rightarrow> 'g git_view \<Rightarrow> string \<Rightarrow> bool" where
  "honest_git H V dir \<longleftrightarrow> keeps_objects H V \<and> makes_objects H V dir \<and> answers_reads H V dir"

section \<open>Running commands\<close>

lemma grows_refl [simp]: "grows V g g"
  by (simp add: grows_def)

lemma grows_trans: "grows V g g' \<Longrightarrow> grows V g' g'' \<Longrightarrow> grows V g g''"
  by (simp add: grows_def)

definition plain_runner :: "git_runner \<Rightarrow> bool" where
  "plain_runner rn \<longleftrightarrow> \<not> gr_runtime rn \<and> gr_object_dir rn = []"

lemma owned_in_store: "plain_runner rn \<Longrightarrow> in_store (gr_repo_dir rn) (ownedEnvironment rn environ)"
  by (auto simp: in_store_def env_value_owned plain_runner_def store_dir_def has_prefix_def)

lemma commit_env:
  assumes "plain_runner rn"
  shows "in_store (gr_repo_dir rn) (replaceGitEnvironment (ownedEnvironment rn environ) (commitAssignments index ts))"
    and "env_value ''GIT_INDEX_FILE'' (replaceGitEnvironment (ownedEnvironment rn environ) (commitAssignments index ts)) = Some index"
  using owned_in_store [OF assms, of environ]
  by (simp_all add: in_store_def env_value_replaced commitAssignments_def cutAt_Cons)

lemma execute_Inr: "execute H env args stdin g = (Inr out, g') \<longleftrightarrow> gh_exec H env args stdin g = (Some out, g')"
  by (cases "gh_exec H env args stdin g") (auto simp: execute_def split: option.split)

lemma gitCommand_Inr:
  "gitCommand H rn args g = (Inr env, g') \<Longrightarrow> env = ownedEnvironment rn (gh_environ H g) \<and> g' = g"
  by (auto simp: gitCommand_def gio_simps split: if_splits)

lemma runGit_Inr:
  assumes "runGit H rn stdin args g = (Inr out, g')"
  shows "gh_exec H (ownedEnvironment rn (gh_environ H g)) args stdin g = (Some out, g')"
  using assms by (auto simp: runGit_def gio_simps execute_Inr dest!: gitCommand_Inr)

lemma runCommit_Inr:
  assumes "runCommit H rn index ts args g = (Inr out, g')"
  shows "gh_exec H (replaceGitEnvironment (ownedEnvironment rn (gh_environ H g)) (commitAssignments index ts)) args None g
    = (Some out, g')"
  using assms by (auto simp: runCommit_def gio_simps execute_Inr dest!: gitCommand_Inr)

lemma runGit_answers:
  assumes "plain_runner rn" "validateGitArgv args = OK"
    and "gh_exec H (ownedEnvironment rn (gh_environ H g)) args stdin g = (Some out, g')"
  shows "runGit H rn stdin args g = (Inr out, g')"
  using assms
  by (simp add: runGit_def gitCommand_def execute_def bindG_def liftG_def askG_def orErrG_def plain_runner_def)

lemma execute_grows: "keeps_objects H V \<Longrightarrow> grows V g (snd (execute H env args stdin g))"
  by (auto simp: execute_def keeps_objects_def split: prod.split option.split) (metis snd_conv)+

lemma bindG_grows:
  assumes "grows V g (snd (m g))" "\<And>x g'. m g = (Inr x, g') \<Longrightarrow> grows V g' (snd (f x g'))"
  shows "grows V g (snd (bindG m f g))"
  using assms by (auto simp: bindG_def split: prod.splits sum.splits intro: grows_trans)

lemma gitCommand_grows: "grows V g (snd (orErrG (gitCommand H rn args) e g))"
  by (auto simp: orErrG_def dest: gitCommand_state split: prod.split)

lemma runGit_grows: "keeps_objects H V \<Longrightarrow> grows V g (snd (runGit H rn stdin args g))"
  unfolding runGit_def by (intro bindG_grows gitCommand_grows execute_grows)

lemma runCommit_grows: "keeps_objects H V \<Longrightarrow> grows V g (snd (runCommit H rn index ts args g))"
  unfolding runCommit_def by (intro bindG_grows gitCommand_grows execute_grows)

lemma orErrG_snd [simp]: "snd (orErrG m e g) = snd (m g)"
  by (simp add: orErrG_def split: prod.split)

lemma liftG_snd [simp]: "snd (liftG r g) = g"
  by (simp add: liftG_def)

lemma askG_snd [simp]: "snd (askG f g) = g"
  by (simp add: askG_def)

lemma hashObject_grows: "keeps_objects H V \<Longrightarrow> grows V g (snd (hashObject H rn content g))"
  unfolding hashObject_def by (rule bindG_grows [OF runGit_grows]) simp_all

lemma requireCommit_grows: "keeps_objects H V \<Longrightarrow> grows V g (snd (requireCommit H rn oid g))"
  unfolding requireCommit_def objectType_def
  by (rule bindG_grows; simp) (auto intro!: bindG_grows runGit_grows)

section \<open>The candidate holds the two blobs\<close>

definition holds_worktree :: "'g git_view \<Rightarrow> string \<Rightarrow> string \<Rightarrow> string \<Rightarrow> 'g \<Rightarrow> bool" where
  "holds_worktree V c json zsh g \<longleftrightarrow>
     (\<exists>t j z. gv_object V c g = Some (CommitObject t) \<and> gv_object V t g = Some (TreeObject (worktree_tree j z))
        \<and> gv_object V j g = Some (BlobObject json) \<and> gv_object V z g = Some (BlobObject zsh)
        \<and> validGitObjectID c \<and> same_format c j \<and> same_format c z)"

lemma holds_worktree_grows: "holds_worktree V c json zsh g \<Longrightarrow> grows V g g' \<Longrightarrow> holds_worktree V c json zsh g'"
  unfolding holds_worktree_def grows_def by blast

text \<open>The laws, one command at a time, for the store's own way of running it.\<close>

lemma hashObject_makes:
  assumes "honest_git H V (gr_repo_dir rn)" "plain_runner rn" "hashObject H rn content g = (Inr oid, g')"
  shows "validGitObjectID oid" "gv_object V oid g' = Some (BlobObject content)"
proof -
  obtain out where out: "runGit H rn (Some content) [''hash-object'', ''-w'', ''--stdin''] g = (Inr out, g')"
    and oid: "oid = TrimSpace out"
    using assms(3) by (auto simp: hashObject_def gio_simps)
  obtain made where "out = made @ [CHR 0x0A]" "validGitObjectID made"
    "gv_object V made g' = Some (BlobObject content)"
    using runGit_Inr [OF out] assms(1) owned_in_store [OF assms(2)]
    unfolding honest_git_def makes_objects_def by blast
  with oid show "validGitObjectID oid" "gv_object V oid g' = Some (BlobObject content)"
    by (simp_all add: validGitObjectID_line)
qed

lemma commit_command_makes:
  assumes honest: "honest_git H V (gr_repo_dir rn)" and plain: "plain_runner rn"
    and run: "runCommit H rn index ts args g = (Inr out, g')"
  shows "args = [''read-tree'', ''--empty''] \<Longrightarrow> gv_index V index g' = Map.empty"
    and "args = [''update-index'', ''--add'', ''--cacheinfo'', blob_entry oid path] \<Longrightarrow> validGitObjectID oid \<Longrightarrow>
      gv_index V index g' = (gv_index V index g)(path \<mapsto> oid)"
    and "args = [''write-tree''] \<Longrightarrow> validGitObjectID (TrimSpace out)
      \<and> gv_object V (TrimSpace out) g' = Some (TreeObject (gv_index V index g))"
    and "args = [''commit-tree'', tree, ''-p'', base, ''-m'', m] \<Longrightarrow> validGitObjectID (TrimSpace out)
      \<and> gv_object V (TrimSpace out) g' = Some (CommitObject tree)"
proof -
  let ?env = "replaceGitEnvironment (ownedEnvironment rn (gh_environ H g)) (commitAssignments index ts)"
  note env = commit_env [OF plain, of "gh_environ H g" index ts]
  note ran = runCommit_Inr [OF run]
  have laws: "makes_objects H V (gr_repo_dir rn)" using honest by (simp add: honest_git_def)
  show "args = [''read-tree'', ''--empty''] \<Longrightarrow> gv_index V index g' = Map.empty"
    using laws env ran unfolding makes_objects_def by blast
  show "args = [''update-index'', ''--add'', ''--cacheinfo'', blob_entry oid path] \<Longrightarrow> validGitObjectID oid \<Longrightarrow>
      gv_index V index g' = (gv_index V index g)(path \<mapsto> oid)"
    using laws env ran unfolding makes_objects_def by blast
  have line: "validGitObjectID (TrimSpace out) \<and> gv_object V (TrimSpace out) g' = Some x"
    if "out = made @ [CHR 0x0A]" "validGitObjectID made" "gv_object V made g' = Some x" for made x
    using that by (simp add: validGitObjectID_line)
  show "args = [''write-tree''] \<Longrightarrow> validGitObjectID (TrimSpace out)
      \<and> gv_object V (TrimSpace out) g' = Some (TreeObject (gv_index V index g))"
    using laws env ran line unfolding makes_objects_def by blast
  show "args = [''commit-tree'', tree, ''-p'', base, ''-m'', m] \<Longrightarrow> validGitObjectID (TrimSpace out)
      \<and> gv_object V (TrimSpace out) g' = Some (CommitObject tree)"
    using laws env ran line unfolding makes_objects_def by blast
qed

lemma candidateSteps_holds:
  assumes honest: "honest_git (so_host S) V (gr_repo_dir (so_runner S))" and plain: "plain_runner (so_runner S)"
    and run: "candidateSteps S index base json zsh message g = (Inr c, g')"
  shows "holds_worktree V c json zsh g'"
proof -
  let ?H = "so_host S" and ?rn = "so_runner S"
  let ?plumb = "runCommit ?H ?rn index commitTS"
  have keeps: "keeps_objects ?H V" using honest by (simp add: honest_git_def)
  obtain j g1 z g2 o3 g3 o4 g4 o5 g5 ot g6 oc where
    j: "hashObject ?H ?rn json g = (Inr j, g1)" and z: "hashObject ?H ?rn zsh g1 = (Inr z, g2)"
    and fmt: "same_format base j" "same_format base z"
    and s3: "?plumb [''read-tree'', ''--empty''] g2 = (Inr o3, g3)"
    and s4: "?plumb [''update-index'', ''--add'', ''--cacheinfo'', blob_entry j ''profile.json''] g3 = (Inr o4, g4)"
    and s5: "?plumb [''update-index'', ''--add'', ''--cacheinfo'', blob_entry z ''profile.zsh''] g4 = (Inr o5, g5)"
    and s6: "?plumb [''write-tree''] g5 = (Inr ot, g6)" and ft: "same_format base (TrimSpace ot)"
    and s7: "?plumb [''commit-tree'', TrimSpace ot, ''-p'', base, ''-m'', message] g6 = (Inr oc, g')"
    and c: "c = TrimSpace oc" "same_format base c"
    using run unfolding candidateSteps_def Let_def gio_simps
    by (auto simp: gio_simps split: if_splits)
  note makes = commit_command_makes [OF honest plain]
  have jb: "gv_object V j g1 = Some (BlobObject json)" and zb: "gv_object V z g2 = Some (BlobObject zsh)"
    using hashObject_makes(2) [OF honest plain] j z by blast+
  have index: "gv_index V index g5 = worktree_tree j z"
    using makes(1) [OF s3 refl] makes(2) [OF s4 refl] makes(2) [OF s5 refl] fmt
    by (simp add: same_format_def worktree_tree_def)
  have tree: "gv_object V (TrimSpace ot) g6 = Some (TreeObject (worktree_tree j z))"
    using makes(3) [OF s6 refl] index by simp
  have commit: "gv_object V c g' = Some (CommitObject (TrimSpace ot))" "validGitObjectID c"
    using makes(4) [OF s7 refl] c by simp_all
  have step: "grows V h h'" if "runCommit ?H ?rn i ts args h = (r, h')" for i ts args h r h'
    using runCommit_grows [OF keeps, of h ?rn i ts args] that by simp
  have hash: "grows V g1 g2" using hashObject_grows [OF keeps, of g1 ?rn zsh] z by simp
  have "grows V g2 g6"
    using step [OF s3] step [OF s4] step [OF s5] step [OF s6] by (meson grows_trans)
  then have "grows V g1 g'" "grows V g2 g'" "grows V g6 g'"
    using hash step [OF s7] by (meson grows_trans)+
  with jb zb tree have "gv_object V j g' = Some (BlobObject json)" "gv_object V z g' = Some (BlobObject zsh)"
    "gv_object V (TrimSpace ot) g' = Some (TreeObject (worktree_tree j z))"
    by (simp_all add: grows_def)
  moreover have "same_format c j" "same_format c z" using fmt c(2) by (simp_all add: same_format_def)
  ultimately show ?thesis using commit unfolding holds_worktree_def by metis
qed

lemma prepareWorktreeCandidate_holds:
  assumes honest: "honest_git (so_host S) V (gr_repo_dir (so_runner S))" and plain: "plain_runner (so_runner S)"
    and run: "prepareWorktreeCandidate S base json zsh message g = (Inr c, g')"
  shows "holds_worktree V c json zsh g'"
proof -
  obtain index g1 g2 where "candidateSteps S index base json zsh message g1 = (Inr c, g2)"
    "g' = gh_remove_index (so_host S) index g2"
    using run by (auto simp: prepareWorktreeCandidate_def split: prod.splits option.splits)
  moreover from this have "grows V g2 g'" using honest by (auto simp: honest_git_def keeps_objects_def)
  ultimately show ?thesis by (metis candidateSteps_holds [OF honest plain] holds_worktree_grows)
qed

section \<open>Reading a revision\<close>

lemma requireCommit_holds:
  assumes "honest_git H V (gr_repo_dir rn)" "plain_runner rn"
    and "gv_object V oid g = Some (CommitObject t)" "validGitObjectID oid"
  shows "\<exists>g'. requireCommit H rn oid g = (OK, g')"
proof -
  obtain g' where "gh_exec H (ownedEnvironment rn (gh_environ H g)) [''cat-file'', ''-t'', oid] None g
      = (Some (''commit'' @ [CHR 0x0A]), g')"
    using assms(1,3) owned_in_store [OF assms(2)] unfolding honest_git_def answers_reads_def by blast
  then have "runGit H rn None [''cat-file'', ''-t'', oid] g = (Inr (''commit'' @ [CHR 0x0A]), g')"
    using assms(2,4) by (intro runGit_answers) (auto simp: validateGitArgv_def accepted_arguments_def)
  moreover have "TrimSpace (''commit'' @ [CHR 0x0A]) = ''commit''" by (rule TrimSpace_line) code_simp+
  ultimately show ?thesis
    using assms(4) by (simp add: requireCommit_def objectType_def bindG_def liftG_def orErrG_def)
qed

lemma readBlob_holds:
  assumes "honest_git H V (gr_repo_dir rn)" "plain_runner rn"
    and "gv_object V oid g = Some (BlobObject c)" "validGitObjectID oid"
  shows "\<exists>g'. readBlob H rn oid g = (Inr c, g') \<and> grows V g g'"
proof -
  obtain g' where "gh_exec H (ownedEnvironment rn (gh_environ H g)) [''cat-file'', ''blob'', oid] None g = (Some c, g')"
    using assms(1,3) owned_in_store [OF assms(2)] unfolding honest_git_def answers_reads_def by blast
  then have run: "runGit H rn None [''cat-file'', ''blob'', oid] g = (Inr c, g')"
    using assms(2,4) by (intro runGit_answers) (auto simp: validateGitArgv_def accepted_arguments_def)
  then have "grows V g g'"
    using runGit_grows [of H V g rn None "[''cat-file'', ''blob'', oid]"] assms(1) by (simp add: honest_git_def)
  with run assms(4) show ?thesis by (auto simp: readBlob_def)
qed

lemma worktreeBlobs_holds:
  assumes honest: "honest_git H V (gr_repo_dir rn)" and plain: "plain_runner rn"
    and "holds_worktree V c json zsh g"
  shows "\<exists>b g'. worktreeBlobsAtRevision H rn c g = (Inr b, g') \<and> grows V g g'
    \<and> gv_object V (wb_json b) g' = Some (BlobObject json) \<and> gv_object V (wb_zsh b) g' = Some (BlobObject zsh)
    \<and> validGitObjectID (wb_json b) \<and> validGitObjectID (wb_zsh b)"
proof -
  have keeps: "keeps_objects H V" using honest by (simp add: honest_git_def)
  obtain t j z where o: "gv_object V c g = Some (CommitObject t)" "gv_object V t g = Some (TreeObject (worktree_tree j z))"
    "gv_object V j g = Some (BlobObject json)" "gv_object V z g = Some (BlobObject zsh)"
    "validGitObjectID c" "same_format c j" "same_format c z"
    using assms(3) by (auto simp: holds_worktree_def)
  obtain g1 where r1: "requireCommit H rn c g = (OK, g1)"
    using requireCommit_holds [OF honest plain o(1,5)] by blast
  have g1: "grows V g g1" using requireCommit_grows [OF keeps, of g rn c] r1 by simp
  with o obtain g2 where "gh_exec H (ownedEnvironment rn (gh_environ H g1)) [''ls-tree'', ''-z'', c] None g1
      = (Some (worktree_listing j z), g2)"
    using honest owned_in_store [OF plain] unfolding honest_git_def answers_reads_def grows_def by blast
  then have r2: "runGit H rn None [''ls-tree'', ''-z'', c] g1 = (Inr (worktree_listing j z), g2)"
    using plain o(5) by (intro runGit_answers) (auto simp: validateGitArgv_def accepted_arguments_def)
  then have g2: "grows V g1 g2"
    using runGit_grows [OF keeps, of g1 rn None "[''ls-tree'', ''-z'', c]"] by simp
  have "parseWorktreeTreeEntries (worktree_listing j z) (length c) = Inr \<lparr>wb_json = j, wb_zsh = z\<rparr>"
    using o(5,6,7) unfolding parseWorktreeTreeEntries_iff by (simp add: same_format_def validGitObjectID_def)
  then have "worktreeBlobsAtRevision H rn c g = (Inr \<lparr>wb_json = j, wb_zsh = z\<rparr>, g2)"
    using r1 r2 o(5) by (simp add: worktreeBlobsAtRevision_def bindG_def liftG_def)
  moreover have "grows V g g2" using g1 g2 by (rule grows_trans)
  moreover from this o(3,4) have "gv_object V j g2 = Some (BlobObject json)" "gv_object V z g2 = Some (BlobObject zsh)"
    by (auto simp: grows_def)
  ultimately show ?thesis using o(6,7) by (auto simp: same_format_def)
qed

lemma ReadWorktreeRevision_holds:
  assumes honest: "honest_git (so_host S) V (gr_repo_dir (so_runner S))" and plain: "plain_runner (so_runner S)"
    and holds: "holds_worktree V c json zsh g"
    and "so_regen S = Some regen" "UnmarshalCommittedWorktree (so_codec S) json = Inr d" "regen d = Inr zsh"
  shows "fst (ReadWorktreeRevision S c g) = Inr d"
proof -
  obtain b g1 where b: "worktreeBlobsAtRevision (so_host S) (so_runner S) c g = (Inr b, g1)" "grows V g g1"
    "gv_object V (wb_json b) g1 = Some (BlobObject json)" "gv_object V (wb_zsh b) g1 = Some (BlobObject zsh)"
    "validGitObjectID (wb_json b)" "validGitObjectID (wb_zsh b)"
    using worktreeBlobs_holds [OF honest plain holds] by blast
  obtain g2 where r2: "readBlob (so_host S) (so_runner S) (wb_json b) g1 = (Inr json, g2)" "grows V g1 g2"
    using readBlob_holds [OF honest plain b(3,5)] by blast
  then have "gv_object V (wb_zsh b) g2 = Some (BlobObject zsh)" using b(4) by (auto simp: grows_def)
  then obtain g3 where r3: "readBlob (so_host S) (so_runner S) (wb_zsh b) g2 = (Inr zsh, g3)"
    using readBlob_holds [OF honest plain _ b(6)] by blast
  have "validGitObjectID c" using holds by (auto simp: holds_worktree_def)
  with b(1) r2(1) r3 assms(4-6) show ?thesis
    by (simp add: ReadWorktreeRevision_def bindG_def liftG_def)
qed

section \<open>Sessions keep objects\<close>

lemma finish_grows: "keeps_objects H V \<Longrightarrow> grows V g (snd (snd (finishLocked H s g)))"
  by (auto simp: finishLocked_def keeps_objects_def Let_def split: prod.split) (metis snd_conv)

lemma write_grows: "keeps_objects H V \<Longrightarrow> gh_write H h frame g = (b, g') \<Longrightarrow> grows V g g'"
  unfolding keeps_objects_def by (metis snd_conv)

lemma read_grows: "keeps_objects H V \<Longrightarrow> gh_read_line H h g = (b, g') \<Longrightarrow> grows V g g'"
  unfolding keeps_objects_def by (metis snd_conv)

lemma step_grows:
  assumes "keeps_objects H V"
  shows "grows V g (snd (step_frame H h step g))"
  by (auto simp: step_frame_def split: prod.split bool.split
      intro: write_grows [OF assms] grows_trans [OF write_grows [OF assms] read_grows [OF assms]])

lemma prepare_grows:
  assumes k: "keeps_objects H V" and run: "sessionPrepare H mu s g = (r, s', g')"
  shows "grows V g g'"
proof (cases "us_live s \<and> \<not> us_locked s \<and> single_line mu")
  case False
  with run show ?thesis by (auto simp: sessionPrepare_def)
next
  case True
  note fin = finish_grows [OF k]
  obtain b1 g1 where w1: "gh_write H (us_handle s) mu g = (b1, g1)" by fastforce
  obtain b2 g2 where w2: "gh_write H (us_handle s) (''prepare'' @ [CHR 0x0A]) g1 = (b2, g2)" by fastforce
  obtain line g3 where r3: "gh_read_line H (us_handle s) g2 = (line, g3)" by fastforce
  note gs = write_grows [OF k w1] write_grows [OF k w2] read_grows [OF k r3]
  consider "\<not> b1" | "b1" "\<not> b2" | "b1" "b2" by blast
  then show ?thesis
  proof cases
    case 1
    with run True w1 have "g' = snd (snd (finishLocked H s g1))" by (auto simp: sessionPrepare_def)
    with fin gs show ?thesis by (meson grows_trans)
  next
    case 2
    with run True w1 w2 have "g' = snd (snd (finishLocked H s g2))" by (auto simp: sessionPrepare_def)
    with fin gs show ?thesis by (meson grows_trans)
  next
    case 3
    with run True w1 w2 r3 have "g' = g3 \<or> g' = snd (snd (finishLocked H s g3))"
      by (auto simp: sessionPrepare_def split: if_splits prod.splits)
    with fin gs show ?thesis by (metis grows_trans)
  qed
qed

lemma commit_grows:
  assumes k: "keeps_objects H V" and run: "sessionCommit H s g = (r, s', g')"
  shows "grows V g g'"
proof -
  obtain b g1 where st: "step_frame H (us_handle s) ''commit'' g = (b, g1)" by fastforce
  then have "grows V g g1" using step_grows [OF k, of g "us_handle s" "''commit''"] by simp
  moreover have "grows V g1 (snd (snd (finishLocked H (s\<lparr>us_commit_written := True\<rparr>) g1)))"
    by (rule finish_grows [OF k])
  ultimately show ?thesis
    using run st by (auto simp: sessionCommit_def Let_def split: if_splits bool.splits intro: grows_trans)
qed

lemma abort_grows:
  assumes k: "keeps_objects H V" and run: "sessionAbort H s g = (r, s', g')"
  shows "grows V g g'"
proof -
  obtain b g1 where st: "step_frame H (us_handle s) ''abort'' g = (b, g1)" by fastforce
  then have "grows V g g1" using step_grows [OF k, of g "us_handle s" "''abort''"] by simp
  moreover have "grows V g1 (snd (snd (finishLocked H s g1)))"
    by (rule finish_grows [OF k])
  ultimately show ?thesis
    using run st by (auto simp: sessionAbort_def split: if_splits bool.splits intro: grows_trans)
qed

lemma observe_grows: "keeps_objects H V \<Longrightarrow> grows V g (snd (observeDirectRef H rn ref g))"
  unfolding observeDirectRef_def by (intro bindG_grows runGit_grows) simp_all

lemma start_grows:
  assumes k: "keeps_objects H V" and run: "startUpdateRefSession H rn g = (Inr session, g')"
  shows "grows V g g'"
proof -
  obtain b g1 where v: "supportsUpdateRefTransactions H rn g = (b, g1)" by fastforce
  then have g1: "grows V g g1"
    using runGit_grows [OF k, of g rn None "[''version'']"]
    by (auto simp: supportsUpdateRefTransactions_def split: prod.splits sum.splits)
  from run v obtain env h g2 where b: b
    and c: "gitCommand H rn [''update-ref'', ''--no-deref'', ''--stdin''] g1 = (Inr env, g1)"
    and sp: "gh_spawn H env [''update-ref'', ''--no-deref'', ''--stdin''] g1 = (Some h, g2)"
    and st: "step_frame H h ''start'' g2 = (True, g')"
    by (auto simp: startUpdateRefSession_def dest: gitCommand_state
        split: bool.splits prod.splits sum.splits option.splits)
  have "grows V g1 g2" using k sp unfolding keeps_objects_def by (metis snd_conv)
  moreover have "grows V g2 g'" using step_grows [OF k, of g2 h "''start''"] st by simp
  ultimately show ?thesis using g1 by (meson grows_trans)
qed

section \<open>Publication\<close>

lemma storePending_priors: "storePending kd ps ms s = ((priors, err), s') \<Longrightarrow> priors = ps"
  by (induction kd ps ms s rule: storePending.induct) (auto split: prod.splits sum.splits)

lemma stage_holds:
  assumes honest: "honest_git (so_host S) V (gr_repo_dir (so_runner S))" and plain: "plain_runner (so_runner S)"
    and run: "stagePublication S ref base d message g = (Inr (c, mutation, session), g')"
  shows "\<exists>json zsh regen. MarshalCommittedWorktree (so_codec S) d = Inr json \<and> so_regen S = Some regen
    \<and> regen d = Inr zsh \<and> holds_worktree V c json zsh g'"
proof -
  obtain json zsh g1 where m: "MarshalCommittedWorktree (so_codec S) d = Inr json"
    and z: "(case so_regen S of None \<Rightarrow> Inl ErrGitCommand | Some regen \<Rightarrow> regen d) = Inr zsh"
    and c: "prepareWorktreeCandidate S base json zsh message g = (Inr c, g1)"
    and st: "startUpdateRefSession (so_host S) (so_runner S) g1 = (Inr session, g')"
    using run by (auto simp: stagePublication_def gio_simps)
  have "holds_worktree V c json zsh g1" by (rule prepareWorktreeCandidate_holds [OF honest plain c])
  moreover have "grows V g1 g'"
    using start_grows [OF _ st] honest by (simp add: honest_git_def)
  ultimately show ?thesis
    using m z holds_worktree_grows by (cases "so_regen S") auto
qed

lemma reconcile_committed:
  assumes k: "keeps_objects (so_host S) V"
    and run: "reconcileWorktreeCommit S ref base c priors (g, s) = ((res, err), g', s')"
    and "cm_committed res"
  shows "cm_oid res = c \<and> s' = s \<and> grows V g g'"
  using assms observe_grows [OF k, of g "so_runner S" ref]
  by (auto simp: reconcileWorktreeCommit_def Let_def recovering_def committedAt_def noCommit_def
      split: if_splits prod.splits sum.splits)

lemma reconcile_withdrawn:
  assumes run: "reconcileWorktreeCommit S ref base c priors (g, s) = ((res, err), g', s')"
    and "\<not> cm_recovery res"
  shows "restoreSecretPriors (so_keychain S) priors s = (OK, s')"
  using assms
  by (auto simp: reconcileWorktreeCommit_def Let_def recovering_def committedAt_def noCommit_def
      split: if_splits prod.splits sum.splits)

lemma reconcile_no_conflict:
  "reconcileWorktreeCommit S ref base c priors (g, s) = ((res, err), g', s') \<Longrightarrow> \<not> cm_conflict res"
  by (auto simp: reconcileWorktreeCommit_def Let_def recovering_def committedAt_def noCommit_def
      split: if_splits prod.splits sum.splits)

text \<open>What the answer to a locked publication says, before the state of the backend is interpreted.\<close>

lemma publish_committed:
  assumes k: "keeps_objects (so_host S) V"
    and run: "publishCandidate S ref base c pending locked (g, s) = ((res, err), g', s')"
    and "cm_committed res"
  shows "cm_oid res = c \<and> grows V g g'
    \<and> (\<exists>priors. applyPreparedSecrets pending (so_keychain S) s = ((priors, None), s'))"
proof -
  obtain priors failed s1 where a: "applyPreparedSecrets pending (so_keychain S) s = ((priors, failed), s1)"
    by (metis prod_cases3 prod.collapse)
  obtain r locked' g1 where cm: "sessionCommit (so_host S) locked g = (r, locked', g1)" by (metis prod_cases3)
  have "failed = None"
    using run a assms(3) by (cases failed) (auto simp: publishCandidate_def Let_def noCommit_def split: prod.splits)
  moreover have "grows V g g1" by (rule commit_grows [OF k cm])
  ultimately show ?thesis
    using run a cm assms(3) reconcile_committed [OF k, of ref base c priors g1 s1 res err g' s']
    by (cases r) (auto simp: publishCandidate_def Let_def committedAt_def noCommit_def intro: grows_trans)
qed

lemma publish_withdrawn:
  assumes run: "publishCandidate S ref base c pending locked (g, s) = ((res, err), g', s')"
    and "\<not> cm_committed res" "\<not> cm_recovery res"
  shows "(\<exists>priors e. applyPreparedSecrets pending (so_keychain S) s = ((priors, Some e), s') \<and> e \<noteq> ErrSecretRollback)
    \<or> (\<exists>priors s1. applyPreparedSecrets pending (so_keychain S) s = ((priors, None), s1)
         \<and> restoreSecretPriors (so_keychain S) priors s1 = (OK, s'))"
proof -
  obtain priors failed s1 where a: "applyPreparedSecrets pending (so_keychain S) s = ((priors, failed), s1)"
    by (metis prod_cases3 prod.collapse)
  obtain r locked' g1 where cm: "sessionCommit (so_host S) locked g = (r, locked', g1)" by (metis prod_cases3)
  show ?thesis
  proof (cases failed)
    case (Some e)
    then have "s' = s1" "\<not> errorIs e ErrSecretRollback"
      using run a assms(2,3) by (auto simp: publishCandidate_def Let_def noCommit_def split: prod.splits)
    moreover from this(2) have "e \<noteq> ErrSecretRollback" by auto
    ultimately show ?thesis using a Some by blast
  next
    case None
    with run a cm assms(2,3) have "reconcileWorktreeCommit S ref base c priors (g1, s1) = ((res, err), g', s')"
      by (cases r) (auto simp: publishCandidate_def Let_def committedAt_def)
    from reconcile_withdrawn [OF this assms(3)] a None show ?thesis by blast
  qed
qed

lemma publish_no_conflict:
  assumes run: "publishCandidate S ref base c pending locked (g, s) = ((res, err), g', s')"
  shows "\<not> cm_conflict res"
proof -
  obtain priors failed s1 where a: "applyPreparedSecrets pending (so_keychain S) s = ((priors, failed), s1)"
    by (metis prod_cases3 prod.collapse)
  obtain r locked' g1 where cm: "sessionCommit (so_host S) locked g = (r, locked', g1)" by (metis prod_cases3)
  show ?thesis
    using run a cm reconcile_no_conflict [of S ref base c priors g1 s1 res err g' s']
    by (cases failed; cases r)
       (auto simp: publishCandidate_def Let_def committedAt_def noCommit_def split: prod.splits)
qed

text \<open>
  A publication that got as far as the locked session; every other answer leaves the backend
  alone and is neither a commit nor in need of recovery.
\<close>

lemma CommitWorktree_cases:
  assumes "CommitWorktree S branch base d message (g, s) = ((res, err), g', s')"
  obtains (early) "s' = s" "\<not> cm_committed res" "\<not> cm_recovery res"
  | (locked) ref p c mutation session g1 g2 locked' g3 where
      "prepareSecrets (cw_source d) (Some (kd_kind (so_keychain S))) = Inr p"
      "stagePublication S ref base (d\<lparr>cw_source := pp_profile p\<rparr>) message g1 = (Inr (c, mutation, session), g2)"
      "sessionPrepare (so_host S) mutation session g2 = (OK, locked', g3)"
      "publishCandidate S ref base c (pp_pending p) locked' (g3, s) = ((res, err), g', s')"
  using assms unfolding CommitWorktree_def Let_def
  by (auto simp: noCommit_def conflicted_def split: prod.splits sum.splits if_splits)

lemma CommitWorktree_committed:
  assumes honest: "honest_git (so_host S) V (gr_repo_dir (so_runner S))" and plain: "plain_runner (so_runner S)"
    and run: "CommitWorktree S branch base d message (g, s) = ((res, err), g', s')" and "cm_committed res"
  shows "\<exists>p json zsh regen. prepareSecrets (cw_source d) (Some (kd_kind (so_keychain S))) = Inr p
    \<and> MarshalCommittedWorktree (so_codec S) (d\<lparr>cw_source := pp_profile p\<rparr>) = Inr json
    \<and> so_regen S = Some regen \<and> regen (d\<lparr>cw_source := pp_profile p\<rparr>) = Inr zsh
    \<and> holds_worktree V (cm_oid res) json zsh g'"
proof -
  have k: "keeps_objects (so_host S) V" using honest by (simp add: honest_git_def)
  from run show ?thesis
  proof (cases rule: CommitWorktree_cases)
    case early
    with assms(4) show ?thesis by simp
  next
    case (locked ref p c mutation session g1 g2 locked' g3)
    have c: "cm_oid res = c" and "grows V g3 g'"
      using publish_committed [OF k locked(4) assms(4)] by simp_all
    with prepare_grows [OF k locked(3)] have "grows V g2 g'" by (blast intro: grows_trans)
    with stage_holds [OF honest plain locked(2)] locked(1) c show ?thesis
      by (auto dest: holds_worktree_grows)
  qed
qed

context secret_backend
begin

lemma publication_secrets:
  assumes run: "CommitWorktree S branch base d message (g, s) = ((res, err), g', s')" and kd: "so_keychain S = kd"
    and p: "prepareSecrets (cw_source d) (Some (kd_kind kd)) = Inr p"
    and keys: "\<forall>k \<in> fst ` set (pp_pending p). good k"
  shows "cm_committed res \<Longrightarrow> holds s' = holds s ++ map_of (pp_pending p)"
    and "\<not> cm_committed res \<Longrightarrow> \<not> cm_recovery res \<Longrightarrow> k \<in> fst ` set (pp_pending p) \<Longrightarrow> holds s' k = holds s k"
    and "cm_conflict res \<Longrightarrow> s' = s"
proof -
  note distinct = pending_distinct [OF p]
  have each: "(cm_committed res \<longrightarrow> holds s' = holds s ++ map_of (pp_pending p))
    \<and> (\<not> cm_committed res \<and> \<not> cm_recovery res \<and> k \<in> fst ` set (pp_pending p) \<longrightarrow> holds s' k = holds s k)
    \<and> (cm_conflict res \<longrightarrow> s' = s)" for k
    using run
  proof (cases rule: CommitWorktree_cases)
    case early
    then show ?thesis by simp
  next
    case (locked ref p' c mutation session g1 g2 locked' g3)
    with kd p have p': "p' = p" by simp
    obtain V where keeps: "keeps_objects (so_host S) (V :: 'a git_view)"
    proof
      show "keeps_objects (so_host S) \<lparr>gv_object = (\<lambda>_ _. None), gv_index = (\<lambda>_ _. Map.empty)\<rparr>"
        by (simp add: keeps_objects_def grows_def)
    qed
    have one: "holds s' = holds s ++ map_of (pp_pending p)" if "cm_committed res"
      using publish_committed [OF keeps locked(4) that] apply_atomic(1) [OF _ distinct keys] kd p' by blast
    have two: "holds s' k = holds s k"
      if c: "\<not> cm_committed res" "\<not> cm_recovery res" and key: "k \<in> fst ` set (pp_pending p)"
      using publish_withdrawn [OF locked(4) c] unfolding kd p'
    proof (elim disjE exE conjE)
      fix priors e
      assume "applyPreparedSecrets (pp_pending p) kd s = ((priors, Some e), s')" "e \<noteq> ErrSecretRollback"
      with apply_atomic(2) [OF _ distinct keys _ _ key] show ?thesis by blast
    next
      fix priors s1
      assume a: "applyPreparedSecrets (pp_pending p) kd s = ((priors, None), s1)"
        and r: "restoreSecretPriors kd priors s1 = (OK, s')"
      from a key have "snapshotSecretPriors (pp_pending p) kd s = Inr priors"
        by (auto simp: applyPreparedSecrets_def split: if_splits sum.splits dest: storePending_priors)
      from restore_holds [OF r this distinct keys, of k] key show ?thesis by simp
    qed
    from one two publish_no_conflict [OF locked(4)] show ?thesis by blast
  qed
  show "cm_committed res \<Longrightarrow> holds s' = holds s ++ map_of (pp_pending p)"
    and "\<not> cm_committed res \<Longrightarrow> \<not> cm_recovery res \<Longrightarrow> k \<in> fst ` set (pp_pending p) \<Longrightarrow> holds s' k = holds s k"
    and "cm_conflict res \<Longrightarrow> s' = s"
    using each by blast+
qed

end

section \<open>The generated text of a stored document\<close>

lemma exports_stored: "exports_name (stored_entry e) \<longleftrightarrow> exports_name e"
  by (auto simp: exports_name_def stored_entry_def Let_def EffectiveManaged_def Representable_def
      DeclarationRepresentable_def split: managed_override.splits)

lemma stored_public: "en_names (stored_entry e) = en_names e" "en_exported (stored_entry e) = en_exported e"
  "en_secret (stored_entry e) = en_secret e" "en_kind (stored_entry e) = en_kind e"
  by (simp_all add: stored_entry_def Let_def)

lemma exportState_stored: "committedExportState (map stored_entry p) = committedExportState p"
  unfolding committedExportState_def fold_map comp_def exports_stored stored_public ..

lemma pinned_regen_stored: "committedPinnedIdentities (map stored_entry p) = committedPinnedIdentities p"
  by (simp add: committedPinnedIdentities_def filter_map image_image comp_def stored_public)

lemma stored_document_sel:
  "cw_source (stored_document d) = map stored_entry (cw_source d)" "cw_schema (stored_document d) = cw_schema d"
  "cw_projection (stored_document d) = cw_projection d"
  by (simp_all add: stored_document_def)

lemma RegenerateWorktree_stored: "RegenerateWorktree (stored_document d) = RegenerateWorktree d"
  unfolding RegenerateWorktree_def validateCommittedWorktree_def regeneratedExport_def stored_document_sel
    exportState_stored pinned_regen_stored ..

end
