(* ===== verification/StoreSamples.thy ===== *)
theory StoreSamples
  imports GitStoreFacts SecretProperties
begin

text \<open>
  A small git in memory, on which the store runs to the end: an object database that names
  objects by their number, index files, one branch, and a process for reference transactions. It obeys the laws the properties of the store rely on.
\<close>

section \<open>The host\<close>

record mem_git =
  mg_objects :: "(string \<times> git_object) list"
  mg_indexes :: "(string \<times> (string \<times> string) list) list"
  mg_branch :: "string \<times> string"
  mg_frame :: string
  mg_acks :: "string list"

definition mem_oid :: "nat \<Rightarrow> string" where
  "mem_oid n = (let d = decimal n in replicate (40 - length d) (CHR ''0'') @ d)"

definition mem_put :: "git_object \<Rightarrow> mem_git \<Rightarrow> string option \<times> mem_git" where
  "mem_put x g =
     (let oid = mem_oid (length (mg_objects g))
      in if validGitObjectID oid \<and> map_of (mg_objects g) oid = None
         then (Some (oid @ [CHR 0x0A]), g\<lparr>mg_objects := (oid, x) # mg_objects g\<rparr>) else (None, g))"

definition mem_index :: "string list \<Rightarrow> string" where
  "mem_index env = (case env_value ''GIT_INDEX_FILE'' env of None \<Rightarrow> [] | Some i \<Rightarrow> i)"

definition mem_entries :: "mem_git \<Rightarrow> string \<Rightarrow> (string \<times> string) list" where
  "mem_entries g index = (case map_of (mg_indexes g) index of None \<Rightarrow> [] | Some es \<Rightarrow> es)"

definition mem_commit_tree :: "mem_git \<Rightarrow> string \<Rightarrow> (string \<rightharpoonup> string) option" where
  "mem_commit_tree g oid =
     (case map_of (mg_objects g) oid of
        Some (CommitObject t) \<Rightarrow> (case map_of (mg_objects g) t of Some (TreeObject m) \<Rightarrow> Some m | _ \<Rightarrow> None)
      | _ \<Rightarrow> None)"

definition mem_run :: "string \<Rightarrow> string list \<Rightarrow> string option \<Rightarrow> mem_git \<Rightarrow> string option \<times> mem_git" where
  "mem_run index args stdin g =
     (let verb = args ! 0
      in if verb = ''hash-object'' then (case stdin of Some c \<Rightarrow> mem_put (BlobObject c) g | None \<Rightarrow> (None, g))
         else if verb = ''commit-tree'' then mem_put (CommitObject (args ! 1)) g
         else if verb = ''read-tree'' then (Some [], g\<lparr>mg_indexes := (index, []) # mg_indexes g\<rparr>)
         else if verb = ''update-index'' then
           (case cutAt (CHR '','') (drop 7 (args ! 3)) of
              None \<Rightarrow> (None, g)
            | Some (oid, path) \<Rightarrow>
                (Some [], g\<lparr>mg_indexes := (index, (path, oid) # mem_entries g index) # mg_indexes g\<rparr>))
         else if verb = ''write-tree'' then mem_put (TreeObject (map_of (mem_entries g index))) g
         else if verb = ''cat-file'' then
           (case map_of (mg_objects g) (args ! 2) of
              Some (CommitObject _) \<Rightarrow> (Some (''commit'' @ [CHR 0x0A]), g)
            | Some (BlobObject c) \<Rightarrow> (Some c, g)
            | _ \<Rightarrow> (None, g))
         else if verb = ''ls-tree'' then
           (case mem_commit_tree g (args ! 2) of
              None \<Rightarrow> (None, g)
            | Some m \<Rightarrow> (Some (worktree_listing (the (m ''profile.json'')) (the (m ''profile.zsh''))), g))
         else if verb = ''for-each-ref'' then
           (Some (fst (mg_branch g) @ CHR 0x00 # snd (mg_branch g) @ [CHR 0x0A]), g)
         else if verb = ''version'' then (Some (''git version 2.39.1'' @ [CHR 0x0A]), g)
         else (None, g))"

definition mem_exec :: "string list \<Rightarrow> string list \<Rightarrow> string option \<Rightarrow> mem_git \<Rightarrow> string option \<times> mem_git" where
  "mem_exec env = mem_run (mem_index env)"

text \<open>
  Each frame is acknowledged unless the list of prepared answers says otherwise. The branch
  that a listing shows does not move.
\<close>

definition mem_write :: "nat \<Rightarrow> string \<Rightarrow> mem_git \<Rightarrow> bool \<times> mem_git" where
  "mem_write h frame g = (True, g\<lparr>mg_frame := butlast frame\<rparr>)"

definition mem_read_line :: "nat \<Rightarrow> mem_git \<Rightarrow> string option \<times> mem_git" where
  "mem_read_line h g =
     (case mg_acks g of
        [] \<Rightarrow> (Some (mg_frame g @ '': ok'' @ [CHR 0x0A]), g)
      | a # as \<Rightarrow> (Some a, g\<lparr>mg_acks := as\<rparr>))"

definition mem_host :: "mem_git git_host" where
  "mem_host =
     \<lparr>gh_environ = (\<lambda>g. [''PATH=/bin'', ''GIT_DIR=/elsewhere'']),
      gh_anchored = (\<lambda>g. True),
      gh_exec = mem_exec,
      gh_spawn = (\<lambda>env args g. (Some 0, g)),
      gh_write = mem_write,
      gh_read_line = mem_read_line,
      gh_stderr = (\<lambda>h g. []),
      gh_wait = (\<lambda>h g. (True, g)),
      gh_root = (\<lambda>g. StatDir),
      gh_open_root = (\<lambda>g. True),
      gh_lstat = (\<lambda>p g. StatMissing),
      gh_reopened = (\<lambda>p g. True),
      gh_read_leaf = (\<lambda>p g. None),
      gh_private_dir = (\<lambda>g. (OK, g)),
      gh_temp_index = (\<lambda>g. (Some ''/tmp/index'', g)),
      gh_remove_index = (\<lambda>p g. g)\<rparr>"

definition mem_view :: "mem_git git_view" where
  "mem_view = \<lparr>gv_object = (\<lambda>oid g. map_of (mg_objects g) oid), gv_index = (\<lambda>i g. map_of (mem_entries g i))\<rparr>"

section \<open>It obeys the laws\<close>

lemma mem_put_grows: "grows mem_view g (snd (mem_put x g))"
  by (auto simp: grows_def mem_view_def mem_put_def Let_def)

lemma mem_exec_grows: "grows mem_view g (snd (mem_exec env args stdin g))"
  unfolding mem_exec_def mem_run_def Let_def
  by (auto simp: mem_put_grows split: option.split git_object.split prod.split)
     (auto simp: grows_def mem_view_def)

lemma mem_put_made:
  "mem_put x g = (Some out, g') \<Longrightarrow>
     \<exists>oid. out = oid @ [CHR 0x0A] \<and> validGitObjectID oid \<and> gv_object mem_view oid g' = Some x"
  by (auto simp: mem_put_def mem_view_def Let_def split: if_splits)

lemma blob_entry_cut:
  "validGitObjectID oid \<Longrightarrow> cutAt (CHR '','') (drop 7 (blob_entry oid path)) = Some (oid, path)"
  by (auto simp: blob_entry_def cutAt_Some validGitObjectID_def list_all_iff hex_char_def is_digit_def)

lemma mem_keeps: "keeps_objects mem_host mem_view"
  by (auto simp: keeps_objects_def mem_host_def mem_exec_grows mem_write_def mem_read_line_def split: list.split)
     (auto simp: grows_def mem_view_def)

lemma mem_makes: "makes_objects mem_host mem_view dir"
  unfolding makes_objects_def
  by (intro allI impI conjI)
     (auto simp: mem_host_def mem_exec_def mem_run_def mem_index_def mem_view_def mem_entries_def blob_entry_cut
        dest: mem_put_made [unfolded mem_view_def])

lemma mem_answers: "answers_reads mem_host mem_view dir"
  by (auto simp: answers_reads_def mem_host_def mem_view_def mem_exec_def mem_run_def mem_commit_tree_def worktree_tree_def)

lemma mem_honest: "honest_git mem_host mem_view dir"
  by (simp add: honest_git_def mem_keeps mem_makes mem_answers)

section \<open>A store on it\<close>

definition base_oid :: string where
  "base_oid = replicate 40 (CHR ''b'')"

definition mem_start :: "string list \<Rightarrow> mem_git" where
  "mem_start acks =
     \<lparr>mg_objects = [(base_oid, CommitObject [])], mg_indexes = [],
      mg_branch = (''refs/heads/main'', base_oid), mg_frame = [], mg_acks = acks\<rparr>"

definition mem_runner :: git_runner where
  "mem_runner =
     \<lparr>gr_repo_dir = ''/home/u/.zshpro'', gr_runtime = False, gr_index_file = [], gr_object_dir = [], gr_alternate = []\<rparr>"

definition mem_store :: "(mem_git, vault_state) store" where
  "mem_store =
     \<lparr>so_host = mem_host, so_runner = mem_runner, so_codec = sample_codec,
      so_regen = Some RegenerateWorktree, so_keychain = vaultDriver\<rparr>"

lemma mem_plain: "plain_runner mem_runner"
  by (simp add: plain_runner_def mem_runner_def)

section \<open>A publication on it\<close>

text \<open>Running a command is running it in memory, with the index the environment names.\<close>

lemma runCommit_mem:
  assumes "validateGitArgv args = OK"
  shows "runCommit mem_host mem_runner index ts args g =
    (case mem_run index args None g of (None, g') \<Rightarrow> (Inl ErrGitCommand, g') | (Some out, g') \<Rightarrow> (Inr out, g'))"
proof -
  have "mem_index (replaceGitEnvironment (ownedEnvironment mem_runner environ) (commitAssignments index ts)) = index"
    for environ
    using commit_env(2) [OF mem_plain] by (simp add: mem_index_def)
  then show ?thesis
    using assms mem_plain
    by (simp add: runCommit_def gitCommand_def bindG_def liftG_def askG_def orErrG_def execute_def
        plain_runner_def mem_host_def mem_exec_def)
qed

lemma runGit_mem:
  assumes "validateGitArgv args = OK"
  shows "runGit mem_host mem_runner stdin args g =
    (case mem_run [] args stdin g of (None, g') \<Rightarrow> (Inl ErrGitCommand, g') | (Some out, g') \<Rightarrow> (Inr out, g'))"
proof -
  have "env_value ''GIT_INDEX_FILE'' (ownedEnvironment mem_runner environ) = None" for environ
    by (simp add: env_value_owned has_prefix_def mem_runner_def)
  then have "mem_index (ownedEnvironment mem_runner environ) = []" for environ
    by (simp add: mem_index_def)
  then show ?thesis
    using assms mem_plain
    by (simp add: runGit_def gitCommand_def bindG_def liftG_def askG_def orErrG_def execute_def
        plain_runner_def mem_host_def mem_exec_def)
qed

lemma mem_oids:
  "validGitObjectID (mem_oid 1)" "validGitObjectID (mem_oid 2)" "validGitObjectID (mem_oid 3)"
  "validGitObjectID (mem_oid 4)" "validGitObjectID base_oid"
  "distinct [base_oid, mem_oid 1, mem_oid 2, mem_oid 3, mem_oid 4]"
  "distinct [mem_oid 4, mem_oid 3, mem_oid 2, mem_oid 1, base_oid]"
  by code_simp+

lemma mem_formats:
  "same_format base_oid (mem_oid 1)" "same_format base_oid (mem_oid 2)" "same_format base_oid (mem_oid 3)"
  "same_format base_oid (mem_oid 4)"
  by code_simp+

lemma mem_put_next:
  assumes "validGitObjectID (mem_oid (length (mg_objects g)))"
    and "map_of (mg_objects g) (mem_oid (length (mg_objects g))) = None"
  shows "mem_put x g = (Some (mem_oid (length (mg_objects g)) @ [CHR 0x0A]),
    g\<lparr>mg_objects := (mem_oid (length (mg_objects g)), x) # mg_objects g\<rparr>)"
  using assms by (simp add: mem_put_def Let_def)

lemma mem_oid_unary:
  "mem_oid 2 = mem_oid (Suc (Suc 0))" "mem_oid 3 = mem_oid (Suc (Suc (Suc 0)))"
  "mem_oid 4 = mem_oid (Suc (Suc (Suc (Suc 0))))"
  by (simp_all add: eval_nat_numeral)

definition mem_published :: "string \<Rightarrow> string \<Rightarrow> string list \<Rightarrow> mem_git" where
  "mem_published json zsh acks =
     (mem_start acks)\<lparr>mg_objects :=
        [(mem_oid 4, CommitObject (mem_oid 3)),
         (mem_oid 3, TreeObject (map_of [(''profile.zsh'', mem_oid 2), (''profile.json'', mem_oid 1)])),
         (mem_oid 2, BlobObject zsh), (mem_oid 1, BlobObject json), (base_oid, CommitObject [])],
       mg_indexes :=
        [(''/tmp/index'', [(''profile.zsh'', mem_oid 2), (''profile.json'', mem_oid 1)]),
         (''/tmp/index'', [(''profile.json'', mem_oid 1)]), (''/tmp/index'', [])]\<rparr>"

lemma argv_plumbing:
  "validateGitArgv [''hash-object'', ''-w'', ''--stdin''] = OK"
  "validateGitArgv [''read-tree'', ''--empty''] = OK"
  "validateGitArgv [''write-tree''] = OK"
  "validateGitArgv [''version''] = OK"
  by code_simp+

lemma argv_entry:
  assumes "validGitObjectID oid" "\<not> has_nul path"
  shows "validateGitArgv [''update-index'', ''--add'', ''--cacheinfo'', blob_entry oid path] = OK"
  using assms validGitObjectID_plain(4) [of oid]
  by (auto simp: validateGitArgv_def accepted_arguments_def blob_entry_def has_prefix_def has_nul_def)

lemma argv_commit:
  assumes "validAtom tree" "validAtom base" "validCommitMessage m"
  shows "validateGitArgv [''commit-tree'', tree, ''-p'', base, ''-m'', m] = OK"
  using assms by (auto simp: validateGitArgv_def accepted_arguments_def validCommitMessage_def)

lemma mem_candidate:
  assumes "validCommitMessage m"
  shows "candidateSteps mem_store ''/tmp/index'' base_oid json zsh m (mem_start acks)
    = (Inr (mem_oid 4), mem_published json zsh acks)"
proof -
  note d = mem_oids(6,7) [simplified]
  have paths: "\<not> has_nul ''profile.json''" "\<not> has_nul ''profile.zsh''" by code_simp+
  show ?thesis
    using d mem_oids(1-5) mem_formats
    by (simp add: candidateSteps_def mem_store_def hashObject_def bindG_def liftG_def runGit_mem runCommit_mem
        argv_plumbing argv_entry paths argv_commit assms oid_atom mem_run_def mem_put_next mem_start_def
        mem_published_def mem_entries_def blob_entry_cut validGitObjectID_line Let_def mem_oid_unary)
qed

section \<open>The reference transaction in memory\<close>

lemma mem_step:
  "step_frame mem_host h step g =
    (case mg_acks g of
       [] \<Rightarrow> (True, g\<lparr>mg_frame := step\<rparr>)
     | a # as \<Rightarrow> (a = step @ '': ok'' @ [CHR 0x0A], g\<lparr>mg_frame := step, mg_acks := as\<rparr>))"
  by (simp add: step_frame_def mem_host_def mem_write_def mem_read_line_def acknowledged_def split: list.split)

lemma mem_direct: "validHeadRef ref \<Longrightarrow> validateDirectRef mem_host mem_runner ref g = OK"
  by (cases "splitOn (CHR ''/'') (hr_name ref)")
     (simp_all add: validateDirectRef_def mem_runner_def mem_host_def validatePackedRefsEntry_def Let_def)

lemma mem_supports: "supportsUpdateRefTransactions mem_host mem_runner g = (True, g)"
proof -
  have "gitSupportsUpdateRefTransactions (''git version 2.39.1'' @ [CHR 0x0A])" by code_simp
  then show ?thesis by (simp add: supportsUpdateRefTransactions_def runGit_mem argv_plumbing mem_run_def)
qed

lemma mem_start_session:
  "startUpdateRefSession mem_host mem_runner g =
    (case step_frame mem_host 0 ''start'' g of
       (True, g') \<Rightarrow> (Inr ((new_session 0)\<lparr>us_live := True\<rparr>), g')
     | (False, g') \<Rightarrow> (Inl ErrGitCommand, g'))"
proof -
  have "validateGitArgv [''update-ref'', ''--no-deref'', ''--stdin''] = OK" by code_simp
  then have "gitCommand mem_host mem_runner [''update-ref'', ''--no-deref'', ''--stdin''] g
      = (Inr (ownedEnvironment mem_runner (gh_environ mem_host g)), g)" for g
    using mem_plain by (simp add: gitCommand_def bindG_def liftG_def askG_def plain_runner_def)
  moreover have "gh_spawn mem_host env args g = (Some 0, g)" "gh_wait mem_host h g = (True, g)" for env args g h
    by (simp_all add: mem_host_def)
  ultimately show ?thesis
    by (auto simp: startUpdateRefSession_def mem_supports finishLocked_def new_session_def
        split: prod.split bool.split)
qed

lemma mem_finish: "finishLocked mem_host s g = (OK, if us_waited s then s
    else s\<lparr>us_waited := True, us_live := False, us_locked := False\<rparr>, g)"
  by (simp add: finishLocked_def mem_host_def)

lemma mem_prepare:
  assumes "us_live s" "\<not> us_locked s" "single_line mu" "mg_acks g = [] \<or> hd (mg_acks g) = ''prepare: ok'' @ [CHR 0x0A]"
  shows "sessionPrepare mem_host mu s g =
    (OK, s\<lparr>us_locked := True\<rparr>, g\<lparr>mg_frame := ''prepare'', mg_acks := tl (mg_acks g)\<rparr>)"
  using assms
  by (cases "mg_acks g")
     (auto simp: sessionPrepare_def mem_host_def mem_write_def mem_read_line_def acknowledged_def)

lemma mem_observe:
  assumes "mg_branch g = (hr_name ref, base_oid)" "validHeadRef ref"
  shows "observeDirectRef mem_host mem_runner ref g = (Inr (Some base_oid), g)"
proof -
  have argv: "validateGitArgv [''for-each-ref'', ''--format=%(refname)%00%(objectname)'', hr_name ref] = OK"
    using validHeadRef_atom [OF assms(2)] by (simp add: validateGitArgv_def accepted_arguments_def has_prefix_def)
  obtain b where b: "hr_name ref = headsPrefix @ b" using assms(2) by (auto simp: validHeadRef_iff)
  have plain: "CHR 0x00 \<notin> set (hr_name ref)" "CHR 0x0A \<notin> set (hr_name ref)" "CHR 0x0A \<notin> set base_oid"
    using validHeadRef_plain [OF assms(2)] by (auto simp: base_oid_def)
  have trim: "TrimSpace (hr_name ref @ CHR 0x00 # base_oid @ [CHR 0x0A]) = hr_name ref @ CHR 0x00 # base_oid"
    using TrimSpace_line(1) [of "hr_name ref @ CHR 0x00 # base_oid"]
    by (simp add: b headsPrefix_def base_oid_def printable_def less_eq_char_def)
  have "splitOn (CHR 0x0A) (hr_name ref @ CHR 0x00 # base_oid) = [hr_name ref @ CHR 0x00 # base_oid]"
    using plain by (intro splitOn_plain) auto
  moreover have "cutAt (CHR 0x00) (hr_name ref @ CHR 0x00 # base_oid) = Some (hr_name ref, base_oid)"
    using plain(1) by (simp add: cutAt_Some)
  ultimately have "findRefLine (hr_name ref) (splitOn (CHR 0x0A) (hr_name ref @ CHR 0x00 # base_oid)) = Inr (Some base_oid)"
    using mem_oids(5) by (simp add: validGitObjectID_line)
  then show ?thesis
    using assms argv trim
    by (simp add: observeDirectRef_def bindG_def askG_def liftG_def mem_direct runGit_mem mem_run_def)
qed

section \<open>A run of a publication\<close>

definition ok_line :: "string \<Rightarrow> string" where
  "ok_line step = step @ '': ok'' @ [CHR 0x0A]"

definition mem_mutation :: string where
  "mem_mutation = ''update refs/heads/main '' @ mem_oid 4 @ CHR '' '' # base_oid @ [CHR 0x0A]"

definition locked_session :: ref_session where
  "locked_session = (new_session 0)\<lparr>us_live := True, us_locked := True\<rparr>"

lemma mem_encoded:
  "encodeRefMutation mainHeadRef (mem_oid 4) True (Some base_oid) = Inr mem_mutation" "single_line mem_mutation"
  by code_simp+

lemma mem_check: "validCommitMessage m \<Longrightarrow>
  checkBase mem_store ''main'' base_oid m (mem_start acks) = (Inr (mainHeadRef, Some base_oid), mem_start acks)"
proof -
  assume m: "validCommitMessage m"
  have main: "validatedHeadRefForBranch ''main'' = Inr mainHeadRef" by code_simp
  have "validateGitArgv [''cat-file'', ''-t'', base_oid] = OK"
    using mem_oids(5) by (simp add: validateGitArgv_def accepted_arguments_def)
  moreover have "TrimSpace (''commit'' @ [CHR 0x0A]) = ''commit''" by (rule TrimSpace_line) code_simp+
  ultimately have "requireCommit mem_host mem_runner base_oid (mem_start acks) = (OK, mem_start acks)"
    using mem_oids(5)
    by (simp add: requireCommit_def objectType_def bindG_def liftG_def orErrG_def runGit_mem mem_run_def mem_start_def)
  moreover have "observeDirectRef mem_host mem_runner mainHeadRef (mem_start acks) = (Inr (Some base_oid), mem_start acks)"
    by (intro mem_observe mainHeadRef_valid) (simp add: mem_start_def mainHeadRef_def headsPrefix_def)
  ultimately show ?thesis
    using main m mem_oids(5) by (simp add: checkBase_def mem_store_def bindG_def liftG_def)
qed

definition mem_locked :: "string \<Rightarrow> string \<Rightarrow> string list \<Rightarrow> mem_git" where
  "mem_locked json zsh acks = (mem_published json zsh [])\<lparr>mg_frame := ''prepare'', mg_acks := acks\<rparr>"

lemma mem_commit_run:
  assumes m: "validCommitMessage m" and acks: "acks = [] \<and> rest = [] \<or> acks = ok_line ''start'' # ok_line ''prepare'' # rest"
    and p: "prepareSecrets (cw_source d) (Some SecretRefFile) = Inr p"
    and json: "MarshalCommittedWorktree sample_codec (d\<lparr>cw_source := pp_profile p\<rparr>) = Inr json"
    and zsh: "RegenerateWorktree (d\<lparr>cw_source := pp_profile p\<rparr>) = Inr zsh"
  shows "CommitWorktree mem_store ''main'' base_oid d m (mem_start acks, v) =
    publishCandidate mem_store mainHeadRef base_oid (mem_oid 4) (pp_pending p) locked_session
      (mem_locked json zsh rest, v)"
proof -
  have sel: "so_host mem_store = mem_host" "so_runner mem_store = mem_runner" "so_codec mem_store = sample_codec"
    "so_regen mem_store = Some RegenerateWorktree" "so_keychain mem_store = vaultDriver"
    by (simp_all add: mem_store_def)
  have temp: "gh_temp_index mem_host g = (Some ''/tmp/index'', g)" "gh_remove_index mem_host i g = g" for i g
    by (simp_all add: mem_host_def)
  have kind: "kd_kind vaultDriver = SecretRefFile" by (simp add: vaultDriver_def)
  let ?started = "(mem_published json zsh acks)\<lparr>mg_frame := ''start'', mg_acks := tl acks\<rparr>"
  have "startUpdateRefSession mem_host mem_runner (mem_published json zsh acks)
      = (Inr ((new_session 0)\<lparr>us_live := True\<rparr>), ?started)"
    using acks by (auto simp: mem_start_session mem_step ok_line_def mem_published_def mem_start_def)
  then have stage: "stagePublication mem_store mainHeadRef base_oid (d\<lparr>cw_source := pp_profile p\<rparr>) m (mem_start acks)
      = (Inr (mem_oid 4, mem_mutation, (new_session 0)\<lparr>us_live := True\<rparr>), ?started)"
    by (simp add: stagePublication_def sel json zsh bindG_def liftG_def askG_def prepareWorktreeCandidate_def temp
        mem_candidate [OF m] mem_encoded mem_direct mainHeadRef_valid)
  have "sessionPrepare mem_host mem_mutation ((new_session 0)\<lparr>us_live := True\<rparr>) ?started
      = (OK, locked_session, mem_locked json zsh rest)"
    using acks by (subst mem_prepare)
      (auto simp: new_session_def mem_encoded locked_session_def ok_line_def mem_locked_def mem_published_def mem_start_def)
  then show ?thesis
    by (simp add: CommitWorktree_def mem_check [OF m] sel kind p stage)
qed

end
