(* ===== verification/StoreProperties.thy ===== *)
theory StoreProperties
  imports StoreSamples
begin

text \<open>
  The properties of the git-backed store (\<^verbatim>\<open>core/store/store.go\<close> and
  \<^verbatim>\<open>core/store/git.go\<close>): what it lets reach git, the protocol it speaks with the
  process of a reference transaction, and what a publication leaves behind.
\<close>

section \<open>Publication\<close>




text \<open>
  C28: A publication and the secrets that go with it happen together. With the vault as the
  backend: if the publication reports a commit, the vault holds the withheld values; if it
  reports neither a commit nor a need for recovery, whether a write failed or the answer to
  the commit was lost, every name it touched holds what it held before; and a lost race for
  the branch never touches the vault.
\<close>

theorem publication_keeps_secrets:
  assumes "CommitWorktree S branch base d message (g, s) = ((res, err), g', s')" "so_keychain S = vaultDriver"
    and "prepareSecrets (cw_source d) (Some SecretRefFile) = Inr p" "list_all (\<lambda>(k, v). vault_key k) (pp_pending p)"
  shows "(cm_committed res \<longrightarrow> vaultHolds s' = vaultHolds s ++ map_of (pp_pending p))
    \<and> (\<not> cm_committed res \<and> \<not> cm_recovery res \<longrightarrow>
         (\<forall>k \<in> fst ` set (pp_pending p). vaultHolds s' k = vaultHolds s k))
    \<and> (cm_conflict res \<longrightarrow> s' = s)"
proof -
  have "prepareSecrets (cw_source d) (Some (kd_kind vaultDriver)) = Inr p"
    using assms(3) by (simp add: vaultDriver_def)
  moreover have "\<forall>k \<in> fst ` set (pp_pending p). vault_key k" using assms(4) by (auto simp: list_all_iff)
  ultimately show ?thesis using vault.publication_secrets [OF assms(1,2)] by blast
qed

definition secret_document :: committed_worktree where
  "secret_document = sample_committed\<lparr>cw_source := sample_source @ [api_token ''hunter2'']\<rparr>"

definition lost_answer :: "string list" where
  "lost_answer = [ok_line ''start'', ok_line ''prepare'', ''fatal'' @ [CHR 0x0A]]"

lemma secret_withdrawn:
  "\<exists>g' s' p. CommitWorktree mem_store ''main'' base_oid secret_document ''second'' (mem_start lost_answer, small_vault [Written, Written])
      = ((noCommit, Some ErrIngestNotCommitted), g', s')
   \<and> prepareSecrets (cw_source secret_document) (Some SecretRefFile) = Inr p \<and> pp_pending p = new_secret"
proof -
  let ?v = "small_vault [Written, Written]"
  have m: "validCommitMessage ''second''"
    and pend: "(case prepareSecrets (cw_source secret_document) (Some SecretRefFile) of Inl _ \<Rightarrow> [] | Inr p \<Rightarrow> pp_pending p) = new_secret"
    and texts: "(case prepareSecrets (cw_source secret_document) (Some SecretRefFile) of Inl _ \<Rightarrow> False
      | Inr p \<Rightarrow> validateCommittedWorktreeDTO (secret_document\<lparr>cw_source := pp_profile p\<rparr>) = OK
          \<and> \<not> isl (RegenerateWorktree (secret_document\<lparr>cw_source := pp_profile p\<rparr>)))"
    and applied: "snd (fst (applyPreparedSecrets new_secret vaultDriver ?v)) = None"
    and restore: "fst (restoreSecretPriors vaultDriver (fst (fst (applyPreparedSecrets new_secret vaultDriver ?v)))
        (snd (applyPreparedSecrets new_secret vaultDriver ?v))) = OK"
    by code_simp+
  from pend obtain p where p: "prepareSecrets (cw_source secret_document) (Some SecretRefFile) = Inr p" "pp_pending p = new_secret"
    by (auto simp: new_secret_def split: sum.splits)
  with texts obtain zsh where zsh: "RegenerateWorktree (secret_document\<lparr>cw_source := pp_profile p\<rparr>) = Inr zsh"
    and valid: "validateCommittedWorktreeDTO (secret_document\<lparr>cw_source := pp_profile p\<rparr>) = OK"
    by (cases "RegenerateWorktree (secret_document\<lparr>cw_source := pp_profile p\<rparr>)") auto
  have json: "MarshalCommittedWorktree sample_codec (secret_document\<lparr>cw_source := pp_profile p\<rparr>) = Inr (''{}'' @ [CHR 0x0A])"
    using valid by (simp add: MarshalCommittedWorktree_def sample_codec_def)
  obtain priors v1 where a: "applyPreparedSecrets new_secret vaultDriver ?v = ((priors, None), v1)"
    using applied by (metis prod.collapse)
  then obtain v2 where r: "restoreSecretPriors vaultDriver priors v1 = (OK, v2)"
    using restore by (metis fst_conv prod.collapse snd_conv)
  let ?g = "mem_locked (''{}'' @ [CHR 0x0A]) zsh [''fatal'' @ [CHR 0x0A]]"
  have run: "CommitWorktree mem_store ''main'' base_oid secret_document ''second'' (mem_start lost_answer, ?v)
      = publishCandidate mem_store mainHeadRef base_oid (mem_oid 4) new_secret locked_session (?g, ?v)"
    unfolding lost_answer_def p(2) [symmetric]
    by (rule mem_commit_run [OF m _ p(1) json zsh]) simp
  have observe: "observeDirectRef mem_host mem_runner mainHeadRef (?g\<lparr>mg_frame := f, mg_acks := as\<rparr>)
      = (Inr (Some base_oid), ?g\<lparr>mg_frame := f, mg_acks := as\<rparr>)" for f as
    by (intro mem_observe mainHeadRef_valid)
       (simp add: mem_locked_def mem_published_def mem_start_def mainHeadRef_def headsPrefix_def)
  have guard: "encodeRefGuard mainHeadRef (Some base_oid) (length (mem_oid 4))
      = Inr (''verify refs/heads/main '' @ base_oid @ [CHR 0x0A])"
    "single_line (''verify refs/heads/main '' @ base_oid @ [CHR 0x0A])" "base_oid \<noteq> mem_oid 4"
    by code_simp+
  have "publishCandidate mem_store mainHeadRef base_oid (mem_oid 4) new_secret locked_session (?g, ?v)
      = ((noCommit, Some ErrIngestNotCommitted), ?g\<lparr>mg_frame := ''abort'', mg_acks := []\<rparr>, v2)"
    using observe guard r a
    by (simp add: publishCandidate_def reconcileWorktreeCommit_def mem_store_def sessionCommit_def mem_step
        mem_finish locked_session_def new_session_def mem_locked_def mem_start_session mem_prepare
        sessionAbort_def Let_def)
  with run p show ?thesis by auto
qed

theorem publication_keeps_secrets_witness:
  "\<exists>g' s'. CommitWorktree mem_store ''main'' base_oid secret_document ''second'' (mem_start lost_answer, small_vault [Written, Written])
      = ((noCommit, Some ErrIngestNotCommitted), g', s')
   \<and> vaultHolds s' ''API_TOKEN'' = vaultHolds (small_vault [Written, Written]) ''API_TOKEN''"
proof -
  obtain g' s' p where run: "CommitWorktree mem_store ''main'' base_oid secret_document ''second'' (mem_start lost_answer, small_vault [Written, Written])
      = ((noCommit, Some ErrIngestNotCommitted), g', s')"
    and p: "prepareSecrets (cw_source secret_document) (Some SecretRefFile) = Inr p" "pp_pending p = new_secret"
    using secret_withdrawn by blast
  have "so_keychain mem_store = vaultDriver" "list_all (\<lambda>(k, v). vault_key k) (pp_pending p)"
    by (simp_all add: mem_store_def p(2) new_secret_def vault_key_def)
  from publication_keeps_secrets [OF run this(1) p(1) this(2)] run show ?thesis
    by (auto simp: noCommit_def p(2) new_secret_def)
qed

section \<open>The reference transaction\<close>

text \<open>
  C29: The store speaks the protocol of the reference transaction. Whatever git and its pipes
  do, and whatever a client calls on a started session in whatever order, the frames sent and
  lines read are a legal conversation: one line of mutation, the preparation, then at most one
  commit or abort and only after the preparation was acknowledged; and the process is waited
  for at most once, as the last event, exactly when the session says so. A session that could
  not be started leaves no process unwaited.
\<close>

theorem session_speaks_protocol:
  assumes "startUpdateRefSession (logged H) rn (g, []) = (r, g', l)"
  shows "case r of
      Inl _ \<Rightarrow> pipe_run PipeFresh l \<in> {Some PipeFresh, Some PipeDone}
    | Inr session \<Rightarrow>
        (case fold (callSession (logged H)) calls (session, g', l) of (session', _, l') \<Rightarrow>
           pipe_run PipeFresh l' \<in> {Some PipeOpen, Some PipeLocked, Some PipeDone}
           \<and> (us_waited session' \<longleftrightarrow> pipe_run PipeFresh l' = Some PipeDone))"
proof (cases r)
  case (Inl e)
  with start_mirrors [OF assms] show ?thesis by simp
next
  case (Inr session)
  with start_mirrors [OF assms] have m: "mirrors session l" by simp
  obtain s' g'' l' where run: "fold (callSession (logged H)) calls (session, g', l) = (s', g'', l')"
    by (metis prod_cases3)
  from calls_mirror [OF m this] Inr run show ?thesis by (auto simp: mirrors_def)
qed

lemma mem_conversation:
  "\<exists>s g l. startUpdateRefSession (logged mem_host) mem_runner (mem_start [], []) = (Inr s, g, l)"
proof -
  have "\<not> isl (fst (startUpdateRefSession (logged mem_host) mem_runner (mem_start [], [])))"
    by code_simp
  then show ?thesis
    by (cases "startUpdateRefSession (logged mem_host) mem_runner (mem_start [], [])"; cases "fst (startUpdateRefSession (logged mem_host) mem_runner (mem_start [], []))") auto
qed

theorem session_speaks_protocol_witness:
  "\<exists>s g l. startUpdateRefSession (logged mem_host) mem_runner (mem_start [], []) = (Inr s, g, l)
    \<and> (case fold (callSession (logged mem_host)) [CallCommit, CallPrepare mem_mutation, CallAbort, CallCommit] (s, g, l) of
         (s', _, l') \<Rightarrow> pipe_run PipeFresh l' \<in> {Some PipeOpen, Some PipeLocked, Some PipeDone}
           \<and> (us_waited s' \<longleftrightarrow> pipe_run PipeFresh l' = Some PipeDone))"
proof -
  obtain s g l where start: "startUpdateRefSession (logged mem_host) mem_runner (mem_start [], []) = (Inr s, g, l)"
    using mem_conversation by blast
  from session_speaks_protocol [OF start, of "[CallCommit, CallPrepare mem_mutation, CallAbort, CallCommit]"] start
  show ?thesis by auto
qed

section \<open>What reaches git\<close>

text \<open>
  C32: Caller data cannot become an option of git. In every command that passes the check, an
  argument that starts with a dash is an option the code writes itself, the fixed format of a
  listing, or the text after the -m flag of a commit.
\<close>

theorem command_options_fixed:
  assumes "validateGitArgv (verb # args) = OK" "i < length args" "has_prefix ''-'' (args ! i)"
  shows "args ! i \<in> set fixed_options \<or> (verb = ''for-each-ref'' \<and> has_prefix ''--format='' (args ! i))
    \<or> (verb = ''commit-tree'' \<and> 0 < i \<and> args ! (i - 1) = ''-m'')"
  using assms by (rule argv_options)

theorem command_options_fixed_witness:
  "validateGitArgv [''commit-tree'', ''HEAD'', ''-m'', ''--amend''] = OK \<and> ''--amend'' \<notin> set fixed_options
   \<and> [''HEAD'', ''-m'', ''--amend''] ! 1 = ''-m''"
proof -
  have ok: "validateGitArgv [''commit-tree'', ''HEAD'', ''-m'', ''--amend''] = OK"
    and new: "''--amend'' \<notin> set fixed_options" by code_simp+
  from command_options_fixed [OF ok, of 2] new ok show ?thesis
    by (simp add: has_prefix_def)
qed

text \<open>
  C31: The frame of a mutation says what was asked and nothing else. For a branch name that
  passes the check and any objects and expectation, an encoded frame is a single line whose
  words are the verb, the reference under refs/heads/ and the objects; no component of
  the reference is a dot or two dots; and the session accepts it as one mutation.
\<close>

theorem mutation_frame_exact:
  assumes "validatedHeadRefForBranch branch = Inr ref"
    and "encodeRefMutation ref candidate present expected = Inr frame"
  shows "single_line frame
    \<and> frame_words frame = Some (case expected of
        None \<Rightarrow> [''create'', headsPrefix @ branch, candidate]
      | Some old \<Rightarrow> [''update'', headsPrefix @ branch, candidate, old])
    \<and> (present \<longleftrightarrow> expected \<noteq> None)
    \<and> ''..'' \<notin> set (splitOn (CHR ''/'') (hr_name ref)) \<and> ''.'' \<notin> set (splitOn (CHR ''/'') (hr_name ref))"
proof -
  have b: "validBranchName branch = OK" "ref = HeadRef (headsPrefix @ branch)"
    using assms(1) by (simp_all add: validatedHeadRef_Inr)
  have words: "frame_words frame = Some (case expected of
        None \<Rightarrow> [''create'', headsPrefix @ branch, candidate]
      | Some old \<Rightarrow> [''update'', headsPrefix @ branch, candidate, old])"
    using encodeRefMutation_words [OF assms(2)] b(2) by (cases expected) simp_all
  have "splitOn (CHR ''/'') (headsPrefix @ branch) = ''refs'' # ''heads'' # splitOn (CHR ''/'') branch"
    by (simp add: headsPrefix_def)
  moreover have "present \<longleftrightarrow> expected \<noteq> None"
    using assms(2) by (auto simp: encodeRefMutation_def split: if_splits)
  ultimately show ?thesis
    using b words frame_single [OF words] by (simp add: validBranchName_OK single_line_def)
qed

theorem mutation_frame_exact_witness:
  "\<exists>frame. encodeRefMutation (HeadRef ''refs/heads/work'') (mem_oid 4) False None = Inr frame
    \<and> frame_words frame = Some [''create'', ''refs/heads/work'', mem_oid 4]"
proof -
  have ref: "validatedHeadRefForBranch ''work'' = Inr (HeadRef ''refs/heads/work'')" by code_simp
  have "encodeRefMutation (HeadRef ''refs/heads/work'') (mem_oid 4) False None
      = Inr (''create refs/heads/work '' @ mem_oid 4 @ [CHR 0x0A])" by code_simp
  from mutation_frame_exact [OF ref this] this show ?thesis by (auto simp: headsPrefix_def)
qed

text \<open>
  C30: A revision is read only if its tree is exactly the two files. The listing of a tree is
  accepted, with the two objects, precisely when it is the two records of plain blobs with
  valid names of the repository's format, in either order, and nothing else.
\<close>

theorem revision_tree_exact:
  "parseWorktreeTreeEntries tree n = Inr b \<longleftrightarrow>
     (n = 40 \<or> n = 64) \<and> length (wb_json b) = n \<and> length (wb_zsh b) = n
     \<and> validGitObjectID (wb_json b) \<and> validGitObjectID (wb_zsh b)
     \<and> (tree = worktree_listing (wb_json b) (wb_zsh b) \<or> tree = swapped_listing (wb_json b) (wb_zsh b))"
  by (rule parseWorktreeTreeEntries_iff)

text \<open>
  C33: Git runs in the store's environment only. Whatever the program inherited, every variable
  of the process whose name starts with GIT_ has the value the store gives it, and
  there is no other: the directory is the store's, configuration files of system and user are
  off, and a commit has its own index, author and date.
\<close>

theorem commit_environment_owned:
  assumes "has_prefix ''GIT_'' n"
  shows "env_value n (replaceGitEnvironment (ownedEnvironment rn environ) (commitAssignments index ts)) =
    (if n = ''GIT_INDEX_FILE'' then Some index
     else if n \<in> {''GIT_AUTHOR_NAME'', ''GIT_COMMITTER_NAME''} then Some ''zsh-pro''
     else if n \<in> {''GIT_AUTHOR_EMAIL'', ''GIT_COMMITTER_EMAIL''} then Some ''zsh-pro@local''
     else if n \<in> {''GIT_AUTHOR_DATE'', ''GIT_COMMITTER_DATE''} then Some ts
     else if n = ''GIT_DIR'' then Some (store_dir rn)
     else if n = ''GIT_CONFIG_NOSYSTEM'' then Some ''1''
     else if n = ''GIT_CONFIG_GLOBAL'' then Some ''/dev/null''
     else if n = ''GIT_OBJECT_DIRECTORY'' \<and> gr_object_dir rn \<noteq> [] then Some (gr_object_dir rn)
     else if n = ''GIT_ALTERNATE_OBJECT_DIRECTORIES'' \<and> gr_alternate rn \<noteq> [] then Some (gr_alternate rn)
     else None)"
  unfolding env_value_commit env_value_owned [OF assms] by simp

theorem commit_environment_owned_witness:
  "env_value ''GIT_DIR'' (replaceGitEnvironment (ownedEnvironment mem_runner [''GIT_DIR=/elsewhere'', ''HOME=/root''])
     (commitAssignments ''/tmp/index'' commitTS)) = Some ''/home/u/.zshpro''"
  by (subst commit_environment_owned) (simp_all add: has_prefix_def store_dir_def mem_runner_def)

end
