(* ===== verification/Spec2Isabelle.thy ===== *)
theory Spec2Isabelle
  imports LiveProperties StateProperties ShellProperties WorkflowProperties ActivationProperties
    SecretProperties SourceProperties EmitProperties AnalysisProperties StoreProperties
begin

text \<open>
  Verification of the shared worktree of zsh-pro.

  zsh-pro keeps a managed zsh profile under version control and lets many terminals share
  its live state: environment variables, aliases, functions, options and the search paths.
  A profile is a list of classified entries (core/model). The builder (core/activate) turns
  it into a manifest and into the live states it denotes. The worktree service
  (core/worktree) holds the shared state in one document, changes it under a lock in
  transactions, and talks to shells that attach, publish what they changed, pull what others
  changed, resolve conflicts and acknowledge; the git-backed repository behind commit,
  checkout and reset is an interface to it.

  \<^bold>\<open>Theories and sources.\<close>

  \<^item> Prelude: the error values and the result type of fallible functions, the checking loop
    of the validators, character classes, the last-occurrence idiom, association lists for
    Go maps. The collections result_simps, state_ok and tx_simps carry the later proofs.
  \<^item> LiveModel (core/model/worktree.go): identities, values, snapshots, changes, overlays,
    credentials, tokens, requests and results, with validators, equality, copies and
    normalization; live_map is the finite map a list of states denotes.
  \<^item> SlotTable: the array of slots with an index map that three functions of the code share;
    the locale keyed_update states what a step on it owes, and is interpreted for overlays
    (SnapshotDiff) and for changes (StateFacts). FinalOrder: the ordered list with a
    position index of the builder.
  \<^item> SnapshotDiff (core/worktree/diff.go): the semantic difference, overlays, the public
    diff, with the reference difference refDiff of two maps.
  \<^item> ProfileModel (core/model/profile.go, block.go, category.go, secretref.go): entries,
    management, representability, committed documents.
  \<^item> StateModel, StateFacts, ValidState (core/worktree/state.go): the state, every validator
    behind ValidateState, application of changes, replay, compaction, fingerprints.
    StateCodec: the document types and both conversions.
  \<^item> Registry, RegistryRun (core/worktree/registry.go): seeding from the committed source,
    attachment, admission; the locale admission_gate is its contract towards the service and
    is interpreted on Admit.
  \<^item> Transaction, TransactionFacts (core/worktree/atomic_unix.go): one locked cycle of read,
    callback, validation, replacement, and what it leaves on the disk. A callback is a
    computation on the in-memory parts and the state that may fail.
  \<^item> ShellService, ShellInv, ShellFacts, PublishFacts, PullFacts, ReceiptFacts
    (core/worktree/service.go): the five shell operations; the invariant wt_inv is kept; the
    locale recorded_operation is the receipt contract, interpreted on publish, prepare and
    attach; the merge of a publication and the convergence of pulls.
  \<^item> WorkflowService, WorkflowInv, WorkflowFacts (core/worktree/service.go): commit, branches,
    checkout, hard reset, defaults, materialization, status and diff over the record of
    functions that stands for the Repository interface.
  \<^item> Builder, BuilderFacts (core/model/manifest.go, core/activate/builder.go): manifests,
    live states of a profile, effective documents.
  \<^item> Activation, ActivationFacts (core/activate/diff.go, plan.go): the operations of a
    plan, live patches and the plan between two manifests.
  \<^item> Classifier (core/shell/zsh/classify.go) and ProfileIR (core/ir, the entry templates of
    core/shell/zsh/regen.go): from parsed blocks to a profile and back to text.
  \<^item> Base64 (the encoding of Go's library), Vault, VaultFacts (core/store/keychain.go):
    secret drivers as records of functions on a backend state, the vault file, the transport
    of the system keychains; the locale secret_backend is the contract of a driver and is
    interpreted on the vault. SecretStore, SecretFacts (core/store/secret.go, store.go):
    redaction of a profile and the ordered writes with their way back. CommittedDoc,
    CommittedFacts (core/store/dto.go): the committed document and its validation.
  \<^item> GoText, GitText, GitTextFacts (core/store/git.go): Go's string functions, reference names,
    object names, tree and reference listings, the identity of an author, the environment and
    the arguments of a git command. GitHost: one git command and the store's guards around
    it; the files, the processes and the pipes are a record git_host of functions on a state.
    RefSession: the process of a reference transaction, its commands and answers, prepare,
    commit and abort. GitStore (core/store/store.go): branches, exact revisions, publication
    against an expected base with the way back of its secrets, and storeRepository, the
    repository the worktree service is given. GitStoreFacts: the laws honest_git of an honest
    host (objects do not change, a listing is what was stored, a committed session has moved
    its reference) and what follows. StoreSamples: a host in memory that obeys them.
  \<^item> LiveEmit, EmitFacts (core/shell/zsh/emit.go, regen.go): the shell text of live states,
    patches and committed documents. PlanEmit, PlanFacts (emit.go): the text of an activation
    plan with its helpers and undo slots. ShellReader is a reference reader of shell quoting
    (not code of the program): it splits text into words and keeps which characters were
    quoted, and the emitted text is judged by how it reads.
  \<^item> Analysis, AnalysisFacts (core/analyze, model/issue.go, analysis.go): rollups, issues and
    exit code of the read-only analysis.
  \<^item> ServiceInv, ServiceRun: the invariant of a stored state and the step relation of the
    whole service over its disk. Samples, SampleRuns, PullSamples, RepoSamples: a concrete
    run (materialize, two shells, a lost publication, a pull, a resolution, a commit, a
    checkout, a reset) the witnesses are stated on. The theories named Properties and this
    one: the properties.

  \<^bold>\<open>What is shown.\<close> This theory: the invariant of the stored document along
  every run of the service. ShellProperties: publication as a three-way merge on finite maps
  with the two safety properties users rely on, retries, attachment, convergence of pulls and
  resolutions and its one obstacle, authorization. WorkflowProperties: atomicity and
  durability of a transaction, commit, checkout and reset. StateProperties: history,
  compaction, the document, framing. LiveProperties: limits, differences, overlays, seeding,
  attachment reports, the builder. ActivationProperties: live patches run forth and back, the
  second traversal computes the first difference, manifests of the builder are always planned.
  SecretProperties: a commit does not depend on withheld values, a prepared profile is final,
  writes to the vault are all or nothing on the names they touch, round trips of the vault and
  of the committed document. SourceProperties: ingest and live policy agree on secrets, what
  an emitted profile looks like. StoreProperties: what the store publishes it reads back, a
  publication keeps or restores the secrets it names, a reference session sends its commands
  in the order of the protocol, and which references, objects, arguments and variables reach
  git at all. EmitProperties: every planned patch is emitted, no value
  escapes its quotes, what the store accepts is regenerated. AnalysisProperties: the report
  lists every repeated or shadowed name and nothing else. Four properties state defects: excluded_blocks_acknowledgement,
  commit_forgets_overlay, late_bound_secret_blocks_commit, and the remark
  failed_write_loses_others.

  \<^bold>\<open>Conventions.\<close> A Go slice is a list, nil and empty being the same, except the
  list of a live value, whose nil-ness is tested; a pointer is an option; copying is a
  function on values, and no aliasing is modelled. A Go map is an association list without
  duplicate keys; where the code ranges over a map the result does not depend on the order,
  because the code sorts or because a lemma says so. 64-bit revisions and sizes are words
  and wrap; the size checks are shown to compute the true sums. Errors carry the sentinel or
  the format text of the code. An open Go string type has a constructor for every declared
  constant and one for any other string; that one never holds a declared constant. Names that
  are compared without case are upper-cased as ASCII, which they are once validated. The
  identity of a registry, a pointer in the code, is a number.

  \<^bold>\<open>Parameters.\<close> SHA-256 and JSON text are the fields of a record hashing;
  good_hash says that a digest has 32 bytes and is never all zero. A document is its value of
  the document types; that its text exceeds the size limit is a predicate too_large. The
  secret policy is a predicate. The outcomes of system calls in a transaction are the record
  io_run: any of them may fail, the replacement before or after its rename. The Repository is
  a record of functions on an abstract state; the git-backed store is one. Its host, the JSON
  decoder and the regeneration are parameters too.

  \<^bold>\<open>Bounds.\<close> There is no fuel: every loop of the modelled code is over a list
  and the recursion is structural; compactLoop drops one event in each round. The limits
  (128 events, 128 shells, 64 receipts of a shell, the snapshot limits) are those of the
  code.

  \<^bold>\<open>Not modelled.\<close> The zsh parser (a wrapper of a third-party package), the
  hooks sourced into zsh and what zsh does with emitted text, what git does with the commands of
  the store, the system keychain commands, the command line and rendering: their behaviour is
  that of external programs or of output text. The constructors of the store and the
  transactions of ingest and installation with their journals on the disk are left out too. Of the state store, opening and authenticating
  descriptors, locking and the forensic log are represented by their outcomes only. Guards
  for nil receivers are left out.
\<close>



end
